(* ===== verification/RB_Prelude.thy ===== *)
theory RB_Prelude
  imports Main "HOL-Library.Word" "HOL-Library.Char_ord" "HOL-Library.List_Lexorder"
begin

text \<open>
  Shared vocabulary of the development: machine integers and their byte encodings, Rust strings
  and their UTF-8 rules, \<open>Result\<close> chaining, the decimal rendering and path joins. Every component
  theory imports this one; ordered maps are in \<^verbatim>\<open>RB_Maps\<close> and prefix codes in \<^verbatim>\<open>RB_Codes\<close>.

  Conventions used everywhere:
  \<^item> a \<^verbatim>\<open>u8\<close>, \<^verbatim>\<open>u32\<close>, \<^verbatim>\<open>u64\<close> of the source is a word of that width;
  \<^item> a Rust \<^verbatim>\<open>String\<close> is the sequence of its UTF-8 bytes, an Isabelle string (a char is a byte);
    \<^verbatim>\<open>Vec<u8>\<close> is a list of 8-bit words, and the two functions \<open>as_bytes\<close> and \<open>of_bytes\<close> convert;
  \<^item> lengths (\<^verbatim>\<open>usize\<close>) are natural numbers; a cast of a length to a narrower integer is written
    out, so that a length that does not fit wraps as \<^verbatim>\<open>as u32\<close> does;
  \<^item> a \<^verbatim>\<open>Result<T, E>\<close> is a sum, the error on the left.
\<close>

unbundle bit_operations_syntax

named_theorems codec \<open>round trips of the integer and string encodings\<close>

type_synonym byte = "8 word"
type_synonym u32 = "32 word"
type_synonym u64 = "64 word"

section \<open>Result chaining\<close>

definition and_then :: "'e + 'a \<Rightarrow> ('a \<Rightarrow> 'e + 'b) \<Rightarrow> 'e + 'b" where
  "and_then r f = (case r of Inl e \<Rightarrow> Inl e | Inr x \<Rightarrow> f x)"

lemma and_then_simps [simp]:
  "and_then (Inl e) f = Inl e"
  "and_then (Inr x) f = f x"
  by (simp_all add: and_then_def)

lemma and_then_Inr_iff: "and_then r f = Inr y \<longleftrightarrow> (\<exists>x. r = Inr x \<and> f x = Inr y)"
  by (cases r) simp_all

lemma and_then_Inl_iff:
  "and_then r f = Inl e \<longleftrightarrow> r = Inl e \<or> (\<exists>x. r = Inr x \<and> f x = Inl e)"
  by (cases r) auto

fun is_ok :: "'e + 'a \<Rightarrow> bool" where
  "is_ok (Inl _) = False"
| "is_ok (Inr _) = True"

section \<open>Integers as bytes\<close>

fun le_bytes :: "nat \<Rightarrow> nat \<Rightarrow> byte list" where
  "le_bytes 0 x = []"
| "le_bytes (Suc n) x = word_of_nat x # le_bytes n (x div 256)"

fun of_le :: "byte list \<Rightarrow> nat" where
  "of_le [] = 0"
| "of_le (b # bs) = unat b + 256 * of_le bs"

lemma length_le_bytes [simp]: "length (le_bytes n x) = n"
  by (induction n arbitrary: x) simp_all

lemma unat_byte: "unat (word_of_nat x :: byte) = x mod 256"
  by (simp add: unat_of_nat)

lemma of_le_le_bytes [codec]: "of_le (le_bytes n x) = x mod 256 ^ n"
proof (induction n arbitrary: x)
  case 0
  then show ?case by simp
next
  case (Suc n)
  have "of_le (le_bytes (Suc n) x) = x mod 256 + 256 * (x div 256 mod 256 ^ n)"
    by (simp add: Suc unat_byte)
  also have "\<dots> = x mod (256 * 256 ^ n)"
    by (metis add.commute mod_mult2_eq)
  finally show ?case by simp
qed

lemma of_le_less: "of_le bs < 256 ^ length bs"
proof (induction bs)
  case Nil
  then show ?case by simp
next
  case (Cons b bs)
  have "unat b < 256" using unsigned_less [of b, where ?'a = nat] by simp
  with Cons show ?case by simp
qed

lemma le_bytes_of_le [codec]: "le_bytes (length bs) (of_le bs) = bs"
proof (induction bs)
  case Nil
  then show ?case by simp
next
  case (Cons b bs)
  have b: "unat b < 256" using unsigned_less [of b, where ?'a = nat] by simp
  have "(word_of_nat (unat b + 256 * of_le bs) :: byte) = b"
    using b by (simp only: word_unat_eq_iff unat_byte) simp
  with b Cons show ?case by simp
qed

lemma le_bytes_inj: "x < 256 ^ n \<Longrightarrow> y < 256 ^ n \<Longrightarrow> le_bytes n x = le_bytes n y \<Longrightarrow> x = y"
  by (metis mod_less of_le_le_bytes)

text \<open>\<^verbatim>\<open>to_le_bytes\<close> and \<^verbatim>\<open>to_be_bytes\<close> of the integer types, and their inverses.\<close>

definition u32_le :: "u32 \<Rightarrow> byte list" where "u32_le w = le_bytes 4 (unat w)"
definition u64_le :: "u64 \<Rightarrow> byte list" where "u64_le w = le_bytes 8 (unat w)"
definition u32_be :: "u32 \<Rightarrow> byte list" where "u32_be w = rev (le_bytes 4 (unat w))"
definition u32_of_le :: "byte list \<Rightarrow> u32" where "u32_of_le bs = word_of_nat (of_le bs)"
definition u64_of_le :: "byte list \<Rightarrow> u64" where "u64_of_le bs = word_of_nat (of_le bs)"
definition u32_of_be :: "byte list \<Rightarrow> u32" where "u32_of_be bs = word_of_nat (of_le (rev bs))"

lemma length_int_bytes [simp]:
  "length (u32_le w) = 4" "length (u64_le x) = 8" "length (u32_be w) = 4"
  by (simp_all add: u32_le_def u64_le_def u32_be_def)

lemma u32_be_round [simp, codec]: "u32_of_be (u32_be w) = w"
  using unsigned_less [of w, where ?'a = nat] by (simp add: u32_of_be_def u32_be_def of_le_le_bytes)

lemma u32_le_round [simp, codec]: "u32_of_le (u32_le w) = w"
  using unsigned_less [of w, where ?'a = nat] by (simp add: u32_of_le_def u32_le_def of_le_le_bytes)

lemma u64_le_round [simp, codec]: "u64_of_le (u64_le w) = w"
  using unsigned_less [of w, where ?'a = nat] by (simp add: u64_of_le_def u64_le_def of_le_le_bytes)

lemma int_bytes_inj [simp]:
  "u32_be v = u32_be w \<longleftrightarrow> v = w" "u32_le v = u32_le w \<longleftrightarrow> v = w" "u64_le a = u64_le b \<longleftrightarrow> a = b"
  by (metis u32_be_round, metis u32_le_round, metis u64_le_round)

lemma int_bytes_unfold:
  "u32_be w = [word_of_nat (unat w div 256 div 256 div 256), word_of_nat (unat w div 256 div 256),
     word_of_nat (unat w div 256), word_of_nat (unat w)]"
  "u32_le w = [word_of_nat (unat w), word_of_nat (unat w div 256),
     word_of_nat (unat w div 256 div 256), word_of_nat (unat w div 256 div 256 div 256)]"
proof -
  have four: "4 = Suc (Suc (Suc (Suc 0)))" by simp
  show "u32_be w = [word_of_nat (unat w div 256 div 256 div 256),
      word_of_nat (unat w div 256 div 256), word_of_nat (unat w div 256), word_of_nat (unat w)]"
    by (simp only: u32_be_def four le_bytes.simps rev.simps append.simps)
  show "u32_le w = [word_of_nat (unat w), word_of_nat (unat w div 256),
      word_of_nat (unat w div 256 div 256), word_of_nat (unat w div 256 div 256 div 256)]"
    by (simp only: u32_le_def four le_bytes.simps)
qed

text \<open>Saturating arithmetic of the standard library on \<^verbatim>\<open>u64\<close>.\<close>

definition sat_mul :: "u64 \<Rightarrow> u64 \<Rightarrow> u64" where
  "sat_mul a b = (if unat a * unat b < 2 ^ 64 then a * b else - 1)"

definition sat_add :: "u64 \<Rightarrow> u64 \<Rightarrow> u64" where
  "sat_add a b = (if unat a + unat b < 2 ^ 64 then a + b else - 1)"

lemma unat_max64: "unat (- 1 :: u64) = 2 ^ 64 - 1"
  by (simp add: unsigned_minus_1_eq_mask mask_eq_exp_minus_1)

lemma unat_sat_mul: "unat (sat_mul a b) = min (unat a * unat b) (2 ^ 64 - 1)"
  by (auto simp: sat_mul_def unat_word_ariths min_def unat_max64)

lemma unat_sat_add: "unat (sat_add a b) = min (unat a + unat b) (2 ^ 64 - 1)"
  by (auto simp: sat_add_def unat_word_ariths min_def unat_max64)

lemma sat_mul_mono: "a \<le> b \<Longrightarrow> sat_mul a c \<le> sat_mul b c"
  by (auto simp: word_le_nat_alt unat_sat_mul intro: min.coboundedI1 mult_le_mono1)

section \<open>Strings, bytes and UTF-8\<close>

definition as_bytes :: "string \<Rightarrow> byte list" where
  "as_bytes s = map (\<lambda>c. word_of_nat (of_char c)) s"

definition of_bytes :: "byte list \<Rightarrow> string" where
  "of_bytes bs = map (\<lambda>b. char_of (unat b)) bs"

lemma of_char_less_256: "(of_char c :: nat) < 256"
  using of_char_mod_256 [of c, where ?'a = nat] by (metis mod_less_divisor zero_less_numeral)

lemma of_bytes_as_bytes [simp, codec]: "of_bytes (as_bytes s) = s"
  by (simp add: of_bytes_def as_bytes_def o_def unat_byte of_char_less_256)

lemma as_bytes_of_bytes [simp, codec]: "as_bytes (of_bytes bs) = bs"
proof -
  have "(word_of_nat (of_char (char_of (unat b) :: char)) :: byte) = b" for b :: byte
  proof -
    have "unat b < 256" using unsigned_less [of b, where ?'a = nat] by simp
    then show ?thesis by (simp add: of_char_of)
  qed
  then show ?thesis by (simp add: of_bytes_def as_bytes_def o_def)
qed

lemma as_bytes_simps [simp]:
  "length (as_bytes s) = length s"
  "length (of_bytes bs) = length bs"
  "as_bytes (s @ t) = as_bytes s @ as_bytes t"
  "as_bytes [] = []"
  "of_bytes [] = []"
  "of_bytes (bs @ cs) = of_bytes bs @ of_bytes cs"
  by (simp_all add: as_bytes_def of_bytes_def)

lemma as_bytes_inj [simp]: "as_bytes s = as_bytes t \<longleftrightarrow> s = t"
  by (metis of_bytes_as_bytes)

text \<open>
  \<^verbatim>\<open>core::str\<close> reads UTF-8 one scalar at a time. \<open>utf8_next\<close> gives for a non-empty input whether
  the scalar at its front is well-formed and how many bytes it (or the maximal ill-formed prefix)
  takes; a missing byte counts as \<open>0\<close>, which is no continuation byte.
\<close>

definition cont_byte :: "nat \<Rightarrow> bool" where
  "cont_byte b \<longleftrightarrow> 128 \<le> b \<and> b < 192"

fun byte_at :: "byte list \<Rightarrow> nat \<Rightarrow> nat" where
  "byte_at [] _ = 0"
| "byte_at (b # bs) 0 = unat b"
| "byte_at (b # bs) (Suc n) = byte_at bs n"

definition utf8_second_ok :: "nat \<Rightarrow> nat \<Rightarrow> bool" where
  "utf8_second_ok b0 b1 =
     (if b0 = 224 then 160 \<le> b1 \<and> b1 < 192
      else if b0 = 237 then 128 \<le> b1 \<and> b1 < 160
      else if b0 = 240 then 144 \<le> b1 \<and> b1 < 192
      else if b0 = 244 then 128 \<le> b1 \<and> b1 < 144
      else cont_byte b1)"

definition utf8_next :: "byte list \<Rightarrow> bool \<times> nat" where
  "utf8_next bs =
     (let b0 = byte_at bs 0; b1 = byte_at bs 1; b2 = byte_at bs 2; b3 = byte_at bs 3 in
      if b0 < 128 then (True, 1)
      else if 194 \<le> b0 \<and> b0 < 224 then (if cont_byte b1 then (True, 2) else (False, 1))
      else if 224 \<le> b0 \<and> b0 < 240 then
        (if \<not> utf8_second_ok b0 b1 then (False, 1)
         else if cont_byte b2 then (True, 3) else (False, 2))
      else if 240 \<le> b0 \<and> b0 < 245 then
        (if \<not> utf8_second_ok b0 b1 then (False, 1)
         else if \<not> cont_byte b2 then (False, 2)
         else if cont_byte b3 then (True, 4) else (False, 3))
      else (False, 1))"

lemma utf8_next_pos: "0 < snd (utf8_next bs)"
  by (simp add: utf8_next_def Let_def)

function utf8_valid :: "byte list \<Rightarrow> bool" where
  "utf8_valid bs =
     (if bs = [] then True
      else fst (utf8_next bs) \<and> utf8_valid (drop (snd (utf8_next bs)) bs))"
  by pat_completeness auto
termination
  by (relation "measure length") (auto simp: utf8_next_pos diff_less)

text \<open>\<^verbatim>\<open>String::from_utf8_lossy\<close>: every maximal ill-formed prefix becomes U+FFFD.\<close>

function utf8_lossy :: "byte list \<Rightarrow> byte list" where
  "utf8_lossy bs =
     (if bs = [] then []
      else (if fst (utf8_next bs) then take (snd (utf8_next bs)) bs else [239, 191, 189])
           @ utf8_lossy (drop (snd (utf8_next bs)) bs))"
  by pat_completeness auto
termination
  by (relation "measure length") (auto simp: utf8_next_pos diff_less)

declare utf8_valid.simps [simp del] utf8_lossy.simps [simp del]

definition from_utf8 :: "byte list \<Rightarrow> string option" where
  "from_utf8 bs = (if utf8_valid bs then Some (of_bytes bs) else None)"

definition from_utf8_lossy :: "byte list \<Rightarrow> string" where
  "from_utf8_lossy bs = of_bytes (utf8_lossy bs)"

lemma utf8_lossy_valid: "utf8_valid bs \<Longrightarrow> utf8_lossy bs = bs"
proof (induction bs rule: utf8_valid.induct)
  case (1 bs)
  show ?case
  proof (cases "bs = []")
    case True
    then show ?thesis by (simp add: utf8_lossy.simps)
  next
    case False
    with "1.prems" have v: "fst (utf8_next bs)" "utf8_valid (drop (snd (utf8_next bs)) bs)"
      by (simp_all add: utf8_valid.simps [of bs])
    with False "1.IH" have "utf8_lossy (drop (snd (utf8_next bs)) bs) = drop (snd (utf8_next bs)) bs"
      by simp
    with False v show ?thesis by (simp add: utf8_lossy.simps [of bs])
  qed
qed

lemma from_utf8_lossy_valid [simp]: "utf8_valid (as_bytes s) \<Longrightarrow> from_utf8_lossy (as_bytes s) = s"
  by (simp add: from_utf8_lossy_def utf8_lossy_valid)

lemma from_utf8_Some: "from_utf8 bs = Some s \<longleftrightarrow> utf8_valid bs \<and> bs = as_bytes s"
  by (auto simp: from_utf8_def)

lemma utf8_valid_ascii: "(\<forall>b\<in>set bs. unat b < 128) \<Longrightarrow> utf8_valid bs"
proof (induction bs)
  case Nil
  then show ?case by (simp add: utf8_valid.simps)
next
  case (Cons b bs)
  then have "utf8_next (b # bs) = (True, 1)"
    by (simp add: utf8_next_def Let_def)
  with Cons show ?case by (simp add: utf8_valid.simps [of "b # bs"])
qed

text \<open>\<^verbatim>\<open>u64::to_string\<close> and friends: the decimal rendering.\<close>

fun decimal :: "nat \<Rightarrow> string" where
  "decimal n = (if n < 10 then [char_of (48 + n)] else decimal (n div 10) @ [char_of (48 + n mod 10)])"

declare decimal.simps [simp del]

lemma decimal_nonempty [simp]: "decimal n \<noteq> []"
  by (subst decimal.simps) simp

section \<open>Paths\<close>

definition is_absolute :: "string \<Rightarrow> bool" where
  "is_absolute p = (case p of [] \<Rightarrow> False | c # _ \<Rightarrow> c = CHR ''/'')"

text \<open>
  \<^verbatim>\<open>Path::join\<close>: an absolute argument replaces the base, otherwise one separator is put between
  the two unless the base is empty or already ends in one.
\<close>

definition path_join :: "string \<Rightarrow> string \<Rightarrow> string" where
  "path_join base p =
     (if is_absolute p then p
      else if base = [] \<or> last base = CHR ''/'' then base @ p
      else base @ ''/'' @ p)"

definition starts_with :: "string \<Rightarrow> string \<Rightarrow> bool" where
  "starts_with s p \<longleftrightarrow> take (length p) s = p"

definition strip_prefix :: "string \<Rightarrow> string \<Rightarrow> string option" where
  "strip_prefix s p = (if starts_with s p then Some (drop (length p) s) else None)"

lemma starts_with_append [simp]: "starts_with (p @ s) p"
  by (simp add: starts_with_def)

lemma strip_prefix_append [simp]: "strip_prefix (p @ s) p = Some s"
  by (simp add: strip_prefix_def)

lemma path_join_under:
  "\<not> is_absolute p \<Longrightarrow> base \<noteq> [] \<Longrightarrow> last base \<noteq> CHR ''/'' \<Longrightarrow> path_join base p = base @ ''/'' @ p"
  by (simp add: path_join_def)

lemma path_join_absolute: "is_absolute p \<Longrightarrow> path_join base p = p"
  by (simp add: path_join_def)

end
