(* ===== verification/RB_Maps.thy ===== *)
theory RB_Maps
  imports RB_Prelude
begin

text \<open>
  \<^verbatim>\<open>BTreeMap\<close> of the standard library as a list of pairs with strictly increasing keys, which is
  also its iteration order, and the interface its clients (the environment resolver, the tick
  parser, the settings) rely on. The clients' folds of inserts are proved once in the locale.
\<close>

type_synonym ('k, 'v) btree = "('k \<times> 'v) list"
type_synonym smap = "(string, string) btree"

fun bt_insert :: "'k::linorder \<Rightarrow> 'v \<Rightarrow> ('k, 'v) btree \<Rightarrow> ('k, 'v) btree" where
  "bt_insert k v [] = [(k, v)]"
| "bt_insert k v ((k', v') # m) =
     (if k < k' then (k, v) # (k', v') # m
      else if k = k' then (k, v) # m
      else (k', v') # bt_insert k v m)"

definition bt_get :: "('k, 'v) btree \<Rightarrow> 'k \<Rightarrow> 'v option" where
  "bt_get m k = map_of m k"

definition bt_remove :: "'k \<Rightarrow> ('k, 'v) btree \<Rightarrow> ('k, 'v) btree" where
  "bt_remove k m = filter (\<lambda>(k', _). k' \<noteq> k) m"

definition bt_retain :: "('k \<Rightarrow> bool) \<Rightarrow> ('k, 'v) btree \<Rightarrow> ('k, 'v) btree" where
  "bt_retain p m = filter (\<lambda>(k, _). p k) m"

text \<open>\<^verbatim>\<open>map.entry(k).or_insert(v)\<close>: an existing value stays.\<close>

definition bt_or_insert :: "'k::linorder \<Rightarrow> 'v \<Rightarrow> ('k, 'v) btree \<Rightarrow> ('k, 'v) btree" where
  "bt_or_insert k v m = (if bt_get m k = None then bt_insert k v m else m)"

definition bt_invar :: "('k::linorder, 'v) btree \<Rightarrow> bool" where
  "bt_invar m \<longleftrightarrow> sorted_wrt (<) (map fst m)"

section \<open>The interface\<close>

locale ordered_map =
  fixes empty :: "'m"
    and insert :: "'k \<Rightarrow> 'v \<Rightarrow> 'm \<Rightarrow> 'm"
    and get :: "'m \<Rightarrow> 'k \<Rightarrow> 'v option"
    and invar :: "'m \<Rightarrow> bool"
  assumes get_empty: "get empty k = None"
    and invar_empty: "invar empty"
    and get_insert: "invar m \<Longrightarrow> get (insert k v m) k' = (if k' = k then Some v else get m k')"
    and invar_insert: "invar m \<Longrightarrow> invar (insert k v m)"
begin

lemma invar_fold_insert: "invar m \<Longrightarrow> invar (fold (\<lambda>(k, v). insert k v) kvs m)"
  by (induction kvs arbitrary: m) (auto simp: invar_insert)

lemma get_fold_insert:
  "invar m \<Longrightarrow> get (fold (\<lambda>(k, v). insert k v) kvs m) k =
     (case map_of (rev kvs) k of Some v \<Rightarrow> Some v | None \<Rightarrow> get m k)"
proof (induction kvs arbitrary: m)
  case Nil
  then show ?case by simp
next
  case (Cons kv kvs)
  obtain k' v' where kv: "kv = (k', v')" by (cases kv)
  have inv: "invar (insert k' v' m)" using Cons.prems by (rule invar_insert)
  show ?case
    using Cons.IH [OF inv] Cons.prems
    by (simp add: kv get_insert map_add_def split: option.splits)
qed

lemma get_fold_insert_if:
  "invar m \<Longrightarrow> get (fold (\<lambda>(k, v) m. if P k then insert k v m else m) kvs m) k =
     (case map_of (rev (filter (\<lambda>(k, v). P k) kvs)) k of Some v \<Rightarrow> Some v | None \<Rightarrow> get m k)"
proof -
  have "fold (\<lambda>(k, v) m. if P k then insert k v m else m) kvs m =
        fold (\<lambda>(k, v). insert k v) (filter (\<lambda>(k, v). P k) kvs) m"
    by (induction kvs arbitrary: m) auto
  then show "invar m \<Longrightarrow> ?thesis" by (simp add: get_fold_insert)
qed

lemma invar_fold_insert_if:
  "invar m \<Longrightarrow> invar (fold (\<lambda>(k, v) m. if P k then insert k v m else m) kvs m)"
  by (induction kvs arbitrary: m) (auto simp: invar_insert)

end

section \<open>The implementation\<close>

lemma fst_set_bt_insert: "fst ` set (bt_insert k v m) = insert k (fst ` set m)"
  by (induction k v m rule: bt_insert.induct) auto

lemma bt_invar_Nil [simp]: "bt_invar []"
  by (simp add: bt_invar_def)

lemma bt_invar_insert [simp]: "bt_invar m \<Longrightarrow> bt_invar (bt_insert k v m)"
  unfolding bt_invar_def
proof (induction k v m rule: bt_insert.induct)
  case (1 k v)
  then show ?case by simp
next
  case (2 k v k' v' m)
  have keys: "x \<in> set (map fst (bt_insert k v m)) \<Longrightarrow> x = k \<or> x \<in> set (map fst m)" for x
    using fst_set_bt_insert [of k v m] by auto
  show ?case using 2 keys by force
qed

lemma map_of_bt_insert: "map_of (bt_insert k v m) k' = (if k' = k then Some v else map_of m k')"
  by (induction k v m rule: bt_insert.induct) auto

lemma bt_get_insert [simp]: "bt_get (bt_insert k v m) k' = (if k' = k then Some v else bt_get m k')"
  by (simp add: bt_get_def map_of_bt_insert)

lemma bt_get_Nil [simp]: "bt_get [] k = None"
  by (simp add: bt_get_def)

interpretation bt: ordered_map "[] :: ('k::linorder, 'v) btree" bt_insert bt_get bt_invar
  by unfold_locales simp_all

lemma bt_get_remove [simp]: "bt_get (bt_remove k m) k' = (if k' = k then None else bt_get m k')"
  by (induction m) (auto simp: bt_get_def bt_remove_def)

lemma bt_get_retain: "bt_get (bt_retain p m) k = (if p k then bt_get m k else None)"
  by (induction m) (auto simp: bt_get_def bt_retain_def)

lemma bt_get_or_insert [simp]:
  "bt_get (bt_or_insert k v m) k' =
     (if k' = k \<and> bt_get m k = None then Some v else bt_get m k')"
  by (auto simp: bt_or_insert_def)

lemma bt_invar_filter: "bt_invar m \<Longrightarrow> bt_invar (filter P m)"
  unfolding bt_invar_def by (induction m) auto

lemma bt_invar_remove [simp]: "bt_invar m \<Longrightarrow> bt_invar (bt_remove k m)"
  by (simp add: bt_remove_def bt_invar_filter)

lemma bt_invar_or_insert [simp]: "bt_invar m \<Longrightarrow> bt_invar (bt_or_insert k v m)"
  by (simp add: bt_or_insert_def)

lemma distinct_bt: "bt_invar m \<Longrightarrow> distinct (map fst m)"
  by (simp add: bt_invar_def strict_sorted_iff)

lemma bt_get_mem: "bt_get m k = Some v \<Longrightarrow> (k, v) \<in> set m"
  by (simp add: bt_get_def map_of_SomeD)

lemma bt_mem_get: "bt_invar m \<Longrightarrow> (k, v) \<in> set m \<Longrightarrow> bt_get m k = Some v"
  by (simp add: bt_get_def distinct_bt)

text \<open>Two maps with the same entries are the same list: iteration order is canonical.\<close>

lemma bt_ext:
  fixes m n :: "('k::linorder, 'v) btree"
  assumes "bt_invar m" "bt_invar n" "\<And>k. bt_get m k = bt_get n k"
  shows "m = n"
proof (rule map_sorted_distinct_set_unique [of fst])
  have "(k, v) \<in> set m \<longleftrightarrow> (k, v) \<in> set n" for k v
    using assms(3) [of k] bt_get_mem [of m k v] bt_get_mem [of n k v]
      bt_mem_get [OF assms(1), of k v] bt_mem_get [OF assms(2), of k v] by metis
  then show sets: "set m = set n" by (simp add: set_eq_iff split_paired_all)
  show "inj_on fst (set m \<union> set n)"
    using distinct_bt [OF assms(1)] by (simp add: sets [symmetric] distinct_map)
  show "sorted (map fst m)" "sorted (map fst n)" "distinct (map fst m)" "distinct (map fst n)"
    using assms by (simp_all add: bt_invar_def strict_sorted_iff)
qed

lemma bt_ascending_insert:
  "bt_invar (m @ [(k, v)]) \<Longrightarrow> bt_insert k v m = m @ [(k, v)]"
  by (induction k v m rule: bt_insert.induct) (auto simp: bt_invar_def sorted_wrt_append)

text \<open>Collecting a map from its own entries in order gives the map back.\<close>

lemma bt_collect_sorted:
  "bt_invar m \<Longrightarrow> fold (\<lambda>(k, v). bt_insert k v) m [] = m"
proof (induction m rule: rev_induct)
  case Nil
  then show ?case by simp
next
  case (snoc kv m)
  obtain k v where kv: "kv = (k, v)" by (cases kv)
  have "bt_invar m" using snoc.prems by (simp add: bt_invar_def sorted_wrt_append)
  with snoc kv show ?case by (simp add: bt_ascending_insert)
qed

end
