(* ===== verification/RB_Settings.thy ===== *)
theory RB_Settings
  imports RB_Maps
begin

text \<open>
  The wire data of the control channel (crate \<^verbatim>\<open>protocol\<close>): the frozen request settings, the commands
  the orchestrator sends, the responses the engine answers with, the protocol errors, and the
  structural validation of a settings object. Field names carry a short prefix per struct because
  record selectors share one name space. An \<^verbatim>\<open>f32\<close> or \<^verbatim>\<open>f64\<close> is kept as its bit pattern.
\<close>

type_synonym f32 = "32 word"
type_synonym f64 = "64 word"

section \<open>Errors\<close>

datatype protocol_error =
    FrameTooLarge nat nat                   \<comment> \<open>got, limit\<close>
  | UnsupportedSchema string string         \<comment> \<open>version, expected\<close>
  | Decode string
  | Encode string
  | InvalidRequestId string
  | InvariantViolation string

definition SCHEMA_VERSION :: string where "SCHEMA_VERSION = ''v1''"

definition MAX_FRAME_BYTES :: nat where "MAX_FRAME_BYTES = 16 * 1024 * 1024"

section \<open>Settings\<close>

datatype isolation = Sandbox | Microvm

record file_entry =
  fe_path :: string
  fe_content :: "byte list"
  fe_mode :: u32

definition default_file_mode :: u32 where "default_file_mode = 420"

datatype stdin_payload = Text string | Bytes "byte list"

datatype language = Python | Typescript | Go | Rust | Cpp

fun file_ext :: "language \<Rightarrow> string" where
  "file_ext Python = ''py''"
| "file_ext Typescript = ''ts''"
| "file_ext Go = ''go''"
| "file_ext Rust = ''rs''"
| "file_ext Cpp = ''cpp''"

fun is_compiled :: "language \<Rightarrow> bool" where
  "is_compiled Go = True"
| "is_compiled Rust = True"
| "is_compiled Cpp = True"
| "is_compiled _ = False"

fun default_entrypoint :: "language \<Rightarrow> string" where
  "default_entrypoint Python = ''main.py''"
| "default_entrypoint Typescript = ''index.ts''"
| "default_entrypoint Go = ''main.go''"
| "default_entrypoint Rust = ''main.rs''"
| "default_entrypoint Cpp = ''main.cpp''"

datatype mode = Exec | Session | RlStepMode | RlEpisode

datatype capability =
  Concurrency | Subprocess | LargeFs | PersistentSession | Gpu | Install | RawSockets

datatype output_action = Truncate | KillOnOverflow

record limits =
  l_wall_ms :: u64
  l_cpu_ms :: "u64 option"
  l_compile_ms :: u64
  l_memory_mb :: u64
  l_cpu_cores :: f32
  l_pids_max :: u32
  l_fd_max :: u32
  l_fsize_mb :: u64
  l_tmpfs_mb :: u64
  l_stack_mb :: u64
  l_output_bytes :: u64
  l_output_action :: output_action
  l_step_ms :: "u64 option"
  l_episode_ms :: "u64 option"

datatype lifecycle_policy = PolicyNone | OnOom | OnCrash | Always

record lifecycle_settings =
  lc_idle_ttl_s :: u64
  lc_max_lifetime_s :: u64
  lc_auto_destroy :: bool
  lc_keep_alive_on_error :: bool
  lc_restart_policy :: lifecycle_policy

datatype network_tier = TierNone | Loopback | EgressAllowlist | EgressOpen

datatype dns_mode = Proxied | DnsNone

record dns_settings =
  dns_mode :: dns_mode
  dns_cache_s :: u32

record network_settings =
  nw_tier :: network_tier
  nw_allowlist :: "string list option"
  nw_bandwidth_mbps :: "u32 option"
  nw_max_conns :: "u32 option"
  nw_block_metadata :: bool
  nw_dns :: dns_settings

datatype mount_mode = Ro | Rw

record extra_mount =
  em_source :: string
  em_target :: string
  em_mode :: mount_mode

record filesystem_settings =
  fs_writable_paths :: "string list"
  fs_mounts :: "extra_mount list"
  fs_preserve_on_exit :: bool

record determinism =
  dt_seed :: "u64 option"
  dt_deterministic_time :: bool
  dt_freeze_random :: bool
  dt_pin_runtime_hash :: "string option"

record gpu_settings =
  gpu_count :: u32
  gpu_model :: "string option"
  gpu_memory_mb :: "u32 option"
  gpu_mig :: "string option"

record output_settings =
  out_stream :: bool
  out_binary_safe :: bool
  out_merge_streams :: bool
  out_include_metrics :: bool

record webhook_settings =
  wh_url :: string
  wh_events :: "string list"
  wh_hmac_key :: "string option"

record observability_settings =
  ob_capture_metrics :: bool
  ob_trace_syscalls :: bool
  ob_webhook :: "webhook_settings option"

record cost_settings =
  cost_max_credits :: "u64 option"
  cost_alert_at :: "f32 option"

record settings =
  s_schema :: string
  s_request_id :: string
  s_labels :: smap
  s_language :: language
  s_runtime :: "string option"
  s_files :: "file_entry list"
  s_entrypoint :: string
  s_mode :: mode
  s_session_id :: "string option"
  s_limits :: limits
  s_lifecycle :: lifecycle_settings
  s_capabilities :: "capability list"
  s_network :: network_settings
  s_filesystem :: filesystem_settings
  s_env :: smap
  s_resolved_secrets :: smap
  s_stdin :: "stdin_payload option"
  s_determinism :: determinism
  s_gpu :: gpu_settings
  s_output :: output_settings
  s_observability :: observability_settings
  s_cost :: cost_settings
  s_isolation :: isolation

definition has_capability :: "settings \<Rightarrow> capability \<Rightarrow> bool" where
  "has_capability s cap \<longleftrightarrow> cap \<in> set (s_capabilities s)"

definition validate :: "settings \<Rightarrow> protocol_error + unit" where
  "validate s =
     (if s_schema s \<noteq> SCHEMA_VERSION then Inl (UnsupportedSchema (s_schema s) SCHEMA_VERSION)
      else if s_request_id s = [] then Inl (InvalidRequestId ''empty'')
      else if s_files s = [] then Inl (InvariantViolation ''files[] is empty'')
      else if l_memory_mb (s_limits s) = 0 then Inl (InvariantViolation ''memory_mb=0'')
      else if s_mode s = Session \<and> s_session_id s = None
        then Inl (InvariantViolation ''mode=session needs session_id'')
      else if nw_tier (s_network s) = TierNone \<and> Install \<in> set (s_capabilities s)
        then Inl (InvariantViolation ''+install requires network>=allowlist'')
      else Inr ())"

section \<open>Commands\<close>

record lsp_params =
  lsp_method :: string
  lsp_params :: "byte list"
  lsp_req_id :: u64

datatype command =
    Execute settings
  | ExecCell string string string "file_entry list" "string option" "u64 option"
      \<comment> \<open>id, session id, code, files, stdin, wall_ms\<close>
  | CmdRlStep string string "byte list"         \<comment> \<open>id, episode id, action\<close>
  | CmdRlSteps string string "byte list list"   \<comment> \<open>id, episode id, actions\<close>
  | RlSnapshot string string
  | RlPrespawn settings
  | RlClose string string
  | Stdin "byte list"
  | Interrupt string
  | Lsp lsp_params
  | Shutdown

section \<open>Responses\<close>

datatype result_status =
    Success | NonZeroExit | Timeout | OutputExceeded | OomKilled | SeccompKill
  | AppArmorDenied | CostExceeded | CompileError | EngineError

record exec_result =
  r_request_id :: string
  r_status :: result_status
  r_exit_code :: int
  r_exec_time_ms :: u64
  r_memory_peak_mb :: u64
  r_cpu_time_ms :: u64
  r_output_bytes :: u64
  r_output_truncated :: bool
  r_output :: string
  r_errors :: string

record rl_tick =
  t_request_id :: string
  t_observation :: "byte list"
  t_reward :: f64
  t_done :: bool
  t_terminated :: bool
  t_truncated :: bool
  t_info :: smap
  t_obs_meta :: "smap option"

record episode_metrics =
  m_steps :: u64
  m_reward_sum :: f64
  m_elapsed_ms :: u64

record cell_result =
  cr_request_id :: string
  cr_session_id :: string
  cr_status :: result_status
  cr_exec_time_ms :: u64
  cr_value_repr :: "string option"
  cr_traceback :: "string option"

record engine_death =
  ed_reason :: string
  ed_detail :: "string option"
  ed_exit_status :: "int option"
  ed_last_request_id :: "string option"
  ed_restart_safe :: bool

datatype response =
    Ready language string bool u32                 \<comment> \<open>language, runtime, env cached, pid\<close>
  | Compiling string bool                          \<comment> \<open>request id, cache hit\<close>
  | Compiled string bool u64                       \<comment> \<open>request id, cached, time\<close>
  | Result exec_result
  | RlStep string rl_tick                          \<comment> \<open>episode id; the remaining fields are those of a tick\<close>
  | RlSteps string string "rl_tick list" episode_metrics
  | CellResult cell_result
  | Metrics u64 f32 u64 u64 "u64 option"
  | LspResponse u64 "byte list" "string option"
  | EngineDied engine_death

definition rl_tick_empty :: "string \<Rightarrow> rl_tick" where
  "rl_tick_empty request_id =
     \<lparr>t_request_id = request_id, t_observation = [], t_reward = 0, t_done = True,
      t_terminated = False, t_truncated = False, t_info = [], t_obs_meta = None\<rparr>"

definition episode_metrics_default :: episode_metrics where
  "episode_metrics_default = \<lparr>m_steps = 0, m_reward_sum = 0, m_elapsed_ms = 0\<rparr>"

section \<open>Validation\<close>

text \<open>
  The engine accepts a settings object exactly when its schema is the one the engine speaks, it
  carries a request id, at least one file and a memory limit, a session request names its session,
  and package installation is not combined with a sandbox without network.
\<close>

theorem validate_accepts_iff:
  "validate s = Inr () \<longleftrightarrow>
     s_schema s = ''v1'' \<and> s_request_id s \<noteq> [] \<and> s_files s \<noteq> [] \<and>
     l_memory_mb (s_limits s) \<noteq> 0 \<and>
     \<not> (s_mode s = Session \<and> s_session_id s = None) \<and>
     \<not> (nw_tier (s_network s) = TierNone \<and> has_capability s Install)"
  by (auto simp: validate_def SCHEMA_VERSION_def has_capability_def)

lemma validate_ok_files: "validate s = Inr u \<Longrightarrow> s_files s \<noteq> []"
  by (auto simp: validate_def split: if_splits)

section \<open>A reference request\<close>

text \<open>The minimal request of the repository's own unit tests, used by the witnesses.\<close>

definition minimal_limits :: limits where
  "minimal_limits =
     \<lparr>l_wall_ms = 5000, l_cpu_ms = None, l_compile_ms = 30000, l_memory_mb = 512,
      l_cpu_cores = 1065353216, l_pids_max = 64, l_fd_max = 1024, l_fsize_mb = 100,
      l_tmpfs_mb = 100, l_stack_mb = 8, l_output_bytes = 1000000, l_output_action = Truncate,
      l_step_ms = None, l_episode_ms = None\<rparr>"

definition minimal_settings :: settings where
  "minimal_settings =
     \<lparr>s_schema = ''v1'', s_request_id = ''req_test'', s_labels = [], s_language = Python,
      s_runtime = Some ''python-base'',
      s_files = [\<lparr>fe_path = ''main.py'', fe_content = as_bytes ''print(1)'', fe_mode = 420\<rparr>],
      s_entrypoint = ''main.py'', s_mode = Exec, s_session_id = None, s_limits = minimal_limits,
      s_lifecycle = \<lparr>lc_idle_ttl_s = 0, lc_max_lifetime_s = 3600, lc_auto_destroy = True,
        lc_keep_alive_on_error = False, lc_restart_policy = PolicyNone\<rparr>,
      s_capabilities = [],
      s_network = \<lparr>nw_tier = TierNone, nw_allowlist = None, nw_bandwidth_mbps = None,
        nw_max_conns = None, nw_block_metadata = True,
        nw_dns = \<lparr>dns_mode = Proxied, dns_cache_s = 60\<rparr>\<rparr>,
      s_filesystem = \<lparr>fs_writable_paths = [], fs_mounts = [], fs_preserve_on_exit = False\<rparr>,
      s_env = [], s_resolved_secrets = [], s_stdin = None,
      s_determinism = \<lparr>dt_seed = None, dt_deterministic_time = False, dt_freeze_random = False,
        dt_pin_runtime_hash = None\<rparr>,
      s_gpu = \<lparr>gpu_count = 0, gpu_model = None, gpu_memory_mb = None, gpu_mig = None\<rparr>,
      s_output = \<lparr>out_stream = False, out_binary_safe = True, out_merge_streams = False,
        out_include_metrics = False\<rparr>,
      s_observability = \<lparr>ob_capture_metrics = False, ob_trace_syscalls = False,
        ob_webhook = None\<rparr>,
      s_cost = \<lparr>cost_max_credits = None, cost_alert_at = None\<rparr>, s_isolation = Sandbox\<rparr>"

lemma minimal_settings_valid: "validate minimal_settings = Inr ()"
  by (simp add: validate_def minimal_settings_def minimal_limits_def SCHEMA_VERSION_def)

end
