(* ===== verification/RB_Framing.thy ===== *)
theory RB_Framing
  imports RB_Settings "HOL-Library.Sublist"
begin

text \<open>
  Length-prefixed framing of the control channel (crate \<^verbatim>\<open>msgpack\<close>). The reader is the byte source
  with its scratch buffer, the writer the byte sink behind a mutex. The msgpack encoder and decoder
  are not part of the repository: they are arguments of the definitions. The locale states what
  any length-prefixed channel promises its clients; the worker pipe of the RL mode provides the
  same contract in its own theory. The last section models several tasks writing frames
  concurrently as a step relation.
\<close>

section \<open>The framing contract\<close>

fun read_n :: "(byte list \<Rightarrow> ('a \<times> byte list) option) \<Rightarrow> nat \<Rightarrow> byte list \<Rightarrow> ('a list \<times> byte list) option" where
  "read_n get 0 inp = Some ([], inp)"
| "read_n get (Suc n) inp =
     (case get inp of None \<Rightarrow> None
      | Some (p, rest) \<Rightarrow>
          (case read_n get n rest of None \<Rightarrow> None | Some (ps, rest') \<Rightarrow> Some (p # ps, rest')))"

locale framing =
  fixes put :: "byte list \<Rightarrow> byte list"
    and get :: "byte list \<Rightarrow> (byte list \<times> byte list) option"
    and ok :: "byte list \<Rightarrow> bool"
  assumes get_put: "ok p \<Longrightarrow> get (put p @ rest) = Some (p, rest)"
    and get_consumes: "get inp = Some (p, rest) \<Longrightarrow> \<exists>used. inp = used @ rest \<and> used \<noteq> []"
begin

lemma read_n_frames:
  "(\<forall>p\<in>set ps. ok p) \<Longrightarrow> read_n get (length ps) (concat (map put ps) @ rest) = Some (ps, rest)"
  by (induction ps) (simp_all add: get_put)

lemma put_unambiguous: "ok p \<Longrightarrow> ok q \<Longrightarrow> put p @ r = put q @ s \<Longrightarrow> p = q \<and> r = s"
  by (metis get_put option.inject prod.inject)

lemma get_shorter: "get inp = Some (p, rest) \<Longrightarrow> length rest < length inp"
  by (drule get_consumes) auto

end

section \<open>Reader\<close>

text \<open>
  \<^verbatim>\<open>read_exact\<close> on the source: the bytes asked for and the rest, or nothing when the peer closes
  first (whatever had arrived is consumed then).
\<close>

definition read_exact :: "nat \<Rightarrow> byte list \<Rightarrow> (byte list \<times> byte list) option" where
  "read_exact n inp = (if n \<le> length inp then Some (take n inp, drop n inp) else None)"

record frame_reader =
  fr_reader :: "byte list"
  fr_buf :: "byte list"

definition frame_reader_new :: "byte list \<Rightarrow> frame_reader" where
  "frame_reader_new reader = \<lparr>fr_reader = reader, fr_buf = []\<rparr>"

definition io_err :: "string \<Rightarrow> protocol_error" where
  "io_err e = Decode e"

definition frame_read ::
    "(byte list \<Rightarrow> string + 'a) \<Rightarrow> frame_reader \<Rightarrow> (protocol_error + 'a) \<times> frame_reader" where
  "frame_read from_slice r =
     (case read_exact 4 (fr_reader r) of
        None \<Rightarrow> (Inl (io_err ''early eof''), r\<lparr>fr_reader := []\<rparr>)
      | Some (len_buf, rest) \<Rightarrow>
          let len = unat (u32_of_be len_buf) in
          if len > MAX_FRAME_BYTES
          then (Inl (FrameTooLarge len MAX_FRAME_BYTES), r\<lparr>fr_reader := rest\<rparr>)
          else (case read_exact len rest of
                  None \<Rightarrow> (Inl (io_err ''early eof''),
                           r\<lparr>fr_reader := [], fr_buf := rest @ replicate (len - length rest) 0\<rparr>)
                | Some (payload, rest') \<Rightarrow>
                    ((case from_slice payload of Inl e \<Rightarrow> Inl (Decode e) | Inr v \<Rightarrow> Inr v),
                     r\<lparr>fr_reader := rest', fr_buf := payload\<rparr>)))"

section \<open>Writer\<close>

text \<open>
  The sink keeps what reached the pipe. \<open>fw_room\<close> is how many more bytes the peer accepts before
  the pipe breaks; \<open>None\<close> is a healthy pipe.
\<close>

record frame_writer =
  fw_out :: "byte list"
  fw_room :: "nat option"

definition write_all :: "byte list \<Rightarrow> frame_writer \<Rightarrow> (protocol_error + unit) \<times> frame_writer" where
  "write_all bs w =
     (case fw_room w of
        None \<Rightarrow> (Inr (), w\<lparr>fw_out := fw_out w @ bs\<rparr>)
      | Some k \<Rightarrow>
          if length bs \<le> k
          then (Inr (), w\<lparr>fw_out := fw_out w @ bs, fw_room := Some (k - length bs)\<rparr>)
          else (Inl (io_err ''broken pipe''), w\<lparr>fw_out := fw_out w @ take k bs, fw_room := Some 0\<rparr>))"

definition frame_bytes :: "byte list \<Rightarrow> byte list" where
  "frame_bytes payload = u32_be (word_of_nat (length payload)) @ payload"

definition frame_write ::
    "('a \<Rightarrow> string + byte list) \<Rightarrow> 'a \<Rightarrow> frame_writer \<Rightarrow> (protocol_error + unit) \<times> frame_writer" where
  "frame_write to_vec value w =
     (case to_vec value of
        Inl e \<Rightarrow> (Inl (Encode e), w)
      | Inr payload \<Rightarrow>
          if length payload > MAX_FRAME_BYTES
          then (Inl (FrameTooLarge (length payload) MAX_FRAME_BYTES), w)
          else write_all (frame_bytes payload) w)"

fun frame_write_all ::
    "('a \<Rightarrow> string + byte list) \<Rightarrow> 'a list \<Rightarrow> frame_writer \<Rightarrow> (protocol_error + unit) \<times> frame_writer" where
  "frame_write_all to_vec [] w = (Inr (), w)"
| "frame_write_all to_vec (v # vs) w =
     (case frame_write to_vec v w of
        (Inl e, w') \<Rightarrow> (Inl e, w')
      | (Inr _, w') \<Rightarrow> frame_write_all to_vec vs w')"

fun frame_read_n ::
    "(byte list \<Rightarrow> string + 'a) \<Rightarrow> nat \<Rightarrow> frame_reader \<Rightarrow> (protocol_error + 'a list) \<times> frame_reader" where
  "frame_read_n from_slice 0 r = (Inr [], r)"
| "frame_read_n from_slice (Suc n) r =
     (case frame_read from_slice r of
        (Inl e, r') \<Rightarrow> (Inl e, r')
      | (Inr v, r') \<Rightarrow>
          (case frame_read_n from_slice n r' of
             (Inl e, r'') \<Rightarrow> (Inl e, r'')
           | (Inr vs, r'') \<Rightarrow> (Inr (v # vs), r'')))"

section \<open>The contract holds\<close>

lemma read_exact_append [simp]: "length p = n \<Longrightarrow> read_exact n (p @ rest) = Some (p, rest)"
  by (simp add: read_exact_def)

lemma read_exact_SomeD: "read_exact n inp = Some (p, rest) \<Longrightarrow> inp = p @ rest \<and> length p = n"
  by (auto simp: read_exact_def split: if_splits)

definition frame_get :: "byte list \<Rightarrow> (byte list \<times> byte list) option" where
  "frame_get inp =
     (case frame_read Inr (frame_reader_new inp) of
        (Inl _, _) \<Rightarrow> None | (Inr p, r) \<Rightarrow> Some (p, fr_reader r))"

definition frame_ok :: "byte list \<Rightarrow> bool" where
  "frame_ok p \<longleftrightarrow> length p \<le> MAX_FRAME_BYTES"

lemma max_frame_lt: "n \<le> MAX_FRAME_BYTES \<Longrightarrow> n < 2 ^ 32"
  by (simp add: MAX_FRAME_BYTES_def)

lemma u32_len_round [simp]: "n < 2 ^ 32 \<Longrightarrow> unat (u32_of_be (u32_be (word_of_nat n))) = n"
  by (simp add: unat_of_nat)

lemma frame_read_frame:
  assumes "frame_ok p"
  shows "frame_read dec (r\<lparr>fr_reader := frame_bytes p @ rest\<rparr>) =
    ((case dec p of Inl e \<Rightarrow> Inl (Decode e) | Inr v \<Rightarrow> Inr v), r\<lparr>fr_reader := rest, fr_buf := p\<rparr>)"
  using assms max_frame_lt [of "length p"]
  by (simp add: frame_read_def frame_bytes_def frame_ok_def Let_def unat_of_nat)

interpretation ctl: framing frame_bytes frame_get frame_ok
proof
  fix p rest
  assume "frame_ok p"
  then show "frame_get (frame_bytes p @ rest) = Some (p, rest)"
    using frame_read_frame [where dec = Inr and r = "frame_reader_new []" and p = p and rest = rest]
    by (simp add: frame_get_def frame_reader_new_def)
next
  fix inp p rest
  assume "frame_get inp = Some (p, rest)"
  then obtain hd tl where 4: "read_exact 4 inp = Some (hd, tl)"
    and tl: "read_exact (unat (u32_of_be hd)) tl = Some (p, rest)"
    by (auto simp: frame_get_def frame_read_def frame_reader_new_def Let_def
        split: option.splits prod.splits if_splits)
  show "\<exists>used. inp = used @ rest \<and> used \<noteq> []"
    using read_exact_SomeD [OF 4] read_exact_SomeD [OF tl]
    by (intro exI [of _ "hd @ p"]) auto
qed

lemma frame_write_ok:
  assumes "frame_write enc v w = (Inr u, w')"
  obtains p where "enc v = Inr p" "frame_ok p" "fw_out w' = fw_out w @ frame_bytes p"
  using assms
  by (auto simp: frame_write_def write_all_def frame_ok_def split: sum.splits if_splits option.splits)

text \<open>
  C16. Whatever values a writer pushes successfully, a reader of the bytes gets the same values in the
  same order and its source is left exactly at the first byte after them, so a following frame is
  never over-read. The msgpack library is assumed to decode what it encoded.
\<close>

theorem frame_stream_round_trip:
  assumes codec: "\<forall>v p. enc v = Inr p \<longrightarrow> dec p = Inr v"
    and written: "frame_write_all enc vs w = (Inr (), w')"
    and src: "fr_reader r = drop (length (fw_out w)) (fw_out w') @ rest"
  shows "\<exists>r'. frame_read_n dec (length vs) r = (Inr vs, r') \<and> fr_reader r' = rest"
  using written src
proof (induction vs arbitrary: w r)
  case Nil
  then show ?case by simp
next
  case (Cons v vs)
  from Cons.prems(1) obtain w1 where w1: "frame_write enc v w = (Inr (), w1)"
    and more: "frame_write_all enc vs w1 = (Inr (), w')"
    by (auto split: prod.splits sum.splits)
  from w1 obtain p where p: "enc v = Inr p" "frame_ok p" "fw_out w1 = fw_out w @ frame_bytes p"
    by (rule frame_write_ok)
  have mono: "\<exists>t. fw_out w' = fw_out w1 @ t"
    using more
  proof (induction vs arbitrary: w1)
    case (Cons u us)
    then show ?case
      by (auto split: prod.splits sum.splits elim!: frame_write_ok) (metis append.assoc)
  qed simp
  then obtain t where t: "fw_out w' = fw_out w1 @ t" ..
  with Cons.prems(2) p(3) have r: "r = r\<lparr>fr_reader := frame_bytes p @ (t @ rest)\<rparr>" by simp
  have one: "frame_read dec r = (Inr v, r\<lparr>fr_reader := t @ rest, fr_buf := p\<rparr>)"
    using codec p by (subst r, subst frame_read_frame) simp_all
  from Cons.IH [OF more, of "r\<lparr>fr_reader := t @ rest, fr_buf := p\<rparr>"] t
  show ?case by (auto simp: one)
qed

text \<open>The codec used by the witnesses: strings as their bytes.\<close>

definition str_to_vec :: "string \<Rightarrow> string + byte list" where
  "str_to_vec s = Inr (as_bytes s)"

definition str_from_slice :: "byte list \<Rightarrow> string + string" where
  "str_from_slice bs = Inr (of_bytes bs)"

theorem frame_stream_round_trip_witness:
  "\<exists>r'. frame_read_n str_from_slice 2
      \<lparr>fr_reader = [0, 0, 0, 2, 104, 105, 0, 0, 0, 1, 33, 7], fr_buf = []\<rparr> =
      (Inr [''hi'', ''!''], r') \<and> fr_reader r' = [7]"
proof -
  have codec: "\<forall>v p. str_to_vec v = Inr p \<longrightarrow> str_from_slice p = Inr v"
    by (simp add: str_to_vec_def str_from_slice_def)
  have w: "frame_write_all str_to_vec [''hi'', ''!''] \<lparr>fw_out = [], fw_room = None\<rparr> =
      (Inr (), \<lparr>fw_out = [0, 0, 0, 2, 104, 105, 0, 0, 0, 1, 33], fw_room = None\<rparr>)"
    by (simp add: frame_write_def str_to_vec_def write_all_def frame_bytes_def as_bytes_def
        MAX_FRAME_BYTES_def int_bytes_unfold)
  show ?thesis
    using frame_stream_round_trip [OF codec w, of "\<lparr>fr_reader = [0, 0, 0, 2, 104, 105, 0, 0, 0, 1, 33, 7], fr_buf = []\<rparr>" "[7]"]
    by (simp add: numeral_2_eq_2)
qed

text \<open>
  A frame whose announced length exceeds the cap is refused by the reader after its four length
  bytes, before any payload byte is read, and a payload above the cap is refused by the writer
  before any byte reaches the pipe; in both cases the error carries the length and the limit.
\<close>

theorem oversized_frames_refused:
  "(MAX_FRAME_BYTES < unat len \<longrightarrow>
      frame_read dec (r\<lparr>fr_reader := u32_be len @ rest\<rparr>) =
        (Inl (FrameTooLarge (unat len) MAX_FRAME_BYTES), r\<lparr>fr_reader := rest\<rparr>)) \<and>
   (MAX_FRAME_BYTES < length p \<and> enc v = Inr p \<longrightarrow>
      frame_write enc v w = (Inl (FrameTooLarge (length p) MAX_FRAME_BYTES), w))"
  by (simp add: frame_read_def frame_write_def Let_def)

theorem oversized_frames_refused_witness:
  "frame_read str_from_slice (\<lparr>fr_reader = [], fr_buf = []\<rparr>\<lparr>fr_reader := u32_be 16777217 @ [1]\<rparr>) =
     (Inl (FrameTooLarge 16777217 MAX_FRAME_BYTES), \<lparr>fr_reader = [1], fr_buf = []\<rparr>)"
  using oversized_frames_refused [THEN conjunct1, rule_format, where len = 16777217
      and dec = str_from_slice and r = "\<lparr>fr_reader = [], fr_buf = []\<rparr>" and rest = "[1]"]
  by (simp add: MAX_FRAME_BYTES_def)

section \<open>Concurrent writers\<close>

text \<open>
  Any number of tasks call \<^verbatim>\<open>FrameWriter::write\<close>. A task builds its frame without the lock, waits for
  the mutex, pushes the frame in as many partial writes as the pipe takes, and releases the mutex
  after the flush. \<open>ws_done\<close> records the frames in the order their tasks released the lock.
\<close>

datatype wtask =
    TIdle
  | TWaiting "byte list"                \<comment> \<open>frame built, mutex not yet taken\<close>
  | TWriting "byte list" "byte list"    \<comment> \<open>holds the mutex: bytes written, bytes left\<close>

record wstate =
  ws_out :: "byte list"
  ws_lock :: "nat option"
  ws_task :: "nat \<Rightarrow> wtask"
  ws_done :: "byte list list"

definition ws_init :: wstate where
  "ws_init = \<lparr>ws_out = [], ws_lock = None, ws_task = (\<lambda>_. TIdle), ws_done = []\<rparr>"

inductive wstep :: "wstate \<Rightarrow> wstate \<Rightarrow> bool" where
  build: "ws_task s i = TIdle \<Longrightarrow> frame_ok p \<Longrightarrow>
    wstep s (s\<lparr>ws_task := (ws_task s)(i := TWaiting (frame_bytes p))\<rparr>)"
| lock: "ws_task s i = TWaiting f \<Longrightarrow> ws_lock s = None \<Longrightarrow>
    wstep s (s\<lparr>ws_task := (ws_task s)(i := TWriting [] f), ws_lock := Some i\<rparr>)"
| chunk: "ws_task s i = TWriting a b \<Longrightarrow> 0 < n \<Longrightarrow> n \<le> length b \<Longrightarrow>
    wstep s (s\<lparr>ws_task := (ws_task s)(i := TWriting (a @ take n b) (drop n b)),
               ws_out := ws_out s @ take n b\<rparr>)"
| unlock: "ws_task s i = TWriting f [] \<Longrightarrow>
    wstep s (s\<lparr>ws_task := (ws_task s)(i := TIdle), ws_lock := None, ws_done := ws_done s @ [f]\<rparr>)"

inductive wreach :: "wstate \<Rightarrow> bool" where
  start: "wreach ws_init"
| step: "wreach s \<Longrightarrow> wstep s t \<Longrightarrow> wreach t"

inductive_cases wstepE: "wstep s t"

definition is_frame :: "byte list \<Rightarrow> bool" where
  "is_frame f \<longleftrightarrow> (\<exists>p. frame_ok p \<and> f = frame_bytes p)"

fun task_ok :: "wtask \<Rightarrow> bool" where
  "task_ok TIdle = True"
| "task_ok (TWaiting f) = is_frame f"
| "task_ok (TWriting a b) = is_frame (a @ b)"

fun task_written :: "wtask \<Rightarrow> byte list" where
  "task_written (TWriting a b) = a"
| "task_written _ = []"

fun is_writing :: "wtask \<Rightarrow> bool" where
  "is_writing (TWriting a b) = True"
| "is_writing _ = False"

definition ws_inv :: "wstate \<Rightarrow> bool" where
  "ws_inv s \<longleftrightarrow>
     (\<forall>i. task_ok (ws_task s i)) \<and>
     (\<forall>i. is_writing (ws_task s i) = (ws_lock s = Some i)) \<and>
     (\<forall>f\<in>set (ws_done s). is_frame f) \<and>
     ws_out s = concat (ws_done s) @
       (case ws_lock s of None \<Rightarrow> [] | Some i \<Rightarrow> task_written (ws_task s i))"

lemma ws_inv_init: "ws_inv ws_init"
  by (simp add: ws_inv_def ws_init_def)

lemma wstep_inv:
  assumes "wstep s t" and "ws_inv s"
  shows "ws_inv t"
  using assms(1)
proof (cases rule: wstep.cases)
  case (build i p)
  have "ws_lock s \<noteq> Some i" using assms(2) build by (metis ws_inv_def is_writing.simps(2))
  with assms(2) build show ?thesis by (auto simp: ws_inv_def is_frame_def split: option.splits)
next
  case (lock i f)
  have "task_ok (TWaiting f)" using assms(2) lock by (metis ws_inv_def)
  with assms(2) lock show ?thesis by (simp add: ws_inv_def)
next
  case (chunk i a b n)
  have "task_ok (TWriting a b)" using assms(2) chunk by (metis ws_inv_def)
  moreover have "ws_lock s = Some i" using assms(2) chunk by (metis ws_inv_def is_writing.simps(1))
  ultimately show ?thesis using assms(2) chunk by (simp add: ws_inv_def)
next
  case (unlock i f)
  have "task_ok (TWriting f [])" using assms(2) unlock by (metis ws_inv_def)
  moreover have "ws_lock s = Some i" using assms(2) unlock by (metis ws_inv_def is_writing.simps(1))
  ultimately show ?thesis using assms(2) unlock by (auto simp: ws_inv_def)
qed

lemma wreach_inv: "wreach s \<Longrightarrow> ws_inv s"
  by (induction rule: wreach.induct) (auto intro: ws_inv_init wstep_inv)

lemma frames_of_done:
  "(\<forall>f\<in>set fs. is_frame f) \<Longrightarrow> \<exists>ps. (\<forall>p\<in>set ps. frame_ok p) \<and> fs = map frame_bytes ps"
proof (induction fs)
  case Nil
  then show ?case by simp
next
  case (Cons f fs)
  then obtain ps where "\<forall>p\<in>set ps. frame_ok p" "fs = map frame_bytes ps" by auto
  moreover from Cons.prems obtain p where "frame_ok p" "f = frame_bytes p"
    by (auto simp: is_frame_def)
  ultimately show ?case by (intro exI [of _ "p # ps"]) simp
qed

text \<open>
  However the tasks are scheduled and however the pipe splits their writes, the bytes on the
  control channel are whole frames followed by at most one unfinished frame: length prefix and
  payload of different responses are never interleaved. Whenever no task holds the lock, reading
  the channel gives back exactly the payloads written, in the order the tasks released the lock.
\<close>

theorem concurrent_frames_not_interleaved:
  assumes "wreach s"
  shows "\<exists>ps part. (\<forall>p\<in>set ps. frame_ok p) \<and> ws_out s = concat (map frame_bytes ps) @ part \<and>
     (part = [] \<or> (\<exists>p. frame_ok p \<and> prefix part (frame_bytes p))) \<and>
     (ws_lock s = None \<longrightarrow> read_n frame_get (length ps) (ws_out s) = Some (ps, []))"
proof -
  have inv: "ws_inv s" using assms by (rule wreach_inv)
  define part where "part = (case ws_lock s of None \<Rightarrow> [] | Some i \<Rightarrow> task_written (ws_task s i))"
  have out: "ws_out s = concat (ws_done s) @ part"
    using inv unfolding ws_inv_def part_def by blast
  obtain ps where ps: "\<forall>p\<in>set ps. frame_ok p" "ws_done s = map frame_bytes ps"
    using inv frames_of_done unfolding ws_inv_def by blast
  have part: "part = [] \<or> (\<exists>p. frame_ok p \<and> prefix part (frame_bytes p))"
  proof (cases "ws_lock s")
    case None
    then show ?thesis by (simp add: part_def)
  next
    case (Some i)
    then have "is_writing (ws_task s i)" using inv by (simp add: ws_inv_def)
    then obtain a b where ab: "ws_task s i = TWriting a b" by (rule is_writing.elims(2)) simp
    then have "task_ok (TWriting a b)" using inv by (metis ws_inv_def)
    then obtain p where "frame_ok p" "frame_bytes p = part @ b"
      using Some ab by (auto simp: part_def is_frame_def)
    then show ?thesis by (metis prefixI)
  qed
  have "ws_lock s = None \<Longrightarrow> read_n frame_get (length ps) (ws_out s) = Some (ps, [])"
    using ctl.read_n_frames [OF ps(1), of "[]"] out ps(2) by (simp add: part_def)
  with ps out part show ?thesis by (intro exI [of _ ps] exI [of _ part]) simp
qed

definition ws_demo :: wstate where
  "ws_demo = ws_init\<lparr>ws_task := (ws_task ws_init)(7 := TWaiting (frame_bytes [1, 2]))\<rparr>"

theorem concurrent_frames_not_interleaved_witness:
  "\<exists>ps part. (\<forall>p\<in>set ps. frame_ok p) \<and> ws_out ws_demo = concat (map frame_bytes ps) @ part \<and>
     (part = [] \<or> (\<exists>p. frame_ok p \<and> prefix part (frame_bytes p))) \<and>
     (ws_lock ws_demo = None \<longrightarrow>
        read_n frame_get (length ps) (ws_out ws_demo) = Some (ps, []))"
proof (rule concurrent_frames_not_interleaved)
  have "wstep ws_init ws_demo"
    unfolding ws_demo_def
    by (rule wstep.build) (simp_all add: ws_init_def frame_ok_def MAX_FRAME_BYTES_def)
  then show "wreach ws_demo" by (rule wreach.step [OF wreach.start])
qed

end
