(* ===== verification/RB_EnvCache.thy ===== *)
theory RB_EnvCache
  imports RB_Prelude
begin

text \<open>
  The T1 environment cache (\<^verbatim>\<open>cache/src/env_cache.rs\<close>): the key's hash input, the line-oriented
  snapshot format with its parser, and the in-process cache with its least-recently-used eviction.
  The hash function and the memfd backing are arguments. An abstract recency list specifies the
  cache; the locale states that contract and proves what clients get from it.
\<close>

section \<open>Keys\<close>

text \<open>The hasher state is the bytes fed so far; \<open>sha256\<close> is applied once at the end.\<close>

definition env_key_preimage :: "byte list \<Rightarrow> string \<Rightarrow> string \<Rightarrow> string \<Rightarrow> byte list" where
  "env_key_preimage flake_lock lang arch glibc_ver =
     flake_lock @ [0] @ as_bytes lang @ [0] @ as_bytes arch @ [0] @ as_bytes glibc_ver"

definition env_key_from_parts ::
    "(byte list \<Rightarrow> byte list) \<Rightarrow> byte list \<Rightarrow> string \<Rightarrow> string \<Rightarrow> string \<Rightarrow> byte list" where
  "env_key_from_parts sha256 flake_lock lang arch glibc_ver =
     sha256 (env_key_preimage flake_lock lang arch glibc_ver)"

section \<open>Snapshots\<close>

type_synonym env_vars = "(string \<times> string) list"

abbreviation NL :: byte where "NL \<equiv> 10"
abbreviation EQ :: byte where "EQ \<equiv> 61"

definition to_blob :: "env_vars \<Rightarrow> byte list" where
  "to_blob vars = concat (map (\<lambda>(k, v). as_bytes k @ [EQ] @ as_bytes v @ [NL]) vars)"

text \<open>\<^verbatim>\<open>slice::split\<close>: one piece more than there are separators.\<close>

fun split_on :: "byte \<Rightarrow> byte list \<Rightarrow> byte list list" where
  "split_on d [] = [[]]"
| "split_on d (b # bs) =
     (if b = d then [] # split_on d bs
      else (case split_on d bs of [] \<Rightarrow> [[b]] | p # ps \<Rightarrow> (b # p) # ps))"

fun position :: "byte \<Rightarrow> byte list \<Rightarrow> nat option" where
  "position d [] = None"
| "position d (b # bs) = (if b = d then Some 0 else map_option Suc (position d bs))"

definition parse_line :: "byte list \<Rightarrow> (string \<times> string) option" where
  "parse_line line =
     (case position EQ line of
        None \<Rightarrow> None
      | Some eq \<Rightarrow> Some (from_utf8_lossy (take eq line), from_utf8_lossy (drop (eq + 1) line)))"

definition snapshot_parse :: "byte list \<Rightarrow> env_vars" where
  "snapshot_parse blob = List.map_filter parse_line (filter (\<lambda>l. l \<noteq> []) (split_on NL blob))"

lemma split_on_append: "d \<notin> set p \<Longrightarrow> split_on d (p @ d # rest) = p # split_on d rest"
  by (induction p) auto

lemma position_append: "d \<notin> set p \<Longrightarrow> position d (p @ d # rest) = Some (length p)"
  by (induction p) auto

definition line_safe :: "string \<times> string \<Rightarrow> bool" where
  "line_safe kv \<longleftrightarrow>
     EQ \<notin> set (as_bytes (fst kv)) \<and> NL \<notin> set (as_bytes (fst kv)) \<and> NL \<notin> set (as_bytes (snd kv)) \<and>
     utf8_valid (as_bytes (fst kv)) \<and> utf8_valid (as_bytes (snd kv))"

lemma parse_line_safe:
  "line_safe (k, v) \<Longrightarrow> parse_line (as_bytes k @ EQ # as_bytes v) = Some (k, v)"
  by (simp add: parse_line_def line_safe_def position_append)

lemma snapshot_parse_step:
  assumes "line_safe (k, v)"
  shows "snapshot_parse (as_bytes k @ EQ # as_bytes v @ NL # rest) = (k, v) # snapshot_parse rest"
proof -
  have "NL \<notin> set (as_bytes k @ EQ # as_bytes v)" using assms by (simp add: line_safe_def)
  then have "split_on NL ((as_bytes k @ EQ # as_bytes v) @ NL # rest) =
      (as_bytes k @ EQ # as_bytes v) # split_on NL rest"
    by (rule split_on_append)
  with parse_line_safe [OF assms] show ?thesis
    by (simp add: snapshot_parse_def List.map_filter_simps)
qed

text \<open>
  Parsing the blob of a snapshot gives the snapshot back, in order, for every list of variables
  whose names contain neither an equals sign nor a newline and whose values contain no newline.
  (A Rust string is always valid UTF-8.)
\<close>

theorem snapshot_round_trip:
  assumes "\<forall>kv\<in>set vars. line_safe kv"
  shows "snapshot_parse (to_blob vars) = vars"
  using assms
proof (induction vars)
  case Nil
  then show ?case by (simp add: snapshot_parse_def to_blob_def List.map_filter_simps)
next
  case (Cons kv vars)
  obtain k v where kv: "kv = (k, v)" by (cases kv)
  have "to_blob (kv # vars) = as_bytes k @ EQ # as_bytes v @ NL # to_blob vars"
    by (simp add: to_blob_def kv)
  with Cons kv show ?case by (simp add: snapshot_parse_step)
qed

theorem snapshot_round_trip_witness:
  "snapshot_parse (to_blob [(''PATH'', ''/bin''), (''LANG'', ''C'')]) =
     [(''PATH'', ''/bin''), (''LANG'', ''C'')]"
proof (rule snapshot_round_trip)
  show "\<forall>kv\<in>set [(''PATH'', ''/bin''), (''LANG'', ''C'')]. line_safe kv"
    by (simp add: line_safe_def as_bytes_def utf8_valid_ascii)
qed

section \<open>The cache\<close>

record ('k, 'b) env_cache =
  ec_map :: "'k \<rightharpoonup> 'b"
  ec_lru :: "'k list"
  ec_capacity :: nat

definition ec_new :: "nat \<Rightarrow> ('k, 'b) env_cache" where
  "ec_new capacity = \<lparr>ec_map = Map.empty, ec_lru = [], ec_capacity = max capacity 1\<rparr>"

text \<open>\<^verbatim>\<open>EnvCache::default()\<close> derives a capacity of 0.\<close>

definition ec_default :: "('k, 'b) env_cache" where
  "ec_default = \<lparr>ec_map = Map.empty, ec_lru = [], ec_capacity = 0\<rparr>"

fun ec_evict :: "nat \<Rightarrow> 'k list \<Rightarrow> ('k \<rightharpoonup> 'b) \<Rightarrow> 'k list \<times> ('k \<rightharpoonup> 'b)" where
  "ec_evict cap [] m = ([], m)"
| "ec_evict cap (victim # lru) m =
     (if length (victim # lru) > cap then ec_evict cap lru (m(victim := None)) else (victim # lru, m))"

definition ec_touch :: "'k \<Rightarrow> ('k, 'b) env_cache \<Rightarrow> ('k, 'b) env_cache" where
  "ec_touch key c =
     (let (lru, m) = ec_evict (ec_capacity c) (remove1 key (ec_lru c) @ [key]) (ec_map c)
      in c\<lparr>ec_lru := lru, ec_map := m\<rparr>)"

definition ec_store :: "'k \<Rightarrow> 'b \<Rightarrow> ('k, 'b) env_cache \<Rightarrow> ('k, 'b) env_cache" where
  "ec_store key entry c = ec_touch key (c\<lparr>ec_map := (ec_map c)(key \<mapsto> entry)\<rparr>)"

definition ec_insert ::
    "(byte list \<Rightarrow> string + 'b) \<Rightarrow> 'k \<Rightarrow> byte list \<Rightarrow> ('k, 'b) env_cache \<Rightarrow>
     (string + 'b) \<times> ('k, 'b) env_cache" where
  "ec_insert backing key blob c =
     (case backing blob of
        Inl e \<Rightarrow> (Inl e, c)
      | Inr entry \<Rightarrow> (Inr entry, ec_store key entry c))"

definition ec_get :: "'k \<Rightarrow> ('k, 'b) env_cache \<Rightarrow> 'b option \<times> ('k, 'b) env_cache" where
  "ec_get key c =
     (case ec_map c key of
        None \<Rightarrow> (None, c)
      | Some b \<Rightarrow> (Some b, ec_touch key c))"

text \<open>\<^verbatim>\<open>ROCKBOX_ENV_CACHE_CAP\<close> if it is set and parses, else 16; the argument is the parsed value.\<close>

definition default_capacity :: "nat option \<Rightarrow> nat" where
  "default_capacity parsed = (case parsed of Some n \<Rightarrow> n | None \<Rightarrow> 16)"

section \<open>Invariant\<close>

definition ec_inv :: "('k, 'b) env_cache \<Rightarrow> bool" where
  "ec_inv c \<longleftrightarrow> distinct (ec_lru c) \<and> set (ec_lru c) = dom (ec_map c) \<and>
     length (ec_lru c) \<le> ec_capacity c \<and> 1 \<le> ec_capacity c"

lemma ec_evict_eq:
  "ec_evict cap lru m = (drop (length lru - cap) lru, m |` (- set (take (length lru - cap) lru)))"
proof (induction lru arbitrary: m)
  case Nil
  show ?case by (simp add: restrict_map_def)
next
  case (Cons victim lru)
  show ?case
  proof (cases "length (victim # lru) > cap")
    case True
    then have "length (victim # lru) - cap = Suc (length lru - cap)" by simp
    moreover have "(\<lambda>a. if a = victim then None else m a) |` (- A) = m |` (- insert victim A)" for A
      by (simp add: restrict_map_def fun_eq_iff)
    ultimately show ?thesis using True by (simp add: Cons.IH)
  next
    case False
    then show ?thesis by (simp add: restrict_map_def)
  qed
qed

lemma ec_inv_new: "ec_inv (ec_new n)"
  by (simp add: ec_inv_def ec_new_def)

lemma touch_keys:
  "distinct lru \<Longrightarrow> distinct (remove1 key lru @ [key]) \<and>
     set (remove1 key lru @ [key]) = insert key (set lru)"
  by (auto simp: distinct_remove1)

lemma ec_touch_inv:
  assumes "distinct (ec_lru c)" "insert key (set (ec_lru c)) = dom (ec_map c)" "1 \<le> ec_capacity c"
  shows "ec_inv (ec_touch key c)"
proof -
  define lru where "lru = remove1 key (ec_lru c) @ [key]"
  define n where "n = length lru - ec_capacity c"
  have lru: "distinct lru" "set lru = dom (ec_map c)"
    using touch_keys [OF assms(1), of key] assms(2) by (auto simp: lru_def)
  have t: "ec_touch key c = c\<lparr>ec_lru := drop n lru, ec_map := ec_map c |` (- set (take n lru))\<rparr>"
    by (simp add: ec_touch_def ec_evict_eq lru_def n_def)
  have "set (drop n lru) = set lru - set (take n lru)"
    using lru(1) by (metis append_take_drop_id set_append Diff_cancel Un_Diff
        Diff_triv inf_commute sup_bot.left_neutral set_take_disj_set_drop_if_distinct order_refl)
  then have "set (drop n lru) = dom (ec_map c |` (- set (take n lru)))"
    using lru(2) by auto
  moreover have "length (drop n lru) \<le> ec_capacity c" by (simp add: n_def)
  ultimately show ?thesis using lru(1) assms(3) by (simp add: ec_inv_def t)
qed

lemma ec_store_inv:
  assumes "ec_inv c"
  shows "ec_inv (ec_store key b c)"
  unfolding ec_store_def using assms by (intro ec_touch_inv) (auto simp: ec_inv_def)

lemma ec_insert_inv: "ec_inv c \<Longrightarrow> ec_inv (snd (ec_insert backing key blob c))"
  by (simp add: ec_insert_def ec_store_inv split: sum.split)

lemma ec_get_inv:
  assumes "ec_inv c"
  shows "ec_inv (snd (ec_get key c))"
proof (cases "ec_map c key")
  case None
  with assms show ?thesis by (simp add: ec_get_def)
next
  case (Some b)
  have "ec_inv (ec_touch key c)"
    using assms Some by (intro ec_touch_inv) (auto simp: ec_inv_def)
  with Some show ?thesis by (simp add: ec_get_def)
qed

section \<open>The contract: a bounded recency list\<close>

definition lastn :: "nat \<Rightarrow> 'a list \<Rightarrow> 'a list" where
  "lastn n xs = drop (length xs - n) xs"

text \<open>The specification state is the list of entries, least recently used first.\<close>

definition spec_use :: "nat \<Rightarrow> 'k \<Rightarrow> 'b \<Rightarrow> ('k \<times> 'b) list \<Rightarrow> ('k \<times> 'b) list" where
  "spec_use cap k v xs = lastn cap (filter (\<lambda>e. fst e \<noteq> k) xs @ [(k, v)])"

datatype ('k, 'v) cache_op = Put 'k 'v | Get 'k

primrec op_key :: "('k, 'v) cache_op \<Rightarrow> 'k" where
  "op_key (Put k v) = k"
| "op_key (Get k) = k"

lemma lastn_append_keep: "length ys \<le> n \<Longrightarrow> lastn n (xs @ ys) = lastn (n - length ys) xs @ ys"
  by (auto simp: lastn_def)

lemma lastn_mid:
  assumes "length post < n"
  shows "\<exists>pre'. lastn n (pre @ e # post) = pre' @ e # post"
  using lastn_append_keep [of "e # post" n pre] assms by auto

fun cache_run ::
    "('k \<Rightarrow> 'v \<Rightarrow> 's \<Rightarrow> 's) \<Rightarrow> ('k \<Rightarrow> 's \<Rightarrow> 'v option \<times> 's) \<Rightarrow> ('k, 'v) cache_op list \<Rightarrow> 's \<Rightarrow> 's" where
  "cache_run put get [] s = s"
| "cache_run put get (Put k v # ops) s = cache_run put get ops (put k v s)"
| "cache_run put get (Get k # ops) s = cache_run put get ops (snd (get k s))"

locale bounded_lru =
  fixes view :: "'s \<Rightarrow> ('k \<times> 'v) list"
    and inv :: "'s \<Rightarrow> bool"
    and cap :: "'s \<Rightarrow> nat"
    and put :: "'k \<Rightarrow> 'v \<Rightarrow> 's \<Rightarrow> 's"
    and get :: "'k \<Rightarrow> 's \<Rightarrow> 'v option \<times> 's"
  assumes cap_pos: "inv s \<Longrightarrow> 1 \<le> cap s"
    and view_distinct: "inv s \<Longrightarrow> distinct (map fst (view s))"
    and put_inv: "inv s \<Longrightarrow> inv (put k v s)"
    and get_inv: "inv s \<Longrightarrow> inv (snd (get k s))"
    and put_cap: "cap (put k v s) = cap s"
    and get_cap: "cap (snd (get k s)) = cap s"
    and put_view: "inv s \<Longrightarrow> view (put k v s) = spec_use (cap s) k v (view s)"
    and get_result: "inv s \<Longrightarrow> fst (get k s) = map_of (view s) k"
    and get_view: "inv s \<Longrightarrow> view (snd (get k s)) =
          (case map_of (view s) k of None \<Rightarrow> view s | Some v \<Rightarrow> spec_use (cap s) k v (view s))"
begin

text \<open>\<open>k\<close> is held with value \<open>v\<close> and everything used more recently belongs to \<open>T\<close>.\<close>

definition held :: "'k \<Rightarrow> 'v \<Rightarrow> 'k set \<Rightarrow> 's \<Rightarrow> bool" where
  "held k v T s \<longleftrightarrow> (\<exists>pre post. view s = pre @ (k, v) # post \<and> fst ` set post \<subseteq> T - {k})"

lemma heldI_last: "view s = pre @ [(k, v)] \<Longrightarrow> held k v T s"
  unfolding held_def by (intro exI [of _ pre] exI [of _ "[]"]) simp

lemma held_after_put:
  assumes "inv s"
  shows "held k v T (put k v s)"
proof -
  have "\<exists>pre. lastn (cap s) (filter (\<lambda>e. fst e \<noteq> k) (view s) @ [(k, v)]) = pre @ [(k, v)]"
    using lastn_mid [where post = "[]" and n = "cap s"] cap_pos [OF assms] by auto
  then show ?thesis
    using put_view [OF assms, of k v] by (auto simp: spec_use_def intro: heldI_last)
qed

lemma held_use_same:
  assumes "1 \<le> n"
  shows "\<exists>pre. spec_use n k v xs = pre @ [(k, v)]"
  using lastn_mid [where post = "[]" and n = n] assms by (auto simp: spec_use_def)

lemma held_use_other:
  assumes xs: "xs = pre @ (k, v) # post" "fst ` set post \<subseteq> T - {k}" "distinct (map fst xs)"
    and k': "k' \<in> T" "k' \<noteq> k" and T: "finite T" "card (insert k T) \<le> n"
  shows "\<exists>pre' post'. spec_use n k' v' xs = pre' @ (k, v) # post' \<and> fst ` set post' \<subseteq> T - {k}"
proof -
  define post' where "post' = filter (\<lambda>e. fst e \<noteq> k') post @ [(k', v')]"
  have sub: "fst ` set post' \<subseteq> T - {k}" using xs(2) k' by (auto simp: post'_def)
  have "distinct (map fst post')"
    using xs by (auto simp: post'_def distinct_map inj_on_def)
  then have "length post' = card (fst ` set post')"
    by (metis distinct_card length_map set_map)
  also have "\<dots> \<le> card (T - {k})" using sub T(1) by (intro card_mono) auto
  also have "\<dots> < n"
    using T by (metis Diff_insert_absorb card_Diff_insert card_insert_disjoint finite_Diff finite_insert
        insert_Diff_single insertI1 less_Suc_eq_le linorder_not_le not_less_eq order.trans DiffD2 card.insert_remove)
  finally have len: "length post' < n" .
  have "filter (\<lambda>e. fst e \<noteq> k') xs @ [(k', v')] = filter (\<lambda>e. fst e \<noteq> k') pre @ (k, v) # post'"
    using xs(1) k'(2) by (simp add: post'_def)
  with lastn_mid [OF len] sub show ?thesis unfolding spec_use_def by metis
qed

lemma held_map_of:
  assumes "inv s" "held k v T s"
  shows "map_of (view s) k = Some v"
  using assms(2) view_distinct [OF assms(1)] by (auto simp: held_def intro: map_of_is_SomeI)

lemma held_put:
  assumes "inv s" "held k v T s" "k' \<in> T" "k' \<noteq> k" "finite T" "card (insert k T) \<le> cap s"
  shows "held k v T (put k' v' s)"
proof -
  obtain pre post where "view s = pre @ (k, v) # post" "fst ` set post \<subseteq> T - {k}"
    using assms(2) by (auto simp: held_def)
  from held_use_other [OF this view_distinct [OF assms(1)] assms(3,4,5,6), of v'] put_view [OF assms(1)]
  show ?thesis by (simp add: held_def)
qed

lemma held_get:
  assumes "inv s" "held k v T s" "k' \<in> T" "finite T" "card (insert k T) \<le> cap s"
  shows "held k v T (snd (get k' s))"
proof (cases "k' = k")
  case True
  moreover obtain pre where "spec_use (cap s) k v (view s) = pre @ [(k, v)]"
    using held_use_same [OF cap_pos [OF assms(1)], of k v "view s"] by blast
  ultimately show ?thesis
    using assms(1) held_map_of [OF assms(1,2)] by (intro heldI_last [of _ pre]) (simp add: get_view)
next
  case False
  obtain pre post where v: "view s = pre @ (k, v) # post" "fst ` set post \<subseteq> T - {k}"
    using assms(2) by (auto simp: held_def)
  show ?thesis
  proof (cases "map_of (view s) k'")
    case None
    then have "view (snd (get k' s)) = view s" by (simp only: get_view [OF assms(1)] option.case)
    with assms(2) show ?thesis by (simp add: held_def)
  next
    case (Some v')
    with held_use_other [OF v view_distinct [OF assms(1)] assms(3) False assms(4,5), of v'] assms(1)
    show ?thesis by (simp add: held_def get_view)
  qed
qed

lemma run_inv: "inv s \<Longrightarrow> inv (cache_run put get ops s)"
proof (induction ops arbitrary: s)
  case (Cons opn ops)
  then show ?case by (cases opn) (auto simp: put_inv get_inv)
qed simp

lemma held_run:
  assumes "inv s" "held k v T s" "op_key ` set ops \<subseteq> T" "\<forall>v'. Put k v' \<notin> set ops"
    "finite T" "card (insert k T) \<le> cap s"
  shows "held k v T (cache_run put get ops s)"
  using assms
proof (induction ops arbitrary: s)
  case (Cons opn ops)
  show ?case
  proof (cases opn)
    case (Put k' v')
    with Cons.prems have "held k v T (put k' v' s)" by (intro held_put) auto
    with Put Cons.prems show ?thesis by (simp add: Cons.IH put_inv put_cap)
  next
    case (Get k')
    with Cons.prems have "held k v T (snd (get k' s))" by (intro held_get) auto
    with Get Cons.prems show ?thesis by (simp add: Cons.IH get_inv get_cap)
  qed
qed simp

text \<open>
  Working set: an entry is still there after any sequence of operations that uses, together with
  its own key, no more distinct keys than the capacity.
\<close>

lemma working_set:
  assumes "inv s" "\<forall>v'. Put k v' \<notin> set ops" "card (insert k (op_key ` set ops)) \<le> cap s"
  shows "fst (get k (cache_run put get ops (put k v s))) = Some v"
proof -
  have "held k v (op_key ` set ops) (cache_run put get ops (put k v s))"
    using assms by (intro held_run held_after_put) (auto simp: put_inv put_cap)
  then show ?thesis
    using assms(1) by (simp add: get_result run_inv put_inv held_map_of)
qed

end

section \<open>The cache meets the contract\<close>

definition ec_view :: "('k, 'b) env_cache \<Rightarrow> ('k \<times> 'b) list" where
  "ec_view c = map (\<lambda>k. (k, the (ec_map c k))) (ec_lru c)"

lemma the_map_upd:
  "map (\<lambda>k. (k, the ((m(key \<mapsto> b)) k))) (remove1 key lru @ [key]) =
     filter (\<lambda>e. fst e \<noteq> key) (map (\<lambda>k. (k, the (m k))) lru) @ [(key, b)]"
  if "distinct lru" for lru
proof -
  have "remove1 key lru = filter (\<lambda>k. k \<noteq> key) lru"
    using that by (simp add: distinct_remove1_removeAll removeAll_filter_not_eq eq_commute)
  then show ?thesis by (simp add: filter_map o_def)
qed

lemma map_restrict_drop:
  "distinct lru \<Longrightarrow> map (\<lambda>k. (k, the ((m |` (- set (take n lru))) k))) (drop n lru) =
     drop n (map (\<lambda>k. (k, the (m k))) lru)"
proof -
  assume "distinct lru"
  then have "set (take n lru) \<inter> set (drop n lru) = {}"
    by (simp add: set_take_disj_set_drop_if_distinct)
  then show ?thesis by (auto simp: drop_map restrict_map_def)
qed

lemma ec_view_store:
  assumes "distinct (ec_lru c)"
  shows "ec_view (ec_store key b c) = spec_use (ec_capacity c) key b (ec_view c)"
proof -
  define lru where "lru = remove1 key (ec_lru c) @ [key]"
  define m where "m = (ec_map c)(key \<mapsto> b)"
  define n where "n = length lru - ec_capacity c"
  have "ec_store key b c = c\<lparr>ec_lru := drop n lru, ec_map := m |` (- set (take n lru))\<rparr>"
    by (simp add: ec_store_def ec_touch_def ec_evict_eq lru_def m_def n_def)
  moreover have "distinct lru" unfolding lru_def using touch_keys [OF assms] by blast
  ultimately have "ec_view (ec_store key b c) = drop n (map (\<lambda>k. (k, the (m k))) lru)"
    using map_restrict_drop [of lru m n] by (simp add: ec_view_def)
  then show ?thesis
    unfolding lru_def m_def n_def the_map_upd [OF assms]
    by (simp add: spec_use_def lastn_def ec_view_def flip: the_map_upd [OF assms])
qed

lemma ec_get_hit: "ec_map c key = Some b \<Longrightarrow> snd (ec_get key c) = ec_store key b c"
  by (simp add: ec_get_def ec_store_def map_upd_triv)

lemma ec_get_miss: "ec_map c key = None \<Longrightarrow> snd (ec_get key c) = c"
  by (simp add: ec_get_def)

lemma map_of_ec_view:
  assumes "set (ec_lru c) = dom (ec_map c)"
  shows "map_of (ec_view c) k = ec_map c k"
proof -
  have "map_of (map (\<lambda>k. (k, the (ec_map c k))) lru) k = (if k \<in> set lru then Some (the (ec_map c k)) else None)"
    for lru by (induction lru) auto
  with assms show ?thesis by (auto simp: ec_view_def)
qed

lemma ec_capacity_store [simp]: "ec_capacity (ec_store k b c) = ec_capacity c"
  by (simp add: ec_store_def ec_touch_def split: prod.split)

interpretation ec: bounded_lru ec_view ec_inv ec_capacity ec_store ec_get
proof
  fix c :: "('k, 'b) env_cache" and k b
  assume inv: "ec_inv c"
  show "1 \<le> ec_capacity c" using inv by (simp add: ec_inv_def)
  show "distinct (map fst (ec_view c))" using inv by (simp add: ec_inv_def ec_view_def o_def)
  show "ec_inv (ec_store k b c)" using inv by (rule ec_store_inv)
  show "ec_inv (snd (ec_get k c))" using inv by (rule ec_get_inv)
  show "ec_view (ec_store k b c) = spec_use (ec_capacity c) k b (ec_view c)"
    using inv by (simp add: ec_inv_def ec_view_store)
  show "fst (ec_get k c) = map_of (ec_view c) k"
    using inv by (simp add: ec_inv_def map_of_ec_view ec_get_def split: option.split)
  show "ec_view (snd (ec_get k c)) = (case map_of (ec_view c) k of None \<Rightarrow> ec_view c
      | Some v \<Rightarrow> spec_use (ec_capacity c) k v (ec_view c))"
    using inv by (cases "ec_map c k")
      (simp_all add: ec_inv_def map_of_ec_view ec_get_miss ec_get_hit ec_view_store)
next
  fix c :: "('k, 'b) env_cache" and k b
  show "ec_capacity (ec_store k b c) = ec_capacity c" by simp
  show "ec_capacity (snd (ec_get k c)) = ec_capacity c"
    by (auto simp: ec_get_def ec_touch_def split: option.split prod.split)
qed

text \<open>
  C17. The environment cache refines a bounded recency list: on every state that satisfies the
  cache's invariant, an insertion whose backing allocation succeeds moves the key to the end of the
  list and drops the oldest entries beyond the capacity, a failed allocation changes nothing, a
  lookup returns the list's entry and counts as a use exactly when it hits; and both keep the
  invariant (the order list and the map hold the same keys, each once, at most \<open>capacity\<close> many).
\<close>

theorem env_cache_refines_recency_list:
  assumes "ec_inv c"
  shows "ec_view (snd (ec_insert backing key blob c)) =
           (case backing blob of Inl e \<Rightarrow> ec_view c
            | Inr b \<Rightarrow> spec_use (ec_capacity c) key b (ec_view c)) \<and>
         fst (ec_get key c) = map_of (ec_view c) key \<and>
         ec_view (snd (ec_get key c)) =
           (case map_of (ec_view c) key of None \<Rightarrow> ec_view c
            | Some b \<Rightarrow> spec_use (ec_capacity c) key b (ec_view c)) \<and>
         ec_inv (snd (ec_insert backing key blob c)) \<and> ec_inv (snd (ec_get key c))"
  using ec.put_view [OF assms] ec.get_result [OF assms] ec.get_view [OF assms]
    ec_insert_inv [OF assms] ec_get_inv [OF assms]
  by (auto simp: ec_insert_def split: sum.split)

definition two_entries :: "(nat, nat) env_cache" where
  "two_entries = \<lparr>ec_map = [1 \<mapsto> 10, 2 \<mapsto> 20], ec_lru = [1, 2], ec_capacity = 2\<rparr>"

theorem env_cache_refines_recency_list_witness:
  "ec_inv two_entries \<and>
   ec_view (snd (ec_insert (\<lambda>_. Inr 30) 3 [] two_entries)) = [(2, 20), (3, 30)]"
proof
  show inv: "ec_inv two_entries" by (auto simp: ec_inv_def two_entries_def)
  show "ec_view (snd (ec_insert (\<lambda>_. Inr 30) 3 [] two_entries)) = [(2, 20), (3, 30)]"
    using env_cache_refines_recency_list [OF inv, of "\<lambda>_. Inr 30" 3 "[]"]
    by (simp add: spec_use_def lastn_def ec_view_def two_entries_def)
qed

text \<open>
  Working set: a blob inserted into the cache is found again by \<^verbatim>\<open>get\<close> after any sequence of
  further insertions and lookups that touches, with its own key, at most \<open>capacity\<close> distinct
  keys and does not overwrite it.
\<close>

theorem env_cache_working_set:
  assumes "ec_inv c" and "backing blob = Inr b"
    and "\<forall>v. Put key v \<notin> set ops" and "card (insert key (op_key ` set ops)) \<le> ec_capacity c"
  shows "fst (ec_get key (cache_run ec_store ec_get ops (snd (ec_insert backing key blob c)))) = Some b"
  using ec.working_set [OF assms(1,3,4), of b] assms(2) by (simp add: ec_insert_def)

theorem env_cache_working_set_witness:
  "fst (ec_get 3 (cache_run ec_store ec_get [Get 2, Put 4 40, Put 4 41, Get 9]
      (snd (ec_insert (\<lambda>_. Inr 30) 3 [] (ec_new 4 :: (nat, nat) env_cache))))) = Some 30"
  by (rule env_cache_working_set) (simp_all add: ec_inv_def ec_new_def)

text \<open>
  The cache built by the derived \<^verbatim>\<open>Default\<close> has capacity 0, so every insertion evicts the entry
  it has just added: a lookup right after a successful insertion misses.
\<close>

theorem default_cache_keeps_nothing:
  "fst (ec_insert (\<lambda>b. Inr b) key blob ec_default) = Inr blob \<and>
   fst (ec_get key (snd (ec_insert (\<lambda>b. Inr b) key blob ec_default))) = None"
  by (simp add: ec_insert_def ec_store_def ec_touch_def ec_default_def ec_get_def)

end
