(* ===== verification/RB_Spec.thy ===== *)
theory RB_Spec
  imports RB_Settings
begin

text \<open>
  The platform-neutral specification the resolver hands to the launcher
  (\<^verbatim>\<open>kernel/src/spec.rs\<close>) and the error type of the sandbox layer (\<^verbatim>\<open>kernel/src/error.rs\<close>).
\<close>

definition PROTOCOL_FD :: int where "PROTOCOL_FD = 3"

datatype mount_kind =
    Tmpfs string u64 u32          \<comment> \<open>target, size in bytes, mode\<close>
  | BindRo string string          \<comment> \<open>source, target\<close>
  | BindRw string string          \<comment> \<open>source, target\<close>
  | Proc string                   \<comment> \<open>target\<close>
  | DevMin string string          \<comment> \<open>source, target\<close>

record resource_limits =
  rl_memory_bytes :: u64
  rl_cpu_quota_us :: u64
  rl_cpu_period_us :: u64
  rl_pids_max :: u32
  rl_nofile :: u32
  rl_fsize_bytes :: u64
  rl_address_space_bytes :: u64
  rl_stack_bytes :: u64
  rl_cpu_weight :: u32

record sandbox_layers =
  sl_trace_syscalls :: bool
  sl_enforce_w_xor_x :: bool

datatype seccomp_profile = InterpAot | InterpJit | NativeJit | GoProfile | RlStepProfile | RelaxedCompiler

fun profile_name :: "seccomp_profile \<Rightarrow> string" where
  "profile_name InterpAot = ''interp-aot''"
| "profile_name InterpJit = ''interp-jit''"
| "profile_name NativeJit = ''native-jit''"
| "profile_name GoProfile = ''go''"
| "profile_name RlStepProfile = ''rl-step''"
| "profile_name RelaxedCompiler = ''relaxed-compiler''"

fun for_language :: "language \<Rightarrow> seccomp_profile" where
  "for_language Python = InterpAot"
| "for_language Typescript = InterpJit"
| "for_language Go = GoProfile"
| "for_language Rust = NativeJit"
| "for_language Cpp = NativeJit"

record child_spec =
  c_request_id :: string
  c_language :: language
  c_mounts :: "mount_kind list"
  c_argv :: "string list"
  c_env :: "(string \<times> string) list"
  c_limits :: resource_limits
  c_seccomp_profile :: seccomp_profile
  c_layers :: sandbox_layers
  c_apparmor_profile :: string
  c_binary_fd_path :: "string option"
  c_wall_timeout_ms :: u64
  c_protocol_fd :: bool
  c_zygote :: bool

datatype sandbox_error =
    Clone string
  | UserNs string
  | Mount string string           \<comment> \<open>step, source\<close>
  | Seccomp string
  | AppArmor string
  | Cgroup string string          \<comment> \<open>operation, source\<close>
  | IoUring string
  | RLimit string string          \<comment> \<open>limit, source\<close>
  | CapDrop string
  | NetErr string
  | OutputCap u64 u64
  | TimeoutErr u64
  | ChildExit int
  | IoErr string
  | Unsupported
  | Internal string

text \<open>The destination of a mount inside the sandbox.\<close>

fun mount_target :: "mount_kind \<Rightarrow> string" where
  "mount_target (Tmpfs t _ _) = t"
| "mount_target (BindRo _ t) = t"
| "mount_target (BindRw _ t) = t"
| "mount_target (Proc t) = t"
| "mount_target (DevMin _ t) = t"

text \<open>The host path a mount exposes, if it exposes one.\<close>

fun mount_source :: "mount_kind \<Rightarrow> string option" where
  "mount_source (BindRo s _) = Some s"
| "mount_source (BindRw s _) = Some s"
| "mount_source (DevMin s _) = Some s"
| "mount_source _ = None"

fun is_bind_rw :: "mount_kind \<Rightarrow> bool" where
  "is_bind_rw (BindRw _ _) = True"
| "is_bind_rw _ = False"

lemma profile_name_inj [simp]: "profile_name p = profile_name q \<longleftrightarrow> p = q"
  by (cases p; cases q) simp_all

end
