(* ===== verification/RB_Syscalls.thy ===== *)
theory RB_Syscalls
  imports RB_Spec
begin

text \<open>
  The fork child only makes system calls, one after the other, and stops at the first one that fails
  in a way the code does not tolerate. The kernel is an argument: a function from the calls made so
  far and the next call to an error number (0 is success). The lemmas hold for any such straight-line
  routine; mount set-up and child set-up are its clients.
\<close>

datatype syscall =
    SMkdir string
  | SMknod string
  | SMount string string string u64 string     \<comment> \<open>source, target, type, flags, data; empty is NULL\<close>
  | SPivotRoot string string
  | SChdir string
  | SUmountDetach string
  | SRmdir string
  | SDup2 int int
  | SWriteAttrExec string
  | SWriteAttrCurrent string
  | SUnshare u64
  | SMakedirs string                            \<comment> \<open>Python's \<^verbatim>\<open>os.makedirs\<close>\<close>
  | SWriteFile string "byte list"               \<comment> \<open>Python's \<^verbatim>\<open>open(p, "wb").write\<close>\<close>
  | SChmod string u32
  | SNoNewPrivs
  | SMdwe
  | SSeccompLoad "byte list"
  | SCapBsetDrop nat
  | SCapAmbientClear
  | SCapsetEmpty
  | SSetrlimit string u64
  | SSetresgid
  | SSetresuid
  | SExecve string "string list" "string list"
  | SExit int

type_synonym kernel = "syscall list \<Rightarrow> syscall \<Rightarrow> nat"

definition EEXIST :: nat where "EEXIST = 17"

text \<open>A step: a call, the error numbers it tolerates and the error it reports otherwise.\<close>

datatype step =
    Do syscall "nat \<Rightarrow> bool" "nat \<Rightarrow> sandbox_error"
  | Fail sandbox_error

fun run_steps :: "kernel \<Rightarrow> step list \<Rightarrow> syscall list \<Rightarrow> sandbox_error option \<times> syscall list" where
  "run_steps k [] h = (None, h)"
| "run_steps k (Fail e # ss) h = (Some e, h)"
| "run_steps k (Do c tol err # ss) h =
     (let r = k h c in
      if r = 0 \<or> tol r then run_steps k ss (h @ [c]) else (Some (err r), h @ [c]))"

fun step_call :: "step \<Rightarrow> syscall option" where
  "step_call (Do c _ _) = Some c"
| "step_call (Fail _) = None"

definition calls :: "step list \<Rightarrow> syscall list" where
  "calls ss = List.map_filter step_call ss"

definition must :: "syscall \<Rightarrow> (nat \<Rightarrow> sandbox_error) \<Rightarrow> step" where
  "must c err = Do c (\<lambda>_. False) err"

definition ignore :: "syscall \<Rightarrow> step" where
  "ignore c = Do c (\<lambda>_. True) (\<lambda>_. Internal [])"

lemma calls_simps [simp]:
  "calls [] = []" "calls (Do c t err # ss) = c # calls ss" "calls (Fail e # ss) = calls ss"
  "calls (must c err # ss) = c # calls ss" "calls (ignore c # ss) = c # calls ss"
  "calls (xs @ ys) = calls xs @ calls ys"
  by (simp_all add: calls_def List.map_filter_def must_def ignore_def)

section \<open>Straight-line routines\<close>

lemma run_steps_append:
  "run_steps k (xs @ ys) h =
     (case run_steps k xs h of (Some e, h') \<Rightarrow> (Some e, h') | (None, h') \<Rightarrow> run_steps k ys h')"
  by (induction k xs h rule: run_steps.induct) (simp_all add: Let_def)

lemma run_steps_ok: "run_steps k ss h = (None, h') \<Longrightarrow> h' = h @ calls ss"
  by (induction k ss h rule: run_steps.induct) (auto simp: Let_def split: if_splits)

lemma run_steps_err:
  "run_steps k ss h = (Some e, h') \<Longrightarrow> \<exists>made rest. calls ss = made @ rest \<and> h' = h @ made"
proof (induction ss arbitrary: h)
  case Nil
  then show ?case by simp
next
  case (Cons st ss)
  show ?case
  proof (cases st)
    case (Do c tol err)
    show ?thesis
    proof (cases "k h c = 0 \<or> tol (k h c)")
      case True
      with Cons.prems Do have "run_steps k ss (h @ [c]) = (Some e, h')" by (auto simp: Let_def)
      from Cons.IH [OF this] obtain made rest where "calls ss = made @ rest" "h' = h @ c # made" by auto
      then have "calls (st # ss) = (c # made) @ rest \<and> h' = h @ (c # made)" by (simp add: Do)
      then show ?thesis by blast
    next
      case False
      with Cons.prems Do have "calls (st # ss) = [c] @ calls ss \<and> h' = h @ [c]" by (simp add: Let_def)
      then show ?thesis by blast
    qed
  next
    case (Fail e')
    with Cons.prems show ?thesis by auto
  qed
qed

text \<open>A mandatory step that was passed succeeded.\<close>

lemma run_steps_must:
  "run_steps k (xs @ must c err # ys) h = (None, h') \<Longrightarrow> k (h @ calls xs) c = 0"
  using run_steps_ok [of k xs h]
  by (auto simp: run_steps_append must_def Let_def split: prod.splits option.splits if_splits)

text \<open>With a kernel that never fails, a routine without a static failure makes all its calls.\<close>

fun is_do :: "step \<Rightarrow> bool" where
  "is_do (Do _ _ _) = True"
| "is_do (Fail _) = False"

lemma is_do_simps [simp]: "is_do (must c err)" "is_do (ignore c)"
  by (simp_all add: must_def ignore_def)

lemma run_steps_friendly: "list_all is_do ss \<Longrightarrow> run_steps (\<lambda>_ _. 0) ss h = (None, h @ calls ss)"
proof (induction ss arbitrary: h)
  case (Cons st ss)
  then show ?case by (cases st) simp_all
qed simp

end
