(* ===== verification/RB_Policy.thy ===== *)
theory RB_Policy
  imports RB_Spec Complex_Main
begin

text \<open>
  The resolver's per-request policies: the environment (\<^verbatim>\<open>engine/src/resolver/env.rs\<close>), the
  resource limits (\<^verbatim>\<open>limits.rs\<close>), the seccomp profile (\<^verbatim>\<open>seccomp.rs\<close>) and the AppArmor profile
  (\<^verbatim>\<open>apparmor.rs\<close>). The environment is a client of the ordered-map interface.
\<close>

section \<open>Environment\<close>

definition DENYLIST_PREFIXES :: "string list" where
  "DENYLIST_PREFIXES =
     [''LD_'', ''NODE_OPTIONS'', ''NODE_PATH'', ''PYTHONSTARTUP'', ''PYTHONPATH'', ''PYTHONHOME'',
      ''RUBYOPT'', ''RUBYLIB'', ''PERL5OPT'', ''PERL5LIB'', ''JAVA_TOOL_OPTIONS'', ''_JAVA_OPTIONS'',
      ''GIT_'', ''SSH_'', ''HISTFILE'', ''BASH_ENV'']"

definition DENYLIST_EXACT :: "string list" where
  "DENYLIST_EXACT = [''PATH'', ''HOME'', ''SHELL'', ''USER'', ''LOGNAME'']"

definition is_ascii_uppercase :: "char \<Rightarrow> bool" where
  "is_ascii_uppercase c \<longleftrightarrow> CHR ''A'' \<le> c \<and> c \<le> CHR ''Z''"

definition is_ascii_lowercase :: "char \<Rightarrow> bool" where
  "is_ascii_lowercase c \<longleftrightarrow> CHR ''a'' \<le> c \<and> c \<le> CHR ''z''"

definition is_ascii_digit :: "char \<Rightarrow> bool" where
  "is_ascii_digit c \<longleftrightarrow> CHR ''0'' \<le> c \<and> c \<le> CHR ''9''"

definition is_safe :: "string \<Rightarrow> bool" where
  "is_safe key =
     (if key \<in> set DENYLIST_EXACT then False
      else if list_ex (\<lambda>p. starts_with key p) DENYLIST_PREFIXES then False
      else (case key of [] \<Rightarrow> False
            | c # rest \<Rightarrow> is_ascii_uppercase c \<and>
                list_all (\<lambda>b. is_ascii_uppercase b \<or> is_ascii_digit b \<or> b = CHR ''_'') rest))"

definition seed_keys :: "string list" where
  "seed_keys = [''PYTHONHASHSEED'', ''RUST_LOG_SEED'', ''NODE_RANDOM_SEED'']"

definition env_resolve :: "settings \<Rightarrow> (string \<times> string) list \<Rightarrow> smap" where
  "env_resolve s runtime_env =
     (let out = fold (\<lambda>(k, v). bt_insert k v) runtime_env [];
          out = fold (\<lambda>(k, v) m. if is_safe k then bt_insert k v m else m) (s_env s) out;
          out = fold (\<lambda>(k, v). bt_insert k v) (s_resolved_secrets s) out
      in case dt_seed (s_determinism s) of
           None \<Rightarrow> out
         | Some seed \<Rightarrow>
             bt_insert ''NODE_RANDOM_SEED'' (decimal (unat seed))
               (bt_insert ''RUST_LOG_SEED'' (decimal (unat seed))
                 (bt_insert ''PYTHONHASHSEED'' (decimal (unat seed)) out)))"

text \<open>The maps of a settings object are ordered maps.\<close>

definition settings_wf :: "settings \<Rightarrow> bool" where
  "settings_wf s \<longleftrightarrow> bt_invar (s_labels s) \<and> bt_invar (s_env s) \<and> bt_invar (s_resolved_secrets s)"

section \<open>Limits\<close>

definition CPU_WEIGHT_INTERACTIVE :: u32 where "CPU_WEIGHT_INTERACTIVE = 400"
definition CPU_WEIGHT_BATCH :: u32 where "CPU_WEIGHT_BATCH = 100"
definition CPU_PERIOD_US :: u64 where "CPU_PERIOD_US = 100000"
definition MIB :: u64 where "MIB = 1024 * 1024"

text \<open>
  The sign, exponent and fraction of an IEEE-754 single. The product with the period is exact in
  double precision (24 bits times 12 significant bits), so the conversion is exact arithmetic.
\<close>

definition f32_negative :: "f32 \<Rightarrow> bool" where "f32_negative b \<longleftrightarrow> 2 ^ 31 \<le> unat b"
definition f32_exponent :: "f32 \<Rightarrow> nat" where "f32_exponent b = unat b div 2 ^ 23 mod 2 ^ 8"
definition f32_fraction :: "f32 \<Rightarrow> nat" where "f32_fraction b = unat b mod 2 ^ 23"

definition f32_scaled_floor :: "f32 \<Rightarrow> nat \<Rightarrow> nat" where
  "f32_scaled_floor b k =
     (let e = f32_exponent b; f = f32_fraction b in
      if e = 0 then f * k div 2 ^ 149
      else if 150 \<le> e then (2 ^ 23 + f) * k * 2 ^ (e - 150)
      else (2 ^ 23 + f) * k div 2 ^ (150 - e))"

text \<open>\<^verbatim>\<open>f64::max\<close> ignores a NaN; \<^verbatim>\<open>as u64\<close> truncates and saturates.\<close>

definition cpu_quota :: "f32 \<Rightarrow> u64" where
  "cpu_quota cores =
     (if f32_exponent cores = 255 then
        (if f32_fraction cores \<noteq> 0 \<or> f32_negative cores then 1000 else - 1)
      else if f32_negative cores then 1000
      else word_of_nat (min (max (f32_scaled_floor cores 100000) 1000) (2 ^ 64 - 1)))"

definition limits_resolve :: "settings \<Rightarrow> resource_limits" where
  "limits_resolve s =
     (let l = s_limits s;
          fsize_bytes = (if has_capability s LargeFs then sat_mul (max (l_fsize_mb l) 2048) MIB
                         else sat_mul (l_fsize_mb l) MIB);
          pids_max = (if has_capability s Subprocess then max (l_pids_max l) 500 else l_pids_max l);
          cpu_weight = (case s_mode s of Exec \<Rightarrow> CPU_WEIGHT_BATCH | _ \<Rightarrow> CPU_WEIGHT_INTERACTIVE)
      in \<lparr>rl_memory_bytes = sat_mul (l_memory_mb l) MIB,
          rl_cpu_quota_us = cpu_quota (l_cpu_cores l),
          rl_cpu_period_us = CPU_PERIOD_US,
          rl_pids_max = pids_max,
          rl_nofile = l_fd_max l,
          rl_fsize_bytes = fsize_bytes,
          rl_address_space_bytes = sat_mul (sat_add (l_memory_mb l) 128) MIB,
          rl_stack_bytes = sat_mul (l_stack_mb l) MIB,
          rl_cpu_weight = cpu_weight\<rparr>)"

section \<open>Seccomp and AppArmor profiles\<close>

definition seccomp_resolve :: "settings \<Rightarrow> seccomp_profile" where
  "seccomp_resolve s =
     (if s_mode s \<in> {RlStepMode, RlEpisode} then RlStepProfile else for_language (s_language s))"

definition apparmor_resolve :: "settings \<Rightarrow> string" where
  "apparmor_resolve s =
     (if s_mode s \<in> {RlStepMode, RlEpisode} \<or> has_capability s Gpu then ''sandbox-rl''
      else ''sandbox-executor'') @ ''//&'' @ s_request_id s"

section \<open>What the environment contains\<close>

lemma map_of_rev_bt: "bt_invar m \<Longrightarrow> map_of (rev m) = map_of m"
  by (rule map_of_inject_set [THEN iffD2]) (simp_all add: distinct_bt rev_map [symmetric])

lemma map_of_filter_key:
  "map_of (filter (\<lambda>(k, v). P k) m) k = (if P k then map_of m k else None)"
  by (induction m) auto

text \<open>The first candidate that is present.\<close>

fun first_some :: "'a option list \<Rightarrow> 'a option" where
  "first_some [] = None"
| "first_some (x # xs) = (case x of Some v \<Rightarrow> Some v | None \<Rightarrow> first_some xs)"

definition seed_value :: "settings \<Rightarrow> string \<Rightarrow> string option" where
  "seed_value s k =
     (case dt_seed (s_determinism s) of
        Some seed \<Rightarrow> if k \<in> set seed_keys then Some (decimal (unat seed)) else None
      | None \<Rightarrow> None)"

lemma env_facts:
  assumes "settings_wf s"
  shows "bt_invar (env_resolve s runtime_env) \<and>
     bt_get (env_resolve s runtime_env) k =
       first_some [seed_value s k, bt_get (s_resolved_secrets s) k,
         if is_safe k then bt_get (s_env s) k else None, map_of (rev runtime_env) k]"
proof -
  define base where "base = fold (\<lambda>(k, v). bt_insert k v) runtime_env []"
  define usr where "usr = fold (\<lambda>(k, v) m. if is_safe k then bt_insert k v m else m) (s_env s) base"
  define sec where "sec = fold (\<lambda>(k, v). bt_insert k v) (s_resolved_secrets s) usr"
  note inv = bt.invar_fold_insert [of "[]" runtime_env, folded base_def]
    bt.invar_fold_insert_if [of base is_safe "s_env s", folded usr_def]
    bt.invar_fold_insert [of usr "s_resolved_secrets s", folded sec_def]
  have i: "bt_invar base" "bt_invar usr" "bt_invar sec" using inv by simp_all
  have e: "bt_get usr k = first_some [if is_safe k then bt_get (s_env s) k else None, bt_get base k]"
    using bt.get_fold_insert_if [OF i(1), of is_safe "s_env s" k] assms
    by (simp add: usr_def [symmetric] settings_wf_def map_of_rev_bt bt_invar_filter map_of_filter_key
        bt_get_def split: option.splits)
  have c: "bt_get sec k = first_some [bt_get (s_resolved_secrets s) k, bt_get usr k]"
    using bt.get_fold_insert [OF i(2), of "s_resolved_secrets s" k] assms
    by (simp add: sec_def [symmetric] settings_wf_def map_of_rev_bt bt_get_def split: option.splits)
  have b: "bt_get base k = map_of (rev runtime_env) k"
    using bt.get_fold_insert [of "[]" runtime_env k] by (simp add: base_def split: option.splits)
  have "env_resolve s runtime_env = (case dt_seed (s_determinism s) of None \<Rightarrow> sec
     | Some seed \<Rightarrow> bt_insert ''NODE_RANDOM_SEED'' (decimal (unat seed))
         (bt_insert ''RUST_LOG_SEED'' (decimal (unat seed))
           (bt_insert ''PYTHONHASHSEED'' (decimal (unat seed)) sec)))"
    unfolding env_resolve_def base_def usr_def sec_def Let_def by (rule refl)
  with i(3) b c e show ?thesis
    by (auto simp: seed_value_def seed_keys_def split: option.splits)
qed



text \<open>
  No variable the user supplies can set a loader, interpreter, version-control or login variable:
  a name in the exact deny list or with a denied prefix, and any name that is not an upper-case
  identifier, has the value it would have if the user had supplied no environment at all.
\<close>

theorem denied_keys_ignore_user_env:
  assumes "settings_wf s"
    and "k \<in> set DENYLIST_EXACT \<or> (\<exists>p\<in>set DENYLIST_PREFIXES. starts_with k p) \<or>
         k = [] \<or> \<not> is_ascii_uppercase (hd k) \<or> CHR ''='' \<in> set k"
  shows "bt_get (env_resolve s runtime_env) k = bt_get (env_resolve (s\<lparr>s_env := []\<rparr>) runtime_env) k"
proof -
  have "\<not> is_safe k"
    using assms(2)
    by (auto simp: is_safe_def list_ex_iff list_all_iff is_ascii_uppercase_def is_ascii_digit_def
        less_eq_char_def split: list.splits if_splits intro!: bexI [of _ "CHR ''=''"])
  moreover have wf: "settings_wf (s\<lparr>s_env := []\<rparr>)" using assms(1) by (simp add: settings_wf_def)
  moreover have "seed_value (s\<lparr>s_env := []\<rparr>) k = seed_value s k" by (simp add: seed_value_def)
  ultimately show ?thesis
    using env_facts [OF assms(1), of runtime_env k] env_facts [OF wf, of runtime_env k]
    by (simp split: option.split)
qed

theorem denied_keys_ignore_user_env_witness:
  "bt_get (env_resolve (minimal_settings\<lparr>s_env := [(''PATH'', ''/evil'')]\<rparr>) [(''PATH'', ''/bin'')]) ''PATH'' =
   bt_get (env_resolve (minimal_settings\<lparr>s_env := [(''PATH'', ''/evil'')], s_env := []\<rparr>)
      [(''PATH'', ''/bin'')]) ''PATH''"
  by (rule denied_keys_ignore_user_env)
    (simp_all add: settings_wf_def minimal_settings_def bt_invar_def DENYLIST_EXACT_def)

text \<open>
  The module's documentation calls the deny list a final filter on every source; the code does
  not apply it to secrets: a resolved secret named \<^verbatim>\<open>LD_PRELOAD\<close> reaches the child's environment.
\<close>

theorem secrets_bypass_deny_list:
  "\<not> is_safe ''LD_PRELOAD'' \<and>
   bt_get (env_resolve (minimal_settings\<lparr>s_resolved_secrets := [(''LD_PRELOAD'', v)]\<rparr>) []) ''LD_PRELOAD'' =
     Some v"
proof
  show "\<not> is_safe ''LD_PRELOAD''"
    by (simp add: is_safe_def DENYLIST_PREFIXES_def DENYLIST_EXACT_def starts_with_def)
  have "settings_wf (minimal_settings\<lparr>s_resolved_secrets := [(''LD_PRELOAD'', v)]\<rparr>)"
    by (simp add: settings_wf_def minimal_settings_def bt_invar_def)
  from env_facts [OF this, of "[]" "''LD_PRELOAD''"]
  show "bt_get (env_resolve (minimal_settings\<lparr>s_resolved_secrets := [(''LD_PRELOAD'', v)]\<rparr>) [])
      ''LD_PRELOAD'' = Some v"
    by (simp add: seed_value_def minimal_settings_def bt_get_def)
qed

section \<open>What the limits guarantee\<close>

text \<open>A non-negative finite single counts multiples of the smallest one, \<open>2\<^sup>-\<^sup>1\<^sup>4\<^sup>9\<close>.\<close>

definition f32_units :: "f32 \<Rightarrow> nat" where
  "f32_units b =
     (if f32_exponent b = 0 then f32_fraction b
      else (2 ^ 23 + f32_fraction b) * 2 ^ (f32_exponent b - 1))"

definition f32_value :: "f32 \<Rightarrow> real" where
  "f32_value b = (if f32_negative b then - 1 else 1) * real (f32_units b) / 2 ^ 149"

definition f32_finite :: "f32 \<Rightarrow> bool" where
  "f32_finite b \<longleftrightarrow> f32_exponent b \<noteq> 255"

lemma pow_split_div: "m \<le> n \<Longrightarrow> (a::nat) * 2 ^ m div 2 ^ n = a div 2 ^ (n - m)"
  by (metis div_mult2_eq le_add_diff_inverse nonzero_mult_div_cancel_right power_add
      power_not_zero zero_neq_numeral mult.commute)

lemma f32_scaled_floor_units: "f32_scaled_floor b k = f32_units b * k div 2 ^ 149"
proof -
  let ?e = "f32_exponent b" and ?f = "f32_fraction b"
  consider "?e = 0" | "1 \<le> ?e" "?e < 150" | "150 \<le> ?e" by linarith
  then show ?thesis
  proof cases
    case 1
    then show ?thesis by (simp add: f32_scaled_floor_def f32_units_def)
  next
    case 2
    have "(2 ^ 23 + ?f) * k * 2 ^ (?e - 1) div 2 ^ 149 = (2 ^ 23 + ?f) * k div 2 ^ (149 - (?e - 1))"
      by (rule pow_split_div) (use 2 in simp)
    moreover have "149 - (?e - 1) = 150 - ?e" using 2 by simp
    ultimately show ?thesis using 2
      by (simp only: f32_scaled_floor_def f32_units_def Let_def mult.assoc mult.commute [of k])
        simp
  next
    case 3
    have "(2::nat) ^ (?e - 1) = 2 ^ (?e - 150) * 2 ^ 149"
      using 3 by (simp only: power_add [symmetric]) simp
    then have "f32_units b * k = (2 ^ 23 + ?f) * k * 2 ^ (?e - 150) * 2 ^ 149"
      using 3 by (simp only: f32_units_def) (simp add: mult_ac)
    then have "f32_units b * k div 2 ^ 149 = (2 ^ 23 + ?f) * k * 2 ^ (?e - 150)"
      by (metis nonzero_mult_div_cancel_right power_not_zero zero_neq_numeral)
    with 3 show ?thesis by (simp add: f32_scaled_floor_def)
  qed
qed

lemma f32_units_mono:
  assumes "a \<le> b" "\<not> f32_negative b"
  shows "f32_units a \<le> f32_units b"
proof -
  have b31: "unat b < 2 ^ 31" "unat a \<le> unat b" using assms by (simp_all add: f32_negative_def word_le_nat_alt)
  then have e: "f32_exponent a = unat a div 2 ^ 23" "f32_exponent b = unat b div 2 ^ 23"
    by (simp_all add: f32_exponent_def)
  have f: "f32_fraction x < 2 ^ 23" for x by (simp add: f32_fraction_def)
  have le: "f32_exponent a \<le> f32_exponent b" using b31 e div_le_mono by metis
  show ?thesis
  proof (cases "f32_exponent a = f32_exponent b")
    case True
    then have "f32_fraction a \<le> f32_fraction b"
      using b31 e unfolding f32_fraction_def
      by (metis add_le_cancel_left div_mult_mod_eq)
    with True show ?thesis by (simp add: f32_units_def)
  next
    case False
    with le have lt: "f32_exponent a < f32_exponent b" by simp
    have lo: "f32_units a < 2 ^ (23 + f32_exponent a)"
    proof (cases "f32_exponent a = 0")
      case True
      with f [of a] show ?thesis by (simp add: f32_units_def)
    next
      case False
      have "(2 ^ 23 + f32_fraction a) * 2 ^ (f32_exponent a - 1) < 2 ^ 24 * 2 ^ (f32_exponent a - 1)"
        using f [of a] by simp
      also have "\<dots> = 2 ^ (23 + f32_exponent a)"
        using False by (simp only: power_add [symmetric]) simp
      finally show ?thesis using False by (simp add: f32_units_def)
    qed
    have "2 ^ (23 + f32_exponent a) \<le> (2::nat) ^ (23 + (f32_exponent b - 1))"
      using lt by (intro power_increasing) auto
    also have "\<dots> \<le> (2 ^ 23 + f32_fraction b) * 2 ^ (f32_exponent b - 1)"
      unfolding power_add by (rule mult_le_mono1) simp
    also have "\<dots> = f32_units b" using lt by (simp add: f32_units_def)
    finally show ?thesis using lo by linarith
  qed
qed

lemma unat_cpu_quota:
  assumes "f32_finite b" "\<not> f32_negative b"
  shows "unat (cpu_quota b) = min (max (f32_units b * 100000 div 2 ^ 149) 1000) (2 ^ 64 - 1)"
  using assms by (simp add: cpu_quota_def f32_finite_def f32_scaled_floor_units unat_of_nat)

text \<open>
  The CPU quota is exact: for finite non-negative \<^verbatim>\<open>cpu_cores\<close> it is the product of the cores
  and the 100 ms period rounded down to a microsecond, raised to at least 1 ms and saturated at
  the largest 64-bit value; it never decreases when the cores increase.
\<close>

theorem cpu_quota_exact_and_monotone:
  assumes "f32_finite a" "f32_finite b" "\<not> f32_negative b" "a \<le> b"
  shows "int (unat (cpu_quota b)) = min (max \<lfloor>f32_value b * 100000\<rfloor> 1000) (2 ^ 64 - 1) \<and>
         cpu_quota a \<le> cpu_quota b"
proof
  have "\<lfloor>f32_value b * 100000\<rfloor> = \<lfloor>real (f32_units b * 100000) / real (2 ^ 149)\<rfloor>"
    using assms(3) by (simp add: f32_value_def)
  also have "\<dots> = int (f32_units b * 100000 div 2 ^ 149)"
    by (rule floor_divide_of_nat_eq)
  finally show "int (unat (cpu_quota b)) = min (max \<lfloor>f32_value b * 100000\<rfloor> 1000) (2 ^ 64 - 1)"
    unfolding unat_cpu_quota [OF assms(2,3)] by (simp add: of_nat_max of_nat_min zdiv_int)
  have na: "\<not> f32_negative a" using assms(3,4) by (simp add: f32_negative_def word_le_nat_alt)
  have "f32_units a * 100000 div 2 ^ 149 \<le> f32_units b * 100000 div 2 ^ 149"
    by (intro div_le_mono mult_le_mono1 f32_units_mono assms)
  then show "cpu_quota a \<le> cpu_quota b"
    unfolding word_le_nat_alt unat_cpu_quota [OF assms(1) na] unat_cpu_quota [OF assms(2,3)]
    by (intro min.mono max.mono) simp_all
qed

theorem cpu_quota_exact_and_monotone_witness:
  "int (unat (cpu_quota 0x40000000)) = min (max \<lfloor>f32_value 0x40000000 * 100000\<rfloor> 1000) (2 ^ 64 - 1) \<and>
   cpu_quota 0x3F800000 \<le> cpu_quota 0x40000000"
  by (rule cpu_quota_exact_and_monotone)
    (simp_all add: f32_finite_def f32_exponent_def f32_negative_def)

lemma sat_mul_le: "a \<le> b \<Longrightarrow> sat_mul a MIB \<le> sat_mul b MIB"
  by (rule sat_mul_mono)

lemma sat_add_ge: "a \<le> sat_add a b"
  using unsigned_less [of a, where ?'a = nat] by (simp add: word_le_nat_alt unat_sat_add)

lemma cpu_quota_ge: "1000 \<le> unat (cpu_quota c)"
  by (simp add: cpu_quota_def unat_of_nat unat_max64)

text \<open>
  The limits of a request, whatever the settings: memory, stack and file-size caps are the
  requested megabytes in bytes, saturating at the largest 64-bit value instead of wrapping to a
  small or absent limit; the address space is never below the memory cap; the CPU quota is at least
  one millisecond per period; the capabilities only raise the process and file-size caps; the CPU
  weight is a value the kernel accepts.
\<close>

theorem limits_never_wrap:
  fixes s :: settings
  defines "r \<equiv> limits_resolve s" and "l \<equiv> s_limits s"
  shows "unat (rl_memory_bytes r) = min (unat (l_memory_mb l) * 2 ^ 20) (2 ^ 64 - 1) \<and>
    unat (rl_stack_bytes r) = min (unat (l_stack_mb l) * 2 ^ 20) (2 ^ 64 - 1) \<and>
    min (unat (l_fsize_mb l) * 2 ^ 20) (2 ^ 64 - 1) \<le> unat (rl_fsize_bytes r) \<and>
    rl_memory_bytes r \<le> rl_address_space_bytes r \<and>
    1000 \<le> unat (rl_cpu_quota_us r) \<and>
    l_pids_max l \<le> rl_pids_max r \<and>
    (rl_pids_max r = l_pids_max l \<or> has_capability s Subprocess) \<and>
    1 \<le> unat (rl_cpu_weight r) \<and> unat (rl_cpu_weight r) \<le> 10000"
proof -
  have mib: "unat MIB = 2 ^ 20" by (simp add: MIB_def)
  have fs: "sat_mul (l_fsize_mb l) MIB \<le> rl_fsize_bytes r"
    by (auto simp: r_def l_def limits_resolve_def Let_def intro: sat_mul_le)
  have "rl_memory_bytes r \<le> rl_address_space_bytes r"
    by (auto simp: r_def limits_resolve_def Let_def intro: sat_mul_le sat_add_ge)
  moreover have "min (unat (l_fsize_mb l) * 2 ^ 20) (2 ^ 64 - 1) \<le> unat (rl_fsize_bytes r)"
    using fs unfolding word_le_nat_alt unat_sat_mul mib .
  moreover have "1 \<le> unat (rl_cpu_weight r)" "unat (rl_cpu_weight r) \<le> 10000"
    by (auto simp: r_def limits_resolve_def Let_def CPU_WEIGHT_BATCH_def CPU_WEIGHT_INTERACTIVE_def
        split: mode.split)
  moreover have "l_pids_max l \<le> rl_pids_max r"
      "rl_pids_max r = l_pids_max l \<or> has_capability s Subprocess"
    by (auto simp: r_def l_def limits_resolve_def Let_def)
  moreover have "1000 \<le> unat (rl_cpu_quota_us r)"
    using cpu_quota_ge by (simp add: r_def limits_resolve_def Let_def)
  ultimately show ?thesis
    by (simp add: r_def l_def limits_resolve_def Let_def unat_sat_mul mib)
qed

end
