(* ===== verification/RB_Mounts.thy ===== *)
theory RB_Mounts
  imports RB_Syscalls RB_Policy
begin

text \<open>
  Mount-namespace set-up (\<^verbatim>\<open>kernel/src/linux/mounts.rs\<close>): the parent builds a plan of C strings from
  the mount list, the child applies it with raw system calls. The reference semantics at the end
  reads a trace of calls as the mount table it leaves behind, and the plan is proved to implement
  the mount list: every entry at its target, with its source and access.
\<close>

section \<open>C strings and paths\<close>

definition has_nul :: "string \<Rightarrow> bool" where
  "has_nul s \<longleftrightarrow> CHR 0x00 \<in> set s"

definition cstring :: "string \<Rightarrow> string \<Rightarrow> sandbox_error + string" where
  "cstring s what = (if has_nul s then Inl (Mount what ''nul byte'') else Inr s)"

text \<open>
  \<^verbatim>\<open>Path::strip_prefix("/")\<close> of an absolute path: the rest without leading and trailing separators
  and \<^verbatim>\<open>.\<close> components.
\<close>

fun trim_left :: "string \<Rightarrow> string" where
  "trim_left [] = []"
| "trim_left (c # cs) =
     (if c = CHR ''/'' then trim_left cs
      else if c = CHR ''.'' \<and> cs = [] then []
      else if c = CHR ''.'' \<and> hd cs = CHR ''/'' then trim_left (tl cs)
      else c # cs)"

definition strip_root :: "string \<Rightarrow> string" where
  "strip_root p = (if is_absolute p then rev (trim_left (rev (trim_left p))) else p)"

definition NEW_ROOT :: string where "NEW_ROOT = ''/tmp/rockbox-newroot''"

definition join_root :: "string \<Rightarrow> string \<Rightarrow> string \<Rightarrow> sandbox_error + string" where
  "join_root new_root target what = cstring (path_join new_root (strip_root target)) what"

fun octal :: "nat \<Rightarrow> string" where
  "octal n = (if n < 8 then [char_of (48 + n)] else octal (n div 8) @ [char_of (48 + n mod 8)])"

declare octal.simps [simp del]

section \<open>Building the plan\<close>

datatype mount_step_kind = StepTmpfs | StepProc | StepBind bool

record mount_step =
  ms_kind :: mount_step_kind
  ms_target :: string
  ms_source :: string
  ms_fstype :: string
  ms_options :: string

record mount_plan =
  mp_new_root :: string
  mp_steps :: "mount_step list"

definition tmpfs_options :: "u64 \<Rightarrow> u32 \<Rightarrow> string" where
  "tmpfs_options sz m =
     ''size='' @ decimal (unat sz) @ '',mode='' @ octal (unat m) @ '',uid=0,gid=0''"

definition bind_step :: "string \<Rightarrow> string \<Rightarrow> string \<Rightarrow> bool \<Rightarrow> sandbox_error + mount_step" where
  "bind_step new_root src target ro =
     and_then (join_root new_root target ''bind target'') (\<lambda>t.
     and_then (cstring src ''bind src'') (\<lambda>s.
     Inr \<lparr>ms_kind = StepBind ro, ms_target = t, ms_source = s, ms_fstype = [], ms_options = []\<rparr>))"

fun build_step :: "string \<Rightarrow> mount_kind \<Rightarrow> sandbox_error + mount_step" where
  "build_step new_root (Tmpfs target sz m) =
     and_then (join_root new_root target ''tmpfs target'') (\<lambda>t.
     Inr \<lparr>ms_kind = StepTmpfs, ms_target = t, ms_source = ''rockbox-tmpfs'', ms_fstype = ''tmpfs'',
          ms_options = tmpfs_options sz m\<rparr>)"
| "build_step new_root (Proc target) =
     and_then (join_root new_root target ''proc target'') (\<lambda>t.
     Inr \<lparr>ms_kind = StepProc, ms_target = t, ms_source = ''proc'', ms_fstype = ''proc'',
          ms_options = ''hidepid=2''\<rparr>)"
| "build_step new_root (BindRo src target) = bind_step new_root src target True"
| "build_step new_root (BindRw src target) = bind_step new_root src target False"
| "build_step new_root (DevMin src target) = bind_step new_root src target True"

fun build_steps :: "string \<Rightarrow> mount_kind list \<Rightarrow> sandbox_error + mount_step list" where
  "build_steps new_root [] = Inr []"
| "build_steps new_root (m # ms) =
     and_then (build_step new_root m) (\<lambda>s. and_then (build_steps new_root ms) (\<lambda>ss. Inr (s # ss)))"

definition plan_build :: "mount_kind list \<Rightarrow> sandbox_error + mount_plan" where
  "plan_build mounts =
     and_then (cstring NEW_ROOT ''new_root'') (\<lambda>new_root.
     and_then (build_steps new_root mounts) (\<lambda>steps.
     Inr \<lparr>mp_new_root = new_root, mp_steps = steps\<rparr>))"

section \<open>Applying the plan\<close>

definition MS_RDONLY :: u64 where "MS_RDONLY = 1"
definition MS_NOSUID :: u64 where "MS_NOSUID = 2"
definition MS_NODEV :: u64 where "MS_NODEV = 4"
definition MS_REMOUNT :: u64 where "MS_REMOUNT = 32"
definition MS_BIND :: u64 where "MS_BIND = 4096"
definition MS_REC :: u64 where "MS_REC = 16384"

definition mount_err :: "string \<Rightarrow> nat \<Rightarrow> sandbox_error" where
  "mount_err what errno = Mount what (decimal errno)"

definition BUF_LEN :: nat where "BUF_LEN = 4096"

definition mkdir_step :: "string \<Rightarrow> string \<Rightarrow> step" where
  "mkdir_step what p = Do (SMkdir p) (\<lambda>e. e = EEXIST) (mount_err what)"

text \<open>The prefixes of a path that end before a separator, the first character excepted.\<close>

definition cut_points :: "string \<Rightarrow> nat list" where
  "cut_points p = filter (\<lambda>i. i \<noteq> 0 \<and> p ! i = CHR ''/'') [0..<length p]"

definition mkdir_all :: "string \<Rightarrow> string \<Rightarrow> step list" where
  "mkdir_all path what =
     (if length path \<ge> BUF_LEN then [Fail (Mount what ''ENAMETOOLONG'')]
      else map (\<lambda>i. mkdir_step what (take i path)) (cut_points path) @ [mkdir_step what path])"

text \<open>The last separator of a path.\<close>

definition last_sep :: "string \<Rightarrow> nat option" where
  "last_sep p = (case filter (\<lambda>i. p ! i = CHR ''/'') [0..<length p] of [] \<Rightarrow> None | is \<Rightarrow> Some (last is))"

definition mkdir_parent :: "string \<Rightarrow> step list" where
  "mkdir_parent path =
     (case last_sep path of
        Some i \<Rightarrow>
          if i = 0 then []
          else if i \<ge> BUF_LEN then [Fail (Mount ''bind parent mkdir'' ''ENAMETOOLONG'')]
          else mkdir_all (take i path) ''bind parent mkdir''
      | None \<Rightarrow> [])"

definition raw_mount :: "string \<Rightarrow> string \<Rightarrow> string \<Rightarrow> u64 \<Rightarrow> string \<Rightarrow> string \<Rightarrow> step" where
  "raw_mount source target fstype flags options what =
     must (SMount source target fstype flags options) (mount_err what)"

definition remount_ro :: "string \<Rightarrow> step" where
  "remount_ro target =
     raw_mount [] target [] (MS_REMOUNT OR MS_BIND OR MS_RDONLY OR MS_NOSUID) [] ''bind remount-ro''"

text \<open>\<open>is_dir\<close> is what \<^verbatim>\<open>stat\<close> says of a host path.\<close>

definition apply_step :: "(string \<Rightarrow> bool) \<Rightarrow> mount_step \<Rightarrow> step list" where
  "apply_step is_dir s =
     (case ms_kind s of
        StepTmpfs \<Rightarrow>
          mkdir_all (ms_target s) ''tmpfs mkdir'' @
          [raw_mount (ms_source s) (ms_target s) (ms_fstype s) (MS_NOSUID OR MS_NODEV) (ms_options s) ''tmpfs'']
      | StepProc \<Rightarrow>
          mkdir_all (ms_target s) ''proc mkdir'' @
          [raw_mount (ms_source s) (ms_target s) (ms_fstype s) (MS_NOSUID OR MS_NODEV OR MS_RDONLY)
             (ms_options s) ''proc'']
      | StepBind ro \<Rightarrow>
          (if is_dir (ms_source s) then mkdir_all (ms_target s) ''bind mkdir''
           else mkdir_parent (ms_target s) @
                [Do (SMknod (ms_target s)) (\<lambda>e. e = EEXIST) (mount_err ''bind touch'')]) @
          [raw_mount (ms_source s) (ms_target s) (ms_fstype s) (MS_BIND OR MS_REC) [] ''bind''] @
          (if ro then [remount_ro (ms_target s)] else []))"

definition OLD_ROOT :: string where "OLD_ROOT = ''/.old_root''"

definition pivot_steps :: "string \<Rightarrow> step list" where
  "pivot_steps new_root =
     (if length new_root + length OLD_ROOT + 1 > BUF_LEN
      then [Fail (Mount ''put_old too long'' ''ENAMETOOLONG'')]
      else mkdir_all (new_root @ OLD_ROOT) ''put_old mkdir'' @
           [must (SPivotRoot new_root (new_root @ OLD_ROOT)) (mount_err ''pivot_root''),
            must (SChdir ''/'') (mount_err ''chdir /''),
            must (SUmountDetach OLD_ROOT) (mount_err ''umount old_root''),
            must (SRmdir OLD_ROOT) (mount_err ''rmdir old_root''),
            raw_mount [] ''/'' [] (MS_REMOUNT OR MS_BIND OR MS_RDONLY) [] ''remount root ro''])"

definition plan_apply :: "(string \<Rightarrow> bool) \<Rightarrow> mount_plan \<Rightarrow> step list" where
  "plan_apply is_dir plan =
     mkdir_all (mp_new_root plan) ''new_root mkdir'' @
     [raw_mount ''rockbox-root'' (mp_new_root plan) ''tmpfs'' MS_NOSUID ''mode=755,uid=0,gid=0'' ''tmpfs root''] @
     concat (map (apply_step is_dir) (mp_steps plan)) @
     pivot_steps (mp_new_root plan)"

section \<open>Reading a trace as a mount table\<close>

record mount_entry =
  me_source :: string
  me_target :: string
  me_fstype :: string
  me_read_only :: bool
  me_options :: string

text \<open>
  A plain mount adds an entry, a bind adds a writable one, a read-only remount changes the newest
  entry at its target; pivoting moves the new root to \<^verbatim>\<open>/\<close>.
\<close>

fun set_ro :: "string \<Rightarrow> mount_entry list \<Rightarrow> mount_entry list" where
  "set_ro t [] = []"
| "set_ro t (e # es) = (if me_target e = t then e\<lparr>me_read_only := True\<rparr> # es else e # set_ro t es)"

definition rebase :: "string \<Rightarrow> string \<Rightarrow> string" where
  "rebase rt t = (let r = drop (length rt) t in if r = [] then ''/'' else r)"

fun mount_effect :: "syscall \<Rightarrow> mount_entry list \<Rightarrow> mount_entry list" where
  "mount_effect (SMount src t ty flags opts) tab =
     (if flags AND MS_REMOUNT \<noteq> 0 then (if flags AND MS_RDONLY \<noteq> 0 then set_ro t tab else tab)
      else \<lparr>me_source = src, me_target = t, me_fstype = ty, me_read_only = (flags AND MS_RDONLY \<noteq> 0),
            me_options = opts\<rparr> # tab)"
| "mount_effect (SPivotRoot new_root _) tab =
     map (\<lambda>e. e\<lparr>me_target := rebase new_root (me_target e)\<rparr>)
       (filter (\<lambda>e. starts_with (me_target e) new_root) tab)"
| "mount_effect _ tab = tab"

definition mount_table :: "syscall list \<Rightarrow> mount_entry list" where
  "mount_table tr = fold mount_effect tr []"

text \<open>The entry a mount of the specification stands for.\<close>

fun spec_entry :: "mount_kind \<Rightarrow> mount_entry" where
  "spec_entry (Tmpfs t sz m) = \<lparr>me_source = ''rockbox-tmpfs'', me_target = path_join ''/'' (strip_root t),
     me_fstype = ''tmpfs'', me_read_only = False, me_options = tmpfs_options sz m\<rparr>"
| "spec_entry (Proc t) = \<lparr>me_source = ''proc'', me_target = path_join ''/'' (strip_root t),
     me_fstype = ''proc'', me_read_only = True, me_options = ''hidepid=2''\<rparr>"
| "spec_entry (BindRo s t) = \<lparr>me_source = s, me_target = path_join ''/'' (strip_root t),
     me_fstype = [], me_read_only = True, me_options = []\<rparr>"
| "spec_entry (BindRw s t) = \<lparr>me_source = s, me_target = path_join ''/'' (strip_root t),
     me_fstype = [], me_read_only = False, me_options = []\<rparr>"
| "spec_entry (DevMin s t) = \<lparr>me_source = s, me_target = path_join ''/'' (strip_root t),
     me_fstype = [], me_read_only = True, me_options = []\<rparr>"

section \<open>The plan implements the mount list\<close>

lemma trim_left_not_absolute: "\<not> is_absolute (trim_left p)"
  by (induction p rule: trim_left.induct) (auto simp: is_absolute_def)

lemma mount_table_mkdirs [simp]:
  "fold mount_effect (calls (mkdir_all p what)) tab = tab"
proof -
  have "fold mount_effect (calls (map (\<lambda>i. mkdir_step what (take i p)) is)) tab = tab" for "is" tab
    by (induction "is" arbitrary: tab) (simp_all add: mkdir_step_def)
  then show ?thesis by (simp add: mkdir_all_def mkdir_step_def)
qed

lemma mount_table_mkdir_parent [simp]: "fold mount_effect (calls (mkdir_parent p)) tab = tab"
  by (simp add: mkdir_parent_def split: option.split)

lemmas ms_flags = MS_RDONLY_def MS_NOSUID_def MS_NODEV_def MS_REMOUNT_def MS_BIND_def MS_REC_def

text \<open>The entry before pivoting: the target still carries the new root.\<close>

definition raw_entry :: "mount_kind \<Rightarrow> mount_entry" where
  "raw_entry m = (spec_entry m)\<lparr>me_target := path_join NEW_ROOT (strip_root (mount_target m))\<rparr>"

lemma build_step_effect:
  assumes "build_step NEW_ROOT m = Inr st"
  shows "fold mount_effect (calls (apply_step is_dir st)) tab = raw_entry m # tab"
  using assms
  by (cases m)
    (auto simp: bind_step_def join_root_def cstring_def and_then_Inr_iff apply_step_def raw_mount_def
      remount_ro_def raw_entry_def ms_flags split: if_splits)

lemma build_steps_effect:
  assumes "build_steps NEW_ROOT ms = Inr sts"
  shows "fold mount_effect (calls (concat (map (apply_step is_dir) sts))) tab =
    rev (map raw_entry ms) @ tab"
  using assms
proof (induction ms arbitrary: sts tab)
  case Nil
  then show ?case by simp
next
  case (Cons m ms)
  then obtain st sts' where "build_step NEW_ROOT m = Inr st" "build_steps NEW_ROOT ms = Inr sts'"
      "sts = st # sts'" by (auto simp: and_then_Inr_iff)
  with Cons.IH build_step_effect show ?case by simp
qed

lemma trim_left_suffix: "\<exists>pre. xs = pre @ trim_left xs"
proof (induction "length xs" arbitrary: xs rule: less_induct)
  case less
  show ?case
  proof (cases xs)
    case (Cons c cs)
    have IH: "\<exists>pre. cs = pre @ trim_left cs" "\<exists>pre. tl cs = pre @ trim_left (tl cs)"
      using less [of cs] less [of "tl cs"] by (simp_all add: Cons)
    consider "c = CHR ''/''" | "c = CHR ''.''" "cs = []" | "c = CHR ''.''" "cs \<noteq> []" "hd cs = CHR ''/''"
      | "trim_left xs = xs" using Cons by fastforce
    then show ?thesis
    proof cases
      case 1
      with IH(1) Cons show ?thesis by (metis append_Cons trim_left.simps(2))
    next
      case 3
      with IH(2) obtain pre where "tl cs = pre @ trim_left (tl cs)" by blast
      with 3 have "xs = (c # hd cs # pre) @ trim_left xs" using Cons by (cases cs) simp_all
      then show ?thesis by blast
    qed (auto simp: Cons)
  qed simp
qed

lemma absolute_append: "is_absolute p \<Longrightarrow> is_absolute (p @ q)"
  by (auto simp: is_absolute_def split: list.splits)

lemma strip_root_not_absolute: "\<not> is_absolute (strip_root t)"
proof (cases "is_absolute t")
  case True
  define q where "q = trim_left t"
  obtain pre where "rev q = pre @ trim_left (rev q)" using trim_left_suffix by blast
  then have "q = rev (trim_left (rev q)) @ rev pre" by (metis rev_append rev_rev_ident)
  moreover have "\<not> is_absolute q" by (simp add: q_def trim_left_not_absolute)
  ultimately have "\<not> is_absolute (rev (trim_left (rev q)))" using absolute_append by metis
  with True show ?thesis by (simp add: strip_root_def q_def)
qed (simp add: strip_root_def)

lemma raw_entry_pivot:
  "starts_with (me_target (raw_entry m)) NEW_ROOT \<and>
   (raw_entry m)\<lparr>me_target := rebase NEW_ROOT (me_target (raw_entry m))\<rparr> = spec_entry m"
proof -
  let ?r = "strip_root (mount_target m)"
  have j: "path_join NEW_ROOT ?r = NEW_ROOT @ ''/'' @ ?r" "path_join ''/'' ?r = ''/'' @ ?r"
    using strip_root_not_absolute by (auto simp: path_join_def NEW_ROOT_def)
  have "starts_with (path_join NEW_ROOT ?r) NEW_ROOT" unfolding j by simp
  moreover have "rebase NEW_ROOT (path_join NEW_ROOT ?r) = path_join ''/'' ?r"
    unfolding j by (simp add: rebase_def)
  ultimately show ?thesis by (cases m) (simp_all add: raw_entry_def)
qed

definition root_entry :: mount_entry where
  "root_entry = \<lparr>me_source = ''rockbox-root'', me_target = ''/'', me_fstype = ''tmpfs'',
     me_read_only = True, me_options = ''mode=755,uid=0,gid=0''\<rparr>"

lemma set_ro_skip: "t \<notin> me_target ` set es \<Longrightarrow> set_ro t (es @ [e]) = es @ set_ro t [e]"
  by (induction es) auto

lemma spec_entry_target: "me_target (spec_entry m) = path_join ''/'' (strip_root (mount_target m))"
  by (cases m) simp_all

text \<open>
  C4. When the child's mount set-up succeeds, the mount table it leaves consists exactly of a
  read-only root and one entry per mount of the specification, in order, newest first: at its
  target, from its source, read-only for read-only binds, \<^verbatim>\<open>/dev\<close> and \<^verbatim>\<open>/proc\<close> and writable otherwise.
  The old root is gone. (No mount has the root itself as its target.)
\<close>

theorem mount_setup_implements_plan:
  assumes "plan_build mounts = Inr plan"
    and "run_steps k (plan_apply is_dir plan) [] = (None, tr)"
    and "\<forall>m\<in>set mounts. strip_root (mount_target m) \<noteq> []"
  shows "mount_table tr = rev (map spec_entry mounts) @ [root_entry] \<and>
    SUmountDetach OLD_ROOT \<in> set tr"
proof -
  have plan: "mp_new_root plan = NEW_ROOT" "build_steps NEW_ROOT mounts = Inr (mp_steps plan)"
    using assms(1) by (auto simp: plan_build_def and_then_Inr_iff cstring_def split: if_splits)
  have tr: "tr = calls (plan_apply is_dir plan)" using run_steps_ok [OF assms(2)] by simp
  have len: "\<not> length NEW_ROOT + length OLD_ROOT + 1 > BUF_LEN"
    by (simp add: NEW_ROOT_def OLD_ROOT_def BUF_LEN_def)
  let ?root = "\<lparr>me_source = ''rockbox-root'', me_target = NEW_ROOT, me_fstype = ''tmpfs'',
     me_read_only = False, me_options = ''mode=755,uid=0,gid=0''\<rparr>"
  let ?piv = "\<lambda>e. e\<lparr>me_target := rebase NEW_ROOT (me_target e)\<rparr>"
  have nr: "starts_with NEW_ROOT NEW_ROOT" by (simp add: starts_with_def)
  have all: "filter (\<lambda>e. starts_with (me_target e) NEW_ROOT) (rev (map raw_entry mounts) @ [?root]) =
      rev (map raw_entry mounts) @ [?root]"
    using raw_entry_pivot nr by (simp only: filter_id_conv) auto
  have "map ?piv (rev (map raw_entry mounts) @ [?root]) =
      rev (map spec_entry mounts) @ [root_entry\<lparr>me_read_only := False\<rparr>]"
    using raw_entry_pivot by (simp add: rev_map o_def root_entry_def rebase_def)
  moreover have "''/'' \<notin> me_target ` set (rev (map spec_entry mounts))"
    using assms(3) strip_root_not_absolute by (auto simp: spec_entry_target path_join_def)
  then have "set_ro ''/'' (rev (map spec_entry mounts) @ [root_entry\<lparr>me_read_only := False\<rparr>]) =
      rev (map spec_entry mounts) @ [root_entry]"
    by (subst set_ro_skip) (simp_all add: root_entry_def)
  moreover have "mount_table tr = set_ro ''/'' (map ?piv
      (filter (\<lambda>e. starts_with (me_target e) NEW_ROOT) (rev (map raw_entry mounts) @ [?root])))"
    using len by (simp add: mount_table_def tr plan_apply_def plan pivot_steps_def raw_mount_def
        build_steps_effect [OF plan(2)] ms_flags del: filter_append)
  ultimately have "mount_table tr = rev (map spec_entry mounts) @ [root_entry]"
    unfolding all by simp
  moreover have "SUmountDetach OLD_ROOT \<in> set tr"
    using len by (simp add: tr plan_apply_def plan pivot_steps_def raw_mount_def)
  ultimately show ?thesis ..
qed

lemma mkdir_all_is_do: "length p < BUF_LEN \<Longrightarrow> list_all is_do (mkdir_all p what)"
  by (simp add: mkdir_all_def mkdir_step_def list_all_iff)

lemma raw_mount_is_do [simp]: "is_do (raw_mount a b c d e f)"
  by (simp add: raw_mount_def)

theorem mount_setup_implements_plan_witness:
  "\<exists>tr. run_steps (\<lambda>_ _. 0) (plan_apply (\<lambda>_. True)
       \<lparr>mp_new_root = NEW_ROOT, mp_steps = [\<lparr>ms_kind = StepBind True, ms_target = NEW_ROOT @ ''/sandbox'',
          ms_source = ''/w'', ms_fstype = [], ms_options = []\<rparr>]\<rparr>) [] = (None, tr) \<and>
     mount_table tr = [spec_entry (BindRo ''/w'' ''/sandbox''), root_entry]"
proof -
  let ?plan = "\<lparr>mp_new_root = NEW_ROOT, mp_steps = [\<lparr>ms_kind = StepBind True,
     ms_target = NEW_ROOT @ ''/sandbox'', ms_source = ''/w'', ms_fstype = [], ms_options = []\<rparr>]\<rparr>"
  have b: "plan_build [BindRo ''/w'' ''/sandbox''] = Inr ?plan"
    by (simp add: plan_build_def cstring_def has_nul_def NEW_ROOT_def bind_step_def join_root_def
        path_join_def strip_root_def is_absolute_def)
  have "list_all is_do (plan_apply (\<lambda>_. True) ?plan)"
    by (simp add: plan_apply_def pivot_steps_def apply_step_def remount_ro_def mkdir_all_is_do
        NEW_ROOT_def OLD_ROOT_def BUF_LEN_def)
  from run_steps_friendly [OF this, of "[]"]
  obtain tr where tr: "run_steps (\<lambda>_ _. 0) (plan_apply (\<lambda>_. True) ?plan) [] = (None, tr)" by blast
  from mount_setup_implements_plan [OF b tr] have "mount_table tr = [spec_entry (BindRo ''/w'' ''/sandbox''), root_entry]"
    by (simp add: strip_root_def is_absolute_def)
  with tr show ?thesis by blast
qed

end
