(* ===== verification/RB_Cgroup.thy ===== *)
theory RB_Cgroup
  imports RB_Mounts
begin

text \<open>
  Cgroups (\<^verbatim>\<open>kernel/src/linux/cgroup.rs\<close>) and the launcher's pool of them (\<^verbatim>\<open>release_cgroup\<close>,
  \<^verbatim>\<open>take_cgroup\<close> in \<^verbatim>\<open>kernel/src/linux/launcher.rs\<close>). The kernel's side is a map from directories to
  their interface files, whether tasks are inside and whether \<^verbatim>\<open>cgroup.kill\<close> has been written; which
  of the engine's operations fail is an argument.
\<close>

section \<open>The kernel's side\<close>

record kgroup =
  kg_files :: "string \<rightharpoonup> string"
  kg_populated :: bool
  kg_kill :: bool                 \<comment> \<open>the kernel's \<^verbatim>\<open>CGRP_KILL\<close> mark\<close>

type_synonym cgfs = "string \<rightharpoonup> kgroup"

record cg_env =
  ce_write_ok :: "string \<Rightarrow> string \<Rightarrow> bool"     \<comment> \<open>cgroup, interface file\<close>
  ce_read_ok :: "string \<Rightarrow> bool"                 \<comment> \<open>reading \<^verbatim>\<open>cgroup.events\<close>\<close>
  ce_drains :: "string \<Rightarrow> bool"                  \<comment> \<open>empties within the deadline\<close>
  ce_open_ok :: "string \<Rightarrow> string \<Rightarrow> bool"      \<comment> \<open>cgroup, interface file (no \<^verbatim>\<open>memory.swap.max\<close> without swap accounting)\<close>
  ce_mkdir_ok :: "string \<Rightarrow> bool"
  ce_root_ok :: bool

definition CGROUP_ROOT :: string where "CGROUP_ROOT = ''/sys/fs/cgroup/rockbox''"

definition fresh_group :: kgroup where
  "fresh_group = \<lparr>kg_files = Map.empty, kg_populated = False, kg_kill = False\<rparr>"

definition write_file :: "string \<Rightarrow> string \<Rightarrow> string \<Rightarrow> cgfs \<Rightarrow> cgfs" where
  "write_file path f v fs =
     (case fs path of
        None \<Rightarrow> fs
      | Some g \<Rightarrow> fs(path \<mapsto> g\<lparr>kg_files := (kg_files g)(f \<mapsto> v)\<rparr>))"

section \<open>A cgroup\<close>

record cgroup =
  cg_path :: string
  cg_swap :: bool                 \<comment> \<open>\<^verbatim>\<open>memory_swap_max\<close> is present\<close>
  cg_killed :: bool

fun fd_writes :: "cg_env \<Rightarrow> string \<Rightarrow> (string \<times> string) list \<Rightarrow> cgfs \<Rightarrow> (sandbox_error + unit) \<times> cgfs" where
  "fd_writes env path [] fs = (Inr (), fs)"
| "fd_writes env path ((f, v) # ws) fs =
     (if ce_write_ok env path f then fd_writes env path ws (write_file path f v fs)
      else (Inl (Cgroup ''pwrite'' f), fs))"

definition clamp :: "u32 \<Rightarrow> u32 \<Rightarrow> u32 \<Rightarrow> u32" where
  "clamp lo hi x = min (max x lo) hi"

definition limit_writes :: "bool \<Rightarrow> resource_limits \<Rightarrow> (string \<times> string) list" where
  "limit_writes swap l =
     [(''memory.max'', decimal (unat (rl_memory_bytes l)))] @
     (if swap then [(''memory.swap.max'', ''0'')] else []) @
     [(''pids.max'', decimal (unat (rl_pids_max l))),
      (''cpu.max'', decimal (unat (rl_cpu_quota_us l)) @ '' '' @ decimal (unat (rl_cpu_period_us l))),
      (''cpu.weight'', decimal (unat (clamp 1 10000 (rl_cpu_weight l))))]"

definition cg_configure ::
    "cg_env \<Rightarrow> cgroup \<Rightarrow> resource_limits \<Rightarrow> cgfs \<Rightarrow> (sandbox_error + unit) \<times> cgfs" where
  "cg_configure env cg l fs = fd_writes env (cg_path cg) (limit_writes (cg_swap cg) l) fs"

definition OPENED_FILES :: "string list" where
  "OPENED_FILES = [''memory.max'', ''pids.max'', ''cpu.max'', ''cpu.weight'', ''cgroup.events'',
     ''memory.peak'', ''pids.peak'']"

text \<open>
  A left-over directory is killed and removed first (up to two hundred attempts; it may stay). A
  directory that stays keeps its kill mark, a new one starts clean.
\<close>

definition clear_leftover :: "cg_env \<Rightarrow> string \<Rightarrow> cgfs \<Rightarrow> cgfs" where
  "clear_leftover env path fs =
     (case fs path of
        None \<Rightarrow> fs
      | Some g \<Rightarrow>
          if ce_drains env path then fs(path := None)
          else fs(path \<mapsto> g\<lparr>kg_kill := kg_kill g \<or> ce_write_ok env path ''cgroup.kill''\<rparr>))"

definition mkdir_group :: "string \<Rightarrow> cgfs \<Rightarrow> cgfs" where
  "mkdir_group path fs = (case fs path of None \<Rightarrow> fs(path \<mapsto> fresh_group) | Some _ \<Rightarrow> fs)"

definition cg_create ::
    "cg_env \<Rightarrow> string \<Rightarrow> resource_limits \<Rightarrow> cgfs \<Rightarrow> (sandbox_error + cgroup) \<times> cgfs" where
  "cg_create env name l fs =
     (if \<not> ce_root_ok env then (Inl (Cgroup ''ensure_root'' []), fs)
      else
        let path = path_join CGROUP_ROOT name; fs1 = clear_leftover env path fs in
        if \<not> ce_mkdir_ok env path then (Inl (Cgroup ''create_dir'' []), fs1)
        else
          let fs2 = mkdir_group path fs1;
              cg = \<lparr>cg_path = path, cg_swap = ce_open_ok env path ''memory.swap.max'', cg_killed = False\<rparr> in
          if \<not> list_all (ce_open_ok env path) OPENED_FILES then (Inl (Cgroup ''open'' []), fs2)
          else (case cg_configure env cg l fs2 of
                  (Inl e, fs3) \<Rightarrow> (Inl e, fs3)
                | (Inr _, fs3) \<Rightarrow> (Inr cg, fs3)))"

definition cg_is_populated :: "cg_env \<Rightarrow> cgroup \<Rightarrow> cgfs \<Rightarrow> sandbox_error + bool" where
  "cg_is_populated env cg fs =
     (if ce_read_ok env (cg_path cg)
      then Inr (case fs (cg_path cg) of None \<Rightarrow> False | Some g \<Rightarrow> kg_populated g)
      else Inl (Cgroup ''pread'' []))"

definition cg_kill_all :: "cg_env \<Rightarrow> cgroup \<Rightarrow> cgfs \<Rightarrow> (sandbox_error + unit) \<times> cgroup \<times> cgfs" where
  "cg_kill_all env cg fs =
     (if ce_write_ok env (cg_path cg) ''cgroup.kill''
      then (Inr (), cg\<lparr>cg_killed := True\<rparr>,
            (case fs (cg_path cg) of None \<Rightarrow> fs | Some g \<Rightarrow> fs(cg_path cg \<mapsto> g\<lparr>kg_kill := True\<rparr>)))
      else (Inl (Cgroup ''cgroup.kill'' []), cg, fs))"

text \<open>Polling until the group is empty or the deadline passes; on success no task is left.\<close>

definition cg_wait_empty :: "cg_env \<Rightarrow> cgroup \<Rightarrow> cgfs \<Rightarrow> (sandbox_error + unit) \<times> cgfs" where
  "cg_wait_empty env cg fs =
     (if \<not> ce_read_ok env (cg_path cg) then (Inl (Cgroup ''pread'' []), fs)
      else case fs (cg_path cg) of
             None \<Rightarrow> (Inr (), fs)
           | Some g \<Rightarrow>
               if \<not> kg_populated g then (Inr (), fs)
               else if ce_drains env (cg_path cg)
               then (Inr (), fs(cg_path cg \<mapsto> g\<lparr>kg_populated := False\<rparr>))
               else (Inl (Cgroup ''wait_empty'' []), fs))"

text \<open>The kernel refuses to remove a populated group.\<close>

definition cg_remove :: "cgroup \<Rightarrow> cgfs \<Rightarrow> (sandbox_error + unit) \<times> cgfs" where
  "cg_remove cg fs =
     (case fs (cg_path cg) of
        None \<Rightarrow> (Inl (Cgroup ''rmdir'' []), fs)
      | Some g \<Rightarrow> if kg_populated g then (Inl (Cgroup ''rmdir'' []), fs)
                  else (Inr (), fs(cg_path cg := None)))"

definition cg_reset_peaks :: "cg_env \<Rightarrow> cgroup \<Rightarrow> cgfs \<Rightarrow> cgfs" where
  "cg_reset_peaks env cg fs =
     (let p = cg_path cg;
          fs1 = (if ce_write_ok env p ''memory.peak'' then write_file p ''memory.peak'' ''0'' fs else fs)
      in if ce_write_ok env p ''pids.peak'' then write_file p ''pids.peak'' ''0'' fs1 else fs1)"

definition cg_set_cpu_weight ::
    "cg_env \<Rightarrow> cgroup \<Rightarrow> u32 \<Rightarrow> cgfs \<Rightarrow> (sandbox_error + unit) \<times> cgfs" where
  "cg_set_cpu_weight env cg weight fs =
     fd_writes env (cg_path cg) [(''cpu.weight'', decimal (unat (clamp 1 10000 weight)))] fs"

text \<open>
  \<^verbatim>\<open>oom_killed\<close> reads \<^verbatim>\<open>memory.events\<close>: a line that starts with \<^verbatim>\<open>oom_kill \<close> and whose second word is
  not \<^verbatim>\<open>0\<close>.
\<close>

fun split_char :: "char \<Rightarrow> string \<Rightarrow> string \<Rightarrow> string list" where
  "split_char d cur [] = [rev cur]"
| "split_char d cur (c # cs) = (if c = d then rev cur # split_char d [] cs else split_char d (c # cur) cs)"

definition words_of :: "string \<Rightarrow> string list" where
  "words_of line = List.filter (\<lambda>w. w \<noteq> []) (split_char (CHR '' '') [] line)"

definition oom_line :: "string \<Rightarrow> bool" where
  "oom_line l \<longleftrightarrow> starts_with l ''oom_kill '' \<and> \<not> (1 < length (words_of l) \<and> words_of l ! 1 = ''0'')"

definition oom_killed :: "string option \<Rightarrow> bool" where
  "oom_killed events =
     (case events of None \<Rightarrow> False | Some s \<Rightarrow> list_ex oom_line (split_char (CHR 0x0A) [] s))"

section \<open>The pool\<close>

definition MAX_POOLED_CGROUPS :: nat where "MAX_POOLED_CGROUPS = 128"

record cg_pool =
  pl_cgroups :: "cgroup list"     \<comment> \<open>top of the stack last, as in the vector\<close>
  pl_seq :: u32
  pl_pid :: nat

text \<open>The end of \<^verbatim>\<open>release_cgroup\<close>: reset the peaks, then push unless the pool is full.\<close>

definition pool_put :: "cg_env \<Rightarrow> cg_pool \<Rightarrow> cgroup \<Rightarrow> cgfs \<Rightarrow> cg_pool \<times> cgfs" where
  "pool_put env pool cg fs =
     (let fs1 = cg_reset_peaks env cg fs in
      if length (pl_cgroups pool) \<ge> MAX_POOLED_CGROUPS then (pool, snd (cg_remove cg fs1))
      else (pool\<lparr>pl_cgroups := pl_cgroups pool @ [cg]\<rparr>, fs1))"

definition release_cgroup :: "cg_env \<Rightarrow> cgroup \<Rightarrow> cg_pool \<Rightarrow> cgfs \<Rightarrow> cg_pool \<times> cgfs" where
  "release_cgroup env cg pool fs =
     (if cg_killed cg then (pool, snd (cg_remove cg (snd (cg_wait_empty env cg fs))))
      else if cg_is_populated env cg fs = Inr True then
        (case cg_kill_all env cg fs of
           (_, cg1, fs1) \<Rightarrow>
             (case cg_wait_empty env cg1 fs1 of
                (Inl _, fs2) \<Rightarrow> (pool, snd (cg_remove cg1 fs2))
              | (Inr _, fs2) \<Rightarrow> pool_put env pool cg1 fs2))
      else pool_put env pool cg fs)"

definition pool_name :: "cg_pool \<Rightarrow> string" where
  "pool_name pool = ''rockbox-pool-'' @ decimal (pl_pid pool) @ ''-'' @ decimal (unat (pl_seq pool))"

definition take_cgroup ::
    "cg_env \<Rightarrow> resource_limits \<Rightarrow> cg_pool \<Rightarrow> cgfs \<Rightarrow> (sandbox_error + cgroup) \<times> cg_pool \<times> cgfs" where
  "take_cgroup env l pool fs =
     (let make = (\<lambda>pool fs.
            case cg_create env (pool_name pool) l fs of
              (r, fs1) \<Rightarrow> (r, pool\<lparr>pl_seq := pl_seq pool + 1\<rparr>, fs1))
      in if pl_cgroups pool = [] then make pool fs
         else let cg = last (pl_cgroups pool); pool1 = pool\<lparr>pl_cgroups := butlast (pl_cgroups pool)\<rparr> in
           (case cg_configure env cg l fs of
              (Inr _, fs1) \<Rightarrow> (Inr cg, pool1, fs1)
            | (Inl _, fs1) \<Rightarrow> make pool1 (snd (cg_remove cg fs1))))"

section \<open>Limits are never stale\<close>

lemma write_file_other: "p \<noteq> q \<Longrightarrow> write_file p f v fs q = fs q"
  by (simp add: write_file_def split: option.split)

lemma fd_writes_group:
  assumes "fd_writes env path ws fs = (Inr u, fs')" "fs path = Some g"
  shows "\<exists>g'. fs' path = Some g' \<and> kg_files g' = kg_files g ++ map_of (rev ws) \<and>
    kg_populated g' = kg_populated g \<and> kg_kill g' = kg_kill g"
  using assms
proof (induction env path ws fs arbitrary: g rule: fd_writes.induct)
  case (1 env path fs)
  then show ?case by simp
next
  case (2 env path f v ws fs)
  from "2.prems" have ok: "ce_write_ok env path f"
      "fd_writes env path ws (write_file path f v fs) = (Inr u, fs')"
    by (auto split: if_splits)
  have "write_file path f v fs path = Some (g\<lparr>kg_files := (kg_files g)(f \<mapsto> v)\<rparr>)"
    using "2.prems"(2) by (simp add: write_file_def)
  from "2.IH" [OF ok this] show ?case
    by (force simp: map_add_def fun_eq_iff split: option.splits)
qed

lemma fd_writes_dom: "fd_writes env path ws fs = (r, fs') \<Longrightarrow> fs' q = None \<longleftrightarrow> fs q = None"
  by (induction env path ws fs rule: fd_writes.induct)
    (auto simp: write_file_def split: if_splits option.splits)

text \<open>The limits a request asks for, as the kernel shows them.\<close>

definition shows_limits :: "bool \<Rightarrow> resource_limits \<Rightarrow> kgroup \<Rightarrow> bool" where
  "shows_limits swap l g \<longleftrightarrow>
     kg_files g ''memory.max'' = Some (decimal (unat (rl_memory_bytes l))) \<and>
     kg_files g ''pids.max'' = Some (decimal (unat (rl_pids_max l))) \<and>
     kg_files g ''cpu.max'' =
       Some (decimal (unat (rl_cpu_quota_us l)) @ '' '' @ decimal (unat (rl_cpu_period_us l))) \<and>
     kg_files g ''cpu.weight'' = Some (decimal (unat (clamp 1 10000 (rl_cpu_weight l)))) \<and>
     (swap \<longrightarrow> kg_files g ''memory.swap.max'' = Some ''0'')"

lemma configure_shows:
  assumes "cg_configure env cg l fs = (Inr u, fs')" "fs (cg_path cg) = Some g"
  shows "\<exists>g'. fs' (cg_path cg) = Some g' \<and> shows_limits (cg_swap cg) l g' \<and>
    kg_populated g' = kg_populated g \<and> kg_kill g' = kg_kill g"
  using fd_writes_group [OF assms(1) [unfolded cg_configure_def] assms(2)]
  by (auto simp: shows_limits_def limit_writes_def)

section \<open>The pool as a state machine\<close>

text \<open>
  The launcher's pool together with the cgroups its requests hold. Each operation meets its own
  failures, and between operations the contents of the directories change freely (tasks come and go,
  counters move, a request writes \<^verbatim>\<open>cgroup.kill\<close>). A take assumes that the counter does not wrap, i.e. that the process has created fewer
  than \<open>2\<^sup>3\<^sup>2 - 1\<close> cgroups.
\<close>

record pstate =
  ps_pool :: cg_pool
  ps_fs :: cgfs
  ps_held :: "cgroup list"

inductive pstep :: "pstate \<Rightarrow> pstate \<Rightarrow> bool" where
  take_ok: "take_cgroup env l (ps_pool s) (ps_fs s) = (Inr cg, pool', fs') \<Longrightarrow>
     unat (pl_seq (ps_pool s)) < 2 ^ 32 - 1 \<Longrightarrow>
     pstep s \<lparr>ps_pool = pool', ps_fs = fs', ps_held = cg # ps_held s\<rparr>"
| take_err: "take_cgroup env l (ps_pool s) (ps_fs s) = (Inl e, pool', fs') \<Longrightarrow>
     unat (pl_seq (ps_pool s)) < 2 ^ 32 - 1 \<Longrightarrow>
     pstep s \<lparr>ps_pool = pool', ps_fs = fs', ps_held = ps_held s\<rparr>"
| release: "cg \<in> set (ps_held s) \<Longrightarrow> cg' = cg \<or> cg' = cg\<lparr>cg_killed := True\<rparr> \<Longrightarrow>
     release_cgroup env cg' (ps_pool s) (ps_fs s) = (pool', fs') \<Longrightarrow>
     pstep s \<lparr>ps_pool = pool', ps_fs = fs', ps_held = remove1 cg (ps_held s)\<rparr>"
| activity: "dom fs' = dom (ps_fs s) \<Longrightarrow> pstep s (s\<lparr>ps_fs := fs'\<rparr>)"

definition pool_init :: "nat \<Rightarrow> cgfs \<Rightarrow> pstate" where
  "pool_init pid fs = \<lparr>ps_pool = \<lparr>pl_cgroups = [], pl_seq = 0, pl_pid = pid\<rparr>, ps_fs = fs, ps_held = []\<rparr>"

inductive preach :: "pstate \<Rightarrow> bool" where
  init: "preach (pool_init pid fs)"
| step: "preach s \<Longrightarrow> pstep s s' \<Longrightarrow> preach s'"

definition numbered :: "nat \<Rightarrow> nat \<Rightarrow> string" where
  "numbered pid n = path_join CGROUP_ROOT (''rockbox-pool-'' @ decimal pid @ ''-'' @ decimal n)"

text \<open>The directories of the cgroups that requests hold or the pool keeps.\<close>

definition paths :: "pstate \<Rightarrow> string list" where
  "paths s = map cg_path (ps_held s) @ map cg_path (pl_cgroups (ps_pool s))"

definition pool_inv :: "pstate \<Rightarrow> bool" where
  "pool_inv s \<longleftrightarrow>
     distinct (paths s) \<and>
     set (paths s) \<subseteq> numbered (pl_pid (ps_pool s)) ` {..<unat (pl_seq (ps_pool s))} \<and>
     set (paths s) \<subseteq> dom (ps_fs s) \<and>
     length (pl_cgroups (ps_pool s)) \<le> MAX_POOLED_CGROUPS"

lemma decimal_inj: "decimal m = decimal n \<Longrightarrow> m = n"
proof (induction m arbitrary: n rule: less_induct)
  case (less m)
  have digit: "char_of (48 + a :: nat) = (char_of (48 + b) :: char) \<Longrightarrow> a < 10 \<Longrightarrow> b < 10 \<Longrightarrow> a = b" for a b
    by (drule arg_cong [where f = "of_char :: char \<Rightarrow> nat"]) (simp add: of_char_of)
  have m: "decimal m = (if m < 10 then [char_of (48 + m)] else decimal (m div 10) @ [char_of (48 + m mod 10)])"
    by (rule decimal.simps)
  have n: "decimal n = (if n < 10 then [char_of (48 + n)] else decimal (n div 10) @ [char_of (48 + n mod 10)])"
    by (rule decimal.simps)
  show ?case
  proof (cases "m < 10 \<longleftrightarrow> n < 10")
    case True
    show ?thesis
    proof (cases "m < 10")
      case True
      with \<open>m < 10 \<longleftrightarrow> n < 10\<close> less.prems digit show ?thesis by (simp add: m n)
    next
      case False
      with \<open>m < 10 \<longleftrightarrow> n < 10\<close> less.prems have eq: "decimal (m div 10) = decimal (n div 10)"
          "char_of (48 + m mod 10) = (char_of (48 + n mod 10) :: char)"
        by (simp_all add: m n)
      have "m div 10 < m" using False by simp
      from less.IH [OF this eq(1)] digit [OF eq(2)] show ?thesis
        by (metis div_mult_mod_eq mod_less_divisor zero_less_numeral)
    qed
  next
    case False
    with less.prems show ?thesis
      by (auto simp: m n decimal_nonempty [symmetric] split: if_splits)
  qed
qed

lemma numbered_inj: "numbered pid m = numbered pid n \<Longrightarrow> m = n"
  by (auto simp: numbered_def path_join_def is_absolute_def dest: decimal_inj split: if_splits)

text \<open>The directories other than the one an operation is about exist as before.\<close>

definition same_dirs :: "string set \<Rightarrow> cgfs \<Rightarrow> cgfs \<Rightarrow> bool" where
  "same_dirs A fs fs' \<longleftrightarrow> (\<forall>q. q \<notin> A \<longrightarrow> (fs' q = None \<longleftrightarrow> fs q = None))"

lemma same_dirs_trans: "same_dirs A fs fs' \<Longrightarrow> same_dirs B fs' fs'' \<Longrightarrow> same_dirs (A \<union> B) fs fs''"
  by (auto simp: same_dirs_def)

lemma same_dirs_dom: "same_dirs A fs fs' \<longleftrightarrow> dom fs - A = dom fs' - A"
  unfolding same_dirs_def set_eq_iff Diff_iff domIff by metis

lemma same_dirs_keeps:
  assumes "same_dirs (A \<union> B) fs fs'" "X \<subseteq> dom fs" "X \<inter> A = {}" "X \<inter> B = {}"
  shows "X \<subseteq> dom fs'"
  using assms unfolding same_dirs_dom by blast

lemma configure_dirs: "cg_configure env cg l fs = (r, fs') \<Longrightarrow> same_dirs {} fs fs'"
  by (simp add: cg_configure_def same_dirs_def fd_writes_dom)

lemma remove_dirs: "same_dirs {cg_path cg} fs (snd (cg_remove cg fs))"
  by (auto simp: cg_remove_def same_dirs_def split: option.splits)

lemma wait_dirs: "same_dirs {} fs (snd (cg_wait_empty env cg fs))"
  by (auto simp: cg_wait_empty_def same_dirs_def split: option.splits)

lemma reset_dirs: "same_dirs {} fs (cg_reset_peaks env cg fs)"
  by (auto simp: cg_reset_peaks_def same_dirs_def Let_def write_file_def split: option.splits)

lemma create_dirs:
  assumes "cg_create env name l fs = (r, fs')"
  defines "path \<equiv> path_join CGROUP_ROOT name"
  shows "same_dirs {path} fs fs' \<and> (\<forall>cg. r = Inr cg \<longrightarrow> cg_path cg = path \<and> fs' path \<noteq> None)"
proof (cases "ce_root_ok env")
  case False
  with assms show ?thesis by (auto simp: cg_create_def same_dirs_def)
next
  case True
  define fs1 where "fs1 = clear_leftover env path fs"
  define fs2 where "fs2 = mkdir_group path fs1"
  define cg where "cg = \<lparr>cg_path = path, cg_swap = ce_open_ok env path ''memory.swap.max'', cg_killed = False\<rparr>"
  have d1: "same_dirs {path} fs fs1"
    by (auto simp: fs1_def clear_leftover_def same_dirs_def split: option.splits)
  have d2: "same_dirs {path} fs fs2" "fs2 path \<noteq> None"
    using d1 by (auto simp: fs2_def mkdir_group_def same_dirs_def split: option.splits)
  show ?thesis
  proof (cases "ce_mkdir_ok env path")
    case False
    with assms(1) True d1 show ?thesis
      by (auto simp: cg_create_def Let_def path_def [symmetric] fs1_def)
  next
    case mk: True
    show ?thesis
    proof (cases "list_all (ce_open_ok env path) OPENED_FILES")
      case False
      with assms(1) True mk d2(1) show ?thesis
        by (auto simp: cg_create_def Let_def path_def [symmetric] fs2_def fs1_def)
    next
      case op: True
      obtain r3 fs3 where c: "cg_configure env cg l fs2 = (r3, fs3)" by fastforce
      have d3: "same_dirs {} fs2 fs3" using configure_dirs [OF c] .
      have "(r, fs') = (case r3 of Inl e \<Rightarrow> (Inl e, fs3) | Inr _ \<Rightarrow> (Inr cg, fs3))"
        using assms(1) True mk op c [unfolded cg_def fs2_def fs1_def]
        by (cases r3) (simp_all add: cg_create_def Let_def path_def [symmetric] cg_def)
      moreover have "fs3 path \<noteq> None" using d2(2) d3 by (simp add: same_dirs_def)
      ultimately show ?thesis
        using same_dirs_trans [OF d2(1) d3] by (auto simp: cg_def split: sum.splits)
    qed
  qed
qed

lemma cgroup_self: "cg = cg\<lparr>cg_killed := cg_killed cg\<rparr>"
  by simp

lemma release_effect:
  assumes "release_cgroup env cg pool fs = (pool', fs')"
  shows "same_dirs {cg_path cg} fs fs' \<and> pl_seq pool' = pl_seq pool \<and> pl_pid pool' = pl_pid pool \<and>
    (pl_cgroups pool' = pl_cgroups pool \<or>
     length (pl_cgroups pool) < MAX_POOLED_CGROUPS \<and> (fs (cg_path cg) \<noteq> None \<longrightarrow> fs' (cg_path cg) \<noteq> None) \<and>
     \<not> cg_killed cg \<and>
     (\<exists>k. pl_cgroups pool' = pl_cgroups pool @ [cg\<lparr>cg_killed := k\<rparr>]))"
proof -
  have put: "same_dirs {cg_path c} f (snd (pool_put env pool c f)) \<and>
      (fst (pool_put env pool c f) = pool \<or> length (pl_cgroups pool) < MAX_POOLED_CGROUPS \<and>
       (f (cg_path c) \<noteq> None \<longrightarrow> snd (pool_put env pool c f) (cg_path c) \<noteq> None) \<and>
       fst (pool_put env pool c f) = pool\<lparr>pl_cgroups := pl_cgroups pool @ [c]\<rparr>)" for c f
    using reset_dirs [of f env c] remove_dirs [of c "cg_reset_peaks env c f"]
    by (auto simp: pool_put_def Let_def same_dirs_def)
  obtain kr cg1 fs1 where k: "cg_kill_all env cg fs = (kr, cg1, fs1)" by (cases "cg_kill_all env cg fs")
  have k': "cg1 = cg\<lparr>cg_killed := cg_killed cg1\<rparr>" "same_dirs {} fs fs1" "cg_path cg1 = cg_path cg"
    using k by (auto simp: cg_kill_all_def same_dirs_def split: if_splits option.splits)
  obtain wr fs2 where w: "cg_wait_empty env cg1 fs1 = (wr, fs2)" by fastforce
  have d2: "same_dirs {} fs fs2"
    using same_dirs_trans [OF k'(2) wait_dirs [of fs1 env cg1, unfolded w]] by simp
  have main: "(pool', fs') = (if cg_killed cg then (pool, snd (cg_remove cg (snd (cg_wait_empty env cg fs))))
      else if cg_is_populated env cg fs = Inr True then
        (case wr of Inl _ \<Rightarrow> (pool, snd (cg_remove cg1 fs2)) | Inr _ \<Rightarrow> pool_put env pool cg1 fs2)
      else pool_put env pool cg fs)"
    using assms [symmetric] by (cases wr) (simp_all add: release_cgroup_def k w)
  have r0: "same_dirs {cg_path cg} fs (snd (cg_remove cg (snd (cg_wait_empty env cg fs))))"
    using same_dirs_trans [OF wait_dirs remove_dirs] by simp
  have r1: "same_dirs {cg_path cg} fs (snd (cg_remove cg1 fs2))"
    using same_dirs_trans [OF d2 remove_dirs [of cg1]] k'(3) by simp
  show ?thesis
  proof (cases "cg_killed cg")
    case True
    with main r0 show ?thesis by simp
  next
    case nk: False
    show ?thesis
    proof (cases "cg_is_populated env cg fs = Inr True \<and> is_ok wr")
      case True
      then have "(pool', fs') = pool_put env pool cg1 fs2" using main nk by (cases wr) auto
      then have p': "pool' = fst (pool_put env pool cg1 fs2)" "fs' = snd (pool_put env pool cg1 fs2)" by (metis fst_conv, metis snd_conv)
      have "same_dirs {cg_path cg} fs fs'"
        using put [of cg1 fs2] same_dirs_trans [OF d2] k'(3) p'(2) by fastforce
      moreover have "fs2 (cg_path cg) = None \<longleftrightarrow> fs (cg_path cg) = None" using d2 by (simp add: same_dirs_def)
      ultimately show ?thesis using put [of cg1 fs2] p' nk k'(1,3) by auto
    next
      case False
      then have "(pool', fs') = (pool, snd (cg_remove cg1 fs2)) \<or> (pool', fs') = pool_put env pool cg fs"
        using main nk by (cases wr) (auto split: if_splits)
      then show ?thesis
      proof
        assume "(pool', fs') = pool_put env pool cg fs"
        then have "pool' = fst (pool_put env pool cg fs)" "fs' = snd (pool_put env pool cg fs)" by (metis fst_conv, metis snd_conv)
        with put [of cg fs] nk show ?thesis by (auto intro: exI [of _ "cg_killed cg"])
      qed (use r1 in simp)
    qed
  qed
qed

text \<open>A take either recycles the newest pooled cgroup or creates the next numbered one.\<close>

lemma take_effect:
  assumes "take_cgroup env l pool fs = (r, pool', fs')"
  shows "(\<exists>cg. r = Inr cg \<and> pl_cgroups pool = pl_cgroups pool' @ [cg] \<and> pl_seq pool' = pl_seq pool \<and>
            same_dirs {} fs fs' \<and> cg_configure env cg l fs = (Inr (), fs')) \<or>
         (\<exists>old fs1. pl_cgroups pool = pl_cgroups pool' @ old \<and> pl_seq pool' = pl_seq pool + 1 \<and>
            same_dirs (cg_path ` set old) fs fs1 \<and>
            cg_create env (pool_name pool) l fs1 = (r, fs'))"
    and "pl_pid pool' = pl_pid pool"
proof -
  show "pl_pid pool' = pl_pid pool"
    using assms by (auto simp: take_cgroup_def Let_def split: if_splits prod.splits sum.splits)
  show "(\<exists>cg. r = Inr cg \<and> pl_cgroups pool = pl_cgroups pool' @ [cg] \<and> pl_seq pool' = pl_seq pool \<and>
            same_dirs {} fs fs' \<and> cg_configure env cg l fs = (Inr (), fs')) \<or>
         (\<exists>old fs1. pl_cgroups pool = pl_cgroups pool' @ old \<and> pl_seq pool' = pl_seq pool + 1 \<and>
            same_dirs (cg_path ` set old) fs fs1 \<and> cg_create env (pool_name pool) l fs1 = (r, fs'))"
  proof (cases "pl_cgroups pool = []")
    case True
    with assms show ?thesis
      by (intro disjI2 exI [of _ "[]"] exI [of _ fs])
        (auto simp: take_cgroup_def Let_def same_dirs_def split: prod.splits)
  next
    case False
    define cg where "cg = last (pl_cgroups pool)"
    have split: "pl_cgroups pool = butlast (pl_cgroups pool) @ [cg]" using False by (simp add: cg_def)
    obtain cr fs1 where c: "cg_configure env cg l fs = (cr, fs1)" by fastforce
    show ?thesis
    proof (cases cr)
      case (Inr u)
      then have "r = Inr cg" "pool' = pool\<lparr>pl_cgroups := butlast (pl_cgroups pool)\<rparr>" "fs' = fs1"
        using assms False c by (simp_all add: take_cgroup_def cg_def Let_def)
      with split configure_dirs [OF c] c Inr show ?thesis by auto
    next
      case (Inl e)
      let ?pool1 = "pool\<lparr>pl_cgroups := butlast (pl_cgroups pool)\<rparr>" and ?fs2 = "snd (cg_remove cg fs1)"
      have "pool_name ?pool1 = pool_name pool" by (simp add: pool_name_def)
      then have "cg_create env (pool_name pool) l ?fs2 = (r, fs')"
          "pool' = ?pool1\<lparr>pl_seq := pl_seq pool + 1\<rparr>"
        using assms False c Inl by (auto simp: take_cgroup_def cg_def Let_def split: prod.splits)
      moreover have "same_dirs (cg_path ` set [cg]) fs ?fs2"
        using same_dirs_trans [OF configure_dirs [OF c] remove_dirs [of cg]] by simp
      ultimately show ?thesis using split by (intro disjI2 exI [of _ "[cg]"] exI [of _ ?fs2]) simp
    qed
  qed
qed

lemma pool_name_numbered:
  "path_join CGROUP_ROOT (pool_name pool) = numbered (pl_pid pool) (unat (pl_seq pool))"
  by (simp add: numbered_def pool_name_def)

lemma unat_succ: "unat (x :: u32) < 2 ^ 32 - 1 \<Longrightarrow> unat (x + 1) = unat x + 1"
  by (simp add: unat_word_ariths)

lemma pool_inv_drop:
  assumes "pool_inv s" "pl_cgroups (ps_pool s) = pl_cgroups pool' @ old" "pl_pid pool' = pl_pid (ps_pool s)"
    "unat (pl_seq (ps_pool s)) \<le> unat (pl_seq pool')" "same_dirs (cg_path ` set old \<union> P) (ps_fs s) fs'"
    "numbered (pl_pid (ps_pool s)) ` {..<unat (pl_seq (ps_pool s))} \<inter> P = {}"
  shows "pool_inv \<lparr>ps_pool = pool', ps_fs = fs', ps_held = ps_held s\<rparr>"
proof -
  let ?s' = "\<lparr>ps_pool = pool', ps_fs = fs', ps_held = ps_held s\<rparr>"
  have split: "paths s = paths ?s' @ map cg_path old" using assms(2) by (simp add: paths_def)
  have keep: "set (paths ?s') \<inter> cg_path ` set old = {}" "distinct (paths ?s')"
      "set (paths ?s') \<subseteq> dom (ps_fs s)"
      "set (paths ?s') \<subseteq> numbered (pl_pid (ps_pool s)) ` {..<unat (pl_seq (ps_pool s))}"
    using assms(1) unfolding pool_inv_def split by simp_all
  have "set (paths ?s') \<inter> P = {}" using keep(4) assms(6) by blast
  from same_dirs_keeps [OF assms(5) keep(3,1) this] have "set (paths ?s') \<subseteq> dom fs'" .
  moreover have "{..<unat (pl_seq (ps_pool s))} \<subseteq> {..<unat (pl_seq pool')}" using assms(4) by auto
  then have "set (paths ?s') \<subseteq> numbered (pl_pid pool') ` {..<unat (pl_seq pool')}"
    using keep(4) assms(3) by (metis image_mono order.trans)
  ultimately show ?thesis using keep(2) assms(1,2) by (simp add: pool_inv_def)
qed

lemma pool_inv_take:
  assumes inv: "pool_inv s" and take: "take_cgroup env l (ps_pool s) (ps_fs s) = (r, pool', fs')"
    and seq: "unat (pl_seq (ps_pool s)) < 2 ^ 32 - 1"
  shows "pool_inv \<lparr>ps_pool = pool', ps_fs = fs',
      ps_held = (case r of Inr cg \<Rightarrow> [cg] | Inl _ \<Rightarrow> []) @ ps_held s\<rparr>"
  using take_effect(1) [OF take]
proof
  assume "\<exists>cg. r = Inr cg \<and> pl_cgroups (ps_pool s) = pl_cgroups pool' @ [cg] \<and>
    pl_seq pool' = pl_seq (ps_pool s) \<and> same_dirs {} (ps_fs s) fs' \<and>
    cg_configure env cg l (ps_fs s) = (Inr (), fs')"
  then obtain cg where cg: "r = Inr cg" "pl_cgroups (ps_pool s) = pl_cgroups pool' @ [cg]"
      "pl_seq pool' = pl_seq (ps_pool s)" "same_dirs {} (ps_fs s) fs'" by blast
  let ?s' = "\<lparr>ps_pool = pool', ps_fs = fs', ps_held = cg # ps_held s\<rparr>"
  have "set (paths ?s') = set (paths s)" "distinct (paths s) \<Longrightarrow> distinct (paths ?s')"
    by (auto simp: paths_def cg(2))
  moreover have "dom fs' = dom (ps_fs s)" using cg(4) by (simp add: same_dirs_dom)
  ultimately have "pool_inv ?s'" using inv take_effect(2) [OF take] cg by (simp add: pool_inv_def)
  then show ?thesis by (simp add: cg(1))
next
  let ?old = "numbered (pl_pid (ps_pool s)) ` {..<unat (pl_seq (ps_pool s))}"
  let ?new = "numbered (pl_pid (ps_pool s)) (unat (pl_seq (ps_pool s)))"
  assume "\<exists>old fs1. pl_cgroups (ps_pool s) = pl_cgroups pool' @ old \<and> pl_seq pool' = pl_seq (ps_pool s) + 1 \<and>
    same_dirs (cg_path ` set old) (ps_fs s) fs1 \<and>
    cg_create env (pool_name (ps_pool s)) l fs1 = (r, fs')"
  then obtain old fs1 where o: "pl_cgroups (ps_pool s) = pl_cgroups pool' @ old"
      "pl_seq pool' = pl_seq (ps_pool s) + 1" "same_dirs (cg_path ` set old) (ps_fs s) fs1"
      "cg_create env (pool_name (ps_pool s)) l fs1 = (r, fs')" by blast
  note c = create_dirs [OF o(4), unfolded pool_name_numbered]
  have dirs: "same_dirs (cg_path ` set old \<union> {?new}) (ps_fs s) fs'"
    using same_dirs_trans [OF o(3)] c by blast
  have fresh: "?old \<inter> {?new} = {}" using numbered_inj by fastforce
  have base: "pool_inv \<lparr>ps_pool = pool', ps_fs = fs', ps_held = ps_held s\<rparr>"
    using pool_inv_drop [OF inv o(1) take_effect(2) [OF take] _ dirs fresh] o(2) unat_succ [OF seq] by simp
  show ?thesis
  proof (cases r)
    case (Inl e)
    with base show ?thesis by simp
  next
    case (Inr cg)
    have cg: "cg_path cg = ?new" "?new \<in> dom fs'" using c Inr by auto
    have "set (map cg_path (ps_held s) @ map cg_path (pl_cgroups pool')) \<subseteq> ?old"
      using inv o(1) by (auto simp: pool_inv_def paths_def)
    then have "?new \<notin> set (map cg_path (ps_held s) @ map cg_path (pl_cgroups pool'))"
      using fresh by blast
    with base cg Inr unat_succ [OF seq] take_effect(2) [OF take] o(2) show ?thesis
      by (simp add: pool_inv_def paths_def lessThan_Suc)
  qed
qed

lemma pool_inv_release:
  assumes inv: "pool_inv s" and held: "cg \<in> set (ps_held s)" and k: "cg' = cg\<lparr>cg_killed := k\<rparr>"
    and rel: "release_cgroup env cg' (ps_pool s) (ps_fs s) = (pool', fs')"
  shows "pool_inv \<lparr>ps_pool = pool', ps_fs = fs', ps_held = remove1 cg (ps_held s)\<rparr>"
proof -
  have path: "cg_path cg' = cg_path cg" by (simp add: k)
  note e = release_effect [OF rel, unfolded path]
  obtain xs ys where h: "ps_held s = xs @ cg # ys" "remove1 cg (ps_held s) = xs @ ys"
    using held by (metis split_list_first remove1_append remove1.simps(2))
  define rest where "rest = map cg_path (xs @ ys) @ map cg_path (pl_cgroups (ps_pool s))"
  have P: "set (paths s) = insert (cg_path cg) (set rest)" "cg_path cg \<notin> set rest" "distinct rest"
    using inv by (auto simp: pool_inv_def paths_def h(1) rest_def)
  have sub: "set rest \<subseteq> dom (ps_fs s)" "cg_path cg \<in> dom (ps_fs s)" using inv P(1) by (auto simp: pool_inv_def)
  have dom: "set rest \<subseteq> dom fs'" "cg_path cg \<in> dom (ps_fs s)"
    using same_dirs_keeps [of "{cg_path cg}" "{}" "ps_fs s" fs' "set rest"] e sub P(2) by auto
  have num: "insert (cg_path cg) (set rest) \<subseteq> numbered (pl_pid (ps_pool s)) ` {..<unat (pl_seq (ps_pool s))}"
    using inv P(1) by (simp add: pool_inv_def)
  show ?thesis
  proof (cases "pl_cgroups pool' = pl_cgroups (ps_pool s)")
    case True
    then have "paths \<lparr>ps_pool = pool', ps_fs = fs', ps_held = xs @ ys\<rparr> = rest"
      by (simp add: paths_def rest_def)
    with True e inv P(3) dom(1) num show ?thesis by (simp add: pool_inv_def h(2))
  next
    case False
    with e obtain k' where p: "pl_cgroups pool' = pl_cgroups (ps_pool s) @ [cg'\<lparr>cg_killed := k'\<rparr>]"
        "length (pl_cgroups (ps_pool s)) < MAX_POOLED_CGROUPS" "cg_path cg \<in> dom fs'"
      using dom(2) by auto
    then have "paths \<lparr>ps_pool = pool', ps_fs = fs', ps_held = xs @ ys\<rparr> = rest @ [cg_path cg]"
      by (simp add: paths_def rest_def path)
    with p e P(2,3) dom(1) num show ?thesis by (simp add: pool_inv_def h(2))
  qed
qed

lemma pool_inv_step: "pstep s s' \<Longrightarrow> pool_inv s \<Longrightarrow> pool_inv s'"
proof (induction rule: pstep.induct)
  case (take_ok env l s cg pool' fs')
  from pool_inv_take [OF take_ok(3,1,2)] show ?case by simp
next
  case (take_err env l s e pool' fs')
  from pool_inv_take [OF take_err(3,1,2)] show ?case by simp
next
  case (release cg s cg' env pool' fs')
  have "\<exists>k. cg' = cg\<lparr>cg_killed := k\<rparr>" using release(2) cgroup_self by metis
  with pool_inv_release [OF release(4,1) _ release(3)] show ?case by blast
next
  case (activity fs' s)
  then show ?case by (simp add: pool_inv_def paths_def)
qed

lemma pool_inv_reach: "preach s \<Longrightarrow> pool_inv s"
proof (induction rule: preach.induct)
  case (init pid fs)
  then show ?case by (simp add: pool_inv_def pool_init_def paths_def)
next
  case (step s s')
  then show ?case using pool_inv_step by blast
qed

text \<open>
  C3. In every reachable state of the launcher, with any interleaving of launches and releases and any
  failures of the kernel interface, no cgroup belongs to two owners: the cgroups that live requests
  hold and the pooled ones are pairwise different directories, all of them exist, and the pool never
  exceeds its bound. (As long as the 32-bit name counter has not wrapped.)
\<close>

theorem cgroups_are_exclusive:
  assumes "preach s"
  shows "distinct (map cg_path (ps_held s) @ map cg_path (pl_cgroups (ps_pool s))) \<and>
    cg_path ` set (ps_held s) \<subseteq> dom (ps_fs s) \<and>
    length (pl_cgroups (ps_pool s)) \<le> 128"
  using pool_inv_reach [OF assms] by (auto simp: pool_inv_def paths_def MAX_POOLED_CGROUPS_def)

definition all_ok :: cg_env where
  "all_ok = \<lparr>ce_write_ok = (\<lambda>_ _. True), ce_read_ok = (\<lambda>_. True), ce_drains = (\<lambda>_. True), ce_open_ok = (\<lambda>_ _. True),
     ce_mkdir_ok = (\<lambda>_. True), ce_root_ok = True\<rparr>"

lemma fd_writes_all_ok: "fst (fd_writes all_ok p ws fs) = Inr ()"
  by (induction all_ok p ws fs rule: fd_writes.induct) (simp_all add: all_ok_def)

lemma first_take:
  "\<exists>cg pool' fs'. take_cgroup all_ok l (ps_pool (pool_init 7 Map.empty)) (ps_fs (pool_init 7 Map.empty)) =
     (Inr cg, pool', fs')"
proof -
  let ?i = "pool_init 7 Map.empty"
  obtain fs1 where "fd_writes all_ok (path_join CGROUP_ROOT (pool_name (ps_pool ?i))) (limit_writes True l)
      (mkdir_group (path_join CGROUP_ROOT (pool_name (ps_pool ?i))) Map.empty) = (Inr (), fs1)"
    using fd_writes_all_ok by (metis prod.collapse)
  then have "\<exists>cg. cg_create all_ok (pool_name (ps_pool ?i)) l Map.empty = (Inr cg, fs1)"
    by (simp add: cg_create_def Let_def cg_configure_def clear_leftover_def all_ok_def list_all_iff)
  then show ?thesis by (auto simp: take_cgroup_def pool_init_def Let_def)
qed

theorem cgroups_are_exclusive_witness:
  "\<exists>s cg. preach s \<and> ps_held s = [cg] \<and> cg_path ` set (ps_held s) \<subseteq> dom (ps_fs s)"
proof -
  let ?i = "pool_init 7 Map.empty"
  obtain cg pool' fs' where t: "take_cgroup all_ok undefined (ps_pool ?i) (ps_fs ?i) = (Inr cg, pool', fs')"
    using first_take by blast
  let ?s = "\<lparr>ps_pool = pool', ps_fs = fs', ps_held = [cg]\<rparr>"
  have "pstep ?i ?s" using take_ok [OF t] by (simp add: pool_init_def)
  then have r: "preach ?s" using init step by blast
  from cgroups_are_exclusive [OF r] r show ?thesis by (intro exI [of _ ?s] exI [of _ cg]) simp
qed

section \<open>Limits on taking, killed cgroups on releasing\<close>

text \<open>
  A launched sandbox runs under its own request's limits, whether its cgroup is new or recycled
  from an earlier tenant: after a successful take the kernel shows the requested memory, process and
  CPU limits, the weight clamped to the kernel's range, and no swap where the kernel accounts for it.
\<close>

theorem taken_cgroup_has_request_limits:
  assumes "preach s" "take_cgroup env l (ps_pool s) (ps_fs s) = (Inr cg, pool', fs')"
  shows "\<exists>g. fs' (cg_path cg) = Some g \<and> shows_limits (cg_swap cg) l g"
  using take_effect(1) [OF assms(2)]
proof
  assume "\<exists>cg'. Inr cg = Inr cg' \<and> pl_cgroups (ps_pool s) = pl_cgroups pool' @ [cg'] \<and>
    pl_seq pool' = pl_seq (ps_pool s) \<and> same_dirs {} (ps_fs s) fs' \<and>
    cg_configure env cg' l (ps_fs s) = (Inr (), fs')"
  moreover from this pool_inv_reach [OF assms(1)] have "cg_path cg \<in> dom (ps_fs s)"
    by (auto simp: pool_inv_def paths_def)
  ultimately show ?thesis using configure_shows by blast
next
  assume "\<exists>old fs1. pl_cgroups (ps_pool s) = pl_cgroups pool' @ old \<and>
    pl_seq pool' = pl_seq (ps_pool s) + 1 \<and> same_dirs (cg_path ` set old) (ps_fs s) fs1 \<and>
    cg_create env (pool_name (ps_pool s)) l fs1 = (Inr cg, fs')"
  then obtain fs1 where c: "cg_create env (pool_name (ps_pool s)) l fs1 = (Inr cg, fs')" by blast
  then obtain fs2 where "cg_configure env cg l (mkdir_group (cg_path cg) fs2) = (Inr (), fs')"
    by (auto simp: cg_create_def Let_def split: if_splits prod.splits sum.splits)
  moreover have "mkdir_group (cg_path cg) fs2 (cg_path cg) \<noteq> None"
    by (simp add: mkdir_group_def split: option.split)
  ultimately show ?thesis using configure_shows by blast
qed

theorem taken_cgroup_has_request_limits_witness:
  "\<exists>cg pool' fs' g. take_cgroup all_ok (limits_resolve minimal_settings) (ps_pool (pool_init 7 Map.empty))
       (ps_fs (pool_init 7 Map.empty)) = (Inr cg, pool', fs') \<and>
     fs' (cg_path cg) = Some g \<and> shows_limits (cg_swap cg) (limits_resolve minimal_settings) g"
  using first_take [of "limits_resolve minimal_settings"]
    taken_cgroup_has_request_limits [OF preach.init] by metis

text \<open>
  A cgroup that was killed before it is released never returns to the pool. One that is found
  populated on release does: it is killed at that point, waited for and pushed, with the kernel's
  kill mark set, although the code's own comments say that such a cgroup must be removed because a
  child cloned into it dies at birth.
\<close>

theorem release_pools_killed_cgroup:
  "(cg_killed cg \<longrightarrow> pl_cgroups (fst (release_cgroup env cg pool fs)) = pl_cgroups pool) \<and>
   (\<exists>fs'. release_cgroup all_ok \<lparr>cg_path = ''/p'', cg_swap = True, cg_killed = False\<rparr>
       \<lparr>pl_cgroups = [], pl_seq = 1, pl_pid = 7\<rparr> [''/p'' \<mapsto> \<lparr>kg_files = Map.empty, kg_populated = True, kg_kill = False\<rparr>] =
     (\<lparr>pl_cgroups = [\<lparr>cg_path = ''/p'', cg_swap = True, cg_killed = True\<rparr>], pl_seq = 1, pl_pid = 7\<rparr>, fs') \<and>
     map_option kg_kill (fs' ''/p'') = Some True)"
  by (simp add: release_cgroup_def cg_is_populated_def cg_kill_all_def cg_wait_empty_def all_ok_def
      pool_put_def MAX_POOLED_CGROUPS_def cg_reset_peaks_def write_file_def)

theorem release_pools_killed_cgroup_witness:
  "pl_cgroups (fst (release_cgroup all_ok \<lparr>cg_path = ''/p'', cg_swap = True, cg_killed = True\<rparr>
      \<lparr>pl_cgroups = [], pl_seq = 1, pl_pid = 7\<rparr> Map.empty)) = []"
  using release_pools_killed_cgroup [of "\<lparr>cg_path = ''/p'', cg_swap = True, cg_killed = True\<rparr>" all_ok
      "\<lparr>pl_cgroups = [], pl_seq = 1, pl_pid = 7\<rparr>" Map.empty]
  by simp

end
