(* ===== verification/RB_Seccomp.thy ===== *)
theory RB_Seccomp
  imports RB_Spec
begin

text \<open>
  The seccomp filters (\<^verbatim>\<open>kernel/src/linux/seccomp.rs\<close>). System calls are named by their \<^verbatim>\<open>libc\<close>
  constants; the rule table is the source's. Turning a table into BPF is the work of the
  third-party \<^verbatim>\<open>seccompiler\<close> crate: its documented verdict is the law of the locale.
\<close>

section \<open>Rules\<close>

datatype arch = X86_64 | Aarch64

datatype cond = MaskedEq nat u64 u64           \<comment> \<open>argument index, mask, value\<close>

type_synonym rule = "cond list"
type_synonym rules = "(string, rule list) btree"

datatype action = Allow | Errno nat

record seccomp_filter =
  f_rules :: rules
  f_mismatch :: action
  f_match :: action
  f_arch :: arch

definition or_default :: "string \<Rightarrow> rules \<Rightarrow> rules" where
  "or_default sc m = bt_or_insert sc [] m"

definition push_rule :: "string \<Rightarrow> rule \<Rightarrow> rules \<Rightarrow> rules" where
  "push_rule sc r m =
     (case bt_get m sc of None \<Rightarrow> bt_insert sc [r] m | Some rs \<Rightarrow> bt_insert sc (rs @ [r]) m)"

definition all_default :: "string list \<Rightarrow> rules \<Rightarrow> rules" where
  "all_default scs m = fold or_default scs m"

section \<open>Tables\<close>

definition BASE_SYSCALLS :: "string list" where
  "BASE_SYSCALLS =
     [''read'', ''write'', ''close'', ''openat'', ''fstat'', ''newfstatat'', ''lseek'', ''mmap'',
      ''munmap'', ''mprotect'', ''brk'', ''rt_sigaction'', ''rt_sigprocmask'', ''rt_sigreturn'',
      ''sigaltstack'', ''pread64'', ''pwrite64'', ''readv'', ''writev'', ''ppoll'', ''pselect6'',
      ''clock_gettime'', ''clock_getres'', ''clock_nanosleep'', ''gettimeofday'', ''nanosleep'',
      ''getrandom'', ''futex'', ''getpid'', ''getppid'', ''getuid'', ''getgid'', ''geteuid'',
      ''getegid'', ''gettid'', ''exit'', ''exit_group'', ''set_robust_list'',
      ''set_tid_address'', ''rseq'', ''faccessat'', ''faccessat2'', ''readlinkat'', ''fcntl'',
      ''pipe2'', ''dup3'', ''eventfd2'', ''signalfd4'', ''timerfd_create'', ''timerfd_settime'',
      ''epoll_create1'', ''epoll_ctl'', ''epoll_pwait'', ''io_uring_setup'', ''io_uring_enter'',
      ''io_uring_register'', ''madvise'', ''getcwd'', ''chdir'', ''fchdir'', ''umask'',
      ''ioctl'', ''mkdirat'', ''unlinkat'', ''renameat'', ''renameat2'', ''linkat'',
      ''symlinkat'', ''ftruncate'', ''truncate'', ''fchmod'', ''fchmodat'', ''fchown'',
      ''fchownat'', ''utimensat'', ''copy_file_range'', ''splice'', ''tee'', ''vmsplice'',
      ''fsync'', ''fdatasync'', ''sync_file_range'', ''fallocate'', ''statfs'', ''fstatfs'',
      ''getxattr'', ''fgetxattr'', ''listxattr'', ''flistxattr'', ''prctl'', ''capset'',
      ''capget'', ''setrlimit'', ''prlimit64'', ''getrlimit'', ''getdents64'', ''statx'',
      ''uname'', ''sysinfo'', ''wait4'', ''waitid'', ''tgkill'', ''kill'', ''restart_syscall'',
      ''rt_sigtimedwait'', ''rt_sigsuspend'', ''getpriority'', ''setpriority'',
      ''sched_setaffinity'', ''get_mempolicy'', ''membarrier'', ''mremap'', ''mlock'',
      ''munlock'', ''clock_settime'', ''socketpair'']"

definition INTERP_EXTRA :: "string list" where
  "INTERP_EXTRA =
     [''getdents64'', ''statx'', ''prlimit64'', ''sched_getaffinity'', ''sched_yield'']"

definition JIT_EXTRA :: "string list" where
  "JIT_EXTRA =
     [''pkey_alloc'', ''pkey_mprotect'', ''membarrier'', ''mremap'']"

definition GO_EXTRA :: "string list" where
  "GO_EXTRA =
     [''tgkill'', ''prctl'']"

definition RL_EXTRA :: "string list" where
  "RL_EXTRA =
     [''shmget'', ''shmat'', ''shmdt'', ''shmctl'', ''semget'', ''semop'', ''memfd_create'']"

definition COMPILER_EXTRA :: "string list" where
  "COMPILER_EXTRA =
     [''getdents64'', ''statx'', ''prlimit64'', ''wait4'', ''waitid'', ''kill'', ''tgkill'',
      ''pipe2'', ''mremap'', ''prctl'', ''dup'', ''dup3'', ''setpgid'', ''getpgid'', ''setsid'',
      ''getsid'']"

definition NET_SYSCALLS :: "string list" where
  "NET_SYSCALLS =
     [''socket'', ''socketpair'', ''connect'', ''bind'', ''listen'', ''accept'', ''accept4'',
      ''getsockname'', ''getpeername'', ''getsockopt'', ''setsockopt'', ''shutdown'', ''sendto'',
      ''recvfrom'', ''sendmsg'', ''recvmsg'', ''sendmmsg'', ''recvmmsg'']"

fun ARCH_STARTUP :: "arch \<Rightarrow> string list" where
  "ARCH_STARTUP X86_64 = [''arch_prctl'', ''set_tid_address'', ''set_robust_list'', ''rseq'']"
| "ARCH_STARTUP Aarch64 = [''set_tid_address'', ''set_robust_list'', ''rseq'']"

text \<open>The namespace bits of the clone flags.\<close>

definition CLONE_NEWNS :: u64 where "CLONE_NEWNS = 0x00020000"
definition CLONE_NEWCGROUP :: u64 where "CLONE_NEWCGROUP = 0x02000000"
definition CLONE_NEWUTS :: u64 where "CLONE_NEWUTS = 0x04000000"
definition CLONE_NEWIPC :: u64 where "CLONE_NEWIPC = 0x08000000"
definition CLONE_NEWUSER :: u64 where "CLONE_NEWUSER = 0x10000000"
definition CLONE_NEWPID :: u64 where "CLONE_NEWPID = 0x20000000"
definition CLONE_NEWNET :: u64 where "CLONE_NEWNET = 0x40000000"

lemmas clone_bits = CLONE_NEWNS_def CLONE_NEWCGROUP_def CLONE_NEWUTS_def CLONE_NEWIPC_def
  CLONE_NEWUSER_def CLONE_NEWPID_def CLONE_NEWNET_def

definition NEW_NS_MASK :: u64 where
  "NEW_NS_MASK = CLONE_NEWUSER OR CLONE_NEWPID OR CLONE_NEWNS OR CLONE_NEWNET OR CLONE_NEWIPC OR
     CLONE_NEWUTS OR CLONE_NEWCGROUP"

definition pthread_clone_rule :: rule where
  "pthread_clone_rule = [MaskedEq 0 NEW_NS_MASK 0]"

section \<open>Filters\<close>

fun profile_extra :: "arch \<Rightarrow> seccomp_profile \<Rightarrow> string list" where
  "profile_extra a InterpAot = INTERP_EXTRA @ [''execve'', ''execveat'']"
| "profile_extra a InterpJit = INTERP_EXTRA @ JIT_EXTRA @ [''execve'', ''execveat'']"
| "profile_extra a NativeJit = JIT_EXTRA @ [''execve'']"
| "profile_extra a GoProfile = INTERP_EXTRA @ JIT_EXTRA @ GO_EXTRA @ [''execve'']"
| "profile_extra a RlStepProfile = INTERP_EXTRA @ JIT_EXTRA @ RL_EXTRA @ [''execve'']"
| "profile_extra a RelaxedCompiler =
     COMPILER_EXTRA @ [''execve'', ''execveat''] @ (if a = X86_64 then [''fork'', ''vfork''] else [])"

definition EPERM :: nat where "EPERM = 1"

definition build_filter :: "arch \<Rightarrow> seccomp_profile \<Rightarrow> seccomp_filter" where
  "build_filter a p =
     (let rules = all_default BASE_SYSCALLS [];
          rules = push_rule ''clone'' pthread_clone_rule (or_default ''clone'' rules);
          rules = or_default ''clone3'' rules;
          rules = all_default (ARCH_STARTUP a) rules;
          rules = all_default NET_SYSCALLS rules;
          rules = all_default (profile_extra a p) rules
      in \<lparr>f_rules = rules, f_mismatch = Errno EPERM, f_match = Allow, f_arch = a\<rparr>)"

text \<open>\<^verbatim>\<open>raw_bytes\<close>: eight bytes per instruction, in the byte order of the two supported hosts.\<close>

record sock_filter =
  bf_code :: "16 word"
  bf_jt :: byte
  bf_jf :: byte
  bf_k :: u32

definition raw_bytes :: "sock_filter list \<Rightarrow> byte list" where
  "raw_bytes prog =
     concat (map (\<lambda>f. le_bytes 2 (unat (bf_code f)) @ [bf_jt f] @ [bf_jf f] @ u32_le (bf_k f)) prog)"

text \<open>The resolver's cache: every profile is compiled once, later requests get the same program.\<close>

type_synonym seccomp_cache = "seccomp_profile \<rightharpoonup> sock_filter list"

definition seccomp_compile ::
    "(seccomp_filter \<Rightarrow> string + sock_filter list) \<Rightarrow> arch \<Rightarrow> seccomp_profile \<Rightarrow> seccomp_cache \<Rightarrow>
     (sandbox_error + sock_filter list) \<times> seccomp_cache" where
  "seccomp_compile to_bpf a p cache =
     (case cache p of
        Some prog \<Rightarrow> (Inr prog, cache)
      | None \<Rightarrow>
          (case to_bpf (build_filter a p) of
             Inl e \<Rightarrow> (Inl (Seccomp e), cache)
           | Inr prog \<Rightarrow> (Inr prog, cache(p \<mapsto> prog))))"

definition ALL_PROFILES :: "seccomp_profile list" where
  "ALL_PROFILES = [InterpAot, InterpJit, NativeJit, GoProfile, RlStepProfile, RelaxedCompiler]"

definition seccomp_new :: "(seccomp_filter \<Rightarrow> string + sock_filter list) \<Rightarrow> arch \<Rightarrow> seccomp_cache" where
  "seccomp_new to_bpf a = fold (\<lambda>p c. snd (seccomp_compile to_bpf a p c)) ALL_PROFILES Map.empty"

section \<open>Verdicts\<close>

text \<open>A condition compares a masked argument with a value.\<close>

fun cond_holds :: "u64 list \<Rightarrow> cond \<Rightarrow> bool" where
  "cond_holds args (MaskedEq i msk v) \<longleftrightarrow> i < length args \<and> args ! i AND msk = v"

text \<open>
  The documented behaviour of \<^verbatim>\<open>seccompiler\<close>: a call without an entry gets the mismatch action, a
  call with an empty rule list the match action, and a call with rules the match action exactly if
  all conditions of one of them hold.
\<close>

locale seccomp_backend =
  fixes verdict :: "seccomp_filter \<Rightarrow> string \<Rightarrow> u64 list \<Rightarrow> action"
  assumes no_entry: "bt_get (f_rules f) sc = None \<Longrightarrow> verdict f sc args = f_mismatch f"
    and unconditional: "bt_get (f_rules f) sc = Some [] \<Longrightarrow> verdict f sc args = f_match f"
    and conditional: "bt_get (f_rules f) sc = Some (r # rs) \<Longrightarrow>
          verdict f sc args = (if list_ex (list_all (cond_holds args)) (r # rs) then f_match f else f_mismatch f)"
begin

lemma allowed_iff:
  assumes "f_match f = Allow" "f_mismatch f = Errno n"
  shows "verdict f sc args = Allow \<longleftrightarrow>
    (\<exists>rs. bt_get (f_rules f) sc = Some rs \<and> (rs = [] \<or> list_ex (list_all (cond_holds args)) rs))"
proof (cases "bt_get (f_rules f) sc")
  case None
  with assms no_entry show ?thesis by simp
next
  case (Some rs)
  with assms unconditional conditional show ?thesis by (cases rs) auto
qed

end

definition rule_verdict :: "seccomp_filter \<Rightarrow> string \<Rightarrow> u64 list \<Rightarrow> action" where
  "rule_verdict f sc args =
     (case bt_get (f_rules f) sc of
        None \<Rightarrow> f_mismatch f
      | Some rs \<Rightarrow> if rs = [] \<or> list_ex (list_all (cond_holds args)) rs then f_match f else f_mismatch f)"

interpretation rv: seccomp_backend rule_verdict
  by unfold_locales (auto simp: rule_verdict_def)

section \<open>What the tables allow\<close>

lemma get_all_default:
  "bt_get (all_default scs m) sc = (if bt_get m sc = None \<and> sc \<in> set scs then Some [] else bt_get m sc)"
  unfolding all_default_def
  by (induction scs arbitrary: m) (auto simp: or_default_def)

lemma get_push_rule:
  "bt_get (push_rule k r m) sc =
     (if sc = k then Some (case bt_get m k of None \<Rightarrow> [r] | Some rs \<Rightarrow> rs @ [r]) else bt_get m sc)"
  by (simp add: push_rule_def split: option.split)

definition table_names :: "arch \<Rightarrow> seccomp_profile \<Rightarrow> string list" where
  "table_names a p =
     BASE_SYSCALLS @ [''clone3''] @ ARCH_STARTUP a @ NET_SYSCALLS @ profile_extra a p"

lemma no_clone_in_base: "''clone'' \<notin> set BASE_SYSCALLS" "''clone3'' \<notin> set BASE_SYSCALLS"
  by code_simp+

lemma build_filter_get:
  "bt_get (f_rules (build_filter a p)) sc =
     (if sc = ''clone'' then Some [pthread_clone_rule]
      else if sc \<in> set (table_names a p) then Some [] else None)"
  using no_clone_in_base
  by (auto simp: build_filter_def Let_def get_all_default get_push_rule or_default_def table_names_def)

lemma build_filter_actions [simp]:
  "f_match (build_filter a p) = Allow" "f_mismatch (build_filter a p) = Errno EPERM"
  by (simp_all add: build_filter_def Let_def)

section \<open>Properties\<close>

text \<open>System calls that would undo or escape the other layers.\<close>

definition DANGEROUS :: "string list" where
  "DANGEROUS =
     [''ptrace'', ''kexec_load'', ''kexec_file_load'', ''init_module'', ''finit_module'', ''delete_module'',
      ''mount'', ''umount2'', ''pivot_root'', ''chroot'', ''unshare'', ''setns'', ''keyctl'', ''quotactl'',
      ''reboot'', ''swapon'', ''swapoff'', ''add_key'', ''request_key'', ''userfaultfd'',
      ''process_vm_writev'', ''bpf'', ''setuid'', ''setresuid'', ''open_by_handle_at'', ''perf_event_open'',
      ''move_mount'', ''open_tree'', ''fsopen'', ''fsmount'', ''mknodat'']"

definition some_table :: "string list" where
  "some_table = BASE_SYSCALLS @ ARCH_STARTUP X86_64 @ NET_SYSCALLS @ INTERP_EXTRA @ JIT_EXTRA @ GO_EXTRA @
     RL_EXTRA @ COMPILER_EXTRA @ [''clone'', ''clone3'', ''execve'', ''execveat'', ''fork'', ''vfork'']"

lemma table_names_subset: "set (table_names a p) \<subseteq> set some_table"
  by (cases a; cases p) (auto simp: table_names_def some_table_def)

lemma dangerous_not_in_some_table: "list_all (\<lambda>sc. sc \<notin> set some_table) DANGEROUS"
  by (simp add: DANGEROUS_def some_table_def BASE_SYSCALLS_def NET_SYSCALLS_def INTERP_EXTRA_def
      JIT_EXTRA_def GO_EXTRA_def RL_EXTRA_def COMPILER_EXTRA_def)

lemma dangerous_not_in_tables:
  "list_all (\<lambda>sc. sc \<noteq> ''clone'' \<and> sc \<notin> set (table_names a p)) DANGEROUS"
proof -
  have "''clone'' \<in> set some_table" by (simp add: some_table_def)
  with dangerous_not_in_some_table table_names_subset [of a p] show ?thesis
    by (auto simp: list_all_iff)
qed

text \<open>
  C34. Under every profile and on both architectures, each system call on the list of dangerous ones
  (tracing, module loading, mounts, namespaces, keys, bpf and the like) gets \<^verbatim>\<open>EPERM\<close> whatever its
  arguments, and so does every call that is in none of the tables: the filter is an allow-list.
\<close>

theorem dangerous_syscalls_denied:
  assumes "seccomp_backend verdict"
    and "sc \<in> set DANGEROUS \<or> sc \<noteq> ''clone'' \<and> sc \<notin> set (table_names a p)"
  shows "verdict (build_filter a p) sc args = Errno EPERM"
proof -
  have "sc \<noteq> ''clone'' \<and> sc \<notin> set (table_names a p)"
    using assms(2) dangerous_not_in_tables [of a p] by (auto simp: list_all_iff)
  then have "bt_get (f_rules (build_filter a p)) sc = None" by (simp add: build_filter_get)
  from seccomp_backend.no_entry [OF assms(1) this] show ?thesis by simp
qed

theorem dangerous_syscalls_denied_witness:
  "rule_verdict (build_filter X86_64 InterpAot) ''ptrace'' [0, 1] = Errno EPERM"
  by (rule dangerous_syscalls_denied [OF rv.seccomp_backend_axioms]) (simp add: DANGEROUS_def)

text \<open>
  A thread or process created with \<^verbatim>\<open>clone\<close> is allowed exactly if none of the seven namespace
  flags is set in its first argument.
\<close>

theorem clone_allows_no_new_namespace:
  assumes "seccomp_backend verdict" "args \<noteq> []"
  shows "verdict (build_filter a p) ''clone'' args = Allow \<longleftrightarrow>
    list_all (\<lambda>bit. hd args AND bit = 0)
      [CLONE_NEWUSER, CLONE_NEWPID, CLONE_NEWNS, CLONE_NEWNET, CLONE_NEWIPC, CLONE_NEWUTS, CLONE_NEWCGROUP]"
proof -
  have or0: "x AND (y OR z) = 0 \<longleftrightarrow> x AND y = 0 \<and> x AND z = 0" for x y z :: u64
    by (simp add: bit.conj_disj_distrib or_eq_0_iff)
  have "verdict (build_filter a p) ''clone'' args = Allow \<longleftrightarrow> hd args AND NEW_NS_MASK = 0"
    using seccomp_backend.allowed_iff [OF assms(1), of "build_filter a p" EPERM "''clone''" args] assms(2)
    by (simp add: build_filter_get pthread_clone_rule_def hd_conv_nth)
  then show ?thesis by (simp add: NEW_NS_MASK_def or0 conj_ac)
qed

theorem clone_allows_no_new_namespace_witness:
  "rule_verdict (build_filter X86_64 GoProfile) ''clone'' [0x10000000] \<noteq> Allow"
  using clone_allows_no_new_namespace [OF rv.seccomp_backend_axioms, of "[0x10000000]" X86_64 GoProfile]
  by (simp add: clone_bits)

text \<open>
  The same restriction does not hold for \<^verbatim>\<open>clone3\<close>: every profile allows it with any arguments, so
  the stated invariant of the clone rule (no new namespaces) is not enforced by the filter.
\<close>

theorem clone3_is_unrestricted:
  assumes "seccomp_backend verdict"
  shows "verdict (build_filter a p) ''clone3'' args = Allow"
  using seccomp_backend.unconditional [OF assms, of "build_filter a p" "''clone3''" args]
  by (simp add: build_filter_get table_names_def)

theorem clone3_is_unrestricted_witness:
  "rule_verdict (build_filter Aarch64 RlStepProfile) ''clone3'' [] = Allow"
  by (rule clone3_is_unrestricted [OF rv.seccomp_backend_axioms])

text \<open>The calls the child still makes after loading its filter.\<close>

definition AFTER_SECCOMP :: "string list" where
  "AFTER_SECCOMP = [''prctl'', ''capset'', ''prlimit64'', ''setrlimit'', ''execve'']"

lemma after_seccomp_in_tables: "list_all (\<lambda>sc. sc \<noteq> ''clone'' \<and> sc \<in> set (table_names a p)) AFTER_SECCOMP"
proof -
  have "''execve'' \<in> set (profile_extra a p)" by (cases p) simp_all
  moreover have "''prctl'' \<in> set BASE_SYSCALLS" "''capset'' \<in> set BASE_SYSCALLS"
      "''prlimit64'' \<in> set BASE_SYSCALLS" "''setrlimit'' \<in> set BASE_SYSCALLS"
    by (simp_all add: BASE_SYSCALLS_def)
  ultimately show ?thesis by (simp add: AFTER_SECCOMP_def table_names_def)
qed

text \<open>
  No profile locks the launcher out: the capability drop, the resource limits and the final
  \<^verbatim>\<open>execve\<close>, which the child performs after loading the filter, are allowed by every profile.
\<close>

theorem launch_calls_allowed:
  assumes "seccomp_backend verdict" "sc \<in> set AFTER_SECCOMP"
  shows "verdict (build_filter a p) sc args = Allow"
proof -
  have "bt_get (f_rules (build_filter a p)) sc = Some []"
    using after_seccomp_in_tables [of a p] assms(2) by (auto simp: list_all_iff build_filter_get)
  from seccomp_backend.unconditional [OF assms(1) this] show ?thesis by simp
qed

theorem launch_calls_allowed_witness:
  "rule_verdict (build_filter X86_64 NativeJit) ''execve'' [1, 2, 3] = Allow"
  by (rule launch_calls_allowed [OF rv.seccomp_backend_axioms]) (simp add: AFTER_SECCOMP_def)

lemma length_raw_bytes: "length (raw_bytes prog) = 8 * length prog"
  by (induction prog) (simp_all add: raw_bytes_def)

lemma seccomp_new_compiles:
  assumes "\<forall>f. is_ok (to_bpf f)"
  shows "\<exists>prog. to_bpf (build_filter a p) = Inr prog \<and>
    seccomp_compile to_bpf a p (seccomp_new to_bpf a) = (Inr prog, seccomp_new to_bpf a)"
proof -
  have ok: "\<exists>prog. to_bpf (build_filter a q) = Inr prog" for q
    using assms [rule_format, of "build_filter a q"] by (cases "to_bpf (build_filter a q)") auto
  have "seccomp_new to_bpf a q = (case to_bpf (build_filter a q) of Inr prog \<Rightarrow> Some prog | Inl _ \<Rightarrow> None)" for q
    using ok [of InterpAot] ok [of InterpJit] ok [of NativeJit] ok [of GoProfile] ok [of RlStepProfile]
      ok [of RelaxedCompiler]
    by (cases q) (auto simp: seccomp_new_def ALL_PROFILES_def seccomp_compile_def)
  with ok [of p] show ?thesis by (auto simp: seccomp_compile_def)
qed

end
