(* ===== verification/RB_Catalog.thy ===== *)
theory RB_Catalog
  imports RB_Settings RB_Policy
begin

text \<open>
  The runtime catalog (\<^verbatim>\<open>engine/src/runtime_catalog.rs\<close>): the built-in runtimes, and the registry of
  custom environments described by JSON files on disk, memoised by modification time. The JSON
  decoder, canonicalisation and the process environment are arguments.
\<close>

section \<open>Entries\<close>

record runtime_entry =
  re_name :: string
  re_language :: language
  re_flake_lock :: string
  re_executable :: string
  re_explicit_bin :: "string option"
  re_baseline_caps :: "capability list"
  re_baseline_env :: "(string \<times> string) list"
  re_interpreter_flags :: "string list"
  re_bin :: "(string + string) option"      \<comment> \<open>the \<^verbatim>\<open>OnceLock\<close> cells\<close>
  re_lock :: "byte list option"

definition entry_flags ::
    "string \<Rightarrow> language \<Rightarrow> string \<Rightarrow> string \<Rightarrow> capability list \<Rightarrow> (string \<times> string) list \<Rightarrow> string list \<Rightarrow>
     runtime_entry" where
  "entry_flags name lang flake_lock executable caps env flags =
     \<lparr>re_name = name, re_language = lang, re_flake_lock = flake_lock, re_executable = executable,
      re_explicit_bin = None, re_baseline_caps = caps, re_baseline_env = env,
      re_interpreter_flags = flags, re_bin = None, re_lock = None\<rparr>"

definition entry ::
    "string \<Rightarrow> language \<Rightarrow> string \<Rightarrow> string \<Rightarrow> capability list \<Rightarrow> (string \<times> string) list \<Rightarrow> runtime_entry" where
  "entry name lang flake_lock executable caps env = entry_flags name lang flake_lock executable caps env []"

text \<open>
  The process environment and file system as the catalog sees them: \<^verbatim>\<open>$PATH\<close> split into
  directories, plain-file tests, canonicalisation and file contents.
\<close>

record host_env =
  he_path_dirs :: "string list option"
  he_is_file :: "string \<Rightarrow> bool"
  he_canonicalize :: "string \<Rightarrow> string + string"
  he_read :: "string \<Rightarrow> byte list option"
  he_mtime :: "string \<Rightarrow> nat option"
  he_custom_dir :: string

fun path_walk :: "host_env \<Rightarrow> string \<Rightarrow> string list \<Rightarrow> string + string" where
  "path_walk he exe [] = Inl (exe @ '' not found on $PATH'')"
| "path_walk he exe (dir # dirs) =
     (let candidate = path_join dir exe in
      if he_is_file he candidate then he_canonicalize he candidate else path_walk he exe dirs)"

definition resolve_bin_uncached :: "host_env \<Rightarrow> runtime_entry \<Rightarrow> string + string" where
  "resolve_bin_uncached he e =
     (case re_explicit_bin e of
        Some pinned \<Rightarrow> he_canonicalize he pinned
      | None \<Rightarrow>
          (case he_path_dirs he of
             None \<Rightarrow> Inl ''$PATH is unset''
           | Some dirs \<Rightarrow> path_walk he (re_executable e) dirs))"

definition resolve_bin :: "host_env \<Rightarrow> runtime_entry \<Rightarrow> (string + string) \<times> runtime_entry" where
  "resolve_bin he e =
     (case re_bin e of
        Some r \<Rightarrow> (r, e)
      | None \<Rightarrow> let r = resolve_bin_uncached he e in (r, e\<lparr>re_bin := Some r\<rparr>))"

definition flake_lock_bytes :: "host_env \<Rightarrow> runtime_entry \<Rightarrow> byte list \<times> runtime_entry" where
  "flake_lock_bytes he e =
     (case re_lock e of
        Some b \<Rightarrow> (b, e)
      | None \<Rightarrow>
          let b = (case he_read he (re_flake_lock e) of Some b \<Rightarrow> b | None \<Rightarrow> as_bytes (re_name e))
          in (b, e\<lparr>re_lock := Some b\<rparr>))"

section \<open>Built-in runtimes\<close>

definition py_env :: "(string \<times> string) list" where
  "py_env = [(''PYTHONDONTWRITEBYTECODE'', ''1''), (''PYTHONUNBUFFERED'', ''1''), (''LANG'', ''C.UTF-8'')]"

definition build_catalog :: "runtime_entry list" where
  "build_catalog =
     [entry_flags ''python-base'' Python ''/etc/sandbox/flakes/python-base.lock'' ''python3''
        [Concurrency] py_env [''-S''],
      entry ''python-ml'' Python ''/etc/sandbox/flakes/python-ml.lock'' ''python3''
        [Concurrency, LargeFs]
        (py_env @ [(''MPLBACKEND'', ''Agg''), (''OMP_NUM_THREADS'', ''4''), (''MKL_NUM_THREADS'', ''4'')]),
      entry ''python-web'' Python ''/etc/sandbox/flakes/python-web.lock'' ''python3'' [Concurrency] py_env,
      entry ''ts-modern'' Typescript ''/etc/sandbox/flakes/ts-modern.lock'' ''node'' [Concurrency]
        [(''NODE_NO_WARNINGS'', ''1''), (''LANG'', ''C.UTF-8'')],
      entry ''ts-bun'' Typescript ''/etc/sandbox/flakes/ts-bun.lock'' ''bun'' [Concurrency]
        [(''BUN_INSTALL'', ''/tmp/.bun''), (''XDG_CACHE_HOME'', ''/tmp/.cache''), (''LANG'', ''C.UTF-8'')],
      entry ''go-std'' Go ''/etc/sandbox/flakes/go-std.lock'' ''go'' [Concurrency]
        [(''GOCACHE'', ''/tmp/go-cache''), (''GOFLAGS'', ''-mod=mod''), (''LANG'', ''C.UTF-8'')],
      entry ''rust-tokio'' Rust ''/etc/sandbox/flakes/rust-tokio.lock'' ''rustc'' [Concurrency]
        [(''CARGO_HOME'', ''/tmp/cargo''), (''LANG'', ''C.UTF-8'')],
      entry ''cpp-modern'' Cpp ''/etc/sandbox/flakes/cpp-modern.lock'' ''g++'' [Concurrency]
        [(''LANG'', ''C.UTF-8'')]]"

definition catalog :: "(string, runtime_entry) btree" where
  "catalog = fold (\<lambda>e. bt_insert (re_name e) e) build_catalog []"

fun default_name :: "language \<Rightarrow> string" where
  "default_name Python = ''python-base''"
| "default_name Typescript = ''ts-bun''"
| "default_name Go = ''go-std''"
| "default_name Rust = ''rust-tokio''"
| "default_name Cpp = ''cpp-modern''"

text \<open>\<open>None\<close> is the panic of \<^verbatim>\<open>expect\<close>.\<close>

definition default_for :: "language \<Rightarrow> runtime_entry option" where
  "default_for lang = bt_get catalog (default_name lang)"

section \<open>Custom environments\<close>

definition PREFIX :: string where "PREFIX = ''custom-''"

record descriptor =
  d_language :: language
  d_executable :: "string option"
  d_bin :: string
  d_env :: smap
  d_interpreter_flags :: "string list"
  d_lock_hex :: "string option"

record cached_entry =
  ce_loaded_at :: nat
  ce_entry :: "runtime_entry option"

type_synonym registry = "string \<rightharpoonup> cached_entry"

text \<open>
  \<^verbatim>\<open>valid_name\<close>: \<open>None\<close> is the panic of slicing a string inside a character (the byte at the cut is
  a UTF-8 continuation byte).
\<close>

definition valid_name :: "string \<Rightarrow> bool option" where
  "valid_name name =
     (if \<not> length PREFIX < length name then Some False
      else if \<not> length name \<le> length PREFIX + 64 then Some False
      else if cont_byte (byte_at (as_bytes name) (length PREFIX)) then None
      else Some (list_all (\<lambda>b. is_ascii_lowercase b \<or> is_ascii_digit b \<or> b = CHR ''-'')
                   (drop (length PREFIX) name)))"

definition custom_load ::
    "(byte list \<Rightarrow> descriptor option) \<Rightarrow> host_env \<Rightarrow> string \<Rightarrow> string \<Rightarrow> runtime_entry option" where
  "custom_load from_json he path name =
     (case he_read he path of
        None \<Rightarrow> None
      | Some raw \<Rightarrow>
          (case from_json raw of
             None \<Rightarrow> None
           | Some d \<Rightarrow>
               Some \<lparr>re_name = name, re_language = d_language d, re_flake_lock = path,
                     re_executable = (case d_executable d of Some e \<Rightarrow> e | None \<Rightarrow> ''python3''),
                     re_explicit_bin = Some (d_bin d), re_baseline_caps = [Concurrency],
                     re_baseline_env = d_env d @ [(''LANG'', ''C.UTF-8'')],
                     re_interpreter_flags = d_interpreter_flags d, re_bin = None,
                     re_lock = Some (raw @ (case d_lock_hex d of Some hex \<Rightarrow> as_bytes hex | None \<Rightarrow> []))\<rparr>))"

definition custom_path :: "host_env \<Rightarrow> string \<Rightarrow> string" where
  "custom_path he name = path_join (he_custom_dir he) (name @ ''.json'')"

datatype 'a panics = Panic | Returns 'a

definition custom_lookup ::
    "(byte list \<Rightarrow> descriptor option) \<Rightarrow> host_env \<Rightarrow> string \<Rightarrow> registry \<Rightarrow>
     (runtime_entry option \<times> registry) panics" where
  "custom_lookup from_json he name reg =
     (case valid_name name of
        None \<Rightarrow> Panic
      | Some False \<Rightarrow> Returns (None, reg)
      | Some True \<Rightarrow>
          let path = custom_path he name in
          (case he_mtime he path of
             None \<Rightarrow> Returns (None, reg)
           | Some mtime \<Rightarrow>
               (case reg name of
                  Some c \<Rightarrow>
                    if ce_loaded_at c = mtime then Returns (ce_entry c, reg)
                    else (let e = custom_load from_json he path name in
                          Returns (e, reg(name \<mapsto> \<lparr>ce_loaded_at = mtime, ce_entry = e\<rparr>)))
                | None \<Rightarrow>
                    (let e = custom_load from_json he path name in
                     Returns (e, reg(name \<mapsto> \<lparr>ce_loaded_at = mtime, ce_entry = e\<rparr>))))))"

definition runtime_lookup ::
    "(byte list \<Rightarrow> descriptor option) \<Rightarrow> host_env \<Rightarrow> string \<Rightarrow> registry \<Rightarrow>
     (runtime_entry option \<times> registry) panics" where
  "runtime_lookup from_json he name reg =
     (case bt_get catalog name of
        Some e \<Rightarrow> Returns (Some e, reg)
      | None \<Rightarrow> custom_lookup from_json he name reg)"

section \<open>Defaults\<close>

lemma catalog_get: "bt_get catalog name = map_of (rev (map (\<lambda>e. (re_name e, e)) build_catalog)) name"
proof -
  have "fold (\<lambda>e. bt_insert (re_name e) e) es m = fold (\<lambda>(k, v). bt_insert k v) (map (\<lambda>e. (re_name e, e)) es) m"
    for es :: "runtime_entry list" and m by (induction es arbitrary: m) simp_all
  then show ?thesis
    unfolding catalog_def by (simp add: bt.get_fold_insert split: option.splits)
qed

lemmas entry_defs = entry_flags_def entry_def build_catalog_def

text \<open>
  The default runtime of every language exists in the catalog, under its own name, for that
  language: choosing a default never panics, and a request without an explicit runtime never fails
  the language check.
\<close>

theorem default_runtime_exists:
  "\<exists>e. default_for lang = Some e \<and> re_name e = default_name lang \<and> re_language e = lang \<and>
       runtime_lookup from_json he (default_name lang) reg = Returns (Some e, reg)"
  by (cases lang) (simp_all add: default_for_def runtime_lookup_def catalog_get entry_defs)

section \<open>The memo is transparent\<close>

text \<open>
  The registry holds, for each name, what loading gave when the descriptor had the recorded
  modification time. \<open>hist\<close> is the history of descriptor contents: the file's bytes at each time.
\<close>

definition reg_inv ::
    "(byte list \<Rightarrow> descriptor option) \<Rightarrow> (string \<Rightarrow> nat \<Rightarrow> host_env) \<Rightarrow> string \<Rightarrow> registry \<Rightarrow> bool" where
  "reg_inv from_json hist dir reg \<longleftrightarrow>
     (\<forall>name c. reg name = Some c \<longrightarrow>
        ce_entry c = custom_load from_json (hist name (ce_loaded_at c)) (path_join dir (name @ ''.json'')) name)"

text \<open>
  The memo is transparent: if a descriptor's modification time determines its content, then every
  lookup of a custom environment returns what reading and decoding the descriptor now would give,
  and the registry keeps that property.
\<close>

theorem custom_lookup_transparent:
  assumes "reg_inv from_json hist (he_custom_dir he) reg"
    and "\<forall>t. he_mtime he (custom_path he name) = Some t \<longrightarrow>
           he_read (hist name t) (custom_path he name) = he_read he (custom_path he name)"
    and "valid_name name = Some True" and "he_mtime he (custom_path he name) = Some t0"
  shows "\<exists>reg'. custom_lookup from_json he name reg =
       Returns (custom_load from_json he (custom_path he name) name, reg') \<and>
     reg_inv from_json hist (he_custom_dir he) reg'"
proof -
  have same: "custom_load from_json (hist name t0) (custom_path he name) name =
      custom_load from_json he (custom_path he name) name"
    using assms(2,4) by (simp add: custom_load_def)
  then have upd: "reg_inv from_json hist (he_custom_dir he)
      (reg(name \<mapsto> \<lparr>ce_loaded_at = t0, ce_entry = custom_load from_json he (custom_path he name) name\<rparr>))"
    using assms(1) by (auto simp: reg_inv_def custom_path_def)
  show ?thesis
  proof (cases "\<exists>c. reg name = Some c \<and> ce_loaded_at c = t0")
    case True
    then obtain c where c: "reg name = Some c" "ce_loaded_at c = t0" by blast
    then have "ce_entry c = custom_load from_json he (custom_path he name) name"
      using assms(1) same by (simp add: reg_inv_def custom_path_def)
    with c assms show ?thesis by (simp add: custom_lookup_def)
  next
    case False
    then have "custom_lookup from_json he name reg =
        Returns (custom_load from_json he (custom_path he name) name,
          reg(name \<mapsto> \<lparr>ce_loaded_at = t0, ce_entry = custom_load from_json he (custom_path he name) name\<rparr>))"
      using assms(3,4) by (auto simp: custom_lookup_def Let_def split: option.split)
    with upd show ?thesis by blast
  qed
qed

definition demo_host :: host_env where
  "demo_host = \<lparr>he_path_dirs = Some [''/bin''], he_is_file = (\<lambda>_. True), he_canonicalize = Inr,
     he_read = (\<lambda>_. Some [1]), he_mtime = (\<lambda>_. Some 5), he_custom_dir = ''/etc/custom''\<rparr>"

definition demo_json :: "byte list \<Rightarrow> descriptor option" where
  "demo_json raw = Some \<lparr>d_language = Python, d_executable = None, d_bin = ''/nix/store/x/bin/python3'',
     d_env = [], d_interpreter_flags = [], d_lock_hex = None\<rparr>"

theorem custom_lookup_transparent_witness:
  "\<exists>reg'. custom_lookup demo_json demo_host ''custom-ab1'' Map.empty =
       Returns (custom_load demo_json demo_host (custom_path demo_host ''custom-ab1'') ''custom-ab1'', reg') \<and>
     reg_inv demo_json (\<lambda>_ _. demo_host) (he_custom_dir demo_host) reg'"
proof (rule custom_lookup_transparent)
  show "reg_inv demo_json (\<lambda>_ _. demo_host) (he_custom_dir demo_host) Map.empty"
    by (simp add: reg_inv_def)
  show "valid_name ''custom-ab1'' = Some True" by code_simp
  show "he_mtime demo_host (custom_path demo_host ''custom-ab1'') = Some 5" by (simp add: demo_host_def)
qed simp

section \<open>Names of custom environments\<close>

text \<open>
  The name check validates only what follows the first seven bytes and never compares those
  seven with the prefix: a runtime name can climb out of the descriptor directory or be absolute,
  and a name with a multi-byte character across the cut makes the engine panic.
\<close>

theorem custom_name_check_incomplete:
  "valid_name ''../../xa'' = Some True \<and> valid_name ''/etc/aaa'' = Some True \<and>
   custom_path (he\<lparr>he_custom_dir := ''/etc/sandbox/custom-runtimes''\<rparr>) ''/etc/aaa'' = ''/etc/aaa.json'' \<and>
   custom_lookup from_json he (''custom'' @ of_bytes [195, 169]) reg = Panic"
proof -
  have "valid_name (''custom'' @ of_bytes [195, 169]) = None" by code_simp
  moreover have "valid_name ''../../xa'' = Some True" "valid_name ''/etc/aaa'' = Some True"
    by code_simp+
  ultimately show ?thesis
    by (simp add: custom_lookup_def custom_path_def path_join_def is_absolute_def)
qed

end
