(* ===== verification/RB_Launch.thy ===== *)
theory RB_Launch
  imports RB_Cgroup RB_Seccomp RB_Catalog
begin

text \<open>
  Launching a sandboxed child (\<^verbatim>\<open>kernel/src/linux/launcher.rs\<close>, \<^verbatim>\<open>caps.rs\<close>, \<^verbatim>\<open>clone3.rs\<close>, \<^verbatim>\<open>userns.rs\<close>,
  \<^verbatim>\<open>apparmor.rs\<close>): the clone flags, the layers the fork child applies before \<^verbatim>\<open>execve\<close>, and the
  parent's side with the cgroup pool. The child is a straight-line routine of system calls.
\<close>

section \<open>Clone flags\<close>

definition CLONE_PIDFD :: u64 where "CLONE_PIDFD = 0x1000"
definition CLONE_CLEAR_SIGHAND :: u64 where "CLONE_CLEAR_SIGHAND = 0x100000000"
definition CLONE_INTO_CGROUP :: u64 where "CLONE_INTO_CGROUP = 0x200000000"

definition full_isolation :: u64 where
  "full_isolation = CLONE_NEWUSER OR CLONE_NEWPID OR CLONE_NEWNS OR CLONE_NEWNET OR CLONE_NEWIPC OR CLONE_NEWUTS"

definition flags_with_netns :: "u64 \<Rightarrow> bool \<Rightarrow> u64" where
  "flags_with_netns flags template = (if template then flags AND NOT CLONE_NEWNET else flags)"

definition SIGCHLD :: u64 where "SIGCHLD = 17"

record clone_request =
  cq_namespaces :: u64
  cq_cgroup :: "string option"
  cq_exit_signal :: u64

definition clone_flags :: "clone_request \<Rightarrow> u64" where
  "clone_flags req =
     (cq_namespaces req OR CLONE_PIDFD OR CLONE_CLEAR_SIGHAND) OR
     (if cq_cgroup req = None then 0 else CLONE_INTO_CGROUP)"

text \<open>
  \<open>clone3\<close> is the kernel's answer to a request: an error or the child's pid. The second attempt of
  the fallback enters no cgroup; the result says whether the child was placed by the clone itself.
  With a network-namespace template both attempts run between two \<^verbatim>\<open>setns\<close> calls, whose success is
  an argument; when the second one fails the child exists and the caller gets an error.
\<close>

record netns_template =
  nt_enter_ok :: bool
  nt_restore_ok :: bool

definition with_netns :: "netns_template option \<Rightarrow> sandbox_error + 'a \<Rightarrow> sandbox_error + 'a" where
  "with_netns netns r =
     (case netns of
        None \<Rightarrow> r
      | Some t \<Rightarrow>
          if \<not> nt_enter_ok t then Inl (NetErr ''setns(template) failed'')
          else if \<not> nt_restore_ok t then Inl (NetErr ''setns(host) failed'')
          else r)"

definition clone_into_cgroup ::
    "(clone_request \<Rightarrow> string + nat) \<Rightarrow> netns_template option \<Rightarrow> cgroup \<Rightarrow> u64 \<Rightarrow>
     sandbox_error + nat \<times> bool" where
  "clone_into_cgroup clone3 netns cg flags =
     with_netns netns
       (let ns = flags_with_netns flags (netns \<noteq> None) in
        case clone3 \<lparr>cq_namespaces = ns, cq_cgroup = Some (cg_path cg), cq_exit_signal = SIGCHLD\<rparr> of
          Inr pid \<Rightarrow> Inr (pid, True)
        | Inl _ \<Rightarrow>
            (case clone3 \<lparr>cq_namespaces = ns, cq_cgroup = None, cq_exit_signal = SIGCHLD\<rparr> of
               Inr pid \<Rightarrow> Inr (pid, False)
             | Inl e \<Rightarrow> Inl (Clone e)))"

section \<open>The child\<close>

definition CAP_LAST_CAP :: nat where "CAP_LAST_CAP = 40"

definition drop_all_capabilities :: "step list" where
  "drop_all_capabilities =
     map (\<lambda>cap. must (SCapBsetDrop cap) (\<lambda>e. CapDrop (''PR_CAPBSET_DROP '' @ decimal cap))) [0..<Suc CAP_LAST_CAP] @
     [must SCapAmbientClear (\<lambda>_. CapDrop ''PR_CAP_AMBIENT_CLEAR_ALL''),
      must SCapsetEmpty (\<lambda>_. CapDrop ''capset'')]"

definition rlimit_step :: "string \<Rightarrow> u64 \<Rightarrow> step" where
  "rlimit_step name v = must (SSetrlimit name v) (\<lambda>e. RLimit name (decimal e))"

definition apply_rlimits :: "resource_limits \<Rightarrow> step list" where
  "apply_rlimits rl =
     [rlimit_step ''FSIZE'' (rl_fsize_bytes rl), rlimit_step ''NPROC'' (ucast (rl_pids_max rl)),
      rlimit_step ''NOFILE'' (ucast (rl_nofile rl)), rlimit_step ''STACK'' (rl_stack_bytes rl),
      rlimit_step ''CORE'' 0]"

definition set_no_new_privs :: step where
  "set_no_new_privs = must SNoNewPrivs (\<lambda>_. CapDrop ''prctl PR_SET_NO_NEW_PRIVS'')"

text \<open>The \<^verbatim>\<open>changeprofile\<close> line, built in the parent; a NUL byte in the name is an error there.\<close>

definition change_command :: "string \<Rightarrow> sandbox_error + string" where
  "change_command profile =
     (if has_nul profile then Inl (AppArmor ''changeprofile cmd'')
      else Inr (''changeprofile '' @ profile @ [CHR 0x0A]))"

record child_env =
  ch_spec :: child_spec
  ch_plan :: mount_plan
  ch_apparmor :: "string option"
  ch_bpf :: "byte list"
  ch_stdin :: int
  ch_stdout :: int
  ch_stderr :: int
  ch_proto :: "int option"
  ch_is_dir :: "string \<Rightarrow> bool"

definition redirect :: "int \<Rightarrow> int \<Rightarrow> step" where
  "redirect pipe target = must (SDup2 pipe target) (\<lambda>e. Internal (''dup2: '' @ decimal e))"

definition child_steps :: "child_env \<Rightarrow> step list" where
  "child_steps c =
     [redirect (ch_stdin c) 0, redirect (ch_stdout c) 1, redirect (ch_stderr c) 2] @
     (case ch_proto c of Some fd \<Rightarrow> [redirect fd PROTOCOL_FD] | None \<Rightarrow> []) @
     plan_apply (ch_is_dir c) (ch_plan c) @
     (case ch_apparmor c of
        Some cmd \<Rightarrow> if c_zygote (ch_spec c) then [] else [must (SWriteAttrExec cmd) (\<lambda>_. AppArmor ''write exec'')]
      | None \<Rightarrow> []) @
     [set_no_new_privs] @
     (if sl_enforce_w_xor_x (c_layers (ch_spec c)) then [ignore SMdwe] else []) @
     (if c_zygote (ch_spec c) then []
      else must (SSeccompLoad (ch_bpf c)) (\<lambda>_. Seccomp ''apply_filter'') #
           drop_all_capabilities @ apply_rlimits (c_limits (ch_spec c)))"

definition env_string :: "string \<times> string \<Rightarrow> string" where
  "env_string kv = fst kv @ ''='' @ snd kv"

text \<open>
  The argument vector handed to \<^verbatim>\<open>execve\<close> ends in a null pointer, so the emptiness test of the source
  is on a list that is never empty; an empty argument vector dereferences the null pointer.
\<close>

definition exec_path :: "child_spec \<Rightarrow> string option" where
  "exec_path spec =
     (case c_binary_fd_path spec of
        Some p \<Rightarrow> Some p
      | None \<Rightarrow> (case c_argv spec of [] \<Rightarrow> None | a # _ \<Rightarrow> Some a))"

datatype outcome = Exited int | Running string "string list" "string list" | Undefined

text \<open>
  The child from birth: it waits for its id maps (exit 101 when the parent died first), resets its
  ids without looking at the result, runs the layers (exit 102 on the first error) and executes.
\<close>

definition child_main :: "kernel \<Rightarrow> bool \<Rightarrow> child_env \<Rightarrow> outcome \<times> syscall list" where
  "child_main k released c =
     (if \<not> released then (Exited 101, [SExit 101])
      else
        case run_steps k ([ignore SSetresgid, ignore SSetresuid] @ child_steps c) [] of
          (Some e, tr) \<Rightarrow> (Exited 102, tr @ [SExit 102])
        | (None, tr) \<Rightarrow>
            (case exec_path (ch_spec c) of
               None \<Rightarrow> (Undefined, tr)
             | Some exe \<Rightarrow>
                 let argv = c_argv (ch_spec c); envp = map env_string (c_env (ch_spec c)) in
                 if k tr (SExecve exe argv envp) = 0
                 then (Running exe argv envp, tr @ [SExecve exe argv envp])
                 else (Exited 102, tr @ [SExecve exe argv envp, SExit 102])))"

section \<open>The parent\<close>

record launcher =
  la_pool :: cg_pool
  la_seccomp :: seccomp_cache
  la_netns :: "netns_template option"
  la_seq :: u32

record child_handle =
  h_pid :: nat
  h_cgroup :: cgroup
  h_proto :: bool
  h_wall_ms :: u64
  h_tag :: u32

record host_kernel =
  hk_pipes_ok :: bool
  hk_clone3 :: "clone_request \<Rightarrow> string + nat"
  hk_apparmor :: bool
  hk_to_bpf :: "seccomp_filter \<Rightarrow> string + sock_filter list"
  hk_arch :: arch
  hk_cgroups :: cg_env

definition launch_tag :: "nat \<Rightarrow> u32 \<Rightarrow> u32" where
  "launch_tag pid seq = word_of_nat (unat ((push_bit 12 (word_of_nat pid :: u64)) OR (ucast seq AND 0xFFF)))"

text \<open>
  What the parent does to the child after the clone, in the order of the code: the id maps (a failure
  is logged and ignored), the byte that releases the child, and, when the clone did not place it, the
  move into the cgroup.
\<close>

datatype parent_act = PWriteIdMaps nat | PRelease nat | PAddPid string nat

definition parent_after_clone :: "cgroup \<Rightarrow> nat \<Rightarrow> bool \<Rightarrow> parent_act list" where
  "parent_after_clone cg pid placed =
     [PWriteIdMaps pid, PRelease pid] @ (if placed then [] else [PAddPid (cg_path cg) pid])"

text \<open>
  \<open>launch_in\<close> is the part of \<^verbatim>\<open>launch\<close> after the cgroup has been taken. \<open>Panic\<close> is
  \<^verbatim>\<open>CString::new(..).expect(..)\<close> on an argument, variable or path with a NUL byte. On an early
  return the cgroup value is dropped, which closes its descriptors and leaves the directory.
\<close>

definition launch_in ::
    "host_kernel \<Rightarrow> child_spec \<Rightarrow> u32 \<Rightarrow> cgroup \<Rightarrow> launcher \<Rightarrow>
     ((sandbox_error + child_handle) \<times> launcher \<times> parent_act list) panics" where
  "launch_in hk spec tag cg la =
     (if \<not> hk_pipes_ok hk then Returns (Inl (Internal ''pipe2''), la, [])
      else
        case seccomp_compile (hk_to_bpf hk) (hk_arch hk) (c_seccomp_profile spec) (la_seccomp la) of
          (Inl e, cache) \<Rightarrow> Returns (Inl e, la\<lparr>la_seccomp := cache\<rparr>, [])
        | (Inr bpf, cache) \<Rightarrow>
            let la = la\<lparr>la_seccomp := cache\<rparr> in
            if list_ex has_nul (c_argv spec) \<or> list_ex (\<lambda>kv. has_nul (env_string kv)) (c_env spec) then Panic
            else case and_then (plan_build (c_mounts spec)) (\<lambda>plan.
                   if hk_apparmor hk then map_sum id Some (change_command (c_apparmor_profile spec)) else Inr None) of
                   Inl e \<Rightarrow> Returns (Inl e, la, [])
                 | Inr cmd \<Rightarrow>
                     if list_ex has_nul (case c_binary_fd_path spec of Some p \<Rightarrow> [p] | None \<Rightarrow> []) then Panic
                     else case clone_into_cgroup (hk_clone3 hk) (la_netns la) cg full_isolation of
                            Inl e \<Rightarrow> Returns (Inl e, la, [])
                          | Inr (pid, placed) \<Rightarrow>
                              Returns (Inr \<lparr>h_pid = pid, h_cgroup = cg,
                                 h_proto = (c_zygote spec \<or> c_protocol_fd spec),
                                 h_wall_ms = c_wall_timeout_ms spec, h_tag = tag\<rparr>, la,
                                 parent_after_clone cg pid placed))"

definition launch ::
    "host_kernel \<Rightarrow> child_spec \<Rightarrow> launcher \<Rightarrow> cgfs \<Rightarrow>
     ((sandbox_error + child_handle) \<times> launcher \<times> cgfs \<times> parent_act list) panics" where
  "launch hk spec la fs =
     (let tag = launch_tag (pl_pid (la_pool la)) (la_seq la); la = la\<lparr>la_seq := la_seq la + 1\<rparr> in
      case take_cgroup (hk_cgroups hk) (c_limits spec) (la_pool la) fs of
        (Inl e, pool, fs1) \<Rightarrow> Returns (Inl e, la\<lparr>la_pool := pool\<rparr>, fs1, [])
      | (Inr cg, pool, fs1) \<Rightarrow>
          (case launch_in hk spec tag cg (la\<lparr>la_pool := pool\<rparr>) of
             Panic \<Rightarrow> Panic
           | Returns (r, la, acts) \<Rightarrow> Returns (r, la, fs1, acts)))"

section \<open>Layers before code\<close>

text \<open>A call was made and the kernel accepted it.\<close>

definition succeeded :: "kernel \<Rightarrow> syscall list \<Rightarrow> syscall \<Rightarrow> bool" where
  "succeeded k tr c \<longleftrightarrow> (\<exists>pre post. tr = pre @ c # post \<and> k pre c = 0)"

lemma must_succeeded:
  assumes "run_steps k ss [] = (None, tr)" "must c err \<in> set ss"
  shows "succeeded k (tr @ rest) c"
proof -
  obtain xs ys where ss: "ss = xs @ must c err # ys" using assms(2) by (meson split_list)
  have "tr = calls xs @ c # calls ys" using run_steps_ok [OF assms(1)] by (simp add: ss)
  moreover have "k (calls xs) c = 0" using run_steps_must [of k xs c err ys "[]"] assms(1) by (simp add: ss)
  ultimately show ?thesis by (auto simp: succeeded_def)
qed

text \<open>The confinement of an ordinary (non-zygote) child.\<close>

definition layer_calls :: "child_env \<Rightarrow> syscall list" where
  "layer_calls c =
     [SPivotRoot NEW_ROOT (NEW_ROOT @ OLD_ROOT), SUmountDetach OLD_ROOT, SNoNewPrivs, SSeccompLoad (ch_bpf c)] @
     map SCapBsetDrop [0..<41] @ [SCapAmbientClear, SCapsetEmpty] @
     [SSetrlimit ''FSIZE'' (rl_fsize_bytes (c_limits (ch_spec c))),
      SSetrlimit ''NPROC'' (ucast (rl_pids_max (c_limits (ch_spec c)))),
      SSetrlimit ''NOFILE'' (ucast (rl_nofile (c_limits (ch_spec c)))),
      SSetrlimit ''STACK'' (rl_stack_bytes (c_limits (ch_spec c))), SSetrlimit ''CORE'' 0] @
     (case ch_apparmor c of Some cmd \<Rightarrow> [SWriteAttrExec cmd] | None \<Rightarrow> [])"

lemma layer_calls_must:
  assumes "\<not> c_zygote (ch_spec c)" "mp_new_root (ch_plan c) = NEW_ROOT" "x \<in> set (layer_calls c)"
  shows "\<exists>err. must x err \<in> set (child_steps c)"
proof -
  have len: "\<not> length NEW_ROOT + length OLD_ROOT + 1 > BUF_LEN"
    by (simp add: NEW_ROOT_def OLD_ROOT_def BUF_LEN_def)
  from assms(3) consider
      "x \<in> set [SPivotRoot NEW_ROOT (NEW_ROOT @ OLD_ROOT), SUmountDetach OLD_ROOT]"
    | "x \<in> set [SNoNewPrivs, SSeccompLoad (ch_bpf c)]"
    | "x \<in> set (map SCapBsetDrop [0..<41] @ [SCapAmbientClear, SCapsetEmpty])"
    | "\<exists>name v. x = SSetrlimit name v \<and> rlimit_step name v \<in> set (apply_rlimits (c_limits (ch_spec c)))"
    | cmd where "ch_apparmor c = Some cmd" "x = SWriteAttrExec cmd"
    by (cases "ch_apparmor c") (auto simp: layer_calls_def apply_rlimits_def)
  then show ?thesis
  proof cases
    case 1
    with len have "\<exists>err. must x err \<in> set (plan_apply (ch_is_dir c) (ch_plan c))"
      by (auto simp: plan_apply_def pivot_steps_def assms(2))
    then show ?thesis by (auto simp: child_steps_def)
  next
    case 2
    with assms(1) show ?thesis by (auto simp: child_steps_def set_no_new_privs_def)
  next
    case 3
    then have "\<exists>err. must x err \<in> set drop_all_capabilities"
      by (auto simp: drop_all_capabilities_def CAP_LAST_CAP_def)
    with assms(1) show ?thesis by (auto simp: child_steps_def)
  next
    case 4
    with assms(1) show ?thesis by (auto simp: child_steps_def rlimit_step_def)
  next
    case 5
    with assms(1) show ?thesis by (auto simp: child_steps_def)
  qed
qed

lemma child_steps_split:
  assumes "\<not> c_zygote (ch_spec c)"
  shows "\<exists>pre mid post. child_steps c = pre @ [set_no_new_privs] @ mid @
    must (SSeccompLoad (ch_bpf c)) (\<lambda>_. Seccomp ''apply_filter'') # post"
proof -
  have "child_steps c =
     ([redirect (ch_stdin c) 0, redirect (ch_stdout c) 1, redirect (ch_stderr c) 2] @
      (case ch_proto c of Some fd \<Rightarrow> [redirect fd PROTOCOL_FD] | None \<Rightarrow> []) @
      plan_apply (ch_is_dir c) (ch_plan c) @
      (case ch_apparmor c of
         Some cmd \<Rightarrow> if c_zygote (ch_spec c) then [] else [must (SWriteAttrExec cmd) (\<lambda>_. AppArmor ''write exec'')]
       | None \<Rightarrow> [])) @
     [set_no_new_privs] @
     (if sl_enforce_w_xor_x (c_layers (ch_spec c)) then [ignore SMdwe] else []) @
     must (SSeccompLoad (ch_bpf c)) (\<lambda>_. Seccomp ''apply_filter'') #
     (drop_all_capabilities @ apply_rlimits (c_limits (ch_spec c)))"
    using assms by (simp add: child_steps_def)
  then show ?thesis by blast
qed

lemma child_main_running:
  assumes "child_main k released c = (Running exe argv envp, tr)"
  shows "released \<and> argv = c_argv (ch_spec c) \<and> (\<exists>tr0. tr = tr0 @ [SExecve exe argv envp] \<and>
    run_steps k ([ignore SSetresgid, ignore SSetresuid] @ child_steps c) [] = (None, tr0))"
proof -
  define ss where "ss = [ignore SSetresgid, ignore SSetresuid] @ child_steps c"
  obtain r tr0 where run: "run_steps k ss [] = (r, tr0)" by (cases "run_steps k ss []")
  have def: "child_main k released c =
     (if \<not> released then (Exited 101, [SExit 101])
      else case run_steps k ss [] of
          (Some e, tr) \<Rightarrow> (Exited 102, tr @ [SExit 102])
        | (None, tr) \<Rightarrow>
            (case exec_path (ch_spec c) of
               None \<Rightarrow> (Undefined, tr)
             | Some exe \<Rightarrow>
                 let argv = c_argv (ch_spec c); envp = map env_string (c_env (ch_spec c)) in
                 if k tr (SExecve exe argv envp) = 0
                 then (Running exe argv envp, tr @ [SExecve exe argv envp])
                 else (Exited 102, tr @ [SExecve exe argv envp, SExit 102])))"
    unfolding child_main_def ss_def ..
  show ?thesis
    using assms unfolding def run ss_def [symmetric]
    by (cases r; cases "exec_path (ch_spec c)") (auto simp: Let_def run split: if_splits)
qed

text \<open>
  C1. No untrusted code runs before every layer is in place. If an ordinary child reaches the point
  where the requested program runs, then the kernel accepted, before that, the pivot into the new
  root and the detachment of the old one, no-new-privileges, the seccomp program (after
  no-new-privileges), the drop of all 41 capabilities and of the ambient, permitted, effective and
  inheritable sets, the five resource limits with the request's values and, where AppArmor is
  available, the profile; and \<^verbatim>\<open>execve\<close> is its last call.
\<close>

theorem program_runs_only_when_confined:
  assumes "child_main k released c = (Running exe argv envp, tr)"
    and "\<not> c_zygote (ch_spec c)" and "plan_build (c_mounts (ch_spec c)) = Inr (ch_plan c)"
  shows "list_all (succeeded k tr) (layer_calls c) \<and>
    (\<exists>a b d. tr = a @ SNoNewPrivs # b @ SSeccompLoad (ch_bpf c) # d @ [SExecve exe argv envp]) \<and>
    released \<and> argv = c_argv (ch_spec c)"
proof -
  let ?ss = "[ignore SSetresgid, ignore SSetresuid] @ child_steps c"
  obtain tr0 where run: "run_steps k ?ss [] = (None, tr0)"
      and tr: "tr = tr0 @ [SExecve exe argv envp]" "released" "argv = c_argv (ch_spec c)"
    using child_main_running [OF assms(1)] by blast
  have root: "mp_new_root (ch_plan c) = NEW_ROOT"
    using assms(3) by (cases "ch_plan c") (auto simp: plan_build_def and_then_Inr_iff cstring_def split: if_splits)
  have "succeeded k tr x" if x: "x \<in> set (layer_calls c)" for x
  proof -
    obtain err where "must x err \<in> set (child_steps c)"
      using layer_calls_must [OF assms(2) root x] by blast
    then have "must x err \<in> set ?ss" by simp
    from must_succeeded [OF run this] show ?thesis by (simp add: tr(1))
  qed
  moreover have "\<exists>a b d. tr0 = a @ SNoNewPrivs # b @ SSeccompLoad (ch_bpf c) # d"
  proof -
    obtain pre mid post where "child_steps c = pre @ [set_no_new_privs] @ mid @
        must (SSeccompLoad (ch_bpf c)) (\<lambda>_. Seccomp ''apply_filter'') # post"
      using child_steps_split [OF assms(2)] by blast
    then have "tr0 = ([SSetresgid, SSetresuid] @ calls pre) @ SNoNewPrivs # calls mid @ SSeccompLoad (ch_bpf c) # calls post"
      using run_steps_ok [OF run] by (simp add: set_no_new_privs_def)
    then show ?thesis by blast
  qed
  ultimately show ?thesis using tr by (auto simp: list_all_iff)
qed

section \<open>Namespaces and placement\<close>

lemma clone_into_cgroup_ok:
  assumes "clone_into_cgroup clone3 netns cg flags = Inr (pid, placed)"
  shows "clone3 \<lparr>cq_namespaces = flags_with_netns flags (netns \<noteq> None),
    cq_cgroup = (if placed then Some (cg_path cg) else None), cq_exit_signal = SIGCHLD\<rparr> = Inr pid"
  using assms
  by (auto simp: clone_into_cgroup_def with_netns_def Let_def split: option.splits if_splits sum.splits)

lemma launch_in_ok:
  assumes "launch_in hk spec tag cg la = Returns (Inr h, la', acts)"
  shows "\<exists>placed. clone_into_cgroup (hk_clone3 hk) (la_netns la) cg full_isolation = Inr (h_pid h, placed) \<and>
    acts = parent_after_clone cg (h_pid h) placed \<and> h_cgroup h = cg \<and> h_wall_ms h = c_wall_timeout_ms spec"
  using assms
  by (auto simp: launch_in_def Let_def split: if_splits prod.splits sum.splits option.splits)

lemma launch_in_pool:
  "launch_in hk spec tag cg la = Returns (r, la', acts) \<Longrightarrow> la_pool la' = la_pool la"
  by (auto simp: launch_in_def Let_def split: if_splits prod.splits sum.splits option.splits)

lemma namespace_bits:
  assumes "flag \<in> {CLONE_NEWUSER, CLONE_NEWPID, CLONE_NEWNS, CLONE_NEWIPC, CLONE_NEWUTS, CLONE_PIDFD} \<or>
    flag = CLONE_NEWNET \<and> \<not> template \<or> flag = CLONE_INTO_CGROUP \<and> cq_cgroup req \<noteq> None"
    and "cq_namespaces req = flags_with_netns full_isolation template"
  shows "clone_flags req AND flag = flag"
  using assms
  by (auto simp: clone_flags_def flags_with_netns_def full_isolation_def CLONE_NEWUSER_def CLONE_NEWPID_def
      CLONE_NEWNS_def CLONE_NEWNET_def CLONE_NEWIPC_def CLONE_NEWUTS_def CLONE_PIDFD_def
      CLONE_CLEAR_SIGHAND_def CLONE_INTO_CGROUP_def split: if_splits)

text \<open>
  C35. A launched child lives in its own namespaces whichever way it was created: the clone that made
  it asked for new user, PID, mount, IPC and UTS namespaces and a PID descriptor, and for a new
  network namespace unless the engine has a shared template. Either that clone also put it into the
  cgroup of its handle, or (the fallback for hosts that refuse it) it was born outside; then the
  parent moves it only after it has been released, so its first steps run unaccounted.
\<close>

theorem launched_child_is_isolated:
  assumes "launch hk spec la fs = Returns (Inr h, la', fs', acts)"
  shows "\<exists>req. hk_clone3 hk req = Inr (h_pid h) \<and>
    (\<forall>ns\<in>{CLONE_NEWUSER, CLONE_NEWPID, CLONE_NEWNS, CLONE_NEWIPC, CLONE_NEWUTS, CLONE_PIDFD}. clone_flags req AND ns = ns) \<and>
    (la_netns la = None \<longrightarrow> clone_flags req AND CLONE_NEWNET = CLONE_NEWNET) \<and>
    (cq_cgroup req = Some (cg_path (h_cgroup h)) \<and> clone_flags req AND CLONE_INTO_CGROUP = CLONE_INTO_CGROUP \<and>
       acts = [PWriteIdMaps (h_pid h), PRelease (h_pid h)] \<or>
     cq_cgroup req = None \<and>
       acts = [PWriteIdMaps (h_pid h), PRelease (h_pid h), PAddPid (cg_path (h_cgroup h)) (h_pid h)])"
proof -
  obtain r cg pool fs1 where t: "take_cgroup (hk_cgroups hk) (c_limits spec) (la_pool la) fs = (r, pool, fs1)"
    by (metis prod_cases3)
  with assms obtain cg tag la1 la2 where l: "launch_in hk spec tag cg la1 = Returns (Inr h, la2, acts)"
      "la_netns la1 = la_netns la"
    by (auto simp: launch_def Let_def split: sum.splits panics.splits)
  from launch_in_ok [OF l(1)] obtain placed where
    p: "clone_into_cgroup (hk_clone3 hk) (la_netns la) cg full_isolation = Inr (h_pid h, placed)"
      "acts = parent_after_clone cg (h_pid h) placed" "h_cgroup h = cg" by (auto simp: l(2))
  define req where "req = \<lparr>cq_namespaces = flags_with_netns full_isolation (la_netns la \<noteq> None),
    cq_cgroup = (if placed then Some (cg_path cg) else None), cq_exit_signal = SIGCHLD\<rparr>"
  have a: "hk_clone3 hk req = Inr (h_pid h)" using clone_into_cgroup_ok [OF p(1)] by (simp add: req_def)
  have ns: "cq_namespaces req = flags_with_netns full_isolation (la_netns la \<noteq> None)" by (simp add: req_def)
  have b: "\<forall>ns\<in>{CLONE_NEWUSER, CLONE_NEWPID, CLONE_NEWNS, CLONE_NEWIPC, CLONE_NEWUTS, CLONE_PIDFD}. clone_flags req AND ns = ns"
    using namespace_bits [OF disjI1 ns] by blast
  have c: "la_netns la = None \<longrightarrow> clone_flags req AND CLONE_NEWNET = CLONE_NEWNET"
    using namespace_bits [OF _ ns, of CLONE_NEWNET] by blast
  have d: "cq_cgroup req = Some (cg_path (h_cgroup h)) \<and> clone_flags req AND CLONE_INTO_CGROUP = CLONE_INTO_CGROUP \<and>
      acts = [PWriteIdMaps (h_pid h), PRelease (h_pid h)] \<or>
    cq_cgroup req = None \<and>
      acts = [PWriteIdMaps (h_pid h), PRelease (h_pid h), PAddPid (cg_path (h_cgroup h)) (h_pid h)]"
  proof (cases placed)
    case True
    then have cg: "cq_cgroup req = Some (cg_path cg)" by (simp add: req_def)
    then have "clone_flags req AND CLONE_INTO_CGROUP = CLONE_INTO_CGROUP"
      by (intro namespace_bits [OF disjI2 ns]) blast
    with cg True p(2,3) show ?thesis by (simp add: parent_after_clone_def)
  next
    case False
    with p(2,3) show ?thesis by (simp add: parent_after_clone_def req_def)
  qed
  show ?thesis by (rule exI [of _ req]) (intro conjI a b c d)
qed

text \<open>A plain request on a host where everything works, and one where both clone attempts fail.\<close>

definition demo_spec :: child_spec where
  "demo_spec = \<lparr>c_request_id = ''r'', c_language = Python, c_mounts = [BindRo ''/w'' ''/sandbox''],
     c_argv = [''/bin/true''], c_env = [(''A'', ''1'')], c_limits = limits_resolve minimal_settings,
     c_seccomp_profile = InterpAot, c_layers = \<lparr>sl_trace_syscalls = False, sl_enforce_w_xor_x = True\<rparr>,
     c_apparmor_profile = ''p'', c_binary_fd_path = None, c_wall_timeout_ms = 1000, c_protocol_fd = False,
     c_zygote = False\<rparr>"

definition demo_plan :: mount_plan where
  "demo_plan = \<lparr>mp_new_root = NEW_ROOT, mp_steps = [\<lparr>ms_kind = StepBind True,
     ms_target = NEW_ROOT @ ''/sandbox'', ms_source = ''/w'', ms_fstype = [], ms_options = []\<rparr>]\<rparr>"

definition demo_machine :: "(clone_request \<Rightarrow> string + nat) \<Rightarrow> host_kernel" where
  "demo_machine clone3 = \<lparr>hk_pipes_ok = True, hk_clone3 = clone3, hk_apparmor = False,
     hk_to_bpf = (\<lambda>_. Inr []), hk_arch = X86_64, hk_cgroups = all_ok\<rparr>"

definition demo_launcher :: launcher where
  "demo_launcher = \<lparr>la_pool = ps_pool (pool_init 7 Map.empty), la_seccomp = Map.empty, la_netns = None, la_seq = 1\<rparr>"

lemma demo_plan_build: "plan_build (c_mounts demo_spec) = Inr demo_plan"
  by (simp add: demo_spec_def demo_plan_def plan_build_def cstring_def has_nul_def NEW_ROOT_def bind_step_def
      join_root_def path_join_def strip_root_def is_absolute_def)

lemma demo_launch:
  "\<exists>cg pool' fs' la'. take_cgroup all_ok (c_limits demo_spec) (la_pool demo_launcher) Map.empty = (Inr cg, pool', fs') \<and>
     la_pool la' = pool' \<and>
     launch (demo_machine clone3) demo_spec demo_launcher Map.empty =
       (case clone_into_cgroup clone3 None cg full_isolation of
          Inl e \<Rightarrow> Returns (Inl e, la', fs', [])
        | Inr (pid, placed) \<Rightarrow>
            Returns (Inr \<lparr>h_pid = pid, h_cgroup = cg, h_proto = False, h_wall_ms = 1000, h_tag = launch_tag 7 1\<rparr>,
              la', fs', parent_after_clone cg pid placed))"
proof -
  obtain cg pool' fs' where t: "take_cgroup all_ok (c_limits demo_spec) (la_pool demo_launcher) Map.empty = (Inr cg, pool', fs')"
    using first_take [of "c_limits demo_spec"] by (auto simp: demo_launcher_def pool_init_def)
  let ?la = "demo_launcher\<lparr>la_seq := 2, la_pool := pool', la_seccomp := [InterpAot \<mapsto> []]\<rparr>"
  have plan: "plan_build [BindRo ''/w'' ''/sandbox''] = Inr demo_plan"
    using demo_plan_build by (simp add: demo_spec_def)
  have "launch_in (demo_machine clone3) demo_spec (launch_tag 7 1) cg (demo_launcher\<lparr>la_seq := 2, la_pool := pool'\<rparr>) =
      (case clone_into_cgroup clone3 None cg full_isolation of
         Inl e \<Rightarrow> Returns (Inl e, ?la, [])
       | Inr (pid, placed) \<Rightarrow>
           Returns (Inr \<lparr>h_pid = pid, h_cgroup = cg, h_proto = False, h_wall_ms = 1000, h_tag = launch_tag 7 1\<rparr>,
             ?la, parent_after_clone cg pid placed))"
    by (cases "clone_into_cgroup clone3 None cg full_isolation")
      (simp_all add: launch_in_def demo_machine_def demo_spec_def demo_launcher_def seccomp_compile_def plan
        has_nul_def env_string_def Let_def split: prod.split)
  then have "launch (demo_machine clone3) demo_spec demo_launcher Map.empty =
      (case clone_into_cgroup clone3 None cg full_isolation of
         Inl e \<Rightarrow> Returns (Inl e, ?la, fs', [])
       | Inr (pid, placed) \<Rightarrow>
           Returns (Inr \<lparr>h_pid = pid, h_cgroup = cg, h_proto = False, h_wall_ms = 1000, h_tag = launch_tag 7 1\<rparr>,
             ?la, fs', parent_after_clone cg pid placed))"
    using t by (simp add: launch_def demo_machine_def demo_launcher_def pool_init_def split: sum.split)
  moreover have "la_pool ?la = pool'" by simp
  ultimately show ?thesis using t by blast
qed

definition demo_child :: child_env where
  "demo_child = \<lparr>ch_spec = demo_spec, ch_plan = demo_plan, ch_apparmor = Some ''changeprofile p'', ch_bpf = [6],
     ch_stdin = 10, ch_stdout = 11, ch_stderr = 12, ch_proto = None, ch_is_dir = (\<lambda>_. True)\<rparr>"

lemma demo_child_steps: "list_all is_do (child_steps demo_child)"
proof -
  have "list_all is_do (plan_apply (\<lambda>_. True) demo_plan)"
    by (simp add: demo_plan_def plan_apply_def pivot_steps_def apply_step_def remount_ro_def mkdir_all_is_do
        NEW_ROOT_def OLD_ROOT_def BUF_LEN_def)
  then show ?thesis
    by (auto simp: child_steps_def demo_child_def demo_spec_def redirect_def set_no_new_privs_def
        drop_all_capabilities_def apply_rlimits_def rlimit_step_def list_all_iff)
qed

theorem program_runs_only_when_confined_witness:
  "\<exists>tr. child_main (\<lambda>_ _. 0) True demo_child = (Running ''/bin/true'' [''/bin/true''] [''A=1''], tr) \<and>
     succeeded (\<lambda>_ _. 0) tr (SSeccompLoad [6])"
proof -
  let ?ss = "[ignore SSetresgid, ignore SSetresuid] @ child_steps demo_child"
  have "list_all is_do ?ss" using demo_child_steps by simp
  note steps = run_steps_friendly [OF this, of "[]"]
  have args: "exec_path (ch_spec demo_child) = Some ''/bin/true''" "c_argv (ch_spec demo_child) = [''/bin/true'']"
      "map env_string (c_env (ch_spec demo_child)) = [''A=1'']"
    by (simp_all add: exec_path_def demo_child_def demo_spec_def env_string_def)
  obtain tr where run: "child_main (\<lambda>_ _. 0) True demo_child = (Running ''/bin/true'' [''/bin/true''] [''A=1''], tr)"
    unfolding child_main_def steps by (simp add: args Let_def)
  have "list_all (succeeded (\<lambda>_ _. 0) tr) (layer_calls demo_child)"
    using program_runs_only_when_confined [OF run] demo_plan_build by (simp add: demo_child_def demo_spec_def)
  with run show ?thesis by (simp add: layer_calls_def demo_child_def)
qed

theorem launched_child_is_isolated_witness:
  "\<exists>h la' fs' acts req. launch (demo_machine (\<lambda>_. Inr 42)) demo_spec demo_launcher Map.empty = Returns (Inr h, la', fs', acts) \<and>
     h_pid h = 42 \<and> clone_flags req AND CLONE_NEWPID = CLONE_NEWPID \<and> clone_flags req AND CLONE_NEWNET = CLONE_NEWNET"
proof -
  obtain h la' fs' acts where l: "launch (demo_machine (\<lambda>_. Inr 42)) demo_spec demo_launcher Map.empty = Returns (Inr h, la', fs', acts)"
      "h_pid h = 42"
    using demo_launch [of "\<lambda>_. Inr 42"] by (auto simp: clone_into_cgroup_def with_netns_def Let_def)
  from launched_child_is_isolated [OF l(1)] obtain req where
    "clone_flags req AND CLONE_NEWPID = CLONE_NEWPID" "clone_flags req AND CLONE_NEWNET = CLONE_NEWNET"
    by (auto simp: demo_launcher_def)
  with l show ?thesis by blast
qed

text \<open>
  A launch that fails after its cgroup was taken (no pipe, a refused mount plan, a clone error)
  abandons that cgroup: its directory stays in the cgroup file system, and the pool it was taken from
  no longer knows it, so no later release or take removes it.
\<close>

theorem failed_launch_leaks_cgroup:
  assumes "preach s" "la_pool la = ps_pool s" "unat (pl_seq (ps_pool s)) < 2 ^ 32 - 1"
    and "take_cgroup (hk_cgroups hk) (c_limits spec) (ps_pool s) (ps_fs s) = (Inr cg, pool, fs1)"
    and "launch hk spec la (ps_fs s) = Returns (Inl e, la', fs', acts)"
  shows "cg_path cg \<in> dom fs' \<and> cg_path cg \<notin> cg_path ` set (pl_cgroups (la_pool la'))"
proof -
  have inv: "pool_inv \<lparr>ps_pool = pool, ps_fs = fs1, ps_held = cg # ps_held s\<rparr>"
    using pool_inv_take [OF pool_inv_reach [OF assms(1)] assms(4,3)] by simp
  obtain tag la1 la2 where "launch_in hk spec tag cg la1 = Returns (Inl e, la2, acts)"
      "la_pool la1 = pool" "la' = la2" "fs' = fs1"
    using assms(5) by (auto simp: launch_def assms(2,4) Let_def split: panics.splits)
  with launch_in_pool have "la_pool la' = pool" "fs' = fs1" by auto
  with inv show ?thesis by (auto simp: pool_inv_def paths_def)
qed

theorem failed_launch_leaks_cgroup_witness:
  "\<exists>(cg :: cgroup) e la' fs' acts. launch (demo_machine (\<lambda>_. Inl ''EPERM'')) demo_spec demo_launcher Map.empty =
     Returns (Inl e, la', fs', acts) \<and> cg_path cg \<in> dom fs' \<and> cg_path cg \<notin> cg_path ` set (pl_cgroups (la_pool la'))"
proof -
  obtain cg pool' fs' la' where d: "take_cgroup all_ok (c_limits demo_spec) (la_pool demo_launcher) Map.empty = (Inr cg, pool', fs')"
      "launch (demo_machine (\<lambda>_. Inl ''EPERM'')) demo_spec demo_launcher Map.empty = Returns (Inl (Clone ''EPERM''), la', fs', [])"
    using demo_launch [of "\<lambda>_. Inl ''EPERM''"] by (auto simp: clone_into_cgroup_def with_netns_def Let_def)
  have "cg_path cg \<in> dom fs' \<and> cg_path cg \<notin> cg_path ` set (pl_cgroups (la_pool la'))"
    by (rule failed_launch_leaks_cgroup [OF preach.init [of 7 Map.empty], where la = demo_launcher
          and hk = "demo_machine (\<lambda>_. Inl ''EPERM'')" and spec = demo_spec])
      (use d in \<open>simp_all add: demo_launcher_def pool_init_def demo_machine_def\<close>)
  with d(2) show ?thesis by blast
qed

end
