(* ===== verification/RB_Drain.thy ===== *)
theory RB_Drain
  imports RB_Launch
begin

text \<open>
  The drain loop (\<^verbatim>\<open>kernel/src/linux/drain.rs\<close>) and the output buffer of the exec mode
  (\<^verbatim>\<open>ByteCap\<close>, \<^verbatim>\<open>map_status\<close> in \<^verbatim>\<open>engine/src/modes/exec.rs\<close>). What the kernel tells the loop is its
  input: a list of answers of \<^verbatim>\<open>epoll_wait\<close>, each with its events and the results of the reads that
  follow. When the list ends the loop is still waiting; that is the value \<open>None\<close>.
\<close>

section \<open>The loop\<close>

datatype child_exit =
    ExitNormal int u64 u64        \<comment> \<open>status, memory peak in MiB, CPU time\<close>
  | ExitSignal int
  | ExitTimeout
  | ExitOomKilled
  | ExitOutputCap

datatype stream = Stdout | Stderr

datatype read_result = Got "byte list" | Again | ReadErr string

definition read_chunk :: "read_result \<Rightarrow> sandbox_error + byte list option" where
  "read_chunk r =
     (case r of
        Got bs \<Rightarrow> Inr (if bs = [] then None else Some bs)
      | Again \<Rightarrow> Inr None
      | ReadErr e \<Rightarrow> Inl (Internal (''read: '' @ e)))"

datatype wait_result = WaitErr | Waited int int     \<comment> \<open>\<^verbatim>\<open>si_code\<close>, \<^verbatim>\<open>si_status\<close>\<close>

definition CLD_EXITED :: int where "CLD_EXITED = 1"
definition CLD_KILLED :: int where "CLD_KILLED = 2"
definition CLD_DUMPED :: int where "CLD_DUMPED = 3"

definition reap_pidfd :: "wait_result \<Rightarrow> int \<times> int option" where
  "reap_pidfd w =
     (case w of
        WaitErr \<Rightarrow> (- 1, None)
      | Waited code status \<Rightarrow>
          if code = CLD_EXITED then (status, None)
          else if code = CLD_KILLED \<or> code = CLD_DUMPED then (- 1, Some status)
          else (status, None))"

text \<open>
  An event with what the loop reads while handling it: the results of successive reads of a pipe,
  and on exit the left-over of both pipes, the peak read from the cgroup and the wait status.
\<close>

datatype event =
    EvStdout "read_result list"
  | EvStderr "read_result list"
  | EvExit "read_result list" "read_result list" "u64 option" wait_result
  | EvTimer
  | EvOther

datatype wake = Events "event list" | Interrupted | EpollErr string

text \<open>The counter of the loop and the chunks it has passed to the callbacks, in order.\<close>

record drain_state =
  d_sent :: u64
  d_chunks :: "(stream \<times> byte list) list"

definition drain_init :: drain_state where
  "drain_init = \<lparr>d_sent = 0, d_chunks = []\<rparr>"

definition deliver :: "stream \<Rightarrow> byte list \<Rightarrow> drain_state \<Rightarrow> drain_state" where
  "deliver st c d = d\<lparr>d_chunks := d_chunks d @ [(st, c)]\<rparr>"

datatype flow = Go_on drain_state | Stop "sandbox_error + child_exit" drain_state

definition kill_then :: "bool \<Rightarrow> child_exit \<Rightarrow> sandbox_error + child_exit" where
  "kill_then kill_ok x = (if kill_ok then Inr x else Inl (Cgroup ''cgroup.kill'' []))"

fun drain_stream :: "u64 \<Rightarrow> bool \<Rightarrow> stream \<Rightarrow> read_result list \<Rightarrow> drain_state \<Rightarrow> flow" where
  "drain_stream cap kill_ok st [] d = Go_on d"
| "drain_stream cap kill_ok st (r # rs) d =
     (case read_chunk r of
        Inl e \<Rightarrow> Stop (Inl e) d
      | Inr None \<Rightarrow> Go_on d
      | Inr (Some c) \<Rightarrow>
          let d1 = d\<lparr>d_sent := sat_add (d_sent d) (word_of_nat (length c))\<rparr> in
          if cap < d_sent d1 then Stop (kill_then kill_ok ExitOutputCap) d1
          else drain_stream cap kill_ok st rs (deliver st c d1))"

fun drain_remaining :: "stream \<Rightarrow> read_result list \<Rightarrow> drain_state \<Rightarrow> drain_state" where
  "drain_remaining st [] d = d"
| "drain_remaining st (r # rs) d =
     (case read_chunk r of
        Inr (Some c) \<Rightarrow> drain_remaining st rs (deliver st c d)
      | _ \<Rightarrow> d)"

definition exit_of :: "u64 option \<Rightarrow> wait_result \<Rightarrow> child_exit" where
  "exit_of peak w =
     (case reap_pidfd w of
        (status, Some s) \<Rightarrow> ExitSignal s
      | (status, None) \<Rightarrow>
          ExitNormal status ((case peak of Some p \<Rightarrow> p | None \<Rightarrow> 0) div (1024 * 1024)) 0)"

definition handle_event :: "u64 \<Rightarrow> bool \<Rightarrow> event \<Rightarrow> drain_state \<Rightarrow> flow" where
  "handle_event cap kill_ok ev d =
     (case ev of
        EvStdout rs \<Rightarrow> drain_stream cap kill_ok Stdout rs d
      | EvStderr rs \<Rightarrow> drain_stream cap kill_ok Stderr rs d
      | EvExit out err peak w \<Rightarrow>
          Stop (Inr (exit_of peak w)) (drain_remaining Stderr err (drain_remaining Stdout out d))
      | EvTimer \<Rightarrow> Stop (kill_then kill_ok ExitTimeout) d
      | EvOther \<Rightarrow> Go_on d)"

fun handle_events :: "u64 \<Rightarrow> bool \<Rightarrow> event list \<Rightarrow> drain_state \<Rightarrow> flow" where
  "handle_events cap kill_ok [] d = Go_on d"
| "handle_events cap kill_ok (ev # evs) d =
     (case handle_event cap kill_ok ev d of
        Go_on d1 \<Rightarrow> handle_events cap kill_ok evs d1
      | Stop r d1 \<Rightarrow> Stop r d1)"

fun drainer_run :: "u64 \<Rightarrow> bool \<Rightarrow> wake list \<Rightarrow> drain_state \<Rightarrow> (sandbox_error + child_exit) option \<times> drain_state" where
  "drainer_run cap kill_ok [] d = (None, d)"
| "drainer_run cap kill_ok (Interrupted # ws) d = drainer_run cap kill_ok ws d"
| "drainer_run cap kill_ok (EpollErr e # ws) d = (Some (Inl (Internal (''epoll_wait: '' @ e))), d)"
| "drainer_run cap kill_ok (Events evs # ws) d =
     (case handle_events cap kill_ok evs d of
        Go_on d1 \<Rightarrow> drainer_run cap kill_ok ws d1
      | Stop r d1 \<Rightarrow> (Some r, d1))"

text \<open>
  The timer: armed once with the wall limit. A zero time disarms a timer descriptor, so a zero limit
  gives a timer that never fires. The result is the delay in nanoseconds, if any.
\<close>

definition make_timerfd :: "bool \<Rightarrow> bool \<Rightarrow> u64 \<Rightarrow> sandbox_error + nat option" where
  "make_timerfd create_ok settime_ok wall_ms =
     (if \<not> create_ok then Inl (Internal ''timerfd_create'')
      else if \<not> settime_ok then Inl (Internal ''timerfd_settime'')
      else Inr (if wall_ms = 0 then None else Some (unat wall_ms * 1000000)))"

section \<open>Buffers and status\<close>

record byte_cap =
  bcap_buf :: "byte list"
  bcap_cap :: nat

definition byte_cap_new :: "nat \<Rightarrow> byte_cap" where
  "byte_cap_new cap = \<lparr>bcap_buf = [], bcap_cap = cap\<rparr>"

definition byte_cap_extend :: "byte list \<Rightarrow> byte_cap \<Rightarrow> byte_cap" where
  "byte_cap_extend bytes b =
     (if length (bcap_buf b) \<ge> bcap_cap b then b
      else
        let room = bcap_cap b - length (bcap_buf b);
            slice = (if length bytes > room then take room bytes else bytes)
        in b\<lparr>bcap_buf := bcap_buf b @ slice\<rparr>)"

definition into_lossy_string :: "byte_cap \<Rightarrow> string" where
  "into_lossy_string b = from_utf8_lossy (bcap_buf b)"

definition map_status :: "child_exit \<Rightarrow> result_status \<times> int" where
  "map_status x =
     (case x of
        ExitNormal status _ _ \<Rightarrow> if status = 0 then (Success, 0) else (NonZeroExit, status)
      | ExitSignal signo \<Rightarrow> (SeccompKill, - signo)
      | ExitTimeout \<Rightarrow> (Timeout, - 1)
      | ExitOomKilled \<Rightarrow> (OomKilled, - 1)
      | ExitOutputCap \<Rightarrow> (OutputExceeded, - 1))"

section \<open>What reaches the callbacks\<close>

definition bytes_on :: "stream \<Rightarrow> (stream \<times> byte list) list \<Rightarrow> byte list" where
  "bytes_on st cs = concat (map snd (filter (\<lambda>c. fst c = st) cs))"

definition total_bytes :: "(stream \<times> byte list) list \<Rightarrow> nat" where
  "total_bytes cs = sum_list (map (length \<circ> snd) cs)"

lemma bytes_on_simps [simp]:
  "bytes_on st [] = []"
  "bytes_on st (cs @ [(st', c)]) = bytes_on st cs @ (if st' = st then c else [])"
  by (simp_all add: bytes_on_def)

lemma total_bytes_simps [simp]:
  "total_bytes [] = 0" "total_bytes (cs @ ds) = total_bytes cs + total_bytes ds"
  "total_bytes ((st, c) # cs) = length c + total_bytes cs"
  by (simp_all add: total_bytes_def)

lemma deliver_simps [simp]:
  "d_sent (deliver st c d) = d_sent d" "d_chunks (deliver st c d) = d_chunks d @ [(st, c)]"
  by (simp_all add: deliver_def)

lemma byte_cap_fold:
  "bcap_buf (fold byte_cap_extend cs b) =
     (if length (bcap_buf b) \<ge> bcap_cap b then bcap_buf b else take (bcap_cap b) (bcap_buf b @ concat cs)) \<and>
   bcap_cap (fold byte_cap_extend cs b) = bcap_cap b"
proof (induction cs arbitrary: b)
  case (Cons c cs)
  show ?case
    using Cons [of "byte_cap_extend c b"]
    by (auto simp: byte_cap_extend_def Let_def split: if_splits)
qed simp

lemma byte_cap_keeps_prefix: "bcap_buf (fold byte_cap_extend cs (byte_cap_new cap)) = take cap (concat cs)"
  using byte_cap_fold [of cs "byte_cap_new cap"] by (auto simp: byte_cap_new_def split: if_splits)

section \<open>Runs as sequences of events\<close>

text \<open>The chunks a sequence of reads yields before it would block, ends or fails.\<close>

fun chunks_of :: "read_result list \<Rightarrow> byte list list" where
  "chunks_of [] = []"
| "chunks_of (r # rs) = (case read_chunk r of Inr (Some c) \<Rightarrow> c # chunks_of rs | _ \<Rightarrow> [])"

fun ev_trace :: "event \<Rightarrow> (stream \<times> byte list) list" where
  "ev_trace (EvStdout rs) = map (Pair Stdout) (chunks_of rs)"
| "ev_trace (EvStderr rs) = map (Pair Stderr) (chunks_of rs)"
| "ev_trace (EvExit out err peak w) = map (Pair Stdout) (chunks_of out) @ map (Pair Stderr) (chunks_of err)"
| "ev_trace EvTimer = []"
| "ev_trace EvOther = []"

fun final_event :: "event \<Rightarrow> bool" where
  "final_event (EvExit _ _ _ _) = True"
| "final_event EvTimer = True"
| "final_event _ = False"

text \<open>A read fills at most the loop's buffer of 64 KiB.\<close>

definition BUF :: nat where "BUF = 64 * 1024"

fun reads_ok :: "event \<Rightarrow> bool" where
  "reads_ok (EvStdout rs) = (\<forall>c\<in>set (chunks_of rs). length c \<le> BUF)"
| "reads_ok (EvStderr rs) = (\<forall>c\<in>set (chunks_of rs). length c \<le> BUF)"
| "reads_ok _ = True"

text \<open>The events up to a failing \<^verbatim>\<open>epoll_wait\<close>, and how the run ends when none of them stops it.\<close>

fun flat :: "wake list \<Rightarrow> event list" where
  "flat [] = []"
| "flat (Interrupted # ws) = flat ws"
| "flat (EpollErr e # ws) = []"
| "flat (Events evs # ws) = evs @ flat ws"

fun epoll_end :: "wake list \<Rightarrow> (sandbox_error + child_exit) option" where
  "epoll_end [] = None"
| "epoll_end (EpollErr e # ws) = Some (Inl (Internal (''epoll_wait: '' @ e)))"
| "epoll_end (w # ws) = epoll_end ws"

lemma handle_events_append:
  "handle_events cap k (xs @ ys) d =
     (case handle_events cap k xs d of Go_on d1 \<Rightarrow> handle_events cap k ys d1 | Stop r d1 \<Rightarrow> Stop r d1)"
  by (induction xs arbitrary: d) (auto split: flow.split)

lemma drainer_run_flat:
  "drainer_run cap k ws d =
     (case handle_events cap k (flat ws) d of Go_on d1 \<Rightarrow> (epoll_end ws, d1) | Stop r d1 \<Rightarrow> (Some r, d1))"
  by (induction cap k ws d rule: drainer_run.induct) (auto simp: handle_events_append split: flow.split)

lemma handle_events_stop:
  "handle_events cap k evs d = Stop r d1 \<Longrightarrow>
     \<exists>pre ev post d0. evs = pre @ ev # post \<and> handle_events cap k pre d = Go_on d0 \<and>
       handle_event cap k ev d0 = Stop r d1"
proof (induction evs arbitrary: d)
  case (Cons ev evs)
  show ?case
  proof (cases "handle_event cap k ev d")
    case (Go_on d')
    with Cons.prems have "handle_events cap k evs d' = Stop r d1" by simp
    from Cons.IH [OF this] obtain pre x post d0 where
      "evs = pre @ x # post" "handle_events cap k pre d' = Go_on d0" "handle_event cap k x d0 = Stop r d1" by blast
    with Go_on have "ev # evs = (ev # pre) @ x # post" "handle_events cap k (ev # pre) d = Go_on d0"
        "handle_event cap k x d0 = Stop r d1" by simp_all
    then show ?thesis by blast
  next
    case (Stop r' d')
    with Cons.prems have "ev # evs = [] @ ev # evs" "handle_events cap k [] d = Go_on d"
        "handle_event cap k ev d = Stop r d1" by simp_all
    then show ?thesis by blast
  qed
qed simp

text \<open>The bytes passed on are counted, and the count stays within the cap.\<close>

definition counted :: "u64 \<Rightarrow> drain_state \<Rightarrow> bool" where
  "counted cap d \<longleftrightarrow> total_bytes (d_chunks d) \<le> unat (d_sent d) \<and> d_sent d \<le> cap"

lemma sat_add_count:
  assumes "n \<le> BUF" "t \<le> unat x" "sat_add x (word_of_nat n) \<le> cap" "cap < - 1"
  shows "t + n \<le> unat (sat_add x (word_of_nat n))"
proof -
  have n: "unat (word_of_nat n :: u64) = n" using assms(1) by (simp add: unat_of_nat BUF_def)
  have "unat (sat_add x (word_of_nat n)) < 2 ^ 64 - 1"
    using assms(3,4) by (simp add: word_le_nat_alt word_less_nat_alt unat_max64)
  then show ?thesis using assms(2) by (simp add: unat_sat_add n min_def split: if_splits)
qed

lemma drain_stream_go:
  assumes "drain_stream cap k st rs d = Go_on d1" "counted cap d" "\<forall>c\<in>set (chunks_of rs). length c \<le> BUF" "cap < - 1"
  shows "counted cap d1 \<and> d_chunks d1 = d_chunks d @ map (Pair st) (chunks_of rs)"
  using assms(1-3)
proof (induction rs arbitrary: d)
  case (Cons r rs)
  show ?case
  proof (cases "read_chunk r")
    case (Inr o')
    show ?thesis
    proof (cases o')
      case None
      with Inr Cons.prems show ?thesis by simp
    next
      case (Some c)
      let ?d = "d\<lparr>d_sent := sat_add (d_sent d) (word_of_nat (length c))\<rparr>"
      from Inr Some Cons.prems have le: "d_sent ?d \<le> cap" and run: "drain_stream cap k st rs (deliver st c ?d) = Go_on d1"
          and c: "length c \<le> BUF" "\<forall>c\<in>set (chunks_of rs). length c \<le> BUF"
        by (simp_all add: Let_def not_less split: if_splits)
      have "counted cap (deliver st c ?d)"
        using sat_add_count [OF c(1), of "total_bytes (d_chunks d)" "d_sent d" cap] le Cons.prems(2) assms(4)
        by (simp add: counted_def)
      from Cons.IH [OF run this c(2)] show ?thesis by (simp add: Inr Some)
    qed
  qed (use Cons.prems in simp)
qed simp

lemma drain_stream_stop:
  assumes "drain_stream cap k st rs d = Stop r d1" "counted cap d" "\<forall>c\<in>set (chunks_of rs). length c \<le> BUF" "cap < - 1"
  shows "total_bytes (d_chunks d1) \<le> unat cap \<and>
    ((\<exists>e. r = Inl e) \<or> r = Inr ExitOutputCap \<and> cap < d_sent d1)"
  using assms(1-3)
proof (induction rs arbitrary: d)
  case (Cons r' rs)
  have tot: "total_bytes (d_chunks d) \<le> unat cap"
    using Cons.prems(2) by (auto simp: counted_def word_le_nat_alt intro: order.trans)
  show ?case
  proof (cases "read_chunk r'")
    case (Inr o')
    show ?thesis
    proof (cases o')
      case None
      with Inr Cons.prems show ?thesis by simp
    next
      case (Some c)
      let ?d = "d\<lparr>d_sent := sat_add (d_sent d) (word_of_nat (length c))\<rparr>"
      show ?thesis
      proof (cases "cap < d_sent ?d")
        case True
        with Inr Some Cons.prems(1) tot show ?thesis by (cases k) (auto simp: kill_then_def)
      next
        case False
        with Inr Some Cons.prems have le: "d_sent ?d \<le> cap" and run: "drain_stream cap k st rs (deliver st c ?d) = Stop r d1"
            and c: "length c \<le> BUF" "\<forall>c\<in>set (chunks_of rs). length c \<le> BUF"
          by (auto simp: Let_def split: if_splits)
        have "counted cap (deliver st c ?d)"
          using sat_add_count [OF c(1), of "total_bytes (d_chunks d)" "d_sent d" cap] le Cons.prems(2) assms(4)
          by (simp add: counted_def)
        from Cons.IH [OF run this c(2)] show ?thesis .
      qed
    qed
  qed (use Cons.prems tot in auto)
qed simp

lemma drain_remaining_chunks: "d_chunks (drain_remaining st rs d) = d_chunks d @ map (Pair st) (chunks_of rs)"
  by (induction rs arbitrary: d) (auto split: sum.split option.split)

lemma handle_event_go:
  assumes "handle_event cap k ev d = Go_on d1" "counted cap d" "reads_ok ev" "cap < - 1"
  shows "counted cap d1 \<and> d_chunks d1 = d_chunks d @ ev_trace ev \<and> \<not> final_event ev"
  using assms(1-3) drain_stream_go [OF _ assms(2) _ assms(4)] by (cases ev) (auto simp: handle_event_def)

lemma handle_events_go:
  assumes "handle_events cap k evs d = Go_on d1" "counted cap d" "list_all reads_ok evs" "cap < - 1"
  shows "counted cap d1 \<and> d_chunks d1 = d_chunks d @ concat (map ev_trace evs) \<and> \<not> list_ex final_event evs"
  using assms(1-3)
proof (induction evs arbitrary: d)
  case (Cons ev evs)
  then obtain d' where d': "handle_event cap k ev d = Go_on d'" "handle_events cap k evs d' = Go_on d1"
    by (auto split: flow.splits)
  with handle_event_go [OF d'(1)] Cons assms(4) show ?case by fastforce
qed simp

section \<open>The cap, losslessness, termination\<close>

text \<open>
  C29. The output cap is enforced on everything the loop passes on while the child runs: at most
  \<^verbatim>\<open>output_cap\<close> bytes in total over both streams, and the verdict \<^verbatim>\<open>OutputCap\<close> is given only when more
  than that has been read. Only the left-over that is drained after the child's exit is outside the
  count.
\<close>

theorem output_cap_enforced:
  assumes "drainer_run cap k ws drain_init = (r, d)" "list_all reads_ok (flat ws)" "cap < - 1"
  shows "\<exists>cs ds. d_chunks d = cs @ ds \<and> total_bytes cs \<le> unat cap \<and>
    (ds = [] \<or> (\<exists>out err peak w. EvExit out err peak w \<in> set (flat ws) \<and> r = Some (Inr (exit_of peak w)) \<and>
       ds = map (Pair Stdout) (chunks_of out) @ map (Pair Stderr) (chunks_of err))) \<and>
    (r = Some (Inr ExitOutputCap) \<longrightarrow> cap < d_sent d)"
proof -
  have init: "counted cap drain_init" by (simp add: counted_def drain_init_def)
  have eq: "(r, d) = (case handle_events cap k (flat ws) drain_init of Go_on d1 \<Rightarrow> (epoll_end ws, d1) | Stop r d1 \<Rightarrow> (Some r, d1))"
    using assms(1) by (simp add: drainer_run_flat)
  have plain: ?thesis
    if "total_bytes (d_chunks d) \<le> unat cap" "r = Some (Inr ExitOutputCap) \<longrightarrow> cap < d_sent d"
  proof -
    have "d_chunks d = d_chunks d @ []" by simp
    with that show ?thesis by blast
  qed
  show ?thesis
  proof (cases "handle_events cap k (flat ws) drain_init")
    case (Go_on d1)
    have "epoll_end ws \<noteq> Some (Inr ExitOutputCap)" by (induction ws rule: epoll_end.induct) auto
    moreover have "total_bytes (d_chunks d1) \<le> unat cap"
      using handle_events_go [OF Go_on init assms(2,3)] by (auto simp: counted_def word_le_nat_alt intro: order.trans)
    ultimately show ?thesis using eq Go_on by (intro plain) simp_all
  next
    case (Stop r1 d1)
    with eq have r: "r = Some r1" "d1 = d" by simp_all
    obtain pre ev post d0 where s: "flat ws = pre @ ev # post" "handle_events cap k pre drain_init = Go_on d0"
        "handle_event cap k ev d0 = Stop r1 d"
      using handle_events_stop [OF Stop] r(2) by blast
    have ok: "list_all reads_ok pre" "reads_ok ev" using assms(2) s(1) by simp_all
    note go = handle_events_go [OF s(2) init ok(1) assms(3)]
    then have tot: "total_bytes (d_chunks d0) \<le> unat cap" by (auto simp: counted_def word_le_nat_alt intro: order.trans)
    show ?thesis
    proof (cases ev)
      case (EvExit out err peak w)
      with s(3) have d: "r1 = Inr (exit_of peak w)" "d_chunks d = d_chunks d0 @ map (Pair Stdout) (chunks_of out) @ map (Pair Stderr) (chunks_of err)"
        by (auto simp: handle_event_def drain_remaining_chunks)
      have "exit_of peak w \<noteq> ExitOutputCap" by (simp add: exit_of_def split: prod.split option.split)
      with d EvExit tot show ?thesis
        by (intro exI [of _ "d_chunks d0"] exI [of _ "map (Pair Stdout) (chunks_of out) @ map (Pair Stderr) (chunks_of err)"])
          (auto simp: r s(1))
    next
      case EvTimer
      with s(3) tot show ?thesis
        by (intro plain) (auto simp: handle_event_def r kill_then_def split: if_splits)
    next
      case EvOther
      with s(3) show ?thesis by (simp add: handle_event_def)
    next
      case (EvStdout rs)
      with s(3) ok(2) have "total_bytes (d_chunks d) \<le> unat cap \<and> ((\<exists>e. r1 = Inl e) \<or> r1 = Inr ExitOutputCap \<and> cap < d_sent d)"
        using drain_stream_stop [of cap k Stdout rs d0 r1 d] go assms(3) by (simp add: handle_event_def)
      then show ?thesis by (intro plain) (auto simp: r)
    next
      case (EvStderr rs)
      with s(3) ok(2) have "total_bytes (d_chunks d) \<le> unat cap \<and> ((\<exists>e. r1 = Inl e) \<or> r1 = Inr ExitOutputCap \<and> cap < d_sent d)"
        using drain_stream_stop [of cap k Stderr rs d0 r1 d] go assms(3) by (simp add: handle_event_def)
      then show ?thesis by (intro plain) (auto simp: r)
    qed
  qed
qed

definition demo_wakes :: "wake list" where
  "demo_wakes = [Interrupted, Events [EvStdout [Got [72, 105], Again]],
     Events [EvStderr [Got [33]], EvExit [] [] (Some 2097152) (Waited 1 0)]]"

lemma demo_run:
  "drainer_run 3 True demo_wakes drain_init =
     (Some (Inr (ExitNormal 0 2 0)), \<lparr>d_sent = 3, d_chunks = [(Stdout, [72, 105]), (Stderr, [33])]\<rparr>)"
  by (simp add: demo_wakes_def drain_init_def handle_event_def read_chunk_def deliver_def sat_add_def
      exit_of_def reap_pidfd_def CLD_EXITED_def Let_def)

theorem output_cap_enforced_witness:
  "\<exists>cs ds. [(Stdout, [72, 105]), (Stderr, [33 :: byte])] = cs @ ds \<and> total_bytes cs \<le> 3"
proof -
  have "list_all reads_ok (flat demo_wakes)" by (simp add: demo_wakes_def read_chunk_def BUF_def)
  from output_cap_enforced [OF demo_run this] show ?thesis by auto
qed

text \<open>
  The left-over of a finished child is passed on and reported without regard to the cap: with a
  cap of one byte, a program that wrote three bytes before its exit was noticed ends as a normal
  exit, all three bytes delivered.
\<close>

theorem leftover_is_uncapped:
  "\<exists>d. drainer_run 1 True [Events [EvExit [Got [1, 2, 3]] [] None (Waited 1 0)]] drain_init =
      (Some (Inr (ExitNormal 0 0 0)), d) \<and> total_bytes (d_chunks d) = 3"
  by (simp add: drain_init_def handle_event_def read_chunk_def exit_of_def reap_pidfd_def CLD_EXITED_def)


text \<open>
  C18. Nothing is lost or reordered: when the run ends because the child exited, the chunks passed to
  the callbacks are exactly the chunks read, event by event, up to and including the left-over of the
  exit event.
\<close>

theorem drain_is_lossless:
  assumes "drainer_run cap k ws drain_init = (Some (Inr x), d)" "x \<noteq> ExitOutputCap" "x \<noteq> ExitTimeout"
    and "list_all reads_ok (flat ws)" "cap < - 1"
  shows "\<exists>pre out err peak w post. flat ws = pre @ EvExit out err peak w # post \<and> x = exit_of peak w \<and>
    d_chunks d = concat (map ev_trace (pre @ [EvExit out err peak w]))"
proof -
  have init: "counted cap drain_init" by (simp add: counted_def drain_init_def)
  have "epoll_end ws \<noteq> Some (Inr x)" by (induction ws rule: epoll_end.induct) auto
  with assms(1) have "handle_events cap k (flat ws) drain_init = Stop (Inr x) d"
    by (simp add: drainer_run_flat split: flow.splits)
  from handle_events_stop [OF this] obtain pre ev post d0 where
    s: "flat ws = pre @ ev # post" "handle_events cap k pre drain_init = Go_on d0" "handle_event cap k ev d0 = Stop (Inr x) d"
    by blast
  have ok: "list_all reads_ok pre" "reads_ok ev" using assms(4) s(1) by simp_all
  note go = handle_events_go [OF s(2) init ok(1) assms(5)]
  have no_cap: "drain_stream cap k st rs d0 \<noteq> Stop (Inr x) d" if "\<forall>c\<in>set (chunks_of rs). length c \<le> BUF" for st rs
    using drain_stream_stop [of cap k st rs d0 "Inr x" d] go that assms(2,5) by auto
  obtain out err peak w where ev: "ev = EvExit out err peak w"
    using s(3) ok(2) no_cap assms(3) by (cases ev) (auto simp: handle_event_def kill_then_def split: if_splits)
  with s(3) have "x = exit_of peak w"
      "d_chunks d = d_chunks d0 @ map (Pair Stdout) (chunks_of out) @ map (Pair Stderr) (chunks_of err)"
    by (auto simp: handle_event_def drain_remaining_chunks)
  with go ev have "d_chunks d = concat (map ev_trace (pre @ [EvExit out err peak w]))" by (simp add: drain_init_def)
  with s(1) ev \<open>x = exit_of peak w\<close> show ?thesis by blast
qed

theorem drain_is_lossless_witness:
  "\<exists>pre out err peak w post. flat demo_wakes = pre @ EvExit out err peak w # post \<and> ExitNormal 0 2 0 = exit_of peak w \<and>
     [(Stdout, [72, 105]), (Stderr, [33])] = concat (map ev_trace (pre @ [EvExit out err peak w]))"
  using drain_is_lossless [OF demo_run] by (simp add: demo_wakes_def read_chunk_def BUF_def)



text \<open>
  A request whose wall limit is zero is accepted, and arms a timer that never fires.
\<close>

theorem zero_wall_limit_never_fires:
  "validate (minimal_settings\<lparr>s_limits := minimal_limits\<lparr>l_wall_ms := 0\<rparr>\<rparr>) = Inr () \<and>
   make_timerfd True True 0 = Inr None"
  by (simp add: validate_def minimal_settings_def minimal_limits_def SCHEMA_VERSION_def make_timerfd_def)

end
