(* ===== verification/RB_Codes.thy ===== *)
theory RB_Codes
  imports RB_Maps
begin

text \<open>
  Prefix codes: byte encodings that can be told apart from the front, whatever follows them. A hash
  input built from prefix codes determines every field that went into it, which is what a cache key
  needs. The locale states the law, its client lemma turns equal concatenations into equal fields,
  and the interpretations cover the encodings the sources use: a discriminant byte, little-endian
  integers, length-prefixed strings, tagged options and counted lists.
\<close>

locale prefix_code =
  fixes enc :: "'a \<Rightarrow> byte list"
    and ok :: "'a \<Rightarrow> bool"
  assumes prefix_free: "ok x \<Longrightarrow> ok y \<Longrightarrow> enc x @ r = enc y @ s \<Longrightarrow> x = y \<and> r = s"
begin

lemma cancel: "ok x \<Longrightarrow> ok y \<Longrightarrow> enc x @ r = enc y @ s \<longleftrightarrow> x = y \<and> r = s"
  using prefix_free by blast

lemma inj_enc: "ok x \<Longrightarrow> ok y \<Longrightarrow> enc x = enc y \<longleftrightarrow> x = y"
  using prefix_free [of x y "[]" "[]"] by auto

lemma cancel_concat:
  "length xs = length ys \<Longrightarrow> (\<forall>x\<in>set xs. ok x) \<Longrightarrow> (\<forall>y\<in>set ys. ok y) \<Longrightarrow>
   concat (map enc xs) @ r = concat (map enc ys) @ s \<longleftrightarrow> xs = ys \<and> r = s"
proof (induction xs ys rule: list_induct2)
  case Nil
  then show ?case by simp
next
  case (Cons x xs y ys)
  then show ?case by (auto simp: cancel)
qed

end

lemma prefix_code_fixed:
  assumes "\<And>x. length (enc x) = n" and "\<And>x y. ok x \<Longrightarrow> ok y \<Longrightarrow> enc x = enc y \<Longrightarrow> x = y"
  shows "prefix_code enc ok"
proof
  fix x y r s
  assume ok: "ok x" "ok y" and eq: "enc x @ r = enc y @ s"
  have "length (enc x) = length (enc y)" by (simp add: assms(1))
  with eq have "enc x = enc y \<and> r = s" by (simp add: append_eq_append_conv)
  with ok assms(2) show "x = y \<and> r = s" by blast
qed

section \<open>The encodings of the cache key\<close>

definition enc_u32 :: "u32 \<Rightarrow> byte list" where "enc_u32 = u32_le"
definition enc_u64 :: "u64 \<Rightarrow> byte list" where "enc_u64 = u64_le"
definition enc_bool :: "bool \<Rightarrow> byte list" where "enc_bool b = [if b then 1 else 0]"

definition enc_len :: "nat \<Rightarrow> byte list" where
  "enc_len n = u64_le (word_of_nat n)"

definition enc_str :: "string \<Rightarrow> byte list" where
  "enc_str s = enc_len (length s) @ as_bytes s"

definition enc_opt :: "('a \<Rightarrow> byte list) \<Rightarrow> 'a option \<Rightarrow> byte list" where
  "enc_opt e x = (case x of Some v \<Rightarrow> 1 # e v | None \<Rightarrow> [0])"

definition enc_list :: "('a \<Rightarrow> byte list) \<Rightarrow> 'a list \<Rightarrow> byte list" where
  "enc_list e xs = enc_len (length xs) @ concat (map e xs)"

definition enc_pair :: "('a \<Rightarrow> byte list) \<Rightarrow> ('b \<Rightarrow> byte list) \<Rightarrow> 'a \<times> 'b \<Rightarrow> byte list" where
  "enc_pair e f p = e (fst p) @ f (snd p)"

text \<open>A length fits its 64-bit prefix.\<close>

definition fits64 :: "'a list \<Rightarrow> bool" where
  "fits64 xs \<longleftrightarrow> length xs < 2 ^ 64"

definition list_ok :: "('a \<Rightarrow> bool) \<Rightarrow> 'a list \<Rightarrow> bool" where
  "list_ok p xs \<longleftrightarrow> fits64 xs \<and> list_all p xs"

definition pair_ok :: "('a \<Rightarrow> bool) \<Rightarrow> ('b \<Rightarrow> bool) \<Rightarrow> 'a \<times> 'b \<Rightarrow> bool" where
  "pair_ok p q x \<longleftrightarrow> p (fst x) \<and> q (snd x)"

lemma enc_len_cancel:
  "m < 2 ^ 64 \<Longrightarrow> n < 2 ^ 64 \<Longrightarrow> enc_len m @ r = enc_len n @ s \<longleftrightarrow> m = n \<and> r = s"
  by (auto simp: enc_len_def word_of_nat_eq_iff take_bit_eq_mod)

interpretation c_u32: prefix_code enc_u32 "\<lambda>_. True"
  by (rule prefix_code_fixed [where n = 4]) (simp_all add: enc_u32_def)

interpretation c_u64: prefix_code enc_u64 "\<lambda>_. True"
  by (rule prefix_code_fixed [where n = 8]) (simp_all add: enc_u64_def)

interpretation c_bool: prefix_code enc_bool "\<lambda>_. True"
  by (rule prefix_code_fixed [where n = 1]) (simp_all add: enc_bool_def split: if_splits)

interpretation c_str: prefix_code enc_str fits64
proof
  fix x y :: string and r s
  assume ok: "fits64 x" "fits64 y" and eq: "enc_str x @ r = enc_str y @ s"
  from ok eq have "length x = length y \<and> as_bytes x @ r = as_bytes y @ s"
    by (simp add: enc_str_def fits64_def enc_len_cancel)
  then show "x = y \<and> r = s" by (auto simp: append_eq_append_conv)
qed

lemma prefix_code_opt:
  assumes "prefix_code e p"
  shows "prefix_code (enc_opt e) (pred_option p)"
proof
  fix x y r s
  assume "pred_option p x" "pred_option p y" "enc_opt e x @ r = enc_opt e y @ s"
  then show "x = y \<and> r = s"
    using prefix_code.cancel [OF assms] by (cases x; cases y) (auto simp: enc_opt_def)
qed

lemma prefix_code_list:
  assumes "prefix_code e p"
  shows "prefix_code (enc_list e) (list_ok p)"
proof
  fix xs ys r s
  assume ok: "list_ok p xs" "list_ok p ys" and eq: "enc_list e xs @ r = enc_list e ys @ s"
  from ok eq have len: "length xs = length ys"
    and tail: "concat (map e xs) @ r = concat (map e ys) @ s"
    by (auto simp: enc_list_def list_ok_def fits64_def enc_len_cancel)
  from tail ok show "xs = ys \<and> r = s"
    by (simp add: prefix_code.cancel_concat [OF assms len] list_ok_def list_all_iff)
qed

lemma prefix_code_pair:
  assumes "prefix_code e p" and "prefix_code f q"
  shows "prefix_code (enc_pair e f) (pair_ok p q)"
proof
  fix x y r s
  assume "pair_ok p q x" "pair_ok p q y" "enc_pair e f x @ r = enc_pair e f y @ s"
  then show "x = y \<and> r = s"
    by (auto simp: enc_pair_def pair_ok_def prefix_code.cancel [OF assms(1)]
        prefix_code.cancel [OF assms(2)] prod_eq_iff)
qed

interpretation c_opt_u32: prefix_code "enc_opt enc_u32" "pred_option (\<lambda>_. True)"
  by (rule prefix_code_opt) (rule c_u32.prefix_code_axioms)

interpretation c_opt_u64: prefix_code "enc_opt enc_u64" "pred_option (\<lambda>_. True)"
  by (rule prefix_code_opt) (rule c_u64.prefix_code_axioms)

interpretation c_opt_str: prefix_code "enc_opt enc_str" "pred_option fits64"
  by (rule prefix_code_opt) (rule c_str.prefix_code_axioms)

interpretation c_strs: prefix_code "enc_list enc_str" "list_ok fits64"
  by (rule prefix_code_list) (rule c_str.prefix_code_axioms)

interpretation c_opt_strs: prefix_code "enc_opt (enc_list enc_str)" "pred_option (list_ok fits64)"
  by (rule prefix_code_opt) (rule c_strs.prefix_code_axioms)

interpretation c_smap: prefix_code "enc_list (enc_pair enc_str enc_str)"
  "list_ok (pair_ok fits64 fits64)"
  by (intro prefix_code_list prefix_code_pair c_str.prefix_code_axioms)

lemmas code_cancel =
  c_u32.cancel c_u64.cancel c_bool.cancel c_str.cancel c_opt_u32.cancel c_opt_u64.cancel
  c_opt_str.cancel c_strs.cancel c_opt_strs.cancel c_smap.cancel

end
