(* ===== verification/RB_Hex.thy ===== *)
theory RB_Hex
  imports RB_Prelude
begin

text \<open>
  Text helpers of the caches: \<^verbatim>\<open>str::trim\<close>, and hexadecimal names of digests. The hex crate is
  third-party: the locale states what its callers rely on. The resolver has its own encoder,
  \<^verbatim>\<open>hex_digest\<close> in \<^verbatim>\<open>engine/src/resolver/spec.rs\<close>, which meets the same contract.
\<close>

section \<open>Trimming\<close>

text \<open>The UTF-8 encodings of the characters with the Unicode property White\_Space.\<close>

definition white_space :: "byte list list" where
  "white_space =
     [[9], [10], [11], [12], [13], [32], [0xC2, 0x85], [0xC2, 0xA0], [0xE1, 0x9A, 0x80],
      [0xE2, 0x80, 0x80], [0xE2, 0x80, 0x81], [0xE2, 0x80, 0x82], [0xE2, 0x80, 0x83],
      [0xE2, 0x80, 0x84], [0xE2, 0x80, 0x85], [0xE2, 0x80, 0x86], [0xE2, 0x80, 0x87],
      [0xE2, 0x80, 0x88], [0xE2, 0x80, 0x89], [0xE2, 0x80, 0x8A], [0xE2, 0x80, 0xA8],
      [0xE2, 0x80, 0xA9], [0xE2, 0x80, 0xAF], [0xE2, 0x81, 0x9F], [0xE3, 0x80, 0x80]]"

definition ws_prefix :: "byte list list \<Rightarrow> byte list \<Rightarrow> nat" where
  "ws_prefix ws bs =
     (case filter (\<lambda>w. take (length w) bs = w) ws of [] \<Rightarrow> 0 | w # _ \<Rightarrow> length w)"

function trim_front :: "byte list list \<Rightarrow> byte list \<Rightarrow> byte list" where
  "trim_front ws bs =
     (if ws_prefix ws bs = 0 \<or> bs = [] then bs else trim_front ws (drop (ws_prefix ws bs) bs))"
  by pat_completeness auto
termination
  by (relation "measure (length \<circ> snd)") (auto simp: diff_less)

declare trim_front.simps [simp del]

definition trim :: "string \<Rightarrow> string" where
  "trim s = of_bytes (rev (trim_front (map rev white_space)
              (rev (trim_front white_space (as_bytes s)))))"

lemma trim_front_none: "ws_prefix ws bs = 0 \<Longrightarrow> trim_front ws bs = bs"
  by (simp add: trim_front.simps)

text \<open>A string without blanks at either end is its own trim.\<close>

definition no_blanks :: "string \<Rightarrow> bool" where
  "no_blanks s \<longleftrightarrow>
     ws_prefix white_space (as_bytes s) = 0 \<and> ws_prefix (map rev white_space) (rev (as_bytes s)) = 0"

lemma trim_no_blanks: "no_blanks s \<Longrightarrow> trim s = s"
  by (simp add: trim_def no_blanks_def trim_front_none)

text \<open>Digits and lower-case hexadecimal letters are not blanks.\<close>

lemma ws_prefix_none:
  assumes "\<forall>w\<in>set ws. w \<noteq> [] \<and> unat (hd w) \<notin> {48..57} \<union> {97..102}" "\<forall>b\<in>set xs. unat b \<in> {48..57} \<union> {97..102}"
  shows "ws_prefix ws xs = 0"
proof -
  have "take (length w) xs \<noteq> w" if "w \<in> set ws" for w
  proof
    assume eq: "take (length w) xs = w"
    have "w \<noteq> []" "unat (hd w) \<notin> {48..57} \<union> {97..102}" using that assms(1) by auto
    moreover have "hd w \<in> set xs" using eq \<open>w \<noteq> []\<close> by (metis hd_in_set in_set_takeD)
    ultimately show False using assms(2) by blast
  qed
  then have "filter (\<lambda>w. take (length w) xs = w) ws = []" by (simp add: filter_empty_conv)
  then show ?thesis by (simp add: ws_prefix_def)
qed

lemma digits_no_blanks:
  assumes "\<And>b. b \<in> set (as_bytes s) \<Longrightarrow> unat b \<in> {48..57} \<union> {97..102}"
  shows "no_blanks s"
  unfolding no_blanks_def using assms by (intro conjI ws_prefix_none) (auto simp: white_space_def)

section \<open>The hex codec\<close>

text \<open>
  What the code relies on from the hex codec: decoding inverts encoding, and an encoding is a
  non-empty relative name of hexadecimal digits.
\<close>

definition is_hex_char :: "char \<Rightarrow> bool" where
  "is_hex_char c \<longleftrightarrow> c \<in> set ''0123456789abcdef''"

lemma hex_char_code: "is_hex_char c \<Longrightarrow> unat (word_of_nat (of_char c) :: byte) \<in> {48..57} \<union> {97..102}"
  unfolding unat_byte is_hex_char_def by (auto simp: of_char_def)

locale hex_codec =
  fixes to_hex :: "byte list \<Rightarrow> string"
    and of_hex :: "string \<Rightarrow> byte list option"
  assumes of_to: "of_hex (to_hex bs) = Some bs"
    and digits: "list_all is_hex_char (to_hex bs)"
begin

lemma to_hex_inj: "to_hex a = to_hex b \<Longrightarrow> a = b"
  by (metis of_to option.inject)

lemma to_hex_bytes: "b \<in> set (as_bytes (to_hex bs)) \<Longrightarrow> unat b \<in> {48..57} \<union> {97..102}"
  using digits [of bs] hex_char_code unfolding as_bytes_def list_all_iff by fastforce

lemma to_hex_utf8: "utf8_valid (as_bytes (to_hex bs))"
  by (rule utf8_valid_ascii) (use to_hex_bytes in fastforce)

lemma to_hex_no_blanks: "no_blanks (to_hex bs)"
  using to_hex_bytes by (intro digits_no_blanks) blast

lemma to_hex_relative: "\<not> is_absolute (to_hex bs)"
  using digits [of bs] by (auto simp: is_absolute_def is_hex_char_def split: list.split)

end

section \<open>The resolver's encoder\<close>

definition HEX :: string where "HEX = ''0123456789abcdef''"

definition hex_digest :: "byte list \<Rightarrow> string" where
  "hex_digest digest =
     concat (map (\<lambda>b. [HEX ! unat (drop_bit 4 b), HEX ! unat (b AND 15)]) digest)"

text \<open>A decoder for it: two digits per byte, lower case only.\<close>

definition hex_value :: "char \<Rightarrow> nat option" where
  "hex_value c = (if is_hex_char c then Some (length (takeWhile (\<lambda>d. d \<noteq> c) HEX)) else None)"

fun unhex :: "string \<Rightarrow> byte list option" where
  "unhex [] = Some []"
| "unhex [c] = None"
| "unhex (c # d # s) =
     (case (hex_value c, hex_value d, unhex s) of
        (Some x, Some y, Some bs) \<Rightarrow> Some (word_of_nat (16 * x + y) # bs)
      | _ \<Rightarrow> None)"

lemma less_16_cases: "x < 16 \<Longrightarrow> x \<in> {0,1,2,3,4,5,6,7,8,9,10,11,12,13,14,15::nat}"
  unfolding insert_iff empty_iff by presburger

lemma hex_value_nth: "x < 16 \<Longrightarrow> hex_value (HEX ! x) = Some x"
  by (drule less_16_cases) (auto simp: hex_value_def HEX_def is_hex_char_def)

lemma nibbles: "unat (drop_bit 4 b) < 16" "unat (b AND 15) < 16"
  "16 * unat (drop_bit 4 b) + unat (b AND 15) = unat b" for b :: byte
proof -
  have b: "unat b < 256" using unsigned_less [of b, where ?'a = nat] by simp
  have hi: "unat (drop_bit 4 b) = unat b div 16" using b by (simp only: unsigned_drop_bit_eq) (simp add: drop_bit_eq_div take_bit_eq_mod)
  have "(15 :: byte) = mask 4" by (simp add: mask_eq_exp_minus_1)
  then have "b AND 15 = take_bit 4 b" by (simp only: take_bit_eq_mask)
  then have lo: "unat (b AND 15) = unat b mod 16"
    by (simp only: unsigned_take_bit_eq) (simp add: take_bit_eq_mod)
  show "unat (drop_bit 4 b) < 16" "unat (b AND 15) < 16" using b hi lo by simp_all
  show "16 * unat (drop_bit 4 b) + unat (b AND 15) = unat b" using hi lo by simp
qed

lemma unhex_hex_digest: "unhex (hex_digest bs) = Some bs"
  by (induction bs) (simp_all add: hex_digest_def hex_value_nth nibbles)

lemma length_hex_digest [simp]: "length (hex_digest bs) = 2 * length bs"
  by (induction bs) (simp_all add: hex_digest_def)

lemma hex_digest_digits: "list_all is_hex_char (hex_digest bs)"
proof (induction bs)
  case Nil
  then show ?case by (simp add: hex_digest_def)
next
  case (Cons b bs)
  have "is_hex_char (HEX ! x)" if "x < 16" for x
    using less_16_cases [OF that] by (auto simp: HEX_def is_hex_char_def)
  with Cons nibbles [of b] show ?case by (simp add: hex_digest_def)
qed

interpretation hx: hex_codec hex_digest unhex
  by unfold_locales (simp_all add: unhex_hex_digest hex_digest_digits)

end
