(* ===== verification/RB_CacheKey.thy ===== *)
theory RB_CacheKey
  imports RB_Codes RB_Settings RB_Hex
begin

text \<open>
  The two hash inputs of the resolver (\<^verbatim>\<open>engine/src/resolver/spec.rs\<close>): \<^verbatim>\<open>resolved_cache_key\<close>, the key of
  the resolved-request cache, and \<^verbatim>\<open>files_digest\<close>, the identity of a program and of its work
  directory. The hash function itself is an argument of the users of these definitions; what is
  proved here is which requests feed it the same bytes.
\<close>

section \<open>Discriminants\<close>

fun lang_tag :: "language \<Rightarrow> byte" where
  "lang_tag Python = 0" | "lang_tag Typescript = 1" | "lang_tag Go = 2" | "lang_tag Rust = 3"
| "lang_tag Cpp = 4"

fun mode_tag :: "mode \<Rightarrow> byte" where
  "mode_tag Exec = 0" | "mode_tag Session = 1" | "mode_tag RlStepMode = 2" | "mode_tag RlEpisode = 3"

fun action_tag :: "output_action \<Rightarrow> byte" where
  "action_tag Truncate = 0" | "action_tag KillOnOverflow = 1"

fun cap_tag :: "capability \<Rightarrow> byte" where
  "cap_tag Concurrency = 0" | "cap_tag Subprocess = 1" | "cap_tag LargeFs = 2"
| "cap_tag PersistentSession = 3" | "cap_tag Gpu = 4" | "cap_tag Install = 5" | "cap_tag RawSockets = 6"

fun tier_tag :: "network_tier \<Rightarrow> byte" where
  "tier_tag TierNone = 0" | "tier_tag Loopback = 1" | "tier_tag EgressAllowlist = 2"
| "tier_tag EgressOpen = 3"

fun dns_tag :: "dns_mode \<Rightarrow> byte" where
  "dns_tag Proxied = 0" | "dns_tag DnsNone = 1"

fun mount_tag :: "mount_mode \<Rightarrow> byte" where
  "mount_tag Ro = 0" | "mount_tag Rw = 1"

lemma lang_tag_inj [simp]: "lang_tag a = lang_tag b \<longleftrightarrow> a = b"
  by (cases a; cases b) simp_all

lemma mode_tag_inj [simp]: "mode_tag a = mode_tag b \<longleftrightarrow> a = b"
  by (cases a; cases b) simp_all

lemma action_tag_inj [simp]: "action_tag a = action_tag b \<longleftrightarrow> a = b"
  by (cases a; cases b) simp_all

lemma cap_tag_inj [simp]: "cap_tag a = cap_tag b \<longleftrightarrow> a = b"
  by (cases a; cases b) simp_all

lemma tier_tag_inj [simp]: "tier_tag a = tier_tag b \<longleftrightarrow> a = b"
  by (cases a; cases b) simp_all

lemma dns_tag_inj [simp]: "dns_tag a = dns_tag b \<longleftrightarrow> a = b"
  by (cases a; cases b) simp_all

lemma mount_tag_inj [simp]: "mount_tag a = mount_tag b \<longleftrightarrow> a = b"
  by (cases a; cases b) simp_all

section \<open>The key of the resolved-request cache\<close>

definition enc_cap :: "capability \<Rightarrow> byte list" where "enc_cap c = [cap_tag c]"

definition enc_limits :: "limits \<Rightarrow> byte list" where
  "enc_limits l =
     enc_u64 (l_wall_ms l) @ enc_opt enc_u64 (l_cpu_ms l) @ enc_u64 (l_compile_ms l) @
     enc_u64 (l_memory_mb l) @ enc_u32 (l_cpu_cores l) @ enc_u32 (l_pids_max l) @
     enc_u32 (l_fd_max l) @ enc_u64 (l_fsize_mb l) @ enc_u64 (l_tmpfs_mb l) @ enc_u64 (l_stack_mb l) @
     enc_u64 (l_output_bytes l) @ [action_tag (l_output_action l)] @ enc_opt enc_u64 (l_step_ms l) @
     enc_opt enc_u64 (l_episode_ms l)"

definition enc_network :: "network_settings \<Rightarrow> byte list" where
  "enc_network n =
     [tier_tag (nw_tier n)] @ enc_opt (enc_list enc_str) (nw_allowlist n) @
     enc_opt enc_u32 (nw_bandwidth_mbps n) @ enc_opt enc_u32 (nw_max_conns n) @
     enc_bool (nw_block_metadata n) @ [dns_tag (dns_mode (nw_dns n))] @ enc_u32 (dns_cache_s (nw_dns n))"

definition enc_mount :: "extra_mount \<Rightarrow> byte list" where
  "enc_mount m = enc_str (em_source m) @ enc_str (em_target m) @ [mount_tag (em_mode m)]"

definition enc_filesystem :: "filesystem_settings \<Rightarrow> byte list" where
  "enc_filesystem f =
     enc_list enc_str (fs_writable_paths f) @ enc_list enc_mount (fs_mounts f) @
     enc_bool (fs_preserve_on_exit f)"

definition enc_determinism :: "determinism \<Rightarrow> byte list" where
  "enc_determinism d =
     enc_opt enc_u64 (dt_seed d) @ enc_bool (dt_deterministic_time d) @ enc_bool (dt_freeze_random d) @
     enc_opt enc_str (dt_pin_runtime_hash d)"

definition enc_webhook :: "webhook_settings \<Rightarrow> byte list" where
  "enc_webhook w = enc_str (wh_url w) @ enc_list enc_str (wh_events w) @ enc_opt enc_str (wh_hmac_key w)"

definition enc_observability :: "observability_settings \<Rightarrow> byte list" where
  "enc_observability o' =
     enc_bool (ob_capture_metrics o') @ enc_bool (ob_trace_syscalls o') @
     enc_opt enc_webhook (ob_webhook o')"

definition cache_key_preimage :: "settings \<Rightarrow> byte list \<Rightarrow> string \<Rightarrow> byte list" where
  "cache_key_preimage s input_digest runtime_name =
     input_digest @ enc_str runtime_name @ [lang_tag (s_language s)] @ [mode_tag (s_mode s)] @
     enc_limits (s_limits s) @ enc_list enc_cap (s_capabilities s) @ enc_network (s_network s) @
     enc_filesystem (s_filesystem s) @ enc_list (enc_pair enc_str enc_str) (s_env s) @
     enc_determinism (s_determinism s) @ enc_observability (s_observability s)"

definition resolved_cache_key ::
    "(byte list \<Rightarrow> byte list) \<Rightarrow> settings \<Rightarrow> byte list \<Rightarrow> string \<Rightarrow> byte list" where
  "resolved_cache_key blake3 s input_digest runtime_name =
     blake3 (cache_key_preimage s input_digest runtime_name)"

section \<open>Each part is a prefix code\<close>

text \<open>Sizes fit their 64-bit prefixes, as on any machine with 64-bit addresses.\<close>

definition mount_fits :: "extra_mount \<Rightarrow> bool" where
  "mount_fits m \<longleftrightarrow> fits64 (em_source m) \<and> fits64 (em_target m)"

definition webhook_fits :: "webhook_settings \<Rightarrow> bool" where
  "webhook_fits w \<longleftrightarrow> fits64 (wh_url w) \<and> list_ok fits64 (wh_events w) \<and> pred_option fits64 (wh_hmac_key w)"

definition network_fits :: "network_settings \<Rightarrow> bool" where
  "network_fits n \<longleftrightarrow> pred_option (list_ok fits64) (nw_allowlist n)"

definition filesystem_fits :: "filesystem_settings \<Rightarrow> bool" where
  "filesystem_fits f \<longleftrightarrow> list_ok fits64 (fs_writable_paths f) \<and> list_ok mount_fits (fs_mounts f)"

definition determinism_fits :: "determinism \<Rightarrow> bool" where
  "determinism_fits d \<longleftrightarrow> pred_option fits64 (dt_pin_runtime_hash d)"

definition observability_fits :: "observability_settings \<Rightarrow> bool" where
  "observability_fits o' \<longleftrightarrow> pred_option webhook_fits (ob_webhook o')"

definition settings_fit :: "settings \<Rightarrow> bool" where
  "settings_fit s \<longleftrightarrow> fits64 (s_capabilities s) \<and> network_fits (s_network s) \<and>
     filesystem_fits (s_filesystem s) \<and> list_ok (pair_ok fits64 fits64) (s_env s) \<and>
     determinism_fits (s_determinism s) \<and> observability_fits (s_observability s)"

lemma pred_option_True [simp]: "pred_option (\<lambda>_. True) x"
  by (cases x) simp_all

interpretation c_limits: prefix_code enc_limits "\<lambda>_. True"
  by unfold_locales (simp add: enc_limits_def code_cancel limits.equality)

interpretation c_network: prefix_code enc_network network_fits
  by unfold_locales
    (simp add: enc_network_def network_fits_def code_cancel network_settings.equality dns_settings.equality)

interpretation c_mount: prefix_code enc_mount mount_fits
  by unfold_locales (simp add: enc_mount_def mount_fits_def code_cancel extra_mount.equality)

interpretation c_mounts: prefix_code "enc_list enc_mount" "list_ok mount_fits"
  by (rule prefix_code_list) (rule c_mount.prefix_code_axioms)

interpretation c_cap: prefix_code enc_cap "\<lambda>_. True"
  by (rule prefix_code_fixed [where n = 1]) (simp_all add: enc_cap_def)

interpretation c_caps: prefix_code "enc_list enc_cap" "list_ok (\<lambda>_. True)"
  by (rule prefix_code_list) (rule c_cap.prefix_code_axioms)

interpretation c_filesystem: prefix_code enc_filesystem filesystem_fits
  by unfold_locales
    (simp add: enc_filesystem_def filesystem_fits_def code_cancel c_mounts.cancel filesystem_settings.equality)

interpretation c_determinism: prefix_code enc_determinism determinism_fits
  by unfold_locales (simp add: enc_determinism_def determinism_fits_def code_cancel determinism.equality)

interpretation c_webhook: prefix_code enc_webhook webhook_fits
  by unfold_locales (simp add: enc_webhook_def webhook_fits_def code_cancel webhook_settings.equality)

interpretation c_opt_webhook: prefix_code "enc_opt enc_webhook" "pred_option webhook_fits"
  by (rule prefix_code_opt) (rule c_webhook.prefix_code_axioms)

interpretation c_observability: prefix_code enc_observability observability_fits
  by unfold_locales
    (simp add: enc_observability_def observability_fits_def code_cancel c_opt_webhook.cancel
      observability_settings.equality)

lemmas key_cancel = code_cancel c_limits.cancel c_network.cancel c_caps.cancel c_filesystem.cancel
  c_determinism.cancel c_observability.inj_enc

text \<open>
  The bytes hashed into the key of the resolved-request cache determine the program digest, the
  runtime, the language, the mode, all limits, the capabilities, the network, file-system and
  determinism settings, the user's environment and the observability settings: two requests that
  differ in any of these never feed the hash the same input, whatever strings they contain.
\<close>

theorem cache_key_determines_fields:
  assumes "length d1 = 32" "length d2 = 32" "fits64 r1" "fits64 r2" "settings_fit s1" "settings_fit s2"
    and "cache_key_preimage s1 d1 r1 = cache_key_preimage s2 d2 r2"
  shows "d1 = d2 \<and> r1 = r2 \<and> s_language s1 = s_language s2 \<and> s_mode s1 = s_mode s2 \<and>
    s_limits s1 = s_limits s2 \<and> s_capabilities s1 = s_capabilities s2 \<and> s_network s1 = s_network s2 \<and>
    s_filesystem s1 = s_filesystem s2 \<and> s_env s1 = s_env s2 \<and>
    s_determinism s1 = s_determinism s2 \<and> s_observability s1 = s_observability s2"
proof -
  have caps: "list_ok (\<lambda>_. True) (s_capabilities s1)" "list_ok (\<lambda>_. True) (s_capabilities s2)"
    using assms(5,6) by (simp_all add: settings_fit_def list_ok_def list_all_iff)
  have "length d1 = length d2" using assms by simp
  with assms(7) have "d1 = d2" and "drop 32 (cache_key_preimage s1 d1 r1) = drop 32 (cache_key_preimage s2 d2 r2)"
    by (simp_all add: cache_key_preimage_def append_eq_append_conv)
  with assms(1-6) caps show ?thesis
    by (simp add: cache_key_preimage_def key_cancel settings_fit_def)
qed

theorem cache_key_determines_fields_witness:
  "settings_fit minimal_settings \<and>
   cache_key_preimage minimal_settings (replicate 32 0) ''python-base'' \<noteq>
   cache_key_preimage (minimal_settings\<lparr>s_env := [(''A'', ''b'')]\<rparr>) (replicate 32 0) ''python-base''"
proof
  show fit: "settings_fit minimal_settings"
    by (simp add: settings_fit_def minimal_settings_def fits64_def network_fits_def filesystem_fits_def
        list_ok_def determinism_fits_def observability_fits_def)
  have fit2: "settings_fit (minimal_settings\<lparr>s_env := [(''A'', ''b'')]\<rparr>)"
    by (simp add: settings_fit_def minimal_settings_def fits64_def network_fits_def filesystem_fits_def
        list_ok_def pair_ok_def determinism_fits_def observability_fits_def)
  show "cache_key_preimage minimal_settings (replicate 32 0) ''python-base'' \<noteq>
     cache_key_preimage (minimal_settings\<lparr>s_env := [(''A'', ''b'')]\<rparr>) (replicate 32 0) ''python-base''"
  proof
    assume eq: "cache_key_preimage minimal_settings (replicate 32 0) ''python-base'' =
      cache_key_preimage (minimal_settings\<lparr>s_env := [(''A'', ''b'')]\<rparr>) (replicate 32 0) ''python-base''"
    have "s_env minimal_settings = s_env (minimal_settings\<lparr>s_env := [(''A'', ''b'')]\<rparr>)"
      using cache_key_determines_fields [OF _ _ _ _ fit fit2 eq] by (simp add: fits64_def)
    then show False by (simp add: minimal_settings_def)
  qed
qed

section \<open>The identity of a program\<close>

definition files_preimage :: "string \<Rightarrow> file_entry list \<Rightarrow> byte list" where
  "files_preimage entrypoint files =
     as_bytes entrypoint @ [0] @
     concat (map (\<lambda>f. as_bytes (fe_path f) @ [0] @ fe_content f @ [0]) files)"

definition files_digest :: "(byte list \<Rightarrow> byte list) \<Rightarrow> settings \<Rightarrow> byte list" where
  "files_digest blake3 s = blake3 (files_preimage (s_entrypoint s) (s_files s))"

definition nul_free :: "file_entry \<Rightarrow> bool" where
  "nul_free f \<longleftrightarrow> 0 \<notin> set (as_bytes (fe_path f)) \<and> 0 \<notin> set (fe_content f)"

lemma split_at_nul:
  "0 \<notin> set xs \<Longrightarrow> 0 \<notin> set ys \<Longrightarrow> xs @ 0 # r = ys @ 0 # s \<longleftrightarrow> xs = ys \<and> r = (s :: byte list)"
proof (induction xs arbitrary: ys)
  case Nil
  then show ?case by (cases ys) auto
next
  case (Cons x xs)
  then show ?case by (cases ys) auto
qed

lemma files_preimage_tail_inj:
  assumes "list_all nul_free fs" "list_all nul_free gs"
    "concat (map (\<lambda>f. as_bytes (fe_path f) @ [0] @ fe_content f @ [0]) fs) =
     concat (map (\<lambda>f. as_bytes (fe_path f) @ [0] @ fe_content f @ [0]) gs)"
  shows "map (\<lambda>f. (fe_path f, fe_content f)) fs = map (\<lambda>f. (fe_path f, fe_content f)) gs"
  using assms
proof (induction fs arbitrary: gs)
  case Nil
  then show ?case by (cases gs) auto
next
  case (Cons f fs)
  then obtain g gs' where gs: "gs = g # gs'" by (cases gs) auto
  with Cons.prems show ?case by (auto simp: nul_free_def split_at_nul intro: Cons.IH)
qed

text \<open>
  For programs whose paths and contents have no NUL byte (all source text), the digest's input
  determines the entrypoint and the list of files with their contents: distinct programs get
  distinct hash inputs, hence distinct work directories up to collisions of the hash.
\<close>

theorem files_preimage_injective:
  assumes "0 \<notin> set (as_bytes e1)" "0 \<notin> set (as_bytes e2)"
    and "list_all nul_free fs" "list_all nul_free gs"
    and "files_preimage e1 fs = files_preimage e2 gs"
  shows "e1 = e2 \<and> map (\<lambda>f. (fe_path f, fe_content f)) fs = map (\<lambda>f. (fe_path f, fe_content f)) gs"
  using assms files_preimage_tail_inj [OF assms(3,4)] by (simp add: files_preimage_def split_at_nul)

theorem files_preimage_injective_witness:
  "files_preimage ''a'' [\<lparr>fe_path = ''a'', fe_content = [1], fe_mode = 420\<rparr>] \<noteq>
   files_preimage ''a'' [\<lparr>fe_path = ''a'', fe_content = [2], fe_mode = 420\<rparr>]"
proof
  assume eq: "files_preimage ''a'' [\<lparr>fe_path = ''a'', fe_content = [1], fe_mode = 420\<rparr>] =
    files_preimage ''a'' [\<lparr>fe_path = ''a'', fe_content = [2], fe_mode = 420\<rparr>]"
  have "[1] = ([2] :: byte list)"
    using files_preimage_injective [OF _ _ _ _ eq] by (simp add: nul_free_def as_bytes_def)
  then show False by simp
qed

text \<open>
  With NUL bytes in a file's content the input is ambiguous: a one-file and a two-file program
  give the same bytes, so they share a digest, a work directory and its marker whatever the hash
  function is, and the second request is served the first one's files.
\<close>

theorem files_digest_collision:
  "files_digest blake3 (s\<lparr>s_files := [\<lparr>fe_path = ''a'', fe_content = x @ [0] @ as_bytes ''b'' @ [0] @ y, fe_mode = m\<rparr>]\<rparr>) =
   files_digest blake3 (s\<lparr>s_files := [\<lparr>fe_path = ''a'', fe_content = x, fe_mode = m\<rparr>,
                                       \<lparr>fe_path = ''b'', fe_content = y, fe_mode = m\<rparr>]\<rparr>)"
  by (simp add: files_digest_def files_preimage_def)

end
