(* ===== verification/RB_MountPlan.thy ===== *)
theory RB_MountPlan
  imports RB_Spec
begin

text \<open>
  The mount plan of a request (\<^verbatim>\<open>engine/src/resolver/mount.rs\<close>): which host paths the sandbox sees,
  at which targets and with which access, in the order the mount namespace is built. The host file
  system is an argument; the facts the source computes once per engine are a separate argument.
\<close>

section \<open>The host\<close>

record host =
  h_is_dir :: "string \<Rightarrow> bool"
  h_exists :: "string \<Rightarrow> bool"
  h_read_link :: "string \<Rightarrow> string option"

definition NIX_STORE :: string where "NIX_STORE = ''/nix/store''"
definition DEV_MIN :: string where "DEV_MIN = ''/var/lib/sandbox/dev-min''"
definition SESSIONS_ROOT :: string where "SESSIONS_ROOT = ''/var/lib/sandbox/sessions''"
definition EPISODES_ROOT :: string where "EPISODES_ROOT = ''/var/lib/sandbox/episodes''"
definition VOLUMES_ROOT :: string where "VOLUMES_ROOT = ''/var/lib/sandbox/volumes''"

definition ETC_FILES :: "string list" where
  "ETC_FILES =
     [''/etc/passwd'', ''/etc/group'', ''/etc/nsswitch.conf'', ''/etc/resolv.conf'', ''/etc/hosts'',
      ''/etc/ssl/certs/ca-certificates.crt'']"

record host_facts =
  hf_dev_min :: bool
  hf_nix_store :: bool
  hf_etc :: "bool list"

definition host_facts_of :: "host \<Rightarrow> host_facts" where
  "host_facts_of h =
     \<lparr>hf_dev_min = h_is_dir h DEV_MIN, hf_nix_store = h_is_dir h NIX_STORE,
      hf_etc = map (h_exists h) ETC_FILES\<rparr>"

section \<open>Byte windows\<close>

text \<open>\<^verbatim>\<open>slice::windows\<close>; comparing a window with a literal is false when the lengths differ.\<close>

fun windows :: "nat \<Rightarrow> 'a list \<Rightarrow> 'a list list" where
  "windows n [] = []"
| "windows n (x # xs) = (if n \<le> length (x # xs) then take n (x # xs) # windows n xs else [])"

definition any_window :: "nat \<Rightarrow> byte list \<Rightarrow> byte list \<Rightarrow> bool" where
  "any_window n lit bs = list_ex (\<lambda>w. w = lit) (windows n bs)"

text \<open>The quote character is written by its code.\<close>

definition IMPORT_C :: "byte list" where
  "IMPORT_C = as_bytes ''import '' @ [34] @ as_bytes ''C'' @ [34]"

definition UNSAFE_LIT :: "byte list" where
  "UNSAFE_LIT = as_bytes ''unsafe''"

section \<open>The plan\<close>

definition resolve_source :: "string \<Rightarrow> string option" where
  "resolve_source uri =
     (case strip_prefix uri ''session:'' of
        Some sid \<Rightarrow> Some (path_join SESSIONS_ROOT sid)
      | None \<Rightarrow>
          (case strip_prefix uri ''episode:'' of
             Some eid \<Rightarrow> Some (path_join EPISODES_ROOT eid)
           | None \<Rightarrow>
               (case strip_prefix uri ''volume:'' of
                  Some vid \<Rightarrow> Some (path_join VOLUMES_ROOT vid)
                | None \<Rightarrow> None)))"

definition DEV_NODES :: "string list" where
  "DEV_NODES = map ((@) ''/dev/'') [''null'', ''zero'', ''urandom'', ''random'', ''tty'', ''full'']"

definition dev_mounts :: "host \<Rightarrow> host_facts \<Rightarrow> mount_kind list" where
  "dev_mounts h facts =
     (if hf_dev_min facts then [DevMin DEV_MIN ''/dev'']
      else Tmpfs ''/dev'' (4 * 1024 * 1024) 493 #
           map (\<lambda>d. BindRw d d) (filter (h_exists h) DEV_NODES))"

definition GO_BINS :: "string list" where
  "GO_BINS = [''/bin/sh'', ''/bin/dash'', ''/bin/bash'', ''/bin/echo'', ''/usr/bin/echo'', ''/bin/cat'',
     ''/usr/bin/cat'']"

definition GO_LIBS :: "string list" where
  "GO_LIBS = [''/lib'', ''/lib64'', ''/usr/lib'', ''/usr/lib/aarch64-linux-gnu'']"

definition YAEGI :: string where "YAEGI = ''/usr/local/bin/yaegi''"

definition yaegi_eligible :: "settings \<Rightarrow> bool" where
  "yaegi_eligible s =
     (case s_files s of
        [f] \<Rightarrow> \<not> any_window 9 IMPORT_C (fe_content f) \<and> \<not> any_window 6 UNSAFE_LIT (fe_content f)
      | _ \<Rightarrow> False)"

definition shell_target :: "host \<Rightarrow> mount_kind list" where
  "shell_target h =
     (case h_read_link h ''/bin/sh'' of
        None \<Rightarrow> []
      | Some real \<Rightarrow>
          let real_path = (if is_absolute real then real else path_join ''/bin'' real) in
          if h_exists h real_path \<and> real_path \<noteq> ''/bin/sh'' then [BindRo real_path real_path] else [])"

definition language_mounts :: "host \<Rightarrow> host_facts \<Rightarrow> settings \<Rightarrow> mount_kind list" where
  "language_mounts h facts s =
     (case s_language s of
        Go \<Rightarrow>
          (if h_exists h YAEGI \<and> yaegi_eligible s then [BindRo YAEGI YAEGI] else []) @
          map (\<lambda>b. BindRo b b) (filter (h_exists h) GO_BINS) @
          shell_target h @
          map (\<lambda>l. BindRo l l) (filter (h_is_dir h) GO_LIBS)
      | _ \<Rightarrow> if hf_nix_store facts then [BindRo NIX_STORE NIX_STORE] else [])"

definition etc_mounts :: "host_facts \<Rightarrow> mount_kind list" where
  "etc_mounts facts = map (\<lambda>(f, _). BindRo f f) (filter snd (zip ETC_FILES (hf_etc facts)))"

definition session_mounts :: "host \<Rightarrow> settings \<Rightarrow> mount_kind list" where
  "session_mounts h s =
     (case (s_mode s, s_session_id s) of
        (Session, Some sid) \<Rightarrow>
          (let src = path_join SESSIONS_ROOT sid in
           if h_is_dir h src then [BindRw src ''/session''] else [])
      | _ \<Rightarrow> [])"

definition episode_mounts :: "host \<Rightarrow> settings \<Rightarrow> mount_kind list" where
  "episode_mounts h s =
     (if s_mode s \<in> {RlStepMode, RlEpisode} then
        (let src = path_join EPISODES_ROOT (s_request_id s) in
         if h_is_dir h src then [BindRw src ''/episode''] else [])
      else [])"

definition user_mount :: "extra_mount \<Rightarrow> mount_kind option" where
  "user_mount em =
     (case resolve_source (em_source em) of
        None \<Rightarrow> None
      | Some src \<Rightarrow> Some (case em_mode em of Ro \<Rightarrow> BindRo src (em_target em)
                                           | Rw \<Rightarrow> BindRw src (em_target em)))"

definition mount_resolve :: "host \<Rightarrow> host_facts \<Rightarrow> settings \<Rightarrow> string \<Rightarrow> mount_kind list" where
  "mount_resolve h facts s work_dir =
     [Proc ''/proc'', Tmpfs ''/tmp'' (sat_mul (l_tmpfs_mb (s_limits s)) (1024 * 1024)) 1023] @
     dev_mounts h facts @ language_mounts h facts s @ etc_mounts facts @
     [BindRo work_dir ''/sandbox''] @ session_mounts h s @ episode_mounts h s @
     List.map_filter user_mount (fs_mounts (s_filesystem s))"

lemmas plan_defs = mount_resolve_def dev_mounts_def language_mounts_def etc_mounts_def
  session_mounts_def episode_mounts_def shell_target_def

section \<open>What the sandbox sees\<close>

lemma set_map_filter: "set (List.map_filter f xs) = {y. \<exists>x\<in>set xs. f x = Some y}"
  by (induction xs) (auto simp: List.map_filter_simps split: option.splits)

text \<open>Host paths that the code itself puts into a plan.\<close>

definition fixed_sources :: "string set" where
  "fixed_sources = insert DEV_MIN (insert NIX_STORE (insert YAEGI
     (set DEV_NODES \<union> set GO_BINS \<union> set GO_LIBS \<union> set ETC_FILES)))"

definition session_sources :: "settings \<Rightarrow> string set" where
  "session_sources s =
     (case (s_mode s, s_session_id s) of (Session, Some sid) \<Rightarrow> {path_join SESSIONS_ROOT sid} | _ \<Rightarrow> {})"

definition episode_sources :: "settings \<Rightarrow> string set" where
  "episode_sources s =
     (if s_mode s \<in> {RlStepMode, RlEpisode} then {path_join EPISODES_ROOT (s_request_id s)} else {})"

definition shell_sources :: "host \<Rightarrow> settings \<Rightarrow> string set" where
  "shell_sources h s =
     (if s_language s = Go
      then set_option (map_option (\<lambda>r. if is_absolute r then r else path_join ''/bin'' r)
             (h_read_link h ''/bin/sh''))
      else {})"

definition requested_sources :: "settings \<Rightarrow> mount_mode set \<Rightarrow> string set" where
  "requested_sources s modes =
     set (List.map_filter (\<lambda>em. resolve_source (em_source em))
       (filter (\<lambda>em. em_mode em \<in> modes) (fs_mounts (s_filesystem s))))"

lemma dev_sources: "set (List.map_filter mount_source (dev_mounts h facts)) \<subseteq> fixed_sources"
  by (auto simp: dev_mounts_def set_map_filter fixed_sources_def)

lemma language_sources:
  "set (List.map_filter mount_source (language_mounts h facts s)) \<subseteq> fixed_sources \<union> shell_sources h s"
  by (cases "h_read_link h ''/bin/sh''"; cases "s_language s")
    (auto simp: language_mounts_def set_map_filter fixed_sources_def shell_target_def
      shell_sources_def Let_def split: if_splits)

lemma etc_sources: "set (List.map_filter mount_source (etc_mounts facts)) \<subseteq> fixed_sources"
  by (auto simp: etc_mounts_def set_map_filter fixed_sources_def dest: set_zip_leftD)

lemma session_mount_sources:
  "set (List.map_filter mount_source (session_mounts h s)) \<subseteq> session_sources s"
  by (auto simp: session_mounts_def set_map_filter session_sources_def Let_def
      split: mode.splits option.splits if_splits)

lemma episode_mount_sources:
  "set (List.map_filter mount_source (episode_mounts h s)) \<subseteq> episode_sources s"
  by (auto simp: episode_mounts_def set_map_filter episode_sources_def Let_def split: if_splits)

lemma user_mount_cases:
  "user_mount em = Some m \<longleftrightarrow>
     (\<exists>src. resolve_source (em_source em) = Some src \<and>
        (em_mode em = Ro \<and> m = BindRo src (em_target em) \<or>
         em_mode em = Rw \<and> m = BindRw src (em_target em)))"
  by (cases "em_mode em") (auto simp: user_mount_def split: option.splits)

lemma user_mount_sources:
  "set (List.map_filter mount_source (List.map_filter user_mount (fs_mounts (s_filesystem s)))) \<subseteq>
     requested_sources s UNIV"
  by (auto simp: set_map_filter user_mount_cases requested_sources_def)

lemma map_filter_append: "List.map_filter f (xs @ ys) = List.map_filter f xs @ List.map_filter f ys"
  by (simp add: List.map_filter_def)

text \<open>
  A sandbox sees no host path other than: the fixed list in the code (device nodes, the Nix
  store, the six pinned files of \<^verbatim>\<open>/etc\<close> and, for Go, shells and libraries), its own work
  directory, the target of the \<^verbatim>\<open>/bin/sh\<close> link, its session or episode directory when the mode asks
  for one, and what the request's own mount entries resolve to.
\<close>

theorem plan_exposes_only:
  "set (List.map_filter mount_source (mount_resolve h facts s work_dir)) \<subseteq>
     fixed_sources \<union> {work_dir} \<union> shell_sources h s \<union> session_sources s \<union> episode_sources s \<union>
     requested_sources s UNIV"
  using dev_sources [of h facts] language_sources [of h facts s] etc_sources [of facts]
    session_mount_sources [of h s] episode_mount_sources [of h s] user_mount_sources [of s]
  unfolding mount_resolve_def map_filter_append by (auto simp: List.map_filter_simps)

lemma rw_parts:
  "filter is_bind_rw (dev_mounts h facts) =
     (if hf_dev_min facts then [] else map (\<lambda>d. BindRw d d) (filter (h_exists h) DEV_NODES))"
  "filter is_bind_rw (language_mounts h facts s) = []"
  "filter is_bind_rw (etc_mounts facts) = []"
  "filter is_bind_rw (session_mounts h s) = session_mounts h s"
  "filter is_bind_rw (episode_mounts h s) = episode_mounts h s"
  by (auto simp: plan_defs filter_empty_conv Let_def filter_map o_def
      split: language.splits option.splits mode.splits if_splits)

lemma rw_user_mounts:
  "set (List.map_filter mount_source
     (filter is_bind_rw (List.map_filter user_mount (fs_mounts (s_filesystem s))))) \<subseteq>
     requested_sources s {Rw}"
  by (auto simp: set_map_filter user_mount_cases requested_sources_def)

lemma rw_dev:
  "set (List.map_filter mount_source (filter is_bind_rw (dev_mounts h facts))) \<subseteq> set DEV_NODES"
  by (auto simp: rw_parts set_map_filter)

text \<open>
  The only host paths a sandbox can write to are the six device nodes, its own session or
  episode directory and the request's mount entries marked read-write; its code directory, the Nix
  store and \<^verbatim>\<open>/etc\<close> are read-only in every plan.
\<close>

theorem plan_writes_only:
  "set (List.map_filter mount_source (filter is_bind_rw (mount_resolve h facts s work_dir))) \<subseteq>
     set DEV_NODES \<union> session_sources s \<union> episode_sources s \<union> requested_sources s {Rw}"
  using session_mount_sources [of h s] episode_mount_sources [of h s] rw_user_mounts [of s]
    rw_dev [of h facts]
  unfolding mount_resolve_def filter_append rw_parts(2-5) map_filter_append
  by (auto simp: List.map_filter_simps)

section \<open>Where requested sources lead\<close>

text \<open>
  A session mount stays below the sessions directory when its identifier is relative. An absolute
  identifier replaces the root, because \<^verbatim>\<open>Path::join\<close> does: a request for \<^verbatim>\<open>session:/etc\<close> in
  read-write mode binds the host's \<^verbatim>\<open>/etc\<close> writable into the sandbox.
\<close>

theorem requested_source_escapes:
  "resolve_source (''session:'' @ sid) =
     Some (if is_absolute sid then sid else SESSIONS_ROOT @ ''/'' @ sid) \<and>
   BindRw ''/etc'' ''/mnt'' \<in> set (mount_resolve h facts
     (minimal_settings\<lparr>s_filesystem := \<lparr>fs_writable_paths = [],
        fs_mounts = [\<lparr>em_source = ''session:/etc'', em_target = ''/mnt'', em_mode = Rw\<rparr>],
        fs_preserve_on_exit = False\<rparr>\<rparr>) work_dir)"
proof
  have "strip_prefix (''session:'' @ sid) ''session:'' = Some sid" by (rule strip_prefix_append)
  then show "resolve_source (''session:'' @ sid) =
      Some (if is_absolute sid then sid else SESSIONS_ROOT @ ''/'' @ sid)"
    by (simp add: resolve_source_def path_join_def SESSIONS_ROOT_def)
  have "user_mount \<lparr>em_source = ''session:/etc'', em_target = ''/mnt'', em_mode = Rw\<rparr> =
      Some (BindRw ''/etc'' ''/mnt'')"
    by (simp add: user_mount_def resolve_source_def strip_prefix_def starts_with_def path_join_def
        is_absolute_def)
  then show "BindRw ''/etc'' ''/mnt'' \<in> set (mount_resolve h facts
     (minimal_settings\<lparr>s_filesystem := \<lparr>fs_writable_paths = [],
        fs_mounts = [\<lparr>em_source = ''session:/etc'', em_target = ''/mnt'', em_mode = Rw\<rparr>],
        fs_preserve_on_exit = False\<rparr>\<rparr>) work_dir)"
    by (simp add: mount_resolve_def List.map_filter_simps)
qed

lemma windows_length: "w \<in> set (windows n xs) \<Longrightarrow> length w = n"
  by (induction xs) (auto split: if_splits)

lemma any_window_length: "length lit \<noteq> n \<Longrightarrow> \<not> any_window n lit bs"
  using windows_length by (auto simp: any_window_def list_ex_iff)

text \<open>
  The guard that keeps cgo programs away from the Go interpreter never fires: it looks for the
  ten bytes of the import line in windows of nine bytes, so a single-file program that contains
  the line is still eligible as long as the word \<^verbatim>\<open>unsafe\<close> does not occur.
\<close>

theorem cgo_guard_never_fires:
  "\<not> any_window 9 IMPORT_C content \<and>
   (yaegi_eligible (s\<lparr>s_files := [f]\<rparr>) \<longleftrightarrow> \<not> any_window 6 UNSAFE_LIT (fe_content f)) \<and>
   yaegi_eligible (s\<lparr>s_files := [\<lparr>fe_path = ''main.go'', fe_content = IMPORT_C, fe_mode = 420\<rparr>]\<rparr>)"
proof -
  have "length IMPORT_C \<noteq> 9" by (simp add: IMPORT_C_def)
  then have never: "\<not> any_window 9 IMPORT_C bs" for bs by (rule any_window_length)
  have "\<not> any_window 6 UNSAFE_LIT IMPORT_C" by code_simp
  with never show ?thesis by (simp add: yaegi_eligible_def)
qed

end
