(* ===== verification/RB_Files.thy ===== *)
theory RB_Files
  imports RB_Prelude
begin

text \<open>
  The parts of \<^verbatim>\<open>std::fs\<close> the caches and the resolver use: names that refer to directories, symbolic
  links and inodes, inodes with contents and permission bits, and the calls on them. Names and
  inodes are separate, because an open file refers to the inode and not to the name: replacing a
  name leaves an open file alone, writing through the name does not.
\<close>

datatype fs_node = Dir | Link string | Ino nat

record fsys =
  fs_names :: "string \<rightharpoonup> fs_node"
  fs_content :: "nat \<Rightarrow> byte list"
  fs_mode :: "nat \<Rightarrow> u32"
  fs_next :: nat
  fs_frozen :: "string \<Rightarrow> bool"   \<comment> \<open>names the process may neither create nor write\<close>

text \<open>\<^verbatim>\<open>Path::parent\<close>, by the last separator.\<close>

definition path_parent :: "string \<Rightarrow> string" where
  "path_parent p = rev (tl (dropWhile (\<lambda>c. c \<noteq> CHR ''/'') (rev p)))"

text \<open>The kernel follows at most forty symbolic links.\<close>

fun fs_follow :: "nat \<Rightarrow> fsys \<Rightarrow> string \<Rightarrow> string option" where
  "fs_follow 0 fs p = None"
| "fs_follow (Suc n) fs p =
     (case fs_names fs p of
        Some (Link t) \<Rightarrow> fs_follow n fs (if is_absolute t then t else path_join (path_parent p) t)
      | _ \<Rightarrow> Some p)"

definition fs_real :: "fsys \<Rightarrow> string \<Rightarrow> string option" where
  "fs_real fs p = fs_follow 41 fs p"

definition fs_stat :: "fsys \<Rightarrow> string \<Rightarrow> fs_node option" where
  "fs_stat fs p = (case fs_real fs p of None \<Rightarrow> None | Some q \<Rightarrow> fs_names fs q)"

definition fs_exists :: "fsys \<Rightarrow> string \<Rightarrow> bool" where
  "fs_exists fs p \<longleftrightarrow> fs_stat fs p \<noteq> None"

definition fs_is_file :: "fsys \<Rightarrow> string \<Rightarrow> bool" where
  "fs_is_file fs p = (case fs_stat fs p of Some (Ino _) \<Rightarrow> True | _ \<Rightarrow> False)"

definition fs_open :: "fsys \<Rightarrow> string \<Rightarrow> nat option" where
  "fs_open fs p = (case fs_stat fs p of Some (Ino i) \<Rightarrow> Some i | _ \<Rightarrow> None)"

text \<open>\<^verbatim>\<open>O_NOFOLLOW\<close>: a symbolic link as the last component is refused.\<close>

definition fs_open_nofollow :: "fsys \<Rightarrow> string \<Rightarrow> nat option" where
  "fs_open_nofollow fs p = (case fs_names fs p of Some (Ino i) \<Rightarrow> Some i | _ \<Rightarrow> None)"

definition fs_read :: "fsys \<Rightarrow> string \<Rightarrow> byte list option" where
  "fs_read fs p = map_option (fs_content fs) (fs_open fs p)"

definition fs_create :: "string \<Rightarrow> byte list \<Rightarrow> u32 \<Rightarrow> fsys \<Rightarrow> fsys" where
  "fs_create q bs m fs =
     fs\<lparr>fs_names := (fs_names fs)(q \<mapsto> Ino (fs_next fs)),
        fs_content := (fs_content fs)(fs_next fs := bs),
        fs_mode := (fs_mode fs)(fs_next fs := m),
        fs_next := fs_next fs + 1\<rparr>"

text \<open>\<^verbatim>\<open>std::fs::write\<close>: an existing file is truncated and rewritten in place, a new one is created.\<close>

definition fs_write :: "string \<Rightarrow> byte list \<Rightarrow> fsys \<Rightarrow> fsys option" where
  "fs_write p bs fs =
     (case fs_real fs p of
        None \<Rightarrow> None
      | Some q \<Rightarrow>
          if fs_frozen fs q then None
          else (case fs_names fs q of
                  Some (Ino i) \<Rightarrow> Some (fs\<lparr>fs_content := (fs_content fs)(i := bs)\<rparr>)
                | None \<Rightarrow>
                    if fs_names fs (path_parent q) = Some Dir then Some (fs_create q bs 420 fs) else None
                | _ \<Rightarrow> None))"

text \<open>\<^verbatim>\<open>std::fs::copy\<close> also copies the permission bits.\<close>

definition fs_copy :: "string \<Rightarrow> string \<Rightarrow> fsys \<Rightarrow> fsys option" where
  "fs_copy src dst fs =
     (case fs_open fs src of
        None \<Rightarrow> None
      | Some i \<Rightarrow>
          (case fs_write dst (fs_content fs i) fs of
             None \<Rightarrow> None
           | Some fs' \<Rightarrow>
               (case fs_open fs' dst of
                  None \<Rightarrow> None
                | Some j \<Rightarrow> Some (fs'\<lparr>fs_mode := (fs_mode fs')(j := fs_mode fs i)\<rparr>))))"

definition fs_set_mode :: "string \<Rightarrow> u32 \<Rightarrow> fsys \<Rightarrow> fsys option" where
  "fs_set_mode p m fs =
     (case fs_open fs p of
        None \<Rightarrow> None
      | Some i \<Rightarrow> if fs_frozen fs p then None else Some (fs\<lparr>fs_mode := (fs_mode fs)(i := m)\<rparr>))"

definition fs_remove :: "string \<Rightarrow> fsys \<Rightarrow> fsys option" where
  "fs_remove p fs =
     (case fs_names fs p of
        None \<Rightarrow> None | Some Dir \<Rightarrow> None
      | _ \<Rightarrow> if fs_frozen fs p then None else Some (fs\<lparr>fs_names := (fs_names fs)(p := None)\<rparr>))"

text \<open>The directories above a path, shortest first, and the path itself.\<close>

fun ancestors_from :: "string \<Rightarrow> string \<Rightarrow> string list" where
  "ancestors_from done [] = (if done = [] then [] else [done])"
| "ancestors_from done (c # cs) =
     (if c = CHR ''/'' \<and> done \<noteq> [] then done # ancestors_from (done @ [c]) cs
      else ancestors_from (done @ [c]) cs)"

definition ancestors :: "string \<Rightarrow> string list" where
  "ancestors p = ancestors_from [] p"

fun mkdirs :: "string list \<Rightarrow> fsys \<Rightarrow> fsys option" where
  "mkdirs [] fs = Some fs"
| "mkdirs (d # ds) fs =
     (case fs_stat fs d of
        Some Dir \<Rightarrow> mkdirs ds fs
      | None \<Rightarrow> if fs_names fs d \<noteq> None \<or> fs_frozen fs d then None
                else mkdirs ds (fs\<lparr>fs_names := (fs_names fs)(d \<mapsto> Dir)\<rparr>)
      | _ \<Rightarrow> None)"

definition fs_create_dir_all :: "string \<Rightarrow> fsys \<Rightarrow> fsys option" where
  "fs_create_dir_all p fs = mkdirs (ancestors p) fs"

section \<open>Invariant and laws\<close>

text \<open>Every name refers to an inode that has been allocated.\<close>

definition fs_wf :: "fsys \<Rightarrow> bool" where
  "fs_wf fs \<longleftrightarrow> (\<forall>p i. fs_names fs p = Some (Ino i) \<longrightarrow> i < fs_next fs)"

lemma fs_wf_create: "fs_wf fs \<Longrightarrow> fs_wf (fs_create q bs m fs)"
  by (auto simp: fs_wf_def fs_create_def less_Suc_eq)

lemma fs_wf_write: "fs_wf fs \<Longrightarrow> fs_write p bs fs = Some fs' \<Longrightarrow> fs_wf fs'"
  by (auto simp: fs_write_def fs_wf_create split: option.splits fs_node.splits if_splits)
    (simp add: fs_wf_def)

lemma fs_follow_end: "fs_follow n fs p = Some q \<Longrightarrow> fs_names fs q \<noteq> Some (Link t)"
  by (induction n fs p rule: fs_follow.induct) (auto split: option.splits fs_node.splits)

text \<open>Following links only depends on the links, so it is unaffected by creating a plain file.\<close>

lemma fs_follow_create:
  assumes "fs_names fs q = None"
  shows "fs_follow n (fs_create q bs m fs) p = fs_follow n fs p"
  using assms
  by (induction n fs p rule: fs_follow.induct)
    (auto simp: fs_create_def split: option.splits fs_node.splits)

lemma fs_follow_content [simp]: "fs_follow n (fs\<lparr>fs_content := c\<rparr>) p = fs_follow n fs p"
  by (induction n fs p rule: fs_follow.induct) (auto split: option.splits fs_node.splits)

lemma fs_follow_mode [simp]: "fs_follow n (fs\<lparr>fs_mode := c\<rparr>) p = fs_follow n fs p"
  by (induction n fs p rule: fs_follow.induct) (auto split: option.splits fs_node.splits)

lemma fs_open_mode [simp]: "fs_open (fs\<lparr>fs_mode := c\<rparr>) p = fs_open fs p"
  by (cases "fs_follow 41 fs p") (simp_all add: fs_open_def fs_stat_def fs_real_def)

lemma fs_open_content [simp]: "fs_open (fs\<lparr>fs_content := c\<rparr>) p = fs_open fs p"
  by (cases "fs_follow 41 fs p") (simp_all add: fs_open_def fs_stat_def fs_real_def)

lemma fs_real_plain: "(\<forall>t. fs_names fs p \<noteq> Some (Link t)) \<Longrightarrow> fs_real fs p = Some p"
  by (auto simp: fs_real_def eval_nat_numeral split: option.split fs_node.split)

text \<open>What is written is what is read back, through the same name.\<close>

lemma fs_read_write:
  assumes "fs_write p bs fs = Some fs'"
  shows "\<exists>i. fs_open fs' p = Some i \<and> fs_content fs' i = bs"
proof -
  from assms obtain q where q: "fs_real fs p = Some q"
    by (auto simp: fs_write_def split: option.splits)
  show ?thesis
  proof (cases "fs_names fs q")
    case None
    with assms q have fs': "fs' = fs_create q bs 420 fs"
      by (auto simp: fs_write_def split: if_splits)
    moreover have "fs_real fs' p = Some q"
      using q None by (simp add: fs' fs_real_def fs_follow_create)
    ultimately show ?thesis by (simp add: fs_open_def fs_stat_def fs_create_def)
  next
    case (Some node)
    with assms q obtain i where "node = Ino i" "fs' = fs\<lparr>fs_content := (fs_content fs)(i := bs)\<rparr>"
      by (auto simp: fs_write_def split: if_splits fs_node.splits)
    with q Some show ?thesis by (simp add: fs_open_def fs_stat_def fs_real_def)
  qed
qed

text \<open>Removing a name and creating it anew leaves every open inode alone.\<close>

lemma fs_remove_content: "fs_remove p fs = Some fs' \<Longrightarrow> fs_content fs' i = fs_content fs i"
  by (auto simp: fs_remove_def split: option.splits fs_node.splits if_splits)

lemma fs_write_other_content:
  assumes "fs_write p bs fs = Some fs'" "i < fs_next fs" "fs_open fs p \<noteq> Some i"
  shows "fs_content fs' i = fs_content fs i"
  using assms
  by (auto simp: fs_write_def fs_create_def fs_open_def fs_stat_def
      split: option.splits fs_node.splits if_splits)

section \<open>Creating directories\<close>

lemma fs_follow_extend:
  assumes "fs_names fs \<subseteq>\<^sub>m fs_names fs'" "fs_follow n fs p = Some q" "fs_names fs q = Some x"
  shows "fs_follow n fs' p = Some q"
  using assms
proof (induction n arbitrary: p)
  case 0
  then show ?case by simp
next
  case (Suc n)
  have le: "fs_names fs p = Some y \<Longrightarrow> fs_names fs' p = Some y" for y
    using Suc.prems(1) by (metis domI map_le_def)
  show ?case
  proof (cases "fs_names fs p")
    case None
    with Suc.prems show ?thesis by simp
  next
    case (Some y)
    with le Suc show ?thesis by (cases y) auto
  qed
qed

lemma fs_open_extend:
  assumes "fs_names fs \<subseteq>\<^sub>m fs_names fs'" "fs_open fs p = Some i"
  shows "fs_open fs' p = Some i"
proof -
  from assms(2) obtain q where q: "fs_follow 41 fs p = Some q" "fs_names fs q = Some (Ino i)"
    by (auto simp: fs_open_def fs_stat_def fs_real_def split: option.splits fs_node.splits)
  moreover have "fs_names fs' q = Some (Ino i)"
    using assms(1) q(2) by (metis domI map_le_def)
  ultimately show ?thesis
    using fs_follow_extend [OF assms(1) q] by (simp add: fs_open_def fs_stat_def fs_real_def)
qed

lemma mkdirs_keeps:
  assumes "mkdirs ds fs = Some fs'"
  shows "(p \<notin> set ds \<longrightarrow> fs_names fs' p = fs_names fs p) \<and> fs_content fs' = fs_content fs \<and>
    fs_next fs' = fs_next fs \<and> fs_frozen fs' = fs_frozen fs \<and> (fs_wf fs \<longrightarrow> fs_wf fs')"
  using assms
proof (induction ds fs rule: mkdirs.induct)
  case (2 d ds fs)
  have wf: "fs_wf fs \<Longrightarrow> fs_wf (fs\<lparr>fs_names := (fs_names fs)(d \<mapsto> Dir)\<rparr>)"
    by (simp add: fs_wf_def)
  from 2 wf show ?case by (auto split: option.splits fs_node.splits if_splits)
qed simp

lemma mkdirs_extends: "mkdirs ds fs = Some fs' \<Longrightarrow> fs_names fs \<subseteq>\<^sub>m fs_names fs'"
proof (induction ds fs rule: mkdirs.induct)
  case (2 d ds fs)
  from 2 show ?case
    by (auto simp: map_le_def dom_def split: option.splits fs_node.splits if_splits)
qed simp

lemma ancestors_from_length: "d \<in> set (ancestors_from pre p) \<Longrightarrow> length d \<le> length pre + length p"
proof (induction pre p rule: ancestors_from.induct)
  case (1 pre)
  then show ?case by (simp split: if_splits)
next
  case (2 pre c cs)
  then show ?case by (auto split: if_splits)
qed

lemma ancestors_length: "d \<in> set (ancestors p) \<Longrightarrow> length d \<le> length p"
  using ancestors_from_length [of d "[]" p] by (simp add: ancestors_def)

end
