(* ===== verification/RB_BinaryCache.thy ===== *)
theory RB_BinaryCache
  imports RB_Files RB_Hex
begin

text \<open>
  The T2 binary cache (\<^verbatim>\<open>cache/src/binary_cache.rs\<close>, \<^verbatim>\<open>cache/src/hash.rs\<close>): content-addressed
  compiled artifacts on disk with their digests, and verified open handles in memory. SHA-256 and
  the hex codec are third-party crates and are arguments; the locale states what the code relies on
  from them. A handle refers to an inode, so that replacing the file under its name is visible as
  what it is.
\<close>

section \<open>Keys and errors\<close>

definition DIGEST_LEN :: nat where "DIGEST_LEN = 32"

definition binary_key_preimage :: "byte list \<Rightarrow> string \<Rightarrow> string \<Rightarrow> byte list \<Rightarrow> byte list" where
  "binary_key_preimage code compiler_version arch flake_lock =
     code @ [0] @ as_bytes compiler_version @ [0] @ as_bytes arch @ [0] @ flake_lock"

definition binary_key_from_parts ::
    "(byte list \<Rightarrow> byte list) \<Rightarrow> byte list \<Rightarrow> string \<Rightarrow> string \<Rightarrow> byte list \<Rightarrow> byte list" where
  "binary_key_from_parts sha256 code compiler_version arch flake_lock =
     sha256 (binary_key_preimage code compiler_version arch flake_lock)"

datatype binary_cache_error =
    BcIo string
  | IntegrityMismatch string string      \<comment> \<open>stored, computed\<close>
  | MissingIntegrity string
  | InvalidDigest
  | BcNotFound

record binary_handle =
  bh_inode :: nat
  bh_fd_path :: string
  bh_digest :: "byte list"

record binary_cache =
  bc_root :: string
  bc_handles :: "byte list \<rightharpoonup> binary_handle"
  bc_next_fd :: nat

definition bc_new :: "string \<Rightarrow> nat \<Rightarrow> binary_cache" where
  "bc_new root fd = \<lparr>bc_root = root, bc_handles = Map.empty, bc_next_fd = fd\<rparr>"

definition dir_for :: "(byte list \<Rightarrow> string) \<Rightarrow> binary_cache \<Rightarrow> byte list \<Rightarrow> string" where
  "dir_for to_hex c key = path_join (bc_root c) (to_hex key)"

text \<open>\<^verbatim>\<open>hex::decode_to_slice\<close> into 32 bytes.\<close>

definition parse_hex :: "(string \<Rightarrow> byte list option) \<Rightarrow> string \<Rightarrow> byte list option" where
  "parse_hex of_hex s =
     (case of_hex s of
        Some bs \<Rightarrow> if length bs = DIGEST_LEN then Some bs else None
      | None \<Rightarrow> None)"

definition fd_path_for :: "nat \<Rightarrow> string" where
  "fd_path_for fd = ''/proc/self/fd/'' @ decimal fd"

section \<open>Hashing a file in chunks\<close>

text \<open>
  Each \<^verbatim>\<open>read\<close> returns some positive number of bytes, at most the buffer and what is left; \<open>short k\<close>
  is what the kernel returns with \<open>k\<close> bytes left, before those bounds are applied.
\<close>

definition read_size :: "(nat \<Rightarrow> nat) \<Rightarrow> nat \<Rightarrow> nat" where
  "read_size short k = max 1 (min (min k 65536) (short k))"

function stream_read :: "(nat \<Rightarrow> nat) \<Rightarrow> byte list \<Rightarrow> byte list \<Rightarrow> byte list" where
  "stream_read short rest fed =
     (if rest = [] then fed
      else (let n = read_size short (length rest)
            in stream_read short (drop n rest) (fed @ take n rest)))"
  by pat_completeness auto
termination
  by (relation "measure (\<lambda>(_, rest, _). length rest)") (auto simp: read_size_def)

declare stream_read.simps [simp del]

definition stream_sha256 ::
    "(byte list \<Rightarrow> byte list) \<Rightarrow> (nat \<Rightarrow> nat) \<Rightarrow> byte list \<Rightarrow> byte list" where
  "stream_sha256 sha256 short content = sha256 (stream_read short content [])"

lemma stream_read_all: "stream_read short rest fed = fed @ rest"
  by (induction short rest fed rule: stream_read.induct) (subst stream_read.simps, simp add: Let_def)

lemma stream_sha256_eq [simp]: "stream_sha256 sha256 short content = sha256 content"
  by (simp add: stream_sha256_def stream_read_all)

section \<open>Lookup and store\<close>

definition bc_lookup ::
    "(byte list \<Rightarrow> byte list) \<Rightarrow> (byte list \<Rightarrow> string) \<Rightarrow> (string \<Rightarrow> byte list option) \<Rightarrow> (nat \<Rightarrow> nat) \<Rightarrow>
     fsys \<Rightarrow> byte list \<Rightarrow> binary_cache \<Rightarrow> (binary_cache_error + binary_handle) \<times> binary_cache" where
  "bc_lookup sha256 to_hex of_hex short fs key c =
     (case bc_handles c key of
        Some h \<Rightarrow> (Inr h, c)
      | None \<Rightarrow>
          let dir = dir_for to_hex c key;
              bin_path = path_join dir ''main.bin'';
              hash_path = path_join dir ''main.sha256''
          in (case Option.bind (fs_read fs hash_path) from_utf8 of
                None \<Rightarrow> (Inl (MissingIntegrity hash_path), c)
              | Some stored_hex \<Rightarrow>
                  (case parse_hex of_hex (trim stored_hex) of
                     None \<Rightarrow> (Inl InvalidDigest, c)
                   | Some stored \<Rightarrow>
                       (case fs_open_nofollow fs bin_path of
                          None \<Rightarrow> (Inl (BcIo ''open''), c)
                        | Some i \<Rightarrow>
                            let computed = stream_sha256 sha256 short (fs_content fs i) in
                            if computed \<noteq> stored
                            then (Inl (IntegrityMismatch (to_hex stored) (to_hex computed)), c)
                            else (let h = \<lparr>bh_inode = i, bh_fd_path = fd_path_for (bc_next_fd c),
                                           bh_digest = stored\<rparr>
                                  in (Inr h, c\<lparr>bc_handles := (bc_handles c)(key \<mapsto> h),
                                               bc_next_fd := bc_next_fd c + 1\<rparr>))))))"

definition bc_store ::
    "(byte list \<Rightarrow> byte list) \<Rightarrow> (byte list \<Rightarrow> string) \<Rightarrow> (nat \<Rightarrow> nat) \<Rightarrow> byte list \<Rightarrow> string \<Rightarrow>
     fsys \<Rightarrow> binary_cache \<Rightarrow> (binary_handle \<times> fsys \<times> binary_cache) option" where
  "bc_store sha256 to_hex short key artifact fs c =
     (let dir = dir_for to_hex c key; bin_path = path_join dir ''main.bin'' in
      Option.bind (fs_create_dir_all dir fs) (\<lambda>fs.
      Option.bind (fs_copy artifact bin_path fs) (\<lambda>fs.
      Option.bind (fs_set_mode bin_path 365 fs) (\<lambda>fs.
      Option.bind (fs_open fs bin_path) (\<lambda>i.
      let digest = stream_sha256 sha256 short (fs_content fs i) in
      Option.bind (fs_write (path_join dir ''main.sha256'') (as_bytes (to_hex digest)) fs) (\<lambda>fs.
      let h = \<lparr>bh_inode = i, bh_fd_path = fd_path_for (bc_next_fd c), bh_digest = digest\<rparr> in
      Some (h, fs, c\<lparr>bc_handles := (bc_handles c)(key \<mapsto> h), bc_next_fd := bc_next_fd c + 1\<rparr>)))))))"

section \<open>Integrity\<close>

text \<open>Every handle held in memory refers to bytes with its digest.\<close>

definition bc_inv :: "(byte list \<Rightarrow> byte list) \<Rightarrow> fsys \<Rightarrow> binary_cache \<Rightarrow> bool" where
  "bc_inv sha256 fs c \<longleftrightarrow>
     (\<forall>key h. bc_handles c key = Some h \<longrightarrow> sha256 (fs_content fs (bh_inode h)) = bh_digest h)"

lemma bc_inv_new: "bc_inv sha256 fs (bc_new root fd)"
  by (simp add: bc_inv_def bc_new_def)

lemma bc_lookup_error:
  "bc_lookup sha256 to_hex of_hex short fs key c = (Inl e, c') \<Longrightarrow> c' = c"
  by (auto simp: bc_lookup_def Let_def split: option.splits if_splits)

text \<open>
  Whatever is on disk, a handle returned by \<^verbatim>\<open>lookup\<close> refers to an inode whose bytes hash to the
  handle's digest, however the reads that fed the hasher were split; on a first lookup that inode
  is the plain file \<^verbatim>\<open>main.bin\<close> itself, never what a symbolic link of that name points to. The
  cache keeps only verified handles, and a failed lookup leaves it unchanged.
\<close>

theorem binary_lookup_verified:
  assumes "bc_inv sha256 fs c"
  shows "case bc_lookup sha256 to_hex of_hex short fs key c of
      (Inr h, c') \<Rightarrow> sha256 (fs_content fs (bh_inode h)) = bh_digest h \<and> bc_inv sha256 fs c' \<and>
        bc_handles c' key = Some h \<and>
        (bc_handles c key = None \<longrightarrow>
           fs_names fs (path_join (dir_for to_hex c key) ''main.bin'') = Some (Ino (bh_inode h)))
    | (Inl _, c') \<Rightarrow> c' = c"
  using assms
  by (auto simp: bc_lookup_def bc_inv_def Let_def fs_open_nofollow_def
      split: option.splits if_splits sum.splits prod.splits fs_node.splits)

text \<open>
  An example disk: a cache directory with one artifact under the key \<open>[7]\<close>, and a stand-in for the
  digest that is constant on it.
\<close>

definition demo_digest :: "byte list \<Rightarrow> byte list" where
  "demo_digest bs = replicate 31 0 @ [word_of_nat (length bs)]"

definition demo_fs :: fsys where
  "demo_fs = \<lparr>fs_names = [''/c'' \<mapsto> Dir, ''/w/main'' \<mapsto> Ino 0], fs_content = (\<lambda>_. [1, 2, 3]),
     fs_mode = (\<lambda>_. 493), fs_next = 1, fs_frozen = (\<lambda>_. False)\<rparr>"

theorem binary_lookup_verified_witness:
  "case bc_lookup demo_digest hex_digest unhex (\<lambda>_. 1) demo_fs [7]
      (bc_new ''/c'' 9\<lparr>bc_handles := [[7] \<mapsto> \<lparr>bh_inode = 0, bh_fd_path = ''/proc/self/fd/8'',
         bh_digest = demo_digest [1, 2, 3]\<rparr>]\<rparr>) of
      (Inr h, c') \<Rightarrow> demo_digest (fs_content demo_fs (bh_inode h)) = demo_digest [1, 2, 3]
    | (Inl _, c') \<Rightarrow> False"
proof -
  let ?c = "bc_new ''/c'' 9\<lparr>bc_handles := [[7] \<mapsto> \<lparr>bh_inode = 0, bh_fd_path = ''/proc/self/fd/8'',
         bh_digest = demo_digest [1, 2, 3]\<rparr>]\<rparr>"
  have "bc_inv demo_digest demo_fs ?c" by (simp add: bc_inv_def demo_fs_def)
  from binary_lookup_verified [OF this, where to_hex = hex_digest and of_hex = unhex and short = "\<lambda>_. 1" and key = "[7]"] show ?thesis
    by (simp add: bc_lookup_def demo_fs_def)
qed

section \<open>Store, then look up\<close>

lemma path_join_longer:
  "\<not> is_absolute p \<Longrightarrow> p \<noteq> [] \<Longrightarrow> length base < length (path_join base p)"
  by (simp add: path_join_def)

lemma fs_write_new:
  assumes "fs_write p bs fs = Some fs'" "fs_names fs p = None"
  shows "fs' = fs_create p bs 420 fs"
proof -
  have "fs_real fs p = Some p"
    using assms(2) by (simp add: fs_real_plain)
  with assms show ?thesis by (simp add: fs_write_def split: if_splits)
qed

lemma fs_open_plain:
  assumes "fs_names fs p = Some (Ino i)"
  shows "fs_open fs p = Some i"
  using assms by (simp add: fs_open_def fs_stat_def fs_real_plain)

text \<open>The file system after a successful store into a directory that did not hold the files yet.\<close>

lemma bc_store_result:
  assumes hx: "hex_codec to_hex of_hex" and wf: "fs_wf fs"
    and store: "bc_store sha256 to_hex short key artifact fs c = Some (h, fs', c')"
    and art: "fs_open fs artifact = Some j"
    and dir: "dir = dir_for to_hex c key"
    and fresh: "fs_names fs (path_join dir ''main.bin'') = None"
      "fs_names fs (path_join dir ''main.sha256'') = None"
  shows "fs_names fs' (path_join dir ''main.bin'') = Some (Ino (bh_inode h)) \<and>
    fs_content fs' (bh_inode h) = fs_content fs j \<and> bh_digest h = sha256 (fs_content fs j) \<and>
    fs_read fs' (path_join dir ''main.sha256'') = Some (as_bytes (to_hex (bh_digest h)))"
proof -
  let ?bin = "path_join dir ''main.bin''" and ?sha = "path_join dir ''main.sha256''"
  obtain fs1 fs2 fs3 i where
      s1: "fs_create_dir_all dir fs = Some fs1" and s2: "fs_copy artifact ?bin fs1 = Some fs2" and
      s3: "fs_set_mode ?bin 365 fs2 = Some fs3" and s4: "fs_open fs3 ?bin = Some i" and
      s5: "fs_write ?sha (as_bytes (to_hex (sha256 (fs_content fs3 i)))) fs3 = Some fs'" and
      h: "bh_inode h = i" "bh_digest h = sha256 (fs_content fs3 i)"
    using store by (auto simp: bc_store_def Let_def dir bind_eq_Some_conv)
  have notin: "?bin \<notin> set (ancestors dir)" "?sha \<notin> set (ancestors dir)"
    using ancestors_length [of _ dir] path_join_longer [of "''main.bin''" dir]
      path_join_longer [of "''main.sha256''" dir] by (auto simp: is_absolute_def dest: leD)
  note m = mkdirs_keeps [OF s1 [unfolded fs_create_dir_all_def]]
  have f1: "fs_names fs1 ?bin = None" "fs_names fs1 ?sha = None" "fs_content fs1 = fs_content fs"
    using m fresh notin by auto
  have "fs_names fs \<subseteq>\<^sub>m fs_names fs1"
    using mkdirs_extends s1 by (simp add: fs_create_dir_all_def)
  then have art1: "fs_open fs1 artifact = Some j" using art by (rule fs_open_extend)
  obtain fs1' k where w: "fs_write ?bin (fs_content fs j) fs1 = Some fs1'" "fs_open fs1' ?bin = Some k"
      "fs2 = fs1'\<lparr>fs_mode := (fs_mode fs1')(k := fs_mode fs1 j)\<rparr>"
    using s2 art1 f1(3) by (auto simp: fs_copy_def split: option.splits)
  have c1: "fs1' = fs_create ?bin (fs_content fs j) 420 fs1" using fs_write_new [OF w(1) f1(1)] .
  have n3: "fs_names fs3 = fs_names fs1'" "fs_content fs3 = fs_content fs1'" "fs_next fs3 = fs_next fs1'"
    using s3 w(3) by (auto simp: fs_set_mode_def split: option.splits if_splits)
  have i: "i = fs_next fs1" "fs_names fs3 ?bin = Some (Ino i)"
    using s4 fs_open_plain [of fs3 ?bin "fs_next fs1"] by (simp_all add: n3 c1 fs_create_def)
  have ne: "?sha \<noteq> ?bin" by (simp add: path_join_def is_absolute_def)
  then have "fs_names fs3 ?sha = None" using f1(2) by (simp add: n3 c1 fs_create_def)
  then have c4: "fs' = fs_create ?sha (as_bytes (to_hex (sha256 (fs_content fs3 i)))) 420 fs3"
    using fs_write_new [OF s5] by simp
  have "fs_content fs3 i = fs_content fs j" by (simp add: n3 c1 i(1) fs_create_def)
  moreover have "i \<noteq> fs_next fs3" by (simp add: n3 c1 i(1) fs_create_def)
  ultimately have "fs_names fs' ?bin = Some (Ino i)" "fs_content fs' i = fs_content fs j"
    using i(2) ne by (simp_all add: c4 fs_create_def)
  moreover have "fs_read fs' ?sha = Some (as_bytes (to_hex (sha256 (fs_content fs3 i))))"
    using fs_read_write [OF s5] by (auto simp: fs_read_def)
  ultimately show ?thesis using h \<open>fs_content fs3 i = fs_content fs j\<close> by simp
qed

text \<open>
  An artifact stored under a key is found by every engine process that shares the cache
  directory: a lookup with no handle in memory reads the digest file, verifies the binary and
  returns a handle to bytes equal to the artifact's. (For a directory that did not hold the two
  files before; the hex codec inverts itself and digests have 32 bytes.)
\<close>

theorem binary_store_then_lookup:
  assumes "hex_codec to_hex of_hex" and "\<forall>x. length (sha256 x) = DIGEST_LEN" and "fs_wf fs"
    and "bc_store sha256 to_hex short key artifact fs c = Some (h, fs', c')"
    and "fs_open fs artifact = Some j"
    and "fs_names fs (path_join (dir_for to_hex c key) ''main.bin'') = None"
    and "fs_names fs (path_join (dir_for to_hex c key) ''main.sha256'') = None"
  shows "\<exists>h' c''. bc_lookup sha256 to_hex of_hex short' fs' key (bc_new (bc_root c) fd) = (Inr h', c'') \<and>
     fs_content fs' (bh_inode h') = fs_content fs j \<and> bh_digest h' = sha256 (fs_content fs j)"
proof -
  have d: "dir_for to_hex (bc_new (bc_root c) fd) key = dir_for to_hex c key"
    by (simp add: dir_for_def bc_new_def)
  have "trim (to_hex x) = to_hex x" "from_utf8 (as_bytes (to_hex x)) = Some (to_hex x)" for x
    using hex_codec.to_hex_no_blanks [OF assms(1)] hex_codec.to_hex_utf8 [OF assms(1)]
    by (simp_all add: trim_no_blanks from_utf8_Some)
  moreover have "parse_hex of_hex (to_hex (sha256 x)) = Some (sha256 x)" for x
    using hex_codec.of_to [OF assms(1)] assms(2) by (simp add: parse_hex_def)
  ultimately show ?thesis
    using bc_store_result [OF assms(1,3,4,5) refl assms(6,7)] d
    by (simp add: bc_lookup_def bc_new_def fs_open_nofollow_def Let_def)
qed

definition demo_store :: "(binary_handle \<times> fsys \<times> binary_cache) option" where
  "demo_store = bc_store demo_digest hex_digest (\<lambda>_. 2) [7] ''/w/main'' demo_fs (bc_new ''/c'' 9)"

lemma demo_store_ok: "\<not> Option.is_none demo_store"
  by (simp add: demo_store_def bc_store_def demo_fs_def bc_new_def dir_for_def path_join_def
      hex_digest_def HEX_def is_absolute_def fs_create_dir_all_def ancestors_def fs_stat_def
      fs_real_plain fs_copy_def fs_open_def fs_write_def fs_create_def path_parent_def fs_set_mode_def
      Let_def)

theorem binary_store_then_lookup_witness:
  "\<exists>h' c''. bc_lookup demo_digest hex_digest unhex (\<lambda>_. 1) (fst (snd (the demo_store))) [7]
      (bc_new ''/c'' 9) = (Inr h', c'') \<and> bh_digest h' = demo_digest [1, 2, 3]"
proof -
  obtain h fs' c' where st: "demo_store = Some (h, fs', c')"
    using demo_store_ok by (cases demo_store) (auto split: option.splits)
  have "\<exists>h' c''. bc_lookup demo_digest hex_digest unhex (\<lambda>_. 1) fs' [7]
      (bc_new (bc_root (bc_new ''/c'' 9)) 9) = (Inr h', c'') \<and>
      fs_content fs' (bh_inode h') = fs_content demo_fs 0 \<and>
      bh_digest h' = demo_digest (fs_content demo_fs 0)"
  proof (rule binary_store_then_lookup [OF hx.hex_codec_axioms])
    show "\<forall>x. length (demo_digest x) = DIGEST_LEN" by (simp add: demo_digest_def DIGEST_LEN_def)
    show "fs_wf demo_fs" by (auto simp: fs_wf_def demo_fs_def split: if_splits)
    show "bc_store demo_digest hex_digest (\<lambda>_. 2) [7] ''/w/main'' demo_fs (bc_new ''/c'' 9) =
        Some (h, fs', c')"
      using st by (simp add: demo_store_def)
    show "fs_open demo_fs ''/w/main'' = Some 0" by (rule fs_open_plain) (simp add: demo_fs_def)
  qed (simp_all add: demo_fs_def dir_for_def bc_new_def path_join_def hex_digest_def HEX_def
      is_absolute_def)
  then show ?thesis by (auto simp: st demo_fs_def bc_new_def)
qed

end
