(* ===== verification/RB_Resolver.thy ===== *)
theory RB_Resolver
  imports RB_CacheKey RB_Policy RB_MountPlan RB_Catalog RB_BinaryCache
begin

text \<open>
  The top-level resolver (\<^verbatim>\<open>engine/src/resolver/spec.rs\<close>): from a settings object to the child
  specification, through the resolved-request cache, the content-addressed work directory, the
  ahead-of-time compilers and the binary cache. Hash functions, the JSON decoder and the external
  programs (compilers, node) are fields of \<open>tools\<close>.
\<close>

section \<open>The world of a resolution\<close>

record process_output =
  po_success :: bool
  po_code :: "int option"
  po_stdout :: "byte list"
  po_stderr :: "byte list"

record tools =
  tl_blake3 :: "byte list \<Rightarrow> byte list"
  tl_sha256 :: "byte list \<Rightarrow> byte list"
  tl_to_hex :: "byte list \<Rightarrow> string"
  tl_of_hex :: "string \<Rightarrow> byte list option"
  tl_short :: "nat \<Rightarrow> nat"
  tl_from_json :: "byte list \<Rightarrow> descriptor option"
  tl_run :: "string \<Rightarrow> string list \<Rightarrow> (string \<times> string) list \<Rightarrow> fsys \<Rightarrow> (string + process_output) \<times> fsys"
  tl_arch :: string
  tl_host :: host
  tl_facts :: host_facts
  tl_env :: host_env

record resolved =
  rs_spec :: child_spec
  rs_work_dir :: string

record world =
  w_fs :: fsys
  w_binaries :: "binary_cache option"
  w_registry :: registry
  w_resolved :: "byte list \<rightharpoonup> resolved"

section \<open>Work directories\<close>

definition MARKER :: string where "MARKER = ''.rockbox-input-hash''"

fun write_files :: "string \<Rightarrow> file_entry list \<Rightarrow> fsys \<Rightarrow> (string + unit) \<times> fsys" where
  "write_files work_dir [] fs = (Inr (), fs)"
| "write_files work_dir (f # files) fs =
     (let target = path_join work_dir (fe_path f) in
      case fs_create_dir_all (path_parent target) fs of
        None \<Rightarrow> (Inl ''create_dir_all'', fs)
      | Some fs1 \<Rightarrow>
          (case fs_write target (fe_content f) fs1 of
             None \<Rightarrow> (Inl ''write'', fs1)
           | Some fs2 \<Rightarrow> write_files work_dir files fs2))"

definition materialize_work_dir ::
    "settings \<Rightarrow> string \<Rightarrow> byte list \<Rightarrow> fsys \<Rightarrow> (string + unit) \<times> fsys" where
  "materialize_work_dir s work_dir digest fs =
     (let marker = path_join work_dir MARKER in
      if fs_read fs marker = Some digest then (Inr (), fs)
      else (case fs_create_dir_all work_dir fs of
              None \<Rightarrow> (Inl ''create_dir_all'', fs)
            | Some fs1 \<Rightarrow>
                (case write_files work_dir (s_files s) fs1 of
                   (Inl e, fs2) \<Rightarrow> (Inl e, fs2)
                 | (Inr _, fs2) \<Rightarrow>
                     (case fs_write marker digest fs2 of
                        None \<Rightarrow> (Inl ''write'', fs2)
                      | Some fs3 \<Rightarrow> (Inr (), fs3)))))"

section \<open>External programs\<close>

definition run_compile ::
    "tools \<Rightarrow> string \<Rightarrow> string list \<Rightarrow> (string \<times> string) list \<Rightarrow> string list option \<Rightarrow> fsys \<Rightarrow>
     (string + process_output) \<times> fsys" where
  "run_compile tk compiler args envs linker_flag fs =
     (case linker_flag of
        None \<Rightarrow> tl_run tk compiler args envs fs
      | Some flag \<Rightarrow>
          (case tl_run tk compiler (args @ flag) envs fs of
             (Inr out, fs1) \<Rightarrow> if po_success out then (Inr out, fs1) else tl_run tk compiler args envs fs1
           | (Inl e, fs1) \<Rightarrow> (Inl e, fs1)))"

text \<open>The directories the C++ toolchain reports for its run-time libraries, each once.\<close>

fun probe_dirs :: "tools \<Rightarrow> string \<Rightarrow> string list \<Rightarrow> string list \<Rightarrow> fsys \<Rightarrow> string list \<times> fsys" where
  "probe_dirs tk compiler [] dirs fs = (dirs, fs)"
| "probe_dirs tk compiler (probe # probes) dirs fs =
     (case tl_run tk compiler [''-print-file-name='' @ probe] [] fs of
        (Inl _, fs1) \<Rightarrow> probe_dirs tk compiler probes dirs fs1
      | (Inr out, fs1) \<Rightarrow>
          (let stdout = trim (from_utf8_lossy (po_stdout out)); dir = path_parent stdout in
           if \<not> po_success out \<or> stdout = [] \<or> stdout = probe \<or> dir \<in> set dirs
           then probe_dirs tk compiler probes dirs fs1
           else probe_dirs tk compiler probes (dirs @ [dir]) fs1))"

definition cpp_toolchain_lib_dirs :: "tools \<Rightarrow> string \<Rightarrow> fsys \<Rightarrow> string list \<times> fsys" where
  "cpp_toolchain_lib_dirs tk compiler fs =
     probe_dirs tk compiler [''libstdc++.so.6'', ''libgcc_s.so.1'', ''libc.so.6''] [] fs"

definition GO_CACHE :: string where "GO_CACHE = ''/var/cache/sandbox/go-cache''"

definition precompile_args ::
    "tools \<Rightarrow> language \<Rightarrow> string \<Rightarrow> string \<Rightarrow> string \<Rightarrow> fsys \<Rightarrow>
     ((string list \<times> (string \<times> string) list \<times> string list option) \<times> fsys) option" where
  "precompile_args tk lang compiler work_dir entrypoint fs =
     (let src = path_join work_dir entrypoint; out = path_join work_dir ''main'' in
      case lang of
        Go \<Rightarrow>
          Some (([''build'', ''-buildvcs=false'', ''-ldflags=-s -w'', ''-o'', out, src],
                 [(''GOFLAGS'', []), (''GOCACHE'', GO_CACHE),
                  (''GOPATH'', path_join work_dir ''.gopath''), (''CGO_ENABLED'', ''0''),
                  (''GOTOOLCHAIN'', ''local'')], None),
                (case fs_create_dir_all GO_CACHE fs of Some fs1 \<Rightarrow> fs1 | None \<Rightarrow> fs))
      | Rust \<Rightarrow>
          Some (([''-C'', ''opt-level=0'', ''--edition'', ''2021'', ''-o'', out, src], [],
                 Some [''-C'', ''link-arg=-fuse-ld=mold'']), fs)
      | Cpp \<Rightarrow>
          (let (dirs, fs1) = cpp_toolchain_lib_dirs tk compiler fs in
           Some (([''-O0'', ''-std=c++23'', ''-o'', out, src] @ map ((@) ''-Wl,-rpath,'') dirs, [],
                  Some [''-fuse-ld=mold'']), fs1))
      | _ \<Rightarrow> None)"

definition precompile ::
    "tools \<Rightarrow> language \<Rightarrow> string \<Rightarrow> string \<Rightarrow> string \<Rightarrow> fsys \<Rightarrow> (string + unit) \<times> fsys" where
  "precompile tk lang compiler work_dir entrypoint fs =
     (case precompile_args tk lang compiler work_dir entrypoint fs of
        None \<Rightarrow> (Inl ''precompile called for non-compiled language'', fs)
      | Some ((args, envs, flag), fs1) \<Rightarrow>
          (case run_compile tk compiler args envs flag fs1 of
             (Inl e, fs2) \<Rightarrow> (Inl (''spawn: '' @ e), fs2)
           | (Inr output, fs2) \<Rightarrow>
               if \<not> po_success output
               then (Inl (''compile failed: '' @ from_utf8_lossy (po_stderr output)), fs2)
               else (case fs_set_mode (path_join work_dir ''main'') 493 fs2 of
                       None \<Rightarrow> (Inl ''metadata'', fs2)
                     | Some fs3 \<Rightarrow> (Inr (), fs3))))"

definition STRIP_SCRIPT :: string where
  \<open>STRIP_SCRIPT =
     ''const { stripTypeScriptTypes } = require("node:module");'' @ [CHR 0x0A] @
     ''const fs = require("fs");'' @ [CHR 0x0A] @
     ''const src = process.argv[1];'' @ [CHR 0x0A] @
     ''fs.writeFileSync(process.argv[2], stripTypeScriptTypes(fs.readFileSync(src, "utf8")));''\<close>

definition transpile_typescript ::
    "tools \<Rightarrow> string \<Rightarrow> string \<Rightarrow> string \<Rightarrow> fsys \<Rightarrow> (string + unit) \<times> fsys" where
  "transpile_typescript tk node work_dir entrypoint fs =
     (let src = path_join work_dir entrypoint; out = path_join work_dir ''main.js'' in
      if fs_exists fs out then (Inr (), fs)
      else (case tl_run tk node [''-e'', STRIP_SCRIPT, ''--no-warnings'', src, out] [] fs of
              (Inl e, fs1) \<Rightarrow> (Inl (''spawn node (transpile): '' @ e), fs1)
            | (Inr output, fs1) \<Rightarrow>
                if \<not> po_success output
                then (Inl (''typescript transpile failed: '' @ trim (from_utf8_lossy (po_stderr output))),
                      (case fs_remove out fs1 of Some fs2 \<Rightarrow> fs2 | None \<Rightarrow> fs1))
                else (Inr (), fs1)))"

section \<open>Commands\<close>

definition compile_key :: "tools \<Rightarrow> runtime_entry \<Rightarrow> byte list \<Rightarrow> string \<Rightarrow> byte list" where
  "compile_key tk e digest bin_path =
     binary_key_from_parts (tl_sha256 tk) digest (re_executable e) (tl_arch tk)
       (fst (flake_lock_bytes (tl_env tk) e) @ as_bytes bin_path)"

text \<open>
  The compiled languages: a verified cached binary, or a compilation whose artifact is stored
  (best effort). The result carries the fd path of a cache hit.
\<close>

definition build_binary ::
    "tools \<Rightarrow> settings \<Rightarrow> runtime_entry \<Rightarrow> byte list \<Rightarrow> string \<Rightarrow> string \<Rightarrow> world \<Rightarrow>
     (string + string option) \<times> world" where
  "build_binary tk s e digest bin_path work_dir w =
     (let key = compile_key tk e digest bin_path;
          found = (case w_binaries w of
                     None \<Rightarrow> (None, w)
                   | Some c \<Rightarrow>
                       (case bc_lookup (tl_sha256 tk) (tl_to_hex tk) (tl_of_hex tk) (tl_short tk) (w_fs w) key c of
                          (Inr h, c') \<Rightarrow> (Some h, w\<lparr>w_binaries := Some c'\<rparr>)
                        | (Inl _, c') \<Rightarrow> (None, w\<lparr>w_binaries := Some c'\<rparr>)))
      in case found of
           (Some h, w1) \<Rightarrow> (Inr (Some (bh_fd_path h)), w1)
         | (None, w1) \<Rightarrow>
             (case precompile tk (s_language s) bin_path work_dir (s_entrypoint s) (w_fs w1) of
                (Inl err, fs) \<Rightarrow> (Inl err, w1\<lparr>w_fs := fs\<rparr>)
              | (Inr _, fs) \<Rightarrow>
                  let w2 = w1\<lparr>w_fs := fs\<rparr>; out = path_join work_dir ''main'' in
                  (case w_binaries w2 of
                     None \<Rightarrow> (Inr None, w2)
                   | Some c \<Rightarrow>
                       if fs_exists fs out
                       then (case bc_store (tl_sha256 tk) (tl_to_hex tk) (tl_short tk) key out fs c of
                               Some (h, fs', c') \<Rightarrow> (Inr None, w2\<lparr>w_fs := fs', w_binaries := Some c'\<rparr>)
                             | None \<Rightarrow> (Inr None, w2))
                       else (Inr None, w2))))"

text \<open>\<^verbatim>\<open>Path::extension\<close> of a relative path: of its last component, \<^verbatim>\<open>None\<close> for hidden names.\<close>

fun path_components :: "string \<Rightarrow> string \<Rightarrow> string list" where
  "path_components cur [] = [rev cur]"
| "path_components cur (c # cs) =
     (if c = CHR ''/'' then rev cur # path_components [] cs else path_components (c # cur) cs)"

definition path_extension :: "string \<Rightarrow> string option" where
  "path_extension p =
     (let comps = filter (\<lambda>c. c \<noteq> [] \<and> c \<noteq> ''.'') (path_components [] p) in
      if comps = [] \<or> last comps = ''..'' then None
      else (let name = last comps;
                ext = rev (takeWhile (\<lambda>c. c \<noteq> CHR ''.'') (rev name));
                stem = length name - length ext
            in if CHR ''.'' \<notin> set name \<or> stem \<le> 1 then None else Some ext))"

definition contains_dotdot :: "string \<Rightarrow> bool" where
  "contains_dotdot p = list_ex (\<lambda>w. w = ''..'') (windows 2 p)"

definition go_interpreted :: "tools \<Rightarrow> settings \<Rightarrow> bool" where
  "go_interpreted tk s \<longleftrightarrow>
     list_all (\<lambda>f. \<not> contains_dotdot (fe_path f)) (s_files s) \<and> h_exists (tl_host tk) YAEGI \<and>
     yaegi_eligible s"

definition sandbox_path :: "string \<Rightarrow> string" where
  "sandbox_path p = ''/sandbox/'' @ p"

text \<open>The argument vector, with the fd path of a cached binary.\<close>

definition resolve_argv ::
    "tools \<Rightarrow> settings \<Rightarrow> runtime_entry \<Rightarrow> byte list \<Rightarrow> string \<Rightarrow> string \<Rightarrow> world \<Rightarrow>
     (string + string list \<times> string option) \<times> world" where
  "resolve_argv tk s e digest bin_path work_dir w =
     (case s_language s of
        Go \<Rightarrow>
          if go_interpreted tk s then (Inr ([YAEGI, ''run'', sandbox_path (s_entrypoint s)], None), w)
          else (case build_binary tk s e digest bin_path work_dir w of
                  (Inl err, w1) \<Rightarrow> (Inl err, w1)
                | (Inr fd, w1) \<Rightarrow> (Inr ([''/sandbox/main''], fd), w1))
      | Python \<Rightarrow>
          (Inr (bin_path # re_interpreter_flags e @ [sandbox_path (s_entrypoint s)], None), w)
      | Typescript \<Rightarrow>
          if re_executable e \<noteq> ''bun'' \<and> path_extension (path_join work_dir (s_entrypoint s)) = Some ''ts''
          then (case transpile_typescript tk bin_path work_dir (s_entrypoint s) (w_fs w) of
                  (Inl err, fs) \<Rightarrow> (Inl err, w\<lparr>w_fs := fs\<rparr>)
                | (Inr _, fs) \<Rightarrow>
                    (Inr (bin_path # re_interpreter_flags e @ [''/sandbox/main.js''], None), w\<lparr>w_fs := fs\<rparr>))
          else (Inr (bin_path # re_interpreter_flags e @ [sandbox_path (s_entrypoint s)], None), w)
      | _ \<Rightarrow>
          (case build_binary tk s e digest bin_path work_dir w of
             (Inl err, w1) \<Rightarrow> (Inl err, w1)
           | (Inr fd, w1) \<Rightarrow> (Inr ([''/sandbox/main''], fd), w1)))"

section \<open>Resolution\<close>

definition make_spec ::
    "tools \<Rightarrow> settings \<Rightarrow> runtime_entry \<Rightarrow> string \<Rightarrow> string list \<Rightarrow> string option \<Rightarrow> child_spec" where
  "make_spec tk s e work_dir argv fd =
     \<lparr>c_request_id = s_request_id s, c_language = s_language s,
      c_mounts = mount_resolve (tl_host tk) (tl_facts tk) s work_dir, c_argv = argv,
      c_env = env_resolve s (re_baseline_env e), c_limits = limits_resolve s,
      c_seccomp_profile = seccomp_resolve s,
      c_layers = \<lparr>sl_trace_syscalls = ob_trace_syscalls (s_observability s),
                  sl_enforce_w_xor_x = (seccomp_resolve s = NativeJit)\<rparr>,
      c_apparmor_profile = apparmor_resolve s, c_binary_fd_path = fd,
      c_wall_timeout_ms = l_wall_ms (s_limits s),
      c_protocol_fd = (s_mode s \<in> {RlStepMode, RlEpisode}), c_zygote = False\<rparr>"

definition runtime_name_of :: "settings \<Rightarrow> string" where
  "runtime_name_of s = (case s_runtime s of Some r \<Rightarrow> r | None \<Rightarrow> default_name (s_language s))"

text \<open>The part after a miss in the resolved-request cache.\<close>

definition resolve_fresh ::
    "tools \<Rightarrow> settings \<Rightarrow> string \<Rightarrow> bool \<Rightarrow> runtime_entry \<Rightarrow> byte list \<Rightarrow> byte list \<Rightarrow> world \<Rightarrow>
     (string + resolved) \<times> world" where
  "resolve_fresh tk s work_root materialize e digest key w =
     (let work_dir = path_join work_root (hex_digest digest);
          (m, w1) = (if materialize
                     then (case materialize_work_dir s work_dir digest (w_fs w) of
                             (r, fs) \<Rightarrow> (r, w\<lparr>w_fs := fs\<rparr>))
                     else (Inr (), w))
      in case m of
           Inl err \<Rightarrow> (Inl err, w1)
         | Inr _ \<Rightarrow>
             (case fst (resolve_bin (tl_env tk) e) of
                Inl err \<Rightarrow> (Inl (''runtime: '' @ err), w1)
              | Inr bin_path \<Rightarrow>
                  (case resolve_argv tk s e digest bin_path work_dir w1 of
                     (Inl err, w2) \<Rightarrow> (Inl err, w2)
                   | (Inr (argv, fd), w2) \<Rightarrow>
                       if has_capability s Gpu \<and> gpu_count (s_gpu s) = 0
                       then (Inl ''+gpu capability without gpu.count > 0'', w2)
                       else (let r = \<lparr>rs_spec = make_spec tk s e work_dir argv fd, rs_work_dir = work_dir\<rparr>
                             in (Inr r, if materialize
                                        then w2\<lparr>w_resolved := (w_resolved w2)(key \<mapsto> r)\<rparr> else w2)))))"

definition patch_hit :: "settings \<Rightarrow> resolved \<Rightarrow> resolved" where
  "patch_hit s r =
     r\<lparr>rs_spec := (rs_spec r)\<lparr>c_request_id := s_request_id s, c_wall_timeout_ms := l_wall_ms (s_limits s)\<rparr>\<rparr>"

definition resolve_opts ::
    "tools \<Rightarrow> settings \<Rightarrow> string \<Rightarrow> bool \<Rightarrow> world \<Rightarrow> ((string + resolved) \<times> world) panics" where
  "resolve_opts tk s work_root materialize w =
     (case validate s of
        Inl e \<Rightarrow> Returns (Inl ''invalid settings'', w)
      | Inr _ \<Rightarrow>
          (case runtime_lookup (tl_from_json tk) (tl_env tk) (runtime_name_of s) (w_registry w) of
             Panic \<Rightarrow> Panic
           | Returns (None, reg) \<Rightarrow> Returns (Inl (''unknown runtime '' @ runtime_name_of s), w\<lparr>w_registry := reg\<rparr>)
           | Returns (Some e, reg) \<Rightarrow>
               let w1 = w\<lparr>w_registry := reg\<rparr> in
               if re_language e \<noteq> s_language s then Returns (Inl ''runtime is for another language'', w1)
               else (let digest = files_digest (tl_blake3 tk) s;
                         key = resolved_cache_key (tl_blake3 tk) s digest (runtime_name_of s)
                     in case w_resolved w1 key of
                          Some r \<Rightarrow> Returns (Inr (patch_hit s r), w1)
                        | None \<Rightarrow> Returns (resolve_fresh tk s work_root materialize e digest key w1))))"

definition resolve :: "tools \<Rightarrow> settings \<Rightarrow> string \<Rightarrow> world \<Rightarrow> ((string + resolved) \<times> world) panics" where
  "resolve tk s work_root w = resolve_opts tk s work_root True w"

section \<open>What a resolution returns\<close>

text \<open>The resolutions that can reach the cache: valid, known runtime, right language.\<close>

lemma resolve_opts_reaches:
  assumes "validate s = Inr ()"
    and "runtime_lookup (tl_from_json tk) (tl_env tk) (runtime_name_of s) (w_registry w) = Returns (Some e, reg)"
    and "re_language e = s_language s"
  shows "resolve_opts tk s work_root mat w =
    (let digest = files_digest (tl_blake3 tk) s;
         key = resolved_cache_key (tl_blake3 tk) s digest (runtime_name_of s)
     in case w_resolved w key of
          Some r \<Rightarrow> Returns (Inr (patch_hit s r), w\<lparr>w_registry := reg\<rparr>)
        | None \<Rightarrow> Returns (resolve_fresh tk s work_root mat e digest key (w\<lparr>w_registry := reg\<rparr>)))"
  using assms by (simp add: resolve_opts_def Let_def)

lemma resolve_opts_ok_reaches:
  assumes "resolve_opts tk s work_root mat w = Returns (Inr r, w')"
  obtains e reg where "validate s = Inr ()"
    "runtime_lookup (tl_from_json tk) (tl_env tk) (runtime_name_of s) (w_registry w) = Returns (Some e, reg)"
    "re_language e = s_language s"
  using assms
  by (auto simp: resolve_opts_def Let_def split: sum.splits panics.splits prod.splits option.splits if_splits)

lemma resolve_fresh_spec:
  assumes "resolve_fresh tk s work_root mat e digest key w = (Inr r, w')"
  shows "\<exists>argv fd. rs_spec r = make_spec tk s e (rs_work_dir r) argv fd \<and>
    rs_work_dir r = path_join work_root (hex_digest digest) \<and>
    (mat \<longrightarrow> w_resolved w' key = Some r) \<and> \<not> (has_capability s Gpu \<and> gpu_count (s_gpu s) = 0)"
  using assms
  by (auto simp: resolve_fresh_def Let_def split: prod.splits sum.splits if_splits) blast+


section \<open>What a cache hit returns\<close>

text \<open>The fields of a request that its cache key is computed from.\<close>

definition same_key_fields :: "settings \<Rightarrow> settings \<Rightarrow> bool" where
  "same_key_fields s1 s2 \<longleftrightarrow>
     s_language s1 = s_language s2 \<and> s_mode s1 = s_mode s2 \<and> s_limits s1 = s_limits s2 \<and>
     s_capabilities s1 = s_capabilities s2 \<and> s_network s1 = s_network s2 \<and>
     s_filesystem s1 = s_filesystem s2 \<and> s_env s1 = s_env s2 \<and>
     s_determinism s1 = s_determinism s2 \<and> s_observability s1 = s_observability s2 \<and>
     s_runtime s1 = s_runtime s2 \<and> s_entrypoint s1 = s_entrypoint s2 \<and> s_files s1 = s_files s2"

lemma same_key_fields_key:
  assumes "same_key_fields s1 s2"
  shows "files_digest b s2 = files_digest b s1 \<and> runtime_name_of s2 = runtime_name_of s1 \<and>
    resolved_cache_key b s2 (files_digest b s2) (runtime_name_of s2) =
    resolved_cache_key b s1 (files_digest b s1) (runtime_name_of s1)"
proof -
  have "runtime_name_of s2 = runtime_name_of s1"
    using assms unfolding same_key_fields_def runtime_name_of_def by (auto split: option.split)
  with assms show ?thesis
    by (simp add: same_key_fields_def files_digest_def resolved_cache_key_def cache_key_preimage_def)
qed

lemma resolve_hit_is_first:
  assumes first: "resolve tk s1 work_root w = Returns (Inr r1, w1)"
    and same: "same_key_fields s1 s2" and valid: "validate s2 = Inr ()"
    and known: "runtime_lookup (tl_from_json tk) (tl_env tk) (runtime_name_of s2) (w_registry w1) = Returns (Some e, reg)"
      "re_language e = s_language s2"
    and miss: "w_resolved w (resolved_cache_key (tl_blake3 tk) s1 (files_digest (tl_blake3 tk) s1) (runtime_name_of s1)) = None"
  shows "resolve tk s2 work_root w1 = Returns (Inr (patch_hit s2 r1), w1\<lparr>w_registry := reg\<rparr>)"
proof -
  let ?key = "resolved_cache_key (tl_blake3 tk) s1 (files_digest (tl_blake3 tk) s1) (runtime_name_of s1)"
  obtain e1 reg1 where e1: "validate s1 = Inr ()"
      "runtime_lookup (tl_from_json tk) (tl_env tk) (runtime_name_of s1) (w_registry w) = Returns (Some e1, reg1)"
      "re_language e1 = s_language s1"
    using first unfolding resolve_def by (rule resolve_opts_ok_reaches)
  have "resolve_fresh tk s1 work_root True e1 (files_digest (tl_blake3 tk) s1) ?key (w\<lparr>w_registry := reg1\<rparr>) = (Inr r1, w1)"
    using first miss resolve_opts_reaches [OF e1] by (simp add: resolve_def Let_def)
  then have "w_resolved w1 ?key = Some r1" using resolve_fresh_spec by blast
  moreover have "resolved_cache_key (tl_blake3 tk) s2 (files_digest (tl_blake3 tk) s2) (runtime_name_of s2) = ?key"
    using same_key_fields_key [OF same] by blast
  ultimately show ?thesis
    unfolding resolve_def resolve_opts_reaches [OF valid known] by (simp add: Let_def)
qed

text \<open>
  C39. The key omits the resolved secrets, the session id and the request id, although the environment,
  the \<^verbatim>\<open>/session\<close> and \<^verbatim>\<open>/episode\<close> mounts and the AppArmor profile depend on them, and a hit only
  patches the request id and the timeout. So a second request that agrees with an earlier one on
  the key's fields is launched with the earlier request's secrets, the earlier session's directory
  and the earlier profile name, whatever its own are.
\<close>

theorem cache_hit_reuses_first_requests_secrets_and_mounts:
  assumes "resolve tk s1 work_root w = Returns (Inr r1, w1)"
    and "w_resolved w (resolved_cache_key (tl_blake3 tk) s1 (files_digest (tl_blake3 tk) s1) (runtime_name_of s1)) = None"
    and "same_key_fields s1 s2" and "validate s2 = Inr ()"
    and "runtime_lookup (tl_from_json tk) (tl_env tk) (runtime_name_of s2) (w_registry w1) = Returns (Some e, reg)"
    and "re_language e = s_language s2"
  shows "\<exists>r2 w2 (e1 :: runtime_entry). resolve tk s2 work_root w1 = Returns (Inr r2, w2) \<and>
    c_env (rs_spec r2) = env_resolve s1 (re_baseline_env e1) \<and>
    c_mounts (rs_spec r2) = mount_resolve (tl_host tk) (tl_facts tk) s1 (rs_work_dir r2) \<and>
    c_apparmor_profile (rs_spec r2) = apparmor_resolve s1 \<and>
    c_request_id (rs_spec r2) = s_request_id s2"
proof -
  obtain e1 reg1 where e1: "validate s1 = Inr ()"
      "runtime_lookup (tl_from_json tk) (tl_env tk) (runtime_name_of s1) (w_registry w) = Returns (Some e1, reg1)"
      "re_language e1 = s_language s1"
    using assms(1) unfolding resolve_def by (rule resolve_opts_ok_reaches)
  let ?key = "resolved_cache_key (tl_blake3 tk) s1 (files_digest (tl_blake3 tk) s1) (runtime_name_of s1)"
  have "resolve_fresh tk s1 work_root True e1 (files_digest (tl_blake3 tk) s1) ?key (w\<lparr>w_registry := reg1\<rparr>) = (Inr r1, w1)"
    using assms(1,2) resolve_opts_reaches [OF e1] by (simp add: resolve_def Let_def)
  from resolve_fresh_spec [OF this] obtain argv fd where
      "rs_spec r1 = make_spec tk s1 e1 (rs_work_dir r1) argv fd" by blast
  with resolve_hit_is_first [OF assms(1,3,4,5,6,2)] show ?thesis
    by (auto simp: patch_hit_def make_spec_def)
qed

section \<open>An example engine\<close>

definition demo_tools :: tools where
  "demo_tools = \<lparr>tl_blake3 = (\<lambda>_. [0]), tl_sha256 = demo_digest, tl_to_hex = hex_digest, tl_of_hex = unhex,
     tl_short = (\<lambda>n. n), tl_from_json = demo_json,
     tl_run = (\<lambda>_ _ _ fs. (Inl ''no such program'', fs)), tl_arch = ''x86_64'',
     tl_host = \<lparr>h_is_dir = (\<lambda>_. True), h_exists = (\<lambda>_. True), h_read_link = (\<lambda>_. None)\<rparr>,
     tl_facts = \<lparr>hf_dev_min = True, hf_nix_store = True, hf_etc = replicate 6 True\<rparr>,
     tl_env = demo_host\<rparr>"

definition demo_world :: world where
  "demo_world = \<lparr>w_fs = demo_fs, w_binaries = None, w_registry = Map.empty, w_resolved = Map.empty\<rparr>"

lemma python_base:
  "bt_get catalog ''python-base'' =
     Some (entry_flags ''python-base'' Python ''/etc/sandbox/flakes/python-base.lock'' ''python3''
        [Concurrency] py_env [''-S''])"
  by (simp add: catalog_get entry_defs)

lemma demo_materialize:
  "\<exists>fs'. materialize_work_dir s ''/w/00'' [0] demo_fs = (Inr (), fs')"
  if "s_files s = [\<lparr>fe_path = ''main.py'', fe_content = c, fe_mode = 420\<rparr>]"
  using that
  by (simp add: materialize_work_dir_def demo_fs_def MARKER_def path_join_def is_absolute_def fs_read_def
      fs_open_def fs_stat_def fs_real_plain fs_create_dir_all_def ancestors_def path_parent_def
      fs_write_def fs_create_def Let_def)

lemma minimal_secret_valid: "validate (minimal_settings\<lparr>s_resolved_secrets := m\<rparr>) = Inr ()"
  by (simp add: validate_def minimal_settings_def minimal_limits_def SCHEMA_VERSION_def)

lemma demo_resolve:
  assumes "s = minimal_settings\<lparr>s_resolved_secrets := m\<rparr>"
  shows "\<exists>r w'. resolve demo_tools s ''/w'' demo_world = Returns (Inr r, w') \<and> w_registry w' = Map.empty"
proof -
  have v: "validate s = Inr ()"
    by (simp add: assms minimal_secret_valid)
  have "\<exists>fs'. materialize_work_dir s ''/w/00'' [0] demo_fs = (Inr (), fs')"
    by (rule demo_materialize [where c = "as_bytes ''print(1)''"]) (simp add: assms minimal_settings_def)
  then obtain fs' where m: "materialize_work_dir s ''/w/00'' [0] demo_fs = (Inr (), fs')" ..
  have name: "runtime_name_of s = ''python-base''" "s_language s = Python" "\<not> has_capability s Gpu"
    by (simp_all add: assms runtime_name_of_def minimal_settings_def has_capability_def)
  have "path_join ''/w'' (hex_digest [0]) = ''/w/00''"
    by (simp add: path_join_def hex_digest_def HEX_def is_absolute_def)
  then show ?thesis
    using m name
    by (simp add: resolve_def resolve_opts_def v runtime_lookup_def python_base entry_flags_def Let_def
        demo_world_def demo_tools_def files_digest_def resolved_cache_key_def resolve_fresh_def
        resolve_bin_def resolve_bin_uncached_def demo_host_def resolve_argv_def)
qed

definition demo_secret :: "string \<Rightarrow> settings" where
  "demo_secret v = minimal_settings\<lparr>s_resolved_secrets := [(''API_KEY'', v)]\<rparr>"


theorem cache_hit_reuses_first_requests_secrets_and_mounts_witness:
  "\<exists>r1 w1 r2 w2. resolve demo_tools (demo_secret ''alice'') ''/w'' demo_world = Returns (Inr r1, w1) \<and>
     resolve demo_tools (demo_secret ''bob'') ''/w'' w1 = Returns (Inr r2, w2) \<and>
     bt_get (c_env (rs_spec r2)) ''API_KEY'' = Some ''alice''"
proof -
  obtain r1 w1 where r1: "resolve demo_tools (demo_secret ''alice'') ''/w'' demo_world = Returns (Inr r1, w1)"
      "w_registry w1 = Map.empty"
    using demo_resolve [OF demo_secret_def] by blast
  have "\<exists>r2 w2 (e1 :: runtime_entry). resolve demo_tools (demo_secret ''bob'') ''/w'' w1 = Returns (Inr r2, w2) \<and>
    c_env (rs_spec r2) = env_resolve (demo_secret ''alice'') (re_baseline_env e1) \<and>
    c_mounts (rs_spec r2) = mount_resolve (tl_host demo_tools) (tl_facts demo_tools) (demo_secret ''alice'') (rs_work_dir r2) \<and>
    c_apparmor_profile (rs_spec r2) = apparmor_resolve (demo_secret ''alice'') \<and>
    c_request_id (rs_spec r2) = s_request_id (demo_secret ''bob'')"
  proof (rule cache_hit_reuses_first_requests_secrets_and_mounts [OF r1(1)])
    show "same_key_fields (demo_secret ''alice'') (demo_secret ''bob'')"
      by (simp add: same_key_fields_def demo_secret_def)
    show "validate (demo_secret ''bob'') = Inr ()"
      by (simp add: demo_secret_def minimal_secret_valid)
    show "runtime_lookup (tl_from_json demo_tools) (tl_env demo_tools) (runtime_name_of (demo_secret ''bob'')) (w_registry w1)
        = Returns (Some (entry_flags ''python-base'' Python ''/etc/sandbox/flakes/python-base.lock'' ''python3''
            [Concurrency] py_env [''-S'']), Map.empty)"
      by (simp add: runtime_lookup_def runtime_name_of_def demo_secret_def minimal_settings_def python_base r1(2))
  qed (simp_all add: demo_world_def entry_flags_def demo_secret_def minimal_settings_def)
  then obtain r2 w2 and e1 :: runtime_entry where r2: "resolve demo_tools (demo_secret ''bob'') ''/w'' w1 = Returns (Inr r2, w2)"
      "c_env (rs_spec r2) = env_resolve (demo_secret ''alice'') (re_baseline_env e1)" by blast
  have "settings_wf (demo_secret ''alice'')"
    by (simp add: settings_wf_def demo_secret_def minimal_settings_def bt_invar_def)
  from env_facts [OF this, of "re_baseline_env e1" "''API_KEY''"]
  have "bt_get (c_env (rs_spec r2)) ''API_KEY'' = Some ''alice''"
    by (simp add: r2(2) seed_value_def demo_secret_def minimal_settings_def bt_get_def)
  with r1(1) r2(1) show ?thesis by blast
qed

end
