(* ===== verification/RB_Exec.thy ===== *)
theory RB_Exec
  imports RB_Drain RB_Resolver
begin

text \<open>
  The exec mode (\<^verbatim>\<open>engine/src/modes/exec.rs\<close>, \<^verbatim>\<open>run\<close>): resolve the request, launch the sandbox, feed
  its standard input, drain it, release its cgroup and write one result frame. It composes the
  resolver, the launcher, the cgroup pool and the drain loop. The release profile of the workspace
  aborts on a panic, so \<open>Panic\<close> is the end of the whole engine.
\<close>

section \<open>Standard input\<close>

text \<open>
  \<^verbatim>\<open>Write::write_all\<close> on the write end of the child's standard input. The launcher creates its pipes
  non-blocking, so a full pipe answers \<^verbatim>\<open>EAGAIN\<close>, which ends the loop like any other error. The value is
  what reached the pipe; the result of the call is thrown away by the caller.
\<close>

datatype write_result = Wrote nat | WInterrupted | WAgain | WErr

fun stdin_write_all :: "byte list \<Rightarrow> write_result list \<Rightarrow> byte list" where
  "stdin_write_all [] ws = []"
| "stdin_write_all buf [] = []"
| "stdin_write_all buf (Wrote n # ws) = (if n = 0 then [] else take n buf @ stdin_write_all (drop n buf) ws)"
| "stdin_write_all buf (WInterrupted # ws) = stdin_write_all buf ws"
| "stdin_write_all buf (WAgain # ws) = []"
| "stdin_write_all buf (WErr # ws) = []"

fun stdin_bytes :: "stdin_payload \<Rightarrow> byte list" where
  "stdin_bytes (Text t) = as_bytes t"
| "stdin_bytes (Bytes b) = b"

definition feed_stdin :: "settings \<Rightarrow> write_result list \<Rightarrow> byte list" where
  "feed_stdin s ws = (case s_stdin s of Some payload \<Rightarrow> stdin_write_all (stdin_bytes payload) ws | None \<Rightarrow> [])"

section \<open>One request\<close>

record exec_io =
  xi_null_ok :: bool              \<comment> \<open>\<^verbatim>\<open>/dev/null\<close> opens\<close>
  xi_timer_ok :: "bool \<times> bool"
  xi_wakes :: "wake list"
  xi_peak :: "u64 option"
  xi_elapsed_ms :: u64
  xi_data :: bool                 \<comment> \<open>a data channel is connected\<close>

record engine_part =
  ep_world :: world
  ep_launcher :: "launcher option"
  ep_fs :: cgfs

datatype exec_outcome =
    Hangs
  | Fails string
  | Replies response "(stream \<times> byte list) list"     \<comment> \<open>control frame; chunks sent on the data channel\<close>

definition die :: "string \<Rightarrow> string option \<Rightarrow> string option \<Rightarrow> response" where
  "die reason detail last_request_id =
     EngineDied \<lparr>ed_reason = reason, ed_detail = detail, ed_exit_status = None,
       ed_last_request_id = last_request_id, ed_restart_safe = True\<rparr>"

definition capture :: "u64 \<Rightarrow> stream \<Rightarrow> (stream \<times> byte list) list \<Rightarrow> string" where
  "capture cap st cs =
     into_lossy_string (fold byte_cap_extend (map snd (filter (\<lambda>c. fst c = st) cs)) (byte_cap_new (unat cap)))"

definition exec_result_of :: "settings \<Rightarrow> exec_io \<Rightarrow> child_exit \<Rightarrow> drain_state \<Rightarrow> exec_result" where
  "exec_result_of s io x d =
     (let cap = l_output_bytes (s_limits s); status = fst (map_status x) in
      \<lparr>r_request_id = s_request_id s, r_status = status, r_exit_code = snd (map_status x),
       r_exec_time_ms = xi_elapsed_ms io,
       r_memory_peak_mb =
         (case x of ExitNormal _ p _ \<Rightarrow> p
          | _ \<Rightarrow> (case xi_peak io of Some p \<Rightarrow> p | None \<Rightarrow> 0) div (1024 * 1024)),
       r_cpu_time_ms = 0, r_output_bytes = word_of_nat (total_bytes (d_chunks d)),
       r_output_truncated = (status = OutputExceeded),
       r_output = capture cap Stdout (d_chunks d), r_errors = capture cap Stderr (d_chunks d)\<rparr>)"

text \<open>The drain loop kills the cgroup itself on the cap and on the timer.\<close>

definition after_drain :: "cg_env \<Rightarrow> child_exit \<Rightarrow> cgroup \<Rightarrow> cgfs \<Rightarrow> cgroup \<times> cgfs" where
  "after_drain env x cg fs =
     (if x = ExitOutputCap \<or> x = ExitTimeout then snd (cg_kill_all env cg fs) else (cg, fs))"

definition exec_drain ::
    "cg_env \<Rightarrow> exec_io \<Rightarrow> settings \<Rightarrow> child_handle \<Rightarrow> cg_pool \<Rightarrow> cgfs \<Rightarrow> exec_outcome \<times> cg_pool \<times> cgfs" where
  "exec_drain env io s h pool fs =
     (if \<not> xi_null_ok io then (Fails ''open /dev/null'', pool, fs)
      else case make_timerfd (fst (xi_timer_ok io)) (snd (xi_timer_ok io)) (h_wall_ms h) of
        Inl e \<Rightarrow> (Fails ''make_drainer'', pool, fs)
      | Inr timer \<Rightarrow>
          let cg = h_cgroup h; kill_ok = ce_write_ok env (cg_path cg) ''cgroup.kill'' in
          (case drainer_run (l_output_bytes (s_limits s)) kill_ok (xi_wakes io) drain_init of
             (None, d) \<Rightarrow> (Hangs, pool, fs)
           | (Some (Inl e), d) \<Rightarrow> (Fails ''drain'', pool, fs)
           | (Some (Inr x), d) \<Rightarrow>
               (case after_drain env x cg fs of
                  (cg1, fs1) \<Rightarrow>
                    (case release_cgroup env cg1 pool fs1 of
                       (pool1, fs2) \<Rightarrow>
                         (Replies (Result (exec_result_of s io x d))
                            (if out_stream (s_output s) \<and> xi_data io then d_chunks d else []), pool1, fs2)))))"

definition exec_run ::
    "tools \<Rightarrow> host_kernel \<Rightarrow> exec_io \<Rightarrow> string \<Rightarrow> settings \<Rightarrow> engine_part \<Rightarrow> (exec_outcome \<times> engine_part) panics" where
  "exec_run tk hk io work_root s e =
     (case ep_launcher e of
        None \<Rightarrow> Returns (Replies (die ''platform_unsupported'' (Some ''Linux-only'') (Some (s_request_id s))) [], e)
      | Some la \<Rightarrow>
          (case resolve tk s work_root (ep_world e) of
             Panic \<Rightarrow> Panic
           | Returns (Inl m, w) \<Rightarrow> Returns (Fails ''resolve spec'', e\<lparr>ep_world := w\<rparr>)
           | Returns (Inr r, w) \<Rightarrow>
               (case launch hk (rs_spec r) la (ep_fs e) of
                  Panic \<Rightarrow> Panic
                | Returns (Inl x, la1, fs1, acts) \<Rightarrow>
                    Returns (Fails ''launch'', \<lparr>ep_world = w, ep_launcher = Some la1, ep_fs = fs1\<rparr>)
                | Returns (Inr h, la1, fs1, acts) \<Rightarrow>
                    (case exec_drain (hk_cgroups hk) io s h (la_pool la1) fs1 of
                       (out, pool, fs2) \<Rightarrow>
                         Returns (out, \<lparr>ep_world = w, ep_launcher = Some (la1\<lparr>la_pool := pool\<rparr>), ep_fs = fs2\<rparr>)))))"

section \<open>What a request gets\<close>

lemma capture_eq: "capture cap st cs = from_utf8_lossy (take (unat cap) (bytes_on st cs))"
  by (simp add: capture_def into_lossy_string_def byte_cap_keeps_prefix bytes_on_def)

lemma exec_drain_replies:
  assumes "exec_drain env io s h pool fs = (Replies resp sent, pool', fs')"
  shows "\<exists>x d. drainer_run (l_output_bytes (s_limits s)) (ce_write_ok env (cg_path (h_cgroup h)) ''cgroup.kill'')
      (xi_wakes io) drain_init = (Some (Inr x), d) \<and> resp = Result (exec_result_of s io x d) \<and>
    sent = (if out_stream (s_output s) \<and> xi_data io then d_chunks d else []) \<and>
    release_cgroup env (fst (after_drain env x (h_cgroup h) fs)) pool (snd (after_drain env x (h_cgroup h) fs)) = (pool', fs')"
  using assms
  by (auto simp: exec_drain_def Let_def split: if_splits sum.splits prod.splits option.splits)

lemma exec_run_replies:
  assumes "exec_run tk hk io work_root s e = Returns (Replies resp sent, e')" "ep_launcher e = Some la"
  shows "\<exists>spec h la1 fs1 acts pool'. launch hk spec la (ep_fs e) = Returns (Inr h, la1, fs1, acts) \<and>
    exec_drain (hk_cgroups hk) io s h (la_pool la1) fs1 = (Replies resp sent, pool', ep_fs e') \<and>
    ep_launcher e' = Some (la1\<lparr>la_pool := pool'\<rparr>)"
  using assms
  by (auto simp: exec_run_def split: panics.splits prod.splits sum.splits) blast


text \<open>
  C13. Every request that is answered is answered once, under its own id, and truthfully: the status
  and exit code are those of the drain verdict, the truncation flag is set exactly for an exceeded
  cap, and the captured output is the beginning of the program's output stream, at most as many bytes
  as the limit allows (read as UTF-8, ill-formed parts replaced).
\<close>

theorem exec_answers_its_request:
  assumes "exec_run tk hk io work_root s e = Returns (Replies resp sent, e')" "ep_launcher e = Some la"
  shows "\<exists>res x d kill_ok. resp = Result res \<and> r_request_id res = s_request_id s \<and>
    drainer_run (l_output_bytes (s_limits s)) kill_ok (xi_wakes io) drain_init = (Some (Inr x), d) \<and>
    (r_status res, r_exit_code res) = map_status x \<and>
    (r_output_truncated res \<longleftrightarrow> x = ExitOutputCap) \<and>
    r_output res = from_utf8_lossy (take (unat (l_output_bytes (s_limits s))) (bytes_on Stdout (d_chunks d))) \<and>
    r_errors res = from_utf8_lossy (take (unat (l_output_bytes (s_limits s))) (bytes_on Stderr (d_chunks d))) \<and>
    (sent = d_chunks d \<or> sent = [])"
proof -
  obtain spec h la1 fs1 acts pool' where "launch hk spec la (ep_fs e) = Returns (Inr h, la1, fs1, acts)"
      and dr: "exec_drain (hk_cgroups hk) io s h (la_pool la1) fs1 = (Replies resp sent, pool', ep_fs e')"
    using exec_run_replies [OF assms] by blast
  from exec_drain_replies [OF dr] obtain x d where
    x: "drainer_run (l_output_bytes (s_limits s)) (ce_write_ok (hk_cgroups hk) (cg_path (h_cgroup h)) ''cgroup.kill'')
        (xi_wakes io) drain_init = (Some (Inr x), d)" "resp = Result (exec_result_of s io x d)"
      "sent = (if out_stream (s_output s) \<and> xi_data io then d_chunks d else [])" by blast
  have "fst (map_status x) = OutputExceeded \<longleftrightarrow> x = ExitOutputCap"
    by (simp add: map_status_def split: child_exit.split)
  then show ?thesis using x
    by (intro exI [of _ "exec_result_of s io x d"] exI [of _ x] exI [of _ d]
        exI [of _ "ce_write_ok (hk_cgroups hk) (cg_path (h_cgroup h)) ''cgroup.kill''"])
      (simp add: exec_result_of_def Let_def capture_eq)
qed




text \<open>
  Standard input is cut at the first full pipe: when the pipe takes only part of the payload and
  then would block (the child has not read yet), the rest of the payload is never written and no
  error is reported.
\<close>

theorem stdin_cut_at_full_pipe:
  assumes "0 < n" "n < length payload"
  shows "feed_stdin (s\<lparr>s_stdin := Some (Bytes payload)\<rparr>) (Wrote n # WAgain # ws) = take n payload \<and>
    take n payload \<noteq> payload"
proof -
  obtain b bs where "payload = b # bs" using assms by (cases payload) auto
  moreover have "drop n payload \<noteq> []" using assms by simp
  then obtain c cs where "drop n payload = c # cs" by (cases "drop n payload") auto
  moreover have "length (take n payload) < length payload" using assms by simp
  then have "take n payload \<noteq> payload" by fastforce
  ultimately show ?thesis using assms by (simp add: feed_stdin_def)
qed

theorem stdin_cut_at_full_pipe_witness:
  "feed_stdin (minimal_settings\<lparr>s_stdin := Some (Bytes [1, 2, 3])\<rparr>) [Wrote 2, WAgain, Wrote 1] = [1, 2]"
  using stdin_cut_at_full_pipe [of 2 "[1, 2, 3]" minimal_settings "[Wrote 1]"] by simp

text \<open>
  One request can end the engine for every tenant: a NUL byte in the value of any environment
  variable of the resolved spec (a user variable, a secret) reaches \<^verbatim>\<open>CString::new(..).expect(..)\<close> in
  the launcher, and the engine aborts.
\<close>

theorem nul_in_environment_aborts_engine:
  assumes "ep_launcher e = Some la" "resolve tk s work_root (ep_world e) = Returns (Inr r, w)"
    and "(k, v) \<in> set (c_env (rs_spec r))" "CHR 0x00 \<in> set v"
    and "take_cgroup (hk_cgroups hk) (c_limits (rs_spec r)) (la_pool la) (ep_fs e) = (Inr cg, pool, fs)"
    and "hk_pipes_ok hk" "seccomp_compile (hk_to_bpf hk) (hk_arch hk) (c_seccomp_profile (rs_spec r)) (la_seccomp la) = (Inr bpf, cache)"
  shows "exec_run tk hk io work_root s e = Panic"
proof -
  have "list_ex (\<lambda>kv. has_nul (env_string kv)) (c_env (rs_spec r))"
    using assms(3,4) by (auto simp: list_ex_iff has_nul_def env_string_def intro!: bexI [of _ "(k, v)"])
  then have "launch hk (rs_spec r) la (ep_fs e) = Panic"
    using assms(5-7) by (simp add: launch_def Let_def launch_in_def)
  with assms(1,2) show ?thesis by (simp add: exec_run_def)
qed

text \<open>A host where everything works, for the witnesses.\<close>

definition demo_engine :: engine_part where
  "demo_engine = \<lparr>ep_world = demo_world\<lparr>w_resolved := (\<lambda>_. Some \<lparr>rs_spec = demo_spec, rs_work_dir = ''/w/00''\<rparr>)\<rparr>,
     ep_launcher = Some demo_launcher, ep_fs = Map.empty\<rparr>"

definition demo_io :: exec_io where
  "demo_io = \<lparr>xi_null_ok = True, xi_timer_ok = (True, True), xi_wakes = demo_wakes, xi_peak = None,
     xi_elapsed_ms = 5, xi_data = False\<rparr>"

definition demo_request :: settings where
  "demo_request = minimal_settings\<lparr>s_limits := minimal_limits\<lparr>l_output_bytes := 3\<rparr>\<rparr>"

lemma demo_hit_opts:
  "\<exists>w. resolve_opts demo_tools (demo_request\<lparr>s_output := out\<rparr>) ''/w'' mat (ep_world demo_engine) =
     Returns (Inr \<lparr>rs_spec = demo_spec\<lparr>c_request_id := ''req_test'', c_wall_timeout_ms := 5000\<rparr>, rs_work_dir = ''/w/00''\<rparr>, w)"
proof -
  let ?s = "demo_request\<lparr>s_output := out\<rparr>"
  have v: "validate ?s = Inr ()"
    by (simp add: demo_request_def validate_def minimal_settings_def minimal_limits_def SCHEMA_VERSION_def)
  have l: "runtime_lookup (tl_from_json demo_tools) (tl_env demo_tools) (runtime_name_of ?s) (w_registry (ep_world demo_engine))
      = Returns (Some (entry_flags ''python-base'' Python ''/etc/sandbox/flakes/python-base.lock'' ''python3''
          [Concurrency] py_env [''-S'']), Map.empty)"
    by (simp add: runtime_lookup_def runtime_name_of_def demo_request_def minimal_settings_def python_base
        demo_engine_def demo_world_def)
  show ?thesis
    by (subst resolve_opts_reaches [OF v l])
      (simp_all add: Let_def demo_engine_def demo_world_def patch_hit_def demo_request_def minimal_settings_def
        minimal_limits_def entry_flags_def)
qed

lemma demo_hit:
  "\<exists>w. resolve demo_tools demo_request ''/w'' (ep_world demo_engine) =
     Returns (Inr \<lparr>rs_spec = demo_spec\<lparr>c_request_id := ''req_test'', c_wall_timeout_ms := 5000\<rparr>, rs_work_dir = ''/w/00''\<rparr>, w)"
  using demo_hit_opts [of "s_output demo_request"] unfolding resolve_def by simp

lemma demo_exec:
  "\<exists>resp sent e'. exec_run demo_tools (demo_machine (\<lambda>_. Inr 42)) demo_io ''/w'' demo_request demo_engine =
     Returns (Replies resp sent, e')"
proof -
  let ?spec = "demo_spec\<lparr>c_request_id := ''req_test'', c_wall_timeout_ms := 5000\<rparr>"
  obtain w where res: "resolve demo_tools demo_request ''/w'' (ep_world demo_engine) = Returns (Inr \<lparr>rs_spec = ?spec, rs_work_dir = ''/w/00''\<rparr>, w)"
    using demo_hit by blast
  have plan: "plan_build (c_mounts ?spec) = Inr demo_plan" using demo_plan_build by simp
  have "c_limits ?spec = c_limits demo_spec" by (simp add: demo_spec_def)
  then obtain cg pool fs where t: "take_cgroup all_ok (c_limits ?spec) (la_pool demo_launcher) Map.empty = (Inr cg, pool, fs)"
    using first_take [of "c_limits demo_spec"] by (auto simp: demo_launcher_def pool_init_def)
  have cl: "clone_into_cgroup (\<lambda>_. Inr 42) None cg full_isolation = Inr (42, True)"
    by (simp add: clone_into_cgroup_def with_netns_def)
  obtain h la acts where l: "launch (demo_machine (\<lambda>_. Inr 42)) ?spec demo_launcher Map.empty = Returns (Inr h, la, fs, acts)"
      "h_wall_ms h = 5000"
    using t plan cl
    by (auto simp: launch_def launch_in_def demo_machine_def Let_def seccomp_compile_def demo_launcher_def
        demo_spec_def has_nul_def env_string_def split: sum.splits)
  have out: "drainer_run (l_output_bytes (s_limits demo_request)) True demo_wakes drain_init =
      (Some (Inr (ExitNormal 0 2 0)), \<lparr>d_sent = 3, d_chunks = [(Stdout, [72, 105]), (Stderr, [33])]\<rparr>)"
    using demo_run by (simp add: demo_request_def)
  have ok: "ce_write_ok all_ok p f" for p f by (simp add: all_ok_def)
  have "\<exists>resp sent p f. exec_drain all_ok demo_io demo_request h (la_pool la) fs = (Replies resp sent, p, f)"
    using out l(2)
    by (cases "release_cgroup all_ok (h_cgroup h) (la_pool la) fs")
      (simp add: exec_drain_def demo_io_def make_timerfd_def Let_def ok after_drain_def)
  then show ?thesis
    using res l by (auto simp: exec_run_def demo_engine_def demo_machine_def)
qed

theorem exec_answers_its_request_witness:
  "\<exists>res sent e'. exec_run demo_tools (demo_machine (\<lambda>_. Inr 42)) demo_io ''/w'' demo_request demo_engine =
     Returns (Replies (Result res) sent, e') \<and> r_request_id res = ''req_test''"
proof -
  obtain resp sent e' where run: "exec_run demo_tools (demo_machine (\<lambda>_. Inr 42)) demo_io ''/w'' demo_request demo_engine =
      Returns (Replies resp sent, e')" using demo_exec by blast
  have "ep_launcher demo_engine = Some demo_launcher" by (simp add: demo_engine_def)
  from exec_answers_its_request [OF run this] run show ?thesis
    by (auto simp: demo_request_def minimal_settings_def)
qed


theorem nul_in_environment_aborts_engine_witness:
  "exec_run demo_tools (demo_machine (\<lambda>_. Inr 42)) demo_io ''/w'' (demo_secret [CHR 0x00])
     \<lparr>ep_world = demo_world, ep_launcher = Some demo_launcher, ep_fs = Map.empty\<rparr> = Panic"
proof -
  let ?s = "demo_secret [CHR 0x00]"
  obtain r w where r: "resolve demo_tools ?s ''/w'' demo_world = Returns (Inr r, w)"
    using demo_resolve [OF demo_secret_def] by blast
  obtain e1 reg where e1: "validate ?s = Inr ()"
      "runtime_lookup (tl_from_json demo_tools) (tl_env demo_tools) (runtime_name_of ?s) (w_registry demo_world) = Returns (Some e1, reg)"
      "re_language e1 = s_language ?s"
    using r unfolding resolve_def by (rule resolve_opts_ok_reaches)
  have "\<exists>dig key w0. resolve_fresh demo_tools ?s ''/w'' True e1 dig key w0 = (Inr r, w)"
    using r resolve_opts_reaches [OF e1, of "''/w''" True] by (auto simp: resolve_def Let_def demo_world_def)
  then obtain argv fd where spec: "rs_spec r = make_spec demo_tools ?s e1 (rs_work_dir r) argv fd"
    using resolve_fresh_spec by blast
  have "settings_wf ?s" by (simp add: settings_wf_def demo_secret_def minimal_settings_def bt_invar_def)
  from env_facts [OF this, of "re_baseline_env e1" "''API_KEY''"]
  have "bt_get (c_env (rs_spec r)) ''API_KEY'' = Some [CHR 0x00]"
    by (simp add: spec make_spec_def seed_value_def demo_secret_def minimal_settings_def bt_get_def)
  then have env: "(''API_KEY'', [CHR 0x00]) \<in> set (c_env (rs_spec r))" by (rule bt_get_mem)
  obtain cg pool fs where t: "take_cgroup all_ok (c_limits (rs_spec r)) (la_pool demo_launcher) Map.empty = (Inr cg, pool, fs)"
    using first_take [of "c_limits (rs_spec r)"] by (auto simp: demo_launcher_def pool_init_def)
  show ?thesis
    by (rule nul_in_environment_aborts_engine [where r = r and la = demo_launcher and w = w, OF _ _ env])
      (use r t in \<open>simp_all add: demo_machine_def demo_launcher_def seccomp_compile_def\<close>)
qed

end
