(* ===== verification/RB_Tick.thy ===== *)
theory RB_Tick
  imports RB_Settings
begin

text \<open>
  The tick frames of the RL worker protocol (\<^verbatim>\<open>engine/src/modes/rl.rs\<close>): the engine's parser
  (\<^verbatim>\<open>parse_tick_frame\<close>, \<^verbatim>\<open>parse_tick_binary\<close>) and the worker's encoder (\<^verbatim>\<open>_pack_tick\<close> of the embedded
  Python shim). The JSON decoder of the legacy frames is an argument.
\<close>

record tick =
  k_reward :: f64
  k_done :: bool
  k_terminated :: bool
  k_truncated :: bool
  k_info :: "smap option"
  k_error :: "string option"
  k_obs_meta :: "smap option"
  k_obs :: "byte list option"

definition TICK_MAGIC :: "byte list" where
  "TICK_MAGIC = as_bytes ''RB1T''"

section \<open>The parser\<close>

text \<open>
  Reads at an offset of the frame. (Offsets and 32-bit lengths cannot overflow a 64-bit \<^verbatim>\<open>usize\<close>.)
\<close>

definition take_at :: "byte list \<Rightarrow> nat \<Rightarrow> nat \<Rightarrow> string + byte list \<times> nat" where
  "take_at frame off n =
     (if off + n \<le> length frame then Inr (take n (drop off frame), off + n)
      else Inl ''truncated tick frame'')"

definition u32le_at :: "byte list \<Rightarrow> nat \<Rightarrow> string + nat \<times> nat" where
  "u32le_at frame off = and_then (take_at frame off 4) (\<lambda>(bs, off1). Inr (unat (u32_of_le bs), off1))"

definition str_at :: "string \<Rightarrow> byte list \<Rightarrow> nat \<Rightarrow> string + string \<times> nat" where
  "str_at what frame off =
     and_then (u32le_at frame off) (\<lambda>(n, off1).
     and_then (take_at frame off1 n) (\<lambda>(bs, off2).
       case from_utf8 bs of Some s \<Rightarrow> Inr (s, off2) | None \<Rightarrow> Inl (what @ '' not utf-8'')))"

fun info_at :: "nat \<Rightarrow> byte list \<Rightarrow> nat \<Rightarrow> smap \<Rightarrow> string + smap \<times> nat" where
  "info_at 0 frame off info = Inr (info, off)"
| "info_at (Suc n) frame off info =
     and_then (str_at ''tick info key'' frame off) (\<lambda>(k, off1).
     and_then (str_at ''tick info value'' frame off1) (\<lambda>(v, off2).
       info_at n frame off2 (bt_insert k v info)))"

definition parse_tick_binary :: "byte list \<Rightarrow> string + tick \<times> nat" where
  "parse_tick_binary frame =
     and_then (take_at frame 0 8) (\<lambda>(rb, off1).
     and_then (take_at frame off1 1) (\<lambda>(fb, off2).
     let flags = hd fb in
     and_then (if flags AND 8 \<noteq> 0
               then map_sum id (\<lambda>(s, off). (Some s, off)) (str_at ''tick error'' frame off2)
               else Inr (None, off2)) (\<lambda>(error, off3).
     and_then (u32le_at frame off3) (\<lambda>(count, off4).
     and_then (info_at count frame off4 []) (\<lambda>(info, off5).
       Inr (\<lparr>k_reward = u64_of_le rb, k_done = (flags AND 1 \<noteq> 0), k_terminated = (flags AND 2 \<noteq> 0),
             k_truncated = (flags AND 4 \<noteq> 0), k_info = (if info = [] then None else Some info),
             k_error = error, k_obs_meta = None, k_obs = None\<rparr>, off5))))))"

definition parse_tick_frame :: "(byte list \<Rightarrow> string + tick) \<Rightarrow> byte list \<Rightarrow> string + tick \<times> nat" where
  "parse_tick_frame json frame =
     (if length TICK_MAGIC \<le> length frame \<and> take (length TICK_MAGIC) frame = TICK_MAGIC
      then and_then (parse_tick_binary (drop (length TICK_MAGIC) frame))
             (\<lambda>(t, used). Inr (t, length TICK_MAGIC + used))
      else if 0 \<in> set frame
      then (let i = length (takeWhile (\<lambda>b. b \<noteq> 0) frame) in
            case json (take i frame) of
              Inr t \<Rightarrow> Inr (t, i + 1)
            | Inl e \<Rightarrow> Inl (''bad tick json: '' @ e))
      else (case json frame of
              Inr t \<Rightarrow> Inr (t, length frame)
            | Inl e \<Rightarrow> Inl (''bad tick json: '' @ e)))"

text \<open>\<^verbatim>\<open>Tick::split_obs_meta\<close>; the JSON reader of the metadata is an argument.\<close>

definition split_obs_meta :: "(string \<Rightarrow> smap option) \<Rightarrow> smap \<Rightarrow> smap \<times> smap option" where
  "split_obs_meta parse_obs_meta info =
     (case bt_get info ''_obs_meta'' of
        Some raw \<Rightarrow> (bt_remove ''_obs_meta'' info, parse_obs_meta raw)
      | None \<Rightarrow> (info, None))"

section \<open>The encoder of the shim\<close>

definition TICK_ERR_MAX :: nat where "TICK_ERR_MAX = 4096"

definition pack_u32 :: "nat \<Rightarrow> byte list" where "pack_u32 n = u32_le (word_of_nat n)"

definition pack_str :: "string \<Rightarrow> byte list" where
  "pack_str s = pack_u32 (length s) @ as_bytes s"

definition pack_flags :: "bool \<Rightarrow> bool \<Rightarrow> bool \<Rightarrow> bool \<Rightarrow> byte" where
  "pack_flags fin terminated truncated has_error =
     (if fin then 1 else 0) OR (if terminated then 2 else 0) OR (if truncated then 4 else 0) OR
     (if has_error then 8 else 0)"

definition pack_tick :: "f64 \<Rightarrow> bool \<Rightarrow> bool \<Rightarrow> bool \<Rightarrow> (string \<times> string) list \<Rightarrow> string option \<Rightarrow> byte list" where
  "pack_tick reward fin terminated truncated items error =
     TICK_MAGIC @ u64_le reward @ [pack_flags fin terminated truncated (error \<noteq> None)] @
     (case error of None \<Rightarrow> [] | Some e \<Rightarrow> pack_str (take TICK_ERR_MAX e)) @
     pack_u32 (length items) @ concat (map (\<lambda>(k, v). pack_str k @ pack_str v) items)"

section \<open>Round trip\<close>

definition utf8_str :: "string \<Rightarrow> bool" where
  "utf8_str s \<longleftrightarrow> utf8_valid (as_bytes s) \<and> length s < 2 ^ 32"

lemma take_at_frame: "take_at (pre @ x @ rest) (length pre) (length x) = Inr (x, length pre + length x)"
  by (simp add: take_at_def)

lemma u32le_at_frame:
  assumes "n < 2 ^ 32"
  shows "u32le_at (pre @ pack_u32 n @ rest) (length pre) = Inr (n, length pre + 4)"
  using take_at_frame [of pre "pack_u32 n" rest] assms
  by (simp add: u32le_at_def pack_u32_def unat_of_nat)

lemma str_at_frame:
  assumes "utf8_str s"
  shows "str_at what (pre @ pack_str s @ rest) (length pre) = Inr (s, length pre + length (pack_str s))"
proof -
  have "u32le_at (pre @ pack_u32 (length s) @ as_bytes s @ rest) (length pre) = Inr (length s, length pre + 4)"
    using assms by (intro u32le_at_frame) (simp add: utf8_str_def)
  moreover have "take_at ((pre @ pack_u32 (length s)) @ as_bytes s @ rest) (length (pre @ pack_u32 (length s))) (length (as_bytes s)) =
      Inr (as_bytes s, length (pre @ pack_u32 (length s)) + length (as_bytes s))"
    by (rule take_at_frame)
  ultimately show ?thesis
    using assms by (simp add: str_at_def pack_str_def pack_u32_def from_utf8_def utf8_str_def)
qed

lemma str_at_bad:
  assumes "\<not> utf8_valid (as_bytes s)" "length s < 2 ^ 32"
  shows "str_at what (pre @ pack_str s @ rest) (length pre) = Inl (what @ '' not utf-8'')"
proof -
  have "u32le_at (pre @ pack_u32 (length s) @ as_bytes s @ rest) (length pre) = Inr (length s, length pre + 4)"
    using assms(2) by (rule u32le_at_frame)
  moreover have "take_at ((pre @ pack_u32 (length s)) @ as_bytes s @ rest) (length (pre @ pack_u32 (length s))) (length (as_bytes s)) =
      Inr (as_bytes s, length (pre @ pack_u32 (length s)) + length (as_bytes s))"
    by (rule take_at_frame)
  ultimately show ?thesis
    using assms(1) by (simp add: str_at_def pack_str_def pack_u32_def from_utf8_def)
qed

lemma info_at_frame:
  assumes "\<forall>(k, v)\<in>set items. utf8_str k \<and> utf8_str v"
  shows "info_at (length items) (pre @ concat (map (\<lambda>(k, v). pack_str k @ pack_str v) items) @ rest) (length pre) m =
    Inr (fold (\<lambda>(k, v). bt_insert k v) items m,
         length pre + length (concat (map (\<lambda>(k, v). pack_str k @ pack_str v) items)))"
  using assms
proof (induction items arbitrary: pre m)
  case (Cons kv items)
  obtain k v where kv: "kv = (k, v)" by (cases kv)
  let ?tail = "concat (map (\<lambda>(k, v). pack_str k @ pack_str v) items)"
  from Cons.prems kv have ok: "utf8_str k" "utf8_str v" "\<forall>(k, v)\<in>set items. utf8_str k \<and> utf8_str v" by auto
  have a: "str_at ''tick info key'' (pre @ pack_str k @ pack_str v @ ?tail @ rest) (length pre) =
      Inr (k, length pre + length (pack_str k))" by (rule str_at_frame [OF ok(1)])
  have b: "str_at ''tick info value'' (pre @ pack_str k @ pack_str v @ ?tail @ rest) (length pre + length (pack_str k)) =
      Inr (v, length pre + length (pack_str k) + length (pack_str v))"
    using str_at_frame [OF ok(2), of "''tick info value''" "pre @ pack_str k" "?tail @ rest"] by simp
  have c: "info_at (length items) (pre @ pack_str k @ pack_str v @ ?tail @ rest)
        (length pre + length (pack_str k) + length (pack_str v)) (bt_insert k v m) =
      Inr (fold (\<lambda>(k, v). bt_insert k v) items (bt_insert k v m),
        length pre + length (pack_str k) + length (pack_str v) + length ?tail)"
    using Cons.IH [OF ok(3), of "pre @ pack_str k @ pack_str v" "bt_insert k v m"]
    by (simp only: append_assoc length_append add.assoc)
  from a b c show ?case by (simp add: kv)
qed simp

lemma pack_flags_bits:
  "pack_flags d t r e AND 1 \<noteq> 0 \<longleftrightarrow> d" "pack_flags d t r e AND 2 \<noteq> 0 \<longleftrightarrow> t"
  "pack_flags d t r e AND 4 \<noteq> 0 \<longleftrightarrow> r" "pack_flags d t r e AND 8 \<noteq> 0 \<longleftrightarrow> e"
  by (cases d; cases t; cases r; cases e; simp add: pack_flags_def)+

lemma parse_packed_tick:
  assumes "list_all (\<lambda>(k, v). utf8_str k \<and> utf8_str v) items" "length items < 2 ^ 32"
    and "pred_option (\<lambda>e. utf8_str e \<and> length e \<le> TICK_ERR_MAX) error"
  shows "parse_tick_frame json (pack_tick reward fin terminated truncated items error @ obs) =
    Inr (\<lparr>k_reward = reward, k_done = fin, k_terminated = terminated, k_truncated = truncated,
          k_info = (if items = [] then None else Some (fold (\<lambda>(k, v). bt_insert k v) items [])),
          k_error = error, k_obs_meta = None, k_obs = None\<rparr>,
         length (pack_tick reward fin terminated truncated items error))"
proof -
  define flags where "flags = pack_flags fin terminated truncated (error \<noteq> None)"
  define err where "err = (case error of None \<Rightarrow> [] | Some e \<Rightarrow> pack_str (take TICK_ERR_MAX e))"
  define entries where "entries = concat (map (\<lambda>(k, v). pack_str k @ pack_str v) items)"
  define body where "body = u64_le reward @ [flags] @ err @ pack_u32 (length items) @ entries @ obs"
  let ?pre = "u64_le reward @ [flags]"
  have a: "take_at body 0 8 = Inr (u64_le reward, 8)"
    using take_at_frame [of "[]" "u64_le reward" "[flags] @ err @ pack_u32 (length items) @ entries @ obs"]
    by (simp add: body_def)
  have b: "take_at body 8 1 = Inr ([flags], 9)"
    using take_at_frame [of "u64_le reward" "[flags]" "err @ pack_u32 (length items) @ entries @ obs"]
    by (simp add: body_def)
  have c: "(if flags AND 8 \<noteq> 0 then map_sum id (\<lambda>(s, off). (Some s, off)) (str_at ''tick error'' body 9) else Inr (None, 9)) =
      (Inr (error, 9 + length err) :: string + string option \<times> nat)"
  proof (cases error)
    case None
    then show ?thesis by (simp add: flags_def pack_flags_bits err_def)
  next
    case (Some e)
    with assms(3) have "str_at ''tick error'' (?pre @ pack_str e @ pack_u32 (length items) @ entries @ obs) (length ?pre) =
        Inr (e, length ?pre + length (pack_str e))"
      by (intro str_at_frame) simp
    with Some assms(3) show ?thesis by (simp add: flags_def pack_flags_bits err_def body_def)
  qed
  have d: "u32le_at body (9 + length err) = Inr (length items, 9 + length err + 4)"
    using u32le_at_frame [OF assms(2), of "?pre @ err" "entries @ obs"] by (simp add: body_def)
  have e: "info_at (length items) body (9 + length err + 4) [] =
      Inr (fold (\<lambda>(k, v). bt_insert k v) items [], 9 + length err + 4 + length entries)"
    using info_at_frame [of items "?pre @ err @ pack_u32 (length items)" obs "[]"] assms(1)
    by (simp add: body_def entries_def list_all_iff pack_u32_def)
  have ne: "fold (\<lambda>(k, v). bt_insert k v) items [] = [] \<longleftrightarrow> items = []"
  proof -
    have "fold (\<lambda>(k, v). bt_insert k v) xs m \<noteq> []" if "m \<noteq> []" for xs :: "(string \<times> string) list" and m
      using that
    proof (induction xs arbitrary: m)
      case (Cons x xs)
      have "bt_insert (fst x) (snd x) m \<noteq> []" by (cases m) (auto split: if_splits)
      from Cons.IH [OF this] show ?case by (simp add: case_prod_unfold)
    qed simp
    then show ?thesis by (cases items) (auto simp: case_prod_unfold)
  qed
  have "parse_tick_binary body = Inr (\<lparr>k_reward = reward, k_done = fin, k_terminated = terminated, k_truncated = truncated,
      k_info = (if items = [] then None else Some (fold (\<lambda>(k, v). bt_insert k v) items [])),
      k_error = error, k_obs_meta = None, k_obs = None\<rparr>, 9 + length err + 4 + length entries)"
    unfolding parse_tick_binary_def a and_then_simps prod.case b Let_def list.sel c d e ne
    by (simp add: flags_def pack_flags_bits)
  moreover have "pack_tick reward fin terminated truncated items error @ obs = TICK_MAGIC @ body"
      "length (pack_tick reward fin terminated truncated items error) = length TICK_MAGIC + (9 + length err + 4 + length entries)"
    by (simp_all add: pack_tick_def body_def flags_def err_def entries_def pack_u32_def)
  ultimately show ?thesis by (simp add: parse_tick_frame_def)
qed

text \<open>
  C19. What the worker packs the engine reads back: for any reward bits, flags, info dictionary and
  error message within the cap, the parsed tick has exactly these fields (the dictionary as an
  ordered map, an empty one as absent) and the observation starts where the header ends.
\<close>

theorem tick_round_trip:
  assumes "list_all (\<lambda>(k, v). utf8_str k \<and> utf8_str v) items" "length items < 2 ^ 32"
    and "pred_option (\<lambda>e. utf8_str e \<and> length e \<le> TICK_ERR_MAX) error"
  shows "parse_tick_frame json (pack_tick reward fin terminated truncated items error @ obs) =
    Inr (\<lparr>k_reward = reward, k_done = fin, k_terminated = terminated, k_truncated = truncated,
          k_info = (if items = [] then None else Some (fold (\<lambda>(k, v). bt_insert k v) items [])),
          k_error = error, k_obs_meta = None, k_obs = None\<rparr>,
         length (pack_tick reward fin terminated truncated items error))"
  using assms by (rule parse_packed_tick)

theorem tick_round_trip_witness:
  "parse_tick_frame (\<lambda>_. Inl ''e'') (pack_tick 0 True True False [(''a'', ''b'')] (Some ''x'') @ [7]) =
     Inr (\<lparr>k_reward = 0, k_done = True, k_terminated = True, k_truncated = False, k_info = Some [(''a'', ''b'')],
           k_error = Some ''x'', k_obs_meta = None, k_obs = None\<rparr>,
          length (pack_tick 0 True True False [(''a'', ''b'')] (Some ''x'')))"
proof -
  have u: "utf8_str ''a''" "utf8_str ''b''" "utf8_str ''x''"
    by (simp_all add: utf8_str_def utf8_valid_ascii as_bytes_def unat_byte)
  show ?thesis by (subst tick_round_trip) (use u in \<open>simp_all add: TICK_ERR_MAX_def\<close>)
qed

section \<open>Long errors\<close>

lemma utf8_valid_ascii_append:
  "(\<forall>b\<in>set bs. unat b < 128) \<Longrightarrow> utf8_valid (bs @ cs) = utf8_valid cs"
proof (induction bs)
  case (Cons b bs)
  then have "utf8_next ((b # bs) @ cs) = (True, 1)" by (simp add: utf8_next_def Let_def)
  with Cons show ?case by (simp add: utf8_valid.simps [of "b # bs @ cs"])
qed simp

text \<open>
  The shim cuts an error message at 4096 bytes, wherever that falls; the engine requires UTF-8.
  A message whose 4096th byte is the first byte of a two-byte character (here after 4095 ASCII
  characters) makes the frame unreadable, and the engine then treats the worker as dead.
\<close>

theorem long_error_kills_worker:
  assumes "length msg = 4095" "\<forall>c\<in>set msg. (of_char c :: nat) < 128"
  shows "parse_tick_frame json (pack_tick 0 True True False [] (Some (msg @ [CHR 0xC3, CHR 0xA9])) @ obs) =
    Inl ''tick error not utf-8''"
proof -
  let ?cut = "msg @ [CHR 0xC3]"
  define rest where "rest = pack_u32 0 @ obs"
  let ?pre = "u64_le 0 @ [pack_flags True True False True]"
  have cut: "take TICK_ERR_MAX (msg @ [CHR 0xC3, CHR 0xA9]) = ?cut"
    using assms(1) by (simp add: TICK_ERR_MAX_def)
  have "as_bytes [CHR 0xC3] = [195]" by (simp add: as_bytes_def)
  moreover have "\<not> utf8_valid [195]" by (simp add: utf8_valid.simps utf8_next_def cont_byte_def)
  moreover have "\<forall>b\<in>set (as_bytes msg). unat b < 128" using assms(2) by (auto simp: as_bytes_def unat_byte)
  ultimately have bad: "\<not> utf8_valid (as_bytes ?cut)" using utf8_valid_ascii_append by simp
  define body where "body = ?pre @ pack_str ?cut @ rest"
  have a: "take_at body 0 8 = Inr (u64_le 0, 8)"
    using take_at_frame [of "[]" "u64_le 0" "[pack_flags True True False True] @ pack_str ?cut @ rest"] by (simp add: body_def)
  have b: "take_at body 8 1 = Inr ([pack_flags True True False True], 9)"
    using take_at_frame [of "u64_le 0" "[pack_flags True True False True]" "pack_str ?cut @ rest"] by (simp add: body_def)
  have c: "str_at ''tick error'' body 9 = Inl ''tick error not utf-8''"
    using str_at_bad [OF bad, of "''tick error''" ?pre rest] assms(1) by (simp add: body_def)
  have "parse_tick_binary body = Inl ''tick error not utf-8''"
    unfolding parse_tick_binary_def a and_then_simps prod.case b Let_def list.sel
    by (simp add: pack_flags_bits c)
  moreover have "pack_tick 0 True True False [] (Some (msg @ [CHR 0xC3, CHR 0xA9])) @ obs = TICK_MAGIC @ body"
    by (simp add: pack_tick_def body_def rest_def cut [simplified])
  ultimately show ?thesis by (simp add: parse_tick_frame_def)
qed

theorem long_error_kills_worker_witness:
  "parse_tick_frame (\<lambda>_. Inl ''e'') (pack_tick 0 True True False [] (Some (replicate 4095 (CHR ''a'') @ [CHR 0xC3, CHR 0xA9])) @ []) =
     Inl ''tick error not utf-8''"
  by (rule long_error_kills_worker) simp_all

end
