(* ===== verification/RB_Pipe.thy ===== *)
theory RB_Pipe
  imports RB_Tick
begin

text \<open>
  The engine's side of the RL worker pipes (\<^verbatim>\<open>engine/src/modes/rl.rs\<close>): writes and reads under a
  deadline, one framed exchange and one batched exchange. What the kernel answers is an argument: a
  list of turns, one per iteration of a loop. After the last turn the deadline has passed.
\<close>

section \<open>Waiting for a descriptor\<close>

datatype poll_rc = PollInterrupted | PollFailed | PollNone | PollInvalid | PollReady

text \<open>
  \<^verbatim>\<open>poll_fd\<close>: an interrupted call is restarted. \<open>Inl ()\<close> is an unusable descriptor; the end of the list
  is a call that times out.
\<close>

fun poll_fd :: "poll_rc list \<Rightarrow> unit + bool" where
  "poll_fd [] = Inr False"
| "poll_fd (PollInterrupted # rcs) = poll_fd rcs"
| "poll_fd (PollFailed # rcs) = Inl ()"
| "poll_fd (PollNone # rcs) = Inr False"
| "poll_fd (PollInvalid # rcs) = Inl ()"
| "poll_fd (PollReady # rcs) = Inr True"

datatype pipe_fail = PipeTimedOut | PipeClosed

datatype io_rc = IoBytes nat | IoAgain | IoFailed

record turn =
  tn_now_ns :: nat                        \<comment> \<open>since the exchange began\<close>
  tn_poll :: "nat \<Rightarrow> poll_rc list"        \<comment> \<open>by timeout in ms\<close>
  tn_io :: io_rc

definition deadline_ns :: "u64 \<Rightarrow> nat" where
  "deadline_ns wall_ms = unat (max wall_ms 1) * 1000000"

text \<open>The head of the three loops: the deadline, then \<^verbatim>\<open>poll\<close> with the time left.\<close>

definition await_turn :: "nat \<Rightarrow> turn \<Rightarrow> pipe_fail option" where
  "await_turn deadline t =
     (let remain = deadline - tn_now_ns t in
      if remain = 0 then Some PipeTimedOut
      else case poll_fd (tn_poll t (min (remain div 1000000) (2 ^ 31 - 1))) of
        Inr True \<Rightarrow> None
      | Inr False \<Rightarrow> Some PipeTimedOut
      | Inl _ \<Rightarrow> Some PipeClosed)"

section \<open>Writing\<close>

text \<open>The result, the bytes that reached the pipe and the turns left.\<close>

fun write_all_poll :: "nat \<Rightarrow> byte list \<Rightarrow> turn list \<Rightarrow> (pipe_fail + unit) \<times> byte list \<times> turn list" where
  "write_all_poll deadline [] ts = (Inr (), [], ts)"
| "write_all_poll deadline data [] = (Inl PipeTimedOut, [], [])"
| "write_all_poll deadline data (t # ts) =
     (case await_turn deadline t of
        Some fail \<Rightarrow> (Inl fail, [], ts)
      | None \<Rightarrow>
          (case tn_io t of
             IoFailed \<Rightarrow> (Inl PipeClosed, [], ts)
           | IoAgain \<Rightarrow> write_all_poll deadline data ts
           | IoBytes n \<Rightarrow>
               (case write_all_poll deadline (drop n data) ts of
                  (r, sent, ts') \<Rightarrow> (r, take n data @ sent, ts'))))"

text \<open>
  \<^verbatim>\<open>writev_all_poll\<close> keeps an offset into the header and one into the action. Its three calls
  (\<^verbatim>\<open>write\<close> of the action, of the header, \<^verbatim>\<open>writev\<close> of both) take bytes from what is left of the two.
\<close>

definition writev_bytes :: "byte list \<Rightarrow> byte list \<Rightarrow> nat \<Rightarrow> byte list" where
  "writev_bytes header_rem action_rem n =
     (if header_rem = [] then take n action_rem
      else if action_rem = [] then take n header_rem
      else take n (header_rem @ action_rem))"

fun writev_all_poll ::
    "nat \<Rightarrow> byte list \<Rightarrow> byte list \<Rightarrow> nat \<Rightarrow> nat \<Rightarrow> turn list \<Rightarrow> (pipe_fail + unit) \<times> byte list \<times> turn list" where
  "writev_all_poll deadline header action header_off action_off [] =
     (if header_off < length header \<or> action_off < length action then (Inl PipeTimedOut, [], []) else (Inr (), [], []))"
| "writev_all_poll deadline header action header_off action_off (t # ts) =
     (if header_off < length header \<or> action_off < length action
      then (case await_turn deadline t of
              Some fail \<Rightarrow> (Inl fail, [], ts)
            | None \<Rightarrow>
                (case tn_io t of
                   IoFailed \<Rightarrow> (Inl PipeClosed, [], ts)
                 | IoAgain \<Rightarrow> writev_all_poll deadline header action header_off action_off ts
                 | IoBytes n \<Rightarrow>
                     let bytes = writev_bytes (drop header_off header) (drop action_off action) n;
                         written = length bytes;
                         header_rem_len = length header - header_off;
                         offs = (if header_rem_len \<le> written
                                 then (length header, action_off + (written - header_rem_len))
                                 else (header_off + written, action_off))
                     in (case writev_all_poll deadline header action (fst offs) (snd offs) ts of
                           (r, sent, ts') \<Rightarrow> (r, bytes @ sent, ts'))))
      else (Inr (), [], t # ts))"

lemma writev_bytes_eq: "writev_bytes h a n = take n (h @ a)"
  by (simp add: writev_bytes_def)

lemma writev_from_offsets:
  assumes "ho \<le> length h" "ao \<le> length a" "ho < length h \<longrightarrow> ao = 0"
  shows "writev_all_poll d h a ho ao ts = write_all_poll d (drop ho h @ drop ao a) ts"
  using assms
proof (induction ts arbitrary: ho ao)
  case Nil
  show ?case
  proof (cases "ho < length h \<or> ao < length a")
    case True
    then obtain b bs where "drop ho h @ drop ao a = b # bs" by (cases "drop ho h @ drop ao a") auto
    with True show ?thesis by simp
  qed simp
next
  case (Cons t ts)
  show ?case
  proof (cases "ho < length h \<or> ao < length a")
    case True
    then obtain b bs where dd: "drop ho h @ drop ao a = b # bs" by (cases "drop ho h @ drop ao a") auto
    have again: "writev_all_poll d h a ho ao ts = write_all_poll d (b # bs) ts"
      using Cons.IH [OF Cons.prems] dd by simp
    have len: "length (b # bs) = (length h - ho) + (length a - ao)" using dd by (metis length_append length_drop)
    let ?offs = "\<lambda>n. if length h - ho \<le> length (take n (b # bs))
        then (length h, ao + (length (take n (b # bs)) - (length h - ho))) else (ho + length (take n (b # bs)), ao)"
    have some: "writev_all_poll d h a (fst (?offs n)) (snd (?offs n)) ts = write_all_poll d (drop n (b # bs)) ts" for n
    proof (cases "length h - ho \<le> length (take n (b # bs))")
      case True
      have "drop n (b # bs) = drop (ao + (length (take n (b # bs)) - (length h - ho))) a"
      proof (cases "n \<le> length (b # bs)")
        case True
        then have "length (take n (b # bs)) = n" by simp
        with \<open>length h - ho \<le> length (take n (b # bs))\<close> show ?thesis
          unfolding dd [symmetric] by (simp add: add.commute)
      qed (use len in simp)
      moreover have "ao + (length (take n (b # bs)) - (length h - ho)) \<le> length a"
        using Cons.prems len length_take [of n "b # bs"] by linarith
      ultimately show ?thesis
        using True Cons.IH [of "length h" "ao + (length (take n (b # bs)) - (length h - ho))"] by (simp del: length_take)
    next
      case False
      then have n: "length (take n (b # bs)) = n" "n < length h - ho"
        using len length_take [of n "b # bs"] by linarith+
      have "drop n (b # bs) = drop (ho + n) h @ drop ao a"
        using n(2) unfolding dd [symmetric] by (simp add: add.commute)
      then show ?thesis using False n Cons.prems Cons.IH [of "ho + n" ao] by simp
    qed
    show ?thesis
      unfolding writev_all_poll.simps writev_bytes_eq dd write_all_poll.simps Let_def some again
      using True by (simp split: option.splits)
  qed simp
qed

text \<open>
  C27. The vectored write of a step (4-byte header and action, no copy into one buffer) behaves like
  the plain write of their concatenation: under every sequence of short writes, full pipes, errors
  and timeouts it puts the same bytes on the pipe in the same order, ends with the same result and
  uses the same turns.
\<close>

theorem writev_is_write_all:
  "writev_all_poll deadline header action 0 0 ts = write_all_poll deadline (header @ action) ts"
  using writev_from_offsets [of 0 header 0 action] by simp

lemma write_all_poll_sent:
  "write_all_poll d data ts = (r, sent, ts') \<Longrightarrow>
    (\<exists>rest. data = sent @ rest) \<and> (r = Inr () \<longrightarrow> sent = data)"
proof (induction d data ts arbitrary: r sent ts' rule: write_all_poll.induct)
  case (3 d b bs t ts)
  show ?case
  proof (cases "await_turn d t")
    case None
    show ?thesis
    proof (cases "tn_io t")
      case (IoBytes n)
      obtain r0 s0 t0 where w: "write_all_poll d (drop n (b # bs)) ts = (r0, s0, t0)" by (metis prod_cases3)
      from "3.IH"(1) [OF None IoBytes w] obtain rest where
        i: "drop n (b # bs) = s0 @ rest" "r0 = Inr () \<longrightarrow> s0 = drop n (b # bs)" by blast
      have "r = r0" "sent = take n (b # bs) @ s0" using "3.prems" None IoBytes w by auto
      with i show ?thesis by (metis append.assoc append_take_drop_id)
    next
      case IoAgain
      then show ?thesis using "3.prems" None "3.IH"(2) [OF None IoAgain] by simp
    qed (use "3.prems" None in auto)
  qed (use "3.prems" in auto)
qed auto

section \<open>Reading\<close>

text \<open>
  \<^verbatim>\<open>read_exact_poll\<close> on the bytes that arrive on the protocol pipe: the result, what is left on the
  pipe and the turns left. A ready pipe without bytes is at its end.
\<close>

fun read_exact_poll :: "nat \<Rightarrow> nat \<Rightarrow> byte list \<Rightarrow> turn list \<Rightarrow> (pipe_fail + byte list) \<times> byte list \<times> turn list" where
  "read_exact_poll deadline 0 pipe ts = (Inr [], pipe, ts)"
| "read_exact_poll deadline (Suc n) pipe [] = (Inl PipeTimedOut, pipe, [])"
| "read_exact_poll deadline (Suc n) pipe (t # ts) =
     (case await_turn deadline t of
        Some fail \<Rightarrow> (Inl fail, pipe, ts)
      | None \<Rightarrow>
          (case tn_io t of
             IoFailed \<Rightarrow> (Inl PipeClosed, pipe, ts)
           | IoAgain \<Rightarrow> read_exact_poll deadline (Suc n) pipe ts
           | IoBytes k \<Rightarrow>
               let m = min k (min (Suc n) (length pipe)) in
               if m = 0 then (Inl PipeClosed, pipe, ts)
               else (case read_exact_poll deadline (Suc n - m) (drop m pipe) ts of
                       (r, pipe', ts') \<Rightarrow> (map_sum id ((@) (take m pipe)) r, pipe', ts'))))"

definition MAX_WORKER_FRAME :: nat where "MAX_WORKER_FRAME = 256 * 1024 * 1024"

definition read_frame_poll :: "nat \<Rightarrow> byte list \<Rightarrow> turn list \<Rightarrow> (pipe_fail + byte list) \<times> byte list \<times> turn list" where
  "read_frame_poll deadline pipe ts =
     (case read_exact_poll deadline 4 pipe ts of
        (Inl fail, pipe1, ts1) \<Rightarrow> (Inl fail, pipe1, ts1)
      | (Inr header, pipe1, ts1) \<Rightarrow>
          let total = unat (u32_of_be header) in
          if total > MAX_WORKER_FRAME then (Inl PipeClosed, pipe1, ts1)
          else read_exact_poll deadline total pipe1 ts1)"

lemma read_exact_poll_sound:
  "read_exact_poll d n pipe ts = (Inr bs, pipe', ts') \<Longrightarrow> pipe = bs @ pipe' \<and> length bs = n"
proof (induction d n pipe ts arbitrary: bs rule: read_exact_poll.induct)
  case (3 d n pipe t ts)
  show ?case
  proof (cases "await_turn d t")
    case None
    show ?thesis
    proof (cases "tn_io t")
      case (IoBytes k)
      define m where "m = min k (min (Suc n) (length pipe))"
      obtain r p1 t1 where w: "read_exact_poll d (Suc n - m) (drop m pipe) ts = (r, p1, t1)" by (metis prod_cases3)
      have m: "m \<noteq> 0" using "3.prems" None IoBytes by (auto simp: m_def Let_def split: if_splits)
      then obtain b1 where b1: "r = Inr b1" "bs = take m pipe @ b1" "p1 = pipe'" "t1 = ts'"
        using "3.prems" None IoBytes w by (cases r) (auto simp: m_def [symmetric] Let_def)
      with "3.IH"(1) [OF None IoBytes m_def m, of b1] w have "drop m pipe = b1 @ pipe'" "length b1 = Suc n - m" by auto
      moreover have "length (take m pipe) = m" "m \<le> Suc n" by (auto simp: m_def)
      ultimately show ?thesis using b1 by (metis append.assoc append_take_drop_id le_add_diff_inverse length_append)
    next
      case IoAgain
      then show ?thesis using "3.prems" None "3.IH"(2) [OF None IoAgain] by simp
    qed (use "3.prems" None in auto)
  qed (use "3.prems" in auto)
qed auto

lemma u32_be_of_be: "length bs = 4 \<Longrightarrow> u32_be (u32_of_be bs) = bs"
  using of_le_less [of "rev bs"] le_bytes_of_le [of "rev bs"]
  by (simp add: u32_be_def u32_of_be_def unat_of_nat)

text \<open>A turn in which the pipe is ready in time and moves at least one byte.\<close>

definition good_turn :: "nat \<Rightarrow> turn \<Rightarrow> bool" where
  "good_turn deadline t \<longleftrightarrow> await_turn deadline t = None \<and> (case tn_io t of IoBytes k \<Rightarrow> 0 < k | _ \<Rightarrow> False)"

lemma read_exact_poll_enough:
  assumes "list_all (good_turn d) ts" "n \<le> length pipe" "n \<le> length ts"
  shows "\<exists>ts'. read_exact_poll d n pipe ts = (Inr (take n pipe), drop n pipe, ts') \<and>
    list_all (good_turn d) ts' \<and> length ts \<le> n + length ts'"
  using assms
proof (induction d n pipe ts rule: read_exact_poll.induct)
  case (3 d n pipe t ts)
  from "3.prems"(1) obtain k where t: "await_turn d t = None" "tn_io t = IoBytes k" "0 < k"
    by (auto simp: good_turn_def split: io_rc.splits)
  define m where "m = min k (min (Suc n) (length pipe))"
  have m: "0 < m" "m \<le> Suc n" "m \<le> length pipe" using t(3) "3.prems"(2) by (auto simp: m_def)
  have "\<exists>ts'. read_exact_poll d (Suc n - m) (drop m pipe) ts =
      (Inr (take (Suc n - m) (drop m pipe)), drop (Suc n - m) (drop m pipe), ts') \<and>
      list_all (good_turn d) ts' \<and> length ts \<le> (Suc n - m) + length ts'"
    using m "3.prems" by (intro "3.IH"(1) [OF t(1,2) m_def]) auto
  then obtain ts' where r: "read_exact_poll d (Suc n - m) (drop m pipe) ts =
      (Inr (take (Suc n - m) (drop m pipe)), drop (Suc n - m) (drop m pipe), ts')"
      "list_all (good_turn d) ts'" "length ts \<le> (Suc n - m) + length ts'" by blast
  have "take m pipe @ take (Suc n - m) (drop m pipe) = take (Suc n) pipe"
    using m(2) by (metis le_add_diff_inverse take_add)
  moreover have "drop (Suc n - m) (drop m pipe) = drop (Suc n) pipe" using m(2) by simp
  ultimately have "read_exact_poll d (Suc n) pipe (t # ts) = (Inr (take (Suc n) pipe), drop (Suc n) pipe, ts')"
    using r(1) t m(1) by (simp add: m_def [symmetric] Let_def)
  with r m show ?case by (intro exI [of _ ts']) auto
qed auto

lemma read_frame_enough:
  assumes "list_all (good_turn deadline) ts" "4 + length body \<le> length ts" "length body \<le> MAX_WORKER_FRAME"
  shows "\<exists>ts'. read_frame_poll deadline (u32_be (word_of_nat (length body)) @ body @ rest) ts = (Inr body, rest, ts')"
proof -
  let ?hdr = "u32_be (word_of_nat (length body))"
  obtain ts1 where h: "read_exact_poll deadline 4 (?hdr @ body @ rest) ts = (Inr ?hdr, body @ rest, ts1)"
      "list_all (good_turn deadline) ts1" "length ts \<le> 4 + length ts1"
    using read_exact_poll_enough [OF assms(1), of 4 "?hdr @ body @ rest"] assms(2) by auto
  obtain ts2 where b: "read_exact_poll deadline (length body) (body @ rest) ts1 = (Inr body, rest, ts2)"
    using read_exact_poll_enough [OF h(2), of "length body" "body @ rest"] assms(2) h(3) by auto
  have "unat (word_of_nat (length body) :: u32) = length body"
    using assms(3) by (simp add: MAX_WORKER_FRAME_def unat_of_nat)
  with h(1) b assms(3) show ?thesis by (simp add: read_frame_poll_def Let_def)
qed

text \<open>
  Reading is independent of how the bytes arrive: a frame of at most 256 MiB that is on the pipe
  is returned whole, and nothing behind it is consumed, whenever every turn moves at least one byte
  before the deadline (so that as many turns as bytes are enough).
\<close>

theorem read_frame_any_chunking:
  assumes "list_all (good_turn deadline) ts" "4 + length body \<le> length ts" "length body \<le> MAX_WORKER_FRAME"
  shows "\<exists>ts'. read_frame_poll deadline (u32_be (word_of_nat (length body)) @ body @ rest) ts = (Inr body, rest, ts')"
  using assms by (rule read_frame_enough)

definition steady_turn :: turn where
  "steady_turn = \<lparr>tn_now_ns = 0, tn_poll = (\<lambda>_. [PollReady]), tn_io = IoBytes 3\<rparr>"

lemma steady_turn_good: "0 < d \<Longrightarrow> good_turn d steady_turn"
  by (simp add: good_turn_def steady_turn_def await_turn_def Let_def)

theorem read_frame_any_chunking_witness:
  "\<exists>ts'. read_frame_poll 1000000 (u32_be (word_of_nat (length [1 :: byte, 2])) @ [1, 2] @ [3]) (replicate 6 steady_turn) = (Inr [1, 2], [3], ts')"
  by (rule read_frame_any_chunking) (simp_all add: list_all_iff steady_turn_good MAX_WORKER_FRAME_def)

text \<open>
  Reading is sound: what is returned as a frame is exactly what stood at the front of the pipe
  behind its own length, never more than 256 MiB and never bytes of another frame.
\<close>

theorem read_frame_sound:
  assumes "read_frame_poll deadline pipe ts = (Inr body, pipe', ts')"
  shows "pipe = u32_be (word_of_nat (length body)) @ body @ pipe' \<and> length body \<le> MAX_WORKER_FRAME"
proof -
  obtain header p1 ts1 where h: "read_exact_poll deadline 4 pipe ts = (Inr header, p1, ts1)"
      "unat (u32_of_be header) \<le> MAX_WORKER_FRAME"
      "read_exact_poll deadline (unat (u32_of_be header)) p1 ts1 = (Inr body, pipe', ts')"
    using assms by (auto simp: read_frame_poll_def Let_def split: prod.splits sum.splits if_splits)
  from read_exact_poll_sound [OF h(1)] read_exact_poll_sound [OF h(3)]
  have p: "pipe = header @ p1" "length header = 4" "p1 = body @ pipe'" "length body = unat (u32_of_be header)" by auto
  have "u32_be (u32_of_be header) = header" using p(2) by (rule u32_be_of_be)
  with p h(2) show ?thesis by simp
qed

theorem read_frame_sound_witness:
  "[0, 0, 0, 1, 9, 7] = u32_be (word_of_nat (length [9 :: byte])) @ [9] @ [7 :: byte] \<and> length [9 :: byte] \<le> MAX_WORKER_FRAME"
proof -
  have b: "u32_be 1 = [0, 0, 0, 1]" by code_simp
  obtain ts' where "read_frame_poll 1000000 [0, 0, 0, 1, 9, 7] (replicate 5 steady_turn) = (Inr [9], [7], ts')"
    using read_frame_enough [of 1000000 "replicate 5 steady_turn" "[9]" "[7]"] b
    by (auto simp: list_all_iff steady_turn_good MAX_WORKER_FRAME_def)
  then show ?thesis by (rule read_frame_sound)
qed

section \<open>Exchanges\<close>

datatype step_outcome = Ticked tick | StepTimeout | Dead string

fun pipe_outcome :: "pipe_fail \<Rightarrow> string \<Rightarrow> step_outcome" where
  "pipe_outcome PipeTimedOut closed_msg = StepTimeout"
| "pipe_outcome PipeClosed closed_msg = Dead closed_msg"

text \<open>What the kernel and the worker do during one exchange.\<close>

record exchange_io =
  x_writes :: "turn list"
  x_reads :: "turn list"
  x_pipe :: "byte list"        \<comment> \<open>what arrives on the protocol pipe\<close>

definition SNAPSHOT_SENTINEL :: u32 where "SNAPSHOT_SENTINEL = 0xFFFFFFFF"

definition BATCH_SENTINEL :: u32 where "BATCH_SENTINEL = 0xFFFFFFFE"

definition tick_outcome :: "(byte list \<Rightarrow> string + tick) \<Rightarrow> byte list \<Rightarrow> step_outcome" where
  "tick_outcome json frame =
     (case parse_tick_frame json frame of
        Inr (tick, obs_start) \<Rightarrow> Ticked (tick\<lparr>k_obs := Some (drop obs_start frame)\<rparr>)
      | Inl e \<Rightarrow> Dead (''bad worker frame: '' @ e))"

text \<open>The outcome and the bytes written to the worker.\<close>

definition worker_exchange_hdr ::
    "(byte list \<Rightarrow> string + tick) \<Rightarrow> exchange_io \<Rightarrow> u32 \<Rightarrow> byte list \<Rightarrow> u64 \<Rightarrow> step_outcome \<times> byte list" where
  "worker_exchange_hdr json io header action wall_ms =
     (let deadline = deadline_ns wall_ms in
      case (if action = [] then write_all_poll deadline (u32_be header) (x_writes io)
            else writev_all_poll deadline (u32_be header) action 0 0 (x_writes io)) of
        (Inl fail, sent, _) \<Rightarrow> (pipe_outcome fail ''worker stdin closed'', sent)
      | (Inr _, sent, _) \<Rightarrow>
          (case read_frame_poll deadline (x_pipe io) (x_reads io) of
             (Inl fail, _) \<Rightarrow> (pipe_outcome fail ''worker exited mid-step'', sent)
           | (Inr frame, _) \<Rightarrow> (tick_outcome json frame, sent)))"

definition worker_exchange ::
    "(byte list \<Rightarrow> string + tick) \<Rightarrow> exchange_io \<Rightarrow> byte list \<Rightarrow> u64 \<Rightarrow> step_outcome \<times> byte list" where
  "worker_exchange json io action wall_ms = worker_exchange_hdr json io (word_of_nat (length action)) action wall_ms"

definition worker_snapshot ::
    "(byte list \<Rightarrow> string + tick) \<Rightarrow> exchange_io \<Rightarrow> u64 \<Rightarrow> step_outcome \<times> byte list" where
  "worker_snapshot json io wall_ms = worker_exchange_hdr json io SNAPSHOT_SENTINEL [] wall_ms"

definition u32be_at :: "byte list \<Rightarrow> nat \<Rightarrow> nat option" where
  "u32be_at frame off =
     (if off + 4 \<le> length frame then Some (unat (u32_of_be (take 4 (drop off frame)))) else None)"

fun batch_outcomes :: "(byte list \<Rightarrow> string + tick) \<Rightarrow> nat \<Rightarrow> byte list \<Rightarrow> nat \<Rightarrow> step_outcome list" where
  "batch_outcomes json 0 frame off = []"
| "batch_outcomes json (Suc count) frame off =
     (case u32be_at frame off of
        None \<Rightarrow> []
      | Some len \<Rightarrow>
          if off + 4 + len \<le> length frame
          then (case tick_outcome json (take len (drop (off + 4) frame)) of
                  Ticked t \<Rightarrow> Ticked t # batch_outcomes json count frame (off + 4 + len)
                | out \<Rightarrow> [out])
          else [])"

definition batch_request :: "byte list list \<Rightarrow> byte list" where
  "batch_request actions =
     u32_be BATCH_SENTINEL @ u32_be (word_of_nat (length actions)) @
     concat (map (\<lambda>a. u32_be (word_of_nat (length a)) @ a) actions)"

definition worker_exchange_batch ::
    "(byte list \<Rightarrow> string + tick) \<Rightarrow> exchange_io \<Rightarrow> byte list list \<Rightarrow> u64 \<Rightarrow> step_outcome list" where
  "worker_exchange_batch json io actions wall_ms =
     (let n = length actions; deadline = deadline_ns wall_ms in
      case write_all_poll deadline (batch_request actions) (x_writes io) of
        (Inl fail, _) \<Rightarrow> replicate n (pipe_outcome fail ''worker stdin closed'')
      | (Inr _, _) \<Rightarrow>
          (case read_frame_poll deadline (x_pipe io) (x_reads io) of
             (Inl fail, _) \<Rightarrow> replicate n (pipe_outcome fail ''worker exited mid-batch'')
           | (Inr frame, _) \<Rightarrow>
               let count = min (case u32be_at frame 0 of Some c \<Rightarrow> c | None \<Rightarrow> 0) n;
                   out = batch_outcomes json count frame 4
               in out @ replicate (n - length out) (Dead ''worker returned short batch'')))"

lemma length_batch_outcomes: "length (batch_outcomes json count frame off) \<le> count"
  by (induction json count frame off rule: batch_outcomes.induct) (auto split: option.splits step_outcome.splits)

lemma batch_length:
  "length (worker_exchange_batch json io actions wall_ms) = length actions"
proof -
  have "length (batch_outcomes json (min c (length actions)) frame 4) \<le> length actions" for c frame
    using length_batch_outcomes [of json "min c (length actions)" frame 4] by simp
  then show ?thesis by (auto simp: worker_exchange_batch_def Let_def split: prod.splits sum.splits)
qed

text \<open>
  A batch of \<open>n\<close> actions has exactly \<open>n\<close> outcomes, whatever the worker answers: a wrong count, a
  reply cut short, an unreadable tick, an early exit or silence.
\<close>

theorem batch_has_one_outcome_per_action:
  "length (worker_exchange_batch json io actions wall_ms) = length actions"
  by (rule batch_length)

section \<open>Replies\<close>

lemma take_at_bound: "take_at frame off n = Inr (bs, o') \<Longrightarrow> o' \<le> length frame"
  by (auto simp: take_at_def split: if_splits)

lemma u32le_at_bound: "u32le_at frame off = Inr (n, o') \<Longrightarrow> o' \<le> length frame"
  by (auto simp: u32le_at_def and_then_Inr_iff dest: take_at_bound)

lemma str_at_bound: "str_at what frame off = Inr (s, o') \<Longrightarrow> o' \<le> length frame"
  by (auto simp: str_at_def and_then_Inr_iff dest: take_at_bound split: option.splits)

lemma info_at_bound: "info_at n frame off m = Inr (m', o') \<Longrightarrow> off \<le> length frame \<Longrightarrow> o' \<le> length frame"
proof (induction n frame off m rule: info_at.induct)
  case (2 n frame off m)
  then show ?case by (fastforce simp: and_then_Inr_iff dest: str_at_bound)
qed simp

lemma parse_tick_binary_bound:
  assumes "parse_tick_binary frame = Inr (t, used)"
  shows "used \<le> length frame"
proof -
  obtain count o4 info where "info_at count frame o4 [] = Inr (info, used)" "o4 \<le> length frame"
    using assms by (fastforce simp: parse_tick_binary_def and_then_Inr_iff Let_def dest: u32le_at_bound)
  then show ?thesis by (rule info_at_bound)
qed

text \<open>
  The observation slice never goes out of bounds: wherever the parser says the observation of a
  tick starts, that is inside the frame or at its end. (An out-of-range slice would panic, and a
  panic aborts the engine with every episode in it.)
\<close>

theorem obs_start_in_frame:
  assumes "parse_tick_frame json frame = Inr (t, obs_start)"
  shows "obs_start \<le> length frame"
proof (cases "length TICK_MAGIC \<le> length frame \<and> take (length TICK_MAGIC) frame = TICK_MAGIC")
  case True
  then obtain used where "parse_tick_binary (drop (length TICK_MAGIC) frame) = Inr (t, used)"
      "obs_start = length TICK_MAGIC + used"
    using assms by (auto simp: parse_tick_frame_def and_then_Inr_iff)
  with parse_tick_binary_bound [of "drop (length TICK_MAGIC) frame" t used] True show ?thesis by auto
next
  case False
  have "length (takeWhile (\<lambda>b. b \<noteq> 0) frame) < length frame" if "0 \<in> set frame"
    using that by (metis (mono_tags, lifting) length_takeWhile_le nat_less_le takeWhile_eq_all_conv
        takeWhile_eq_take take_all_iff)
  with False assms show ?thesis
    by (auto simp: parse_tick_frame_def Let_def split: if_splits sum.splits)
qed

definition neutral_tick :: tick where
  "neutral_tick = \<lparr>k_reward = 0, k_done = False, k_terminated = False, k_truncated = False, k_info = None,
     k_error = None, k_obs_meta = None, k_obs = None\<rparr>"

theorem obs_start_in_frame_witness: "2 \<le> length [1, 0, 5 :: byte]"
  by (rule obs_start_in_frame [of "\<lambda>_. Inr neutral_tick" _ neutral_tick])
    (simp add: parse_tick_frame_def TICK_MAGIC_def as_bytes_def)

end
