(* ===== verification/RB_Shim.thy ===== *)
theory RB_Shim
  imports RB_Pipe
begin

text \<open>
  The RL worker: the Python program that \<^verbatim>\<open>python_shim\<close> of \<^verbatim>\<open>engine/src/modes/rl.rs\<close> embeds and that runs
  inside the sandbox. The user's environment (a module or its \<^verbatim>\<open>VectorEnv\<close>) is a record of functions on an
  interpreter state of any type; the interpreter's own conversions are a record of functions as well.
\<close>

section \<open>Python values\<close>

datatype pyval =
    PyNone
  | PyBool bool
  | PyInt int
  | PyFloat f64
  | PyStr string
  | PyBytes "byte list"
  | PyList "pyval list"
  | PyTuple "pyval list"
  | PyDict "(pyval \<times> pyval) list"
  | PyObject nat

text \<open>\<^verbatim>\<open>Exception\<close> and its subclasses, or any other \<^verbatim>\<open>BaseException\<close>; the text is the formatted traceback.\<close>

datatype py_exn = PyException string | PyBaseException string

fun traceback_of :: "py_exn \<Rightarrow> string" where
  "traceback_of (PyException tb) = tb"
| "traceback_of (PyBaseException tb) = tb"

record python =
  py_repr_float :: "f64 \<Rightarrow> string"
  py_repr_int :: "int \<Rightarrow> string"
  py_str :: "pyval \<Rightarrow> py_exn + string"
  py_float :: "pyval \<Rightarrow> py_exn + f64"
  py_bool :: "pyval \<Rightarrow> py_exn + bool"
  py_json_dumps :: "bool \<Rightarrow> pyval \<Rightarrow> py_exn + string"    \<comment> \<open>with \<^verbatim>\<open>default=str\<close> or without\<close>

definition f64_is_nan :: "f64 \<Rightarrow> bool" where
  "f64_is_nan x \<longleftrightarrow> unat x mod 2 ^ 63 > 2047 * 2 ^ 52"

definition f64_inf :: f64 where "f64_inf = 0x7FF0000000000000"

definition f64_neg_inf :: f64 where "f64_neg_inf = 0xFFF0000000000000"

section \<open>The JSON encoder\<close>

definition hex4 :: "nat \<Rightarrow> string" where
  "hex4 n = (let d = \<lambda>k. ''0123456789abcdef'' ! (n div 16 ^ k mod 16) in [d 3, d 2, d 1, d 0])"

definition jesc_char :: "char \<Rightarrow> string" where
  "jesc_char c =
     (if c = CHR 0x22 then [CHR 0x5C, CHR 0x22]
      else if c = CHR 0x5C then [CHR 0x5C, CHR 0x5C]
      else if (of_char c :: nat) < 32 then [CHR 0x5C, CHR ''u''] @ hex4 (of_char c)
      else [c])"

definition jesc :: "string \<Rightarrow> string" where
  "jesc s = [CHR 0x22] @ concat (map jesc_char s) @ [CHR 0x22]"

fun joined :: "string list \<Rightarrow> string" where
  "joined [] = []"
| "joined [x] = x"
| "joined (x # xs) = x @ '','' @ joined xs"

text \<open>\<^verbatim>\<open>_jenc\<close>; \<open>None\<close> is a raised \<^verbatim>\<open>TypeError\<close>.\<close>

fun sequence :: "'a option list \<Rightarrow> 'a list option" where
  "sequence [] = Some []"
| "sequence (None # xs) = None"
| "sequence (Some x # xs) = map_option ((#) x) (sequence xs)"

fun jkey :: "pyval \<Rightarrow> string option" where
  "jkey (PyStr s) = Some (jesc s)"
| "jkey _ = None"

fun jenc :: "python \<Rightarrow> pyval \<Rightarrow> string option" where
  "jenc py PyNone = Some ''null''"
| "jenc py (PyBool b) = Some (if b then ''true'' else ''false'')"
| "jenc py (PyStr s) = Some (jesc s)"
| "jenc py (PyFloat x) =
     Some (if f64_is_nan x then ''NaN'' else if x = f64_inf then ''Infinity''
           else if x = f64_neg_inf then ''-Infinity'' else py_repr_float py x)"
| "jenc py (PyInt i) = Some (py_repr_int py i)"
| "jenc py (PyList xs) = map_option (\<lambda>es. ''['' @ joined es @ '']'') (sequence (map (jenc py) xs))"
| "jenc py (PyTuple xs) = map_option (\<lambda>es. ''['' @ joined es @ '']'') (sequence (map (jenc py) xs))"
| "jenc py (PyDict kvs) =
     map_option (\<lambda>es. ''{'' @ joined es @ ''}'')
       (sequence (map (\<lambda>(k, v). case (jkey k, jenc py v) of (Some a, Some b) \<Rightarrow> Some (a @ '':'' @ b) | _ \<Rightarrow> None) kvs))"
| "jenc py (PyBytes b) = None"
| "jenc py (PyObject n) = None"

definition dumps :: "python \<Rightarrow> bool \<Rightarrow> pyval \<Rightarrow> py_exn + byte list" where
  "dumps py default_str x =
     (case jenc py x of Some s \<Rightarrow> Inr (as_bytes s) | None \<Rightarrow> map_sum id as_bytes (py_json_dumps py default_str x))"

fun py_as_bytes :: "python \<Rightarrow> pyval \<Rightarrow> py_exn + byte list" where
  "py_as_bytes py (PyBytes b) = Inr b"
| "py_as_bytes py (PyStr s) = Inr (as_bytes s)"
| "py_as_bytes py x = dumps py True x"

fun dict_set :: "string \<Rightarrow> string \<Rightarrow> (string \<times> string) list \<Rightarrow> (string \<times> string) list" where
  "dict_set k v [] = [(k, v)]"
| "dict_set k v ((k', v') # d) = (if k = k' then (k, v) # d else (k', v') # dict_set k v d)"

fun stringify_items :: "python \<Rightarrow> (pyval \<times> pyval) list \<Rightarrow> (string \<times> string) list \<Rightarrow> py_exn + (string \<times> string) list" where
  "stringify_items py [] out = Inr out"
| "stringify_items py ((k, v) # kvs) out =
     and_then (if k = PyStr ''_obs_meta'' then map_sum id of_bytes (dumps py False v) else py_str py v) (\<lambda>vs.
     and_then (py_str py k) (\<lambda>ks. stringify_items py kvs (dict_set ks vs out)))"

fun stringify_info :: "python \<Rightarrow> pyval \<Rightarrow> py_exn + (string \<times> string) list" where
  "stringify_info py (PyDict kvs) = stringify_items py kvs []"
| "stringify_info py _ = Inr []"

section \<open>The environment\<close>

text \<open>
  The attributes of the user's module or vector environment, where present. A save is the pickled
  state, or the exception and what \<^verbatim>\<open>pickle.dump\<close> had already written.
\<close>

record 'e py_env =
  pe_reset :: "(int option \<Rightarrow> 'e \<Rightarrow> (py_exn + pyval) \<times> 'e) option"
  pe_takes_seed :: bool
  pe_step :: "(byte list \<Rightarrow> 'e \<Rightarrow> (py_exn + pyval) \<times> 'e) option"
  pe_save :: "('e \<Rightarrow> (py_exn \<times> byte list + byte list) \<times> 'e) option"
  pe_restore :: "(byte list \<Rightarrow> 'e \<Rightarrow> (py_exn + unit) \<times> 'e) option"
  pe_observe :: "('e \<Rightarrow> (py_exn + pyval) \<times> 'e) option"

record 'e shim_config =
  sc_python :: python
  sc_mod :: "'e py_env"
  sc_vec :: "'e py_env option"          \<comment> \<open>\<^verbatim>\<open>HAS_VEC\<close>\<close>
  sc_resume :: bool
  sc_snapshot_every :: int
  sc_persist_every_step :: bool
  sc_seed :: "int option"
  sc_state_opens :: bool                \<comment> \<open>\<^verbatim>\<open>state.pkl\<close> can be opened for writing\<close>

record 'e shim_state =
  sh_env :: 'e
  sh_step_count :: int
  sh_terminal :: bool
  sh_file :: "byte list option"         \<comment> \<open>\<^verbatim>\<open>/episode/state.pkl\<close>\<close>

text \<open>A computation of the worker: it may raise, and it changes the interpreter state either way.\<close>

type_synonym ('e, 'a) py_run = "'e \<Rightarrow> (py_exn + 'a) \<times> 'e"

definition py_bind :: "('e, 'a) py_run \<Rightarrow> ('a \<Rightarrow> ('e, 'b) py_run) \<Rightarrow> ('e, 'b) py_run" where
  "py_bind f g e = (case f e of (Inl x, e1) \<Rightarrow> (Inl x, e1) | (Inr a, e1) \<Rightarrow> g a e1)"

definition py_pure :: "py_exn + 'a \<Rightarrow> ('e, 'a) py_run" where "py_pure r e = (r, e)"

text \<open>\<^verbatim>\<open>except Exception\<close>: only a \<^verbatim>\<open>PyException\<close> is handled.\<close>

definition or_else :: "('e, 'a) py_run \<Rightarrow> ('e, 'a) py_run \<Rightarrow> ('e, 'a) py_run" where
  "or_else f g e = (case f e of (Inl (PyException tb), e1) \<Rightarrow> g e1 | r \<Rightarrow> r)"

text \<open>The shape of a step result: (observation, reward, terminated, truncated, info).\<close>

type_synonym step_parts = "pyval \<times> pyval \<times> pyval \<times> pyval \<times> pyval"

fun unpack_step :: "string \<Rightarrow> pyval \<Rightarrow> py_exn + step_parts" where
  "unpack_step msg (PyTuple [obs, reward, terminated, truncated, info]) = Inr (obs, reward, terminated, truncated, info)"
| "unpack_step msg (PyTuple [obs, reward, terminated, info]) = Inr (obs, reward, terminated, PyBool False, info)"
| "unpack_step msg (PyTuple [obs, reward, terminated]) = Inr (obs, reward, terminated, PyBool False, PyDict [])"
| "unpack_step msg (PyTuple [obs, reward]) = Inr (obs, reward, PyBool False, PyBool False, PyDict [])"
| "unpack_step msg (PyTuple [obs]) = Inr (obs, PyFloat 0, PyBool False, PyBool False, PyDict [])"
| "unpack_step msg (PyTuple _) = Inl (PyException msg)"
| "unpack_step msg obs = Inr (obs, PyFloat 0, PyBool False, PyBool False, PyDict [])"

type_synonym step_result = "byte list \<times> f64 \<times> bool \<times> bool \<times> (string \<times> string) list"

definition convert_step :: "python \<Rightarrow> step_parts \<Rightarrow> py_exn + step_result" where
  "convert_step py = (\<lambda>(obs, reward, terminated, truncated, info).
     and_then (py_as_bytes py obs) (\<lambda>ob.
     and_then (py_float py reward) (\<lambda>r.
     and_then (py_bool py terminated) (\<lambda>t.
     and_then (py_bool py truncated) (\<lambda>u.
     and_then (stringify_info py info) (\<lambda>i. Inr (ob, r, t, u, i)))))))"

definition run_step ::
    "python \<Rightarrow> string \<Rightarrow> (byte list \<Rightarrow> ('e, pyval) py_run) \<Rightarrow> byte list \<Rightarrow> ('e, step_result) py_run" where
  "run_step py msg step action =
     py_bind (step action) (\<lambda>result. py_pure (and_then (unpack_step msg result) (convert_step py)))"

definition mod_step :: "'e shim_config \<Rightarrow> byte list \<Rightarrow> ('e, step_result) py_run" where
  "mod_step cfg action =
     (case pe_step (sc_mod cfg) of
        None \<Rightarrow> py_pure (Inl (PyException ''user env module does not define step(action)''))
      | Some step \<Rightarrow> run_step (sc_python cfg) ''step returned a tuple of unexpected length'' step action)"

definition do_step :: "'e shim_config \<Rightarrow> byte list \<Rightarrow> ('e, step_result) py_run" where
  "do_step cfg action =
     (case sc_vec cfg of
        Some vec \<Rightarrow>
          (case pe_step vec of
             Some step \<Rightarrow>
               or_else (run_step (sc_python cfg) ''vec step returned a tuple of unexpected length'' step action)
                 (mod_step cfg action)
           | None \<Rightarrow> mod_step cfg action)
      | None \<Rightarrow> mod_step cfg action)"

fun split_reset :: "pyval \<Rightarrow> pyval \<times> pyval" where
  "split_reset (PyTuple [result, info]) = (result, info)"
| "split_reset result = (result, PyDict [])"

definition run_reset ::
    "python \<Rightarrow> 'e py_env \<Rightarrow> (int option \<Rightarrow> ('e, pyval) py_run) \<Rightarrow> int option \<Rightarrow> ('e, byte list \<times> (string \<times> string) list) py_run" where
  "run_reset py env reset seed =
     py_bind (reset (if pe_takes_seed env then seed else None)) (\<lambda>result.
       py_pure (and_then (py_as_bytes py (fst (split_reset result))) (\<lambda>ob.
                and_then (stringify_info py (snd (split_reset result))) (\<lambda>i. Inr (ob, i)))))"

definition mod_reset :: "'e shim_config \<Rightarrow> int option \<Rightarrow> ('e, byte list \<times> (string \<times> string) list) py_run" where
  "mod_reset cfg seed =
     (case pe_reset (sc_mod cfg) of
        None \<Rightarrow> py_pure (Inl (PyException ''user env module does not define reset()''))
      | Some reset \<Rightarrow> run_reset (sc_python cfg) (sc_mod cfg) reset seed)"

definition do_reset :: "'e shim_config \<Rightarrow> int option \<Rightarrow> ('e, byte list \<times> (string \<times> string) list) py_run" where
  "do_reset cfg seed =
     (case sc_vec cfg of
        Some vec \<Rightarrow>
          (case pe_reset vec of
             Some reset \<Rightarrow> or_else (run_reset (sc_python cfg) vec reset seed) (mod_reset cfg seed)
           | None \<Rightarrow> mod_reset cfg seed)
      | None \<Rightarrow> mod_reset cfg seed)"

section \<open>Checkpoints\<close>

definition save_target :: "'e shim_config \<Rightarrow> ('e \<Rightarrow> (py_exn \<times> byte list + byte list) \<times> 'e) option" where
  "save_target cfg =
     (case sc_vec cfg of
        Some vec \<Rightarrow> (case pe_save vec of Some f \<Rightarrow> Some f | None \<Rightarrow> pe_save (sc_mod cfg))
      | None \<Rightarrow> pe_save (sc_mod cfg))"

definition save_due :: "'e shim_config \<Rightarrow> 'e shim_state \<Rightarrow> bool" where
  "save_due cfg st \<longleftrightarrow> 0 < sc_snapshot_every cfg \<and> sh_step_count st mod sc_snapshot_every cfg = 0"

text \<open>
  \<^verbatim>\<open>save_state\<close>: opening the file for writing empties it before \<^verbatim>\<open>save()\<close> is called. The result is
  whether a checkpoint was written, or an exception that is not an \<^verbatim>\<open>Exception\<close>.
\<close>

definition save_state :: "'e shim_config \<Rightarrow> bool \<Rightarrow> 'e shim_state \<Rightarrow> (py_exn + bool) \<times> 'e shim_state" where
  "save_state cfg force st =
     (case save_target cfg of
        None \<Rightarrow> (Inr False, st)
      | Some save \<Rightarrow>
          if \<not> (force \<or> sc_persist_every_step cfg \<or> save_due cfg st \<or> sh_terminal st) then (Inr False, st)
          else if \<not> sc_state_opens cfg then (Inr False, st)
          else (case save (sh_env st) of
                  (Inr data, e) \<Rightarrow> (Inr True, st\<lparr>sh_env := e, sh_file := Some data\<rparr>)
                | (Inl (PyException tb, part), e) \<Rightarrow> (Inr False, st\<lparr>sh_env := e, sh_file := Some part\<rparr>)
                | (Inl (x, part), e) \<Rightarrow> (Inl x, st\<lparr>sh_env := e, sh_file := Some part\<rparr>)))"

definition current_obs :: "'e shim_config \<Rightarrow> ('e, byte list) py_run" where
  "current_obs cfg =
     (case pe_observe (case sc_vec cfg of Some vec \<Rightarrow> vec | None \<Rightarrow> sc_mod cfg) of
        Some observe \<Rightarrow> py_bind observe (\<lambda>v. py_pure (py_as_bytes (sc_python cfg) v))
      | None \<Rightarrow> py_pure (Inr []))"

section \<open>One request\<close>

text \<open>One step: the packed tick and observation, or an exception that ends the worker.\<close>

definition step_frame :: "'e shim_config \<Rightarrow> byte list \<Rightarrow> 'e shim_state \<Rightarrow> (py_exn + byte list) \<times> 'e shim_state" where
  "step_frame cfg action st =
     (case do_step cfg action (sh_env st) of
        (Inl x, e) \<Rightarrow> (Inr (pack_tick 0 True True False [] (Some (traceback_of x))), st\<lparr>sh_env := e\<rparr>)
      | (Inr (obs, reward, terminated, truncated, info), e) \<Rightarrow>
          let terminal = terminated \<or> truncated;
              st1 = st\<lparr>sh_env := e, sh_step_count := sh_step_count st + 1, sh_terminal := terminal\<rparr>
          in (case save_state cfg False st1 of
                (Inl x, st2) \<Rightarrow> (Inl x, st2)
              | (Inr _, st2) \<Rightarrow> (Inr (pack_tick reward terminal terminated truncated info None @ obs), st2)))"

type_synonym shim_tick = "pyval \<times> (string \<times> string) list"

definition error_tick :: "py_exn \<Rightarrow> byte list" where
  "error_tick x = pack_tick 0 True True False [] (Some (traceback_of x))"

text \<open>The whole answer to a request that is not a step: \<^verbatim>\<open>_pack_tick(...) + obs\<close> needs bytes.\<close>

fun answer :: "py_exn + shim_tick \<Rightarrow> py_exn + byte list" where
  "answer (Inl x) = Inr (error_tick x)"
| "answer (Inr (PyBytes obs, info)) = Inr (pack_tick 0 False False False info None @ obs)"
| "answer (Inr (obs, info)) = Inl (PyException ''TypeError: can't concat to bytes'')"

definition snapshot_tick :: "'e shim_config \<Rightarrow> 'e shim_state \<Rightarrow> (py_exn + shim_tick) \<times> 'e shim_state" where
  "snapshot_tick cfg st =
     (case save_state cfg True st of
        (Inl x, st1) \<Rightarrow> (Inl x, st1)
      | (Inr ok, st1) \<Rightarrow>
          (case current_obs cfg (sh_env st1) of
             (Inl x, e) \<Rightarrow> (Inl x, st1\<lparr>sh_env := e\<rparr>)
           | (Inr obs, e) \<Rightarrow>
               (Inr (PyBytes obs,
                  [(''snapshot'', if ok then ''true'' else ''unsupported''),
                   (''steps'', py_repr_int (sc_python cfg) (sh_step_count st1))]), st1\<lparr>sh_env := e\<rparr>)))"

definition reset_tick :: "'e shim_config \<Rightarrow> ('e, shim_tick) py_run" where
  "reset_tick cfg = py_bind (do_reset cfg (sc_seed cfg)) (\<lambda>(obs, info). py_pure (Inr (PyBytes obs, info)))"

definition restore_target :: "'e shim_config \<Rightarrow> ((byte list \<Rightarrow> ('e, unit) py_run) \<times> ('e, pyval) py_run option) option" where
  "restore_target cfg =
     (case (case sc_vec cfg of Some vec \<Rightarrow> pe_restore vec | None \<Rightarrow> None) of
        Some restore \<Rightarrow> Some (restore, pe_observe (the (sc_vec cfg)))
      | None \<Rightarrow> map_option (\<lambda>restore. (restore, pe_observe (sc_mod cfg))) (pe_restore (sc_mod cfg)))"

definition boot_tick :: "'e shim_config \<Rightarrow> byte list option \<Rightarrow> ('e, shim_tick) py_run" where
  "boot_tick cfg file =
     (case (sc_resume cfg, file, restore_target cfg) of
        (True, Some data, Some (restore, observe)) \<Rightarrow>
          or_else (py_bind (restore data) (\<lambda>_.
                   py_bind (case observe of Some f \<Rightarrow> f | None \<Rightarrow> py_pure (Inr (PyBytes []))) (\<lambda>obs.
                     py_pure (Inr (obs, [(''resumed'', ''true'')])))))
            (reset_tick cfg)
      | _ \<Rightarrow> reset_tick cfg)"

text \<open>The body of the loop for a plain request (the header was not the batch sentinel).\<close>

definition single_request ::
    "'e shim_config \<Rightarrow> bool \<Rightarrow> byte list \<Rightarrow> 'e shim_state \<Rightarrow> (py_exn + byte list) \<times> 'e shim_state" where
  "single_request cfg snapshot_req action st =
     (if snapshot_req then (case snapshot_tick cfg st of (r, st1) \<Rightarrow> (answer r, st1))
      else if action \<noteq> [] then step_frame cfg action st
      else (case boot_tick cfg (sh_file st) (sh_env st) of (r, e) \<Rightarrow> (answer r, st\<lparr>sh_env := e\<rparr>)))"

definition shim_read_exact :: "nat \<Rightarrow> byte list \<Rightarrow> (byte list \<times> byte list) option" where
  "shim_read_exact n input = (if n \<le> length input then Some (take n input, drop n input) else None)"

definition read_u32 :: "byte list \<Rightarrow> (u32 \<times> byte list) option" where
  "read_u32 input = (case shim_read_exact 4 input of Some (b, rest) \<Rightarrow> Some (u32_of_be b, rest) | None \<Rightarrow> None)"

text \<open>What one round of the loop does: an answer, the end of the input, or an uncaught exception.\<close>

datatype 'e round =
    Responds "byte list" "byte list" "'e shim_state"     \<comment> \<open>payload, input left\<close>
  | Stops "'e shim_state"
  | Dies py_exn "'e shim_state"

text \<open>\<^verbatim>\<open>respond\<close>: \<^verbatim>\<open>to_bytes(4, "big")\<close> raises for a length of \<open>2 ^ 32\<close> or more.\<close>

definition respond :: "byte list \<Rightarrow> byte list \<Rightarrow> 'e shim_state \<Rightarrow> 'e round" where
  "respond payload rest st =
     (if length payload < 2 ^ 32 then Responds payload rest st
      else Dies (PyException ''OverflowError: int too big to convert'') st)"

datatype 'e batch_round = BatchFrames "byte list" "byte list" "'e shim_state" | BatchEnds "'e round"

fun batch_frames :: "'e shim_config \<Rightarrow> nat \<Rightarrow> byte list \<Rightarrow> 'e shim_state \<Rightarrow> 'e batch_round" where
  "batch_frames cfg 0 input st = BatchFrames [] input st"
| "batch_frames cfg (Suc count) input st =
     (case read_u32 input of
        None \<Rightarrow> BatchEnds (Stops st)
      | Some (len, input1) \<Rightarrow>
          (case shim_read_exact (unat len) input1 of
             None \<Rightarrow> BatchEnds (Stops st)
           | Some (action, input2) \<Rightarrow>
               (case step_frame cfg action st of
                  (Inl x, st1) \<Rightarrow> BatchEnds (Dies x st1)
                | (Inr body, st1) \<Rightarrow>
                    if length body < 2 ^ 32
                    then (case batch_frames cfg count input2 st1 of
                            BatchFrames frames input3 st2 \<Rightarrow>
                              BatchFrames (u32_be (word_of_nat (length body)) @ body @ frames) input3 st2
                          | BatchEnds r \<Rightarrow> BatchEnds r)
                    else BatchEnds (Dies (PyException ''OverflowError: int too big to convert'') st1))))"

definition shim_round :: "'e shim_config \<Rightarrow> byte list \<Rightarrow> 'e shim_state \<Rightarrow> 'e round" where
  "shim_round cfg input st =
     (case read_u32 input of
        None \<Rightarrow> Stops st
      | Some (n, input1) \<Rightarrow>
          if n = BATCH_SENTINEL
          then (case read_u32 input1 of
                  None \<Rightarrow> Stops st
                | Some (count, input2) \<Rightarrow>
                    (case batch_frames cfg (unat count) input2 st of
                       BatchFrames frames rest st1 \<Rightarrow> respond (u32_be count @ frames) rest st1
                     | BatchEnds r \<Rightarrow> r))
          else let snapshot_req = (n = SNAPSHOT_SENTINEL) in
               (case (if n \<noteq> 0 \<and> \<not> snapshot_req then shim_read_exact (unat n) input1 else Some ([], input1)) of
                  None \<Rightarrow> Stops st
                | Some (action, rest) \<Rightarrow>
                    (case single_request cfg snapshot_req action st of
                       (Inl x, st1) \<Rightarrow> Dies x st1
                     | (Inr body, st1) \<Rightarrow> respond body rest st1)))"

text \<open>The loop on everything that arrives on standard input until it is closed, and what it writes.\<close>

lemma shim_read_exact_shorter: "shim_read_exact n input = Some (b, rest) \<Longrightarrow> length rest + n = length input"
  by (auto simp: shim_read_exact_def split: if_splits)

lemma read_u32_shorter: "read_u32 input = Some (n, rest) \<Longrightarrow> length rest < length input"
  by (auto simp: read_u32_def dest!: shim_read_exact_shorter split: option.splits)

lemma batch_frames_shorter: "batch_frames cfg count input st = BatchFrames frames rest st' \<Longrightarrow> length rest \<le> length input"
  by (induction cfg count input st arbitrary: frames rest st' rule: batch_frames.induct)
    (fastforce split: option.splits prod.splits sum.splits batch_round.splits if_splits
      dest: shim_read_exact_shorter read_u32_shorter)+

lemma batch_frames_no_response: "batch_frames cfg count input st \<noteq> BatchEnds (Responds payload rest st')"
  by (induction cfg count input st rule: batch_frames.induct)
    (auto split: option.splits prod.splits sum.splits batch_round.splits if_splits)

lemma shim_round_shorter: "shim_round cfg input st = Responds payload rest st' \<Longrightarrow> length rest < length input"
  by (auto simp: shim_round_def respond_def Let_def split: option.splits prod.splits sum.splits batch_round.splits if_splits
      simp: batch_frames_no_response dest!: shim_read_exact_shorter read_u32_shorter batch_frames_shorter)

function shim_loop :: "'e shim_config \<Rightarrow> byte list \<Rightarrow> 'e shim_state \<Rightarrow> byte list \<times> 'e shim_state" where
  "shim_loop cfg input st =
     (case shim_round cfg input st of
        Responds payload rest st1 \<Rightarrow>
          (case shim_loop cfg rest st1 of (out, st2) \<Rightarrow> (u32_be (word_of_nat (length payload)) @ payload @ out, st2))
      | Stops st1 \<Rightarrow> ([], st1)
      | Dies x st1 \<Rightarrow> ([], st1))"
  by pat_completeness auto

termination
  by (relation "measure (\<lambda>(cfg, input, st). length input)") (auto dest: shim_round_shorter)

section \<open>Batches and single steps\<close>

text \<open>The steps of a list of actions one after the other, as long as the worker lives.\<close>

fun steps_of :: "'e shim_config \<Rightarrow> byte list list \<Rightarrow> 'e shim_state \<Rightarrow> (byte list list \<times> 'e shim_state) option" where
  "steps_of cfg [] st = Some ([], st)"
| "steps_of cfg (a # as) st =
     (case step_frame cfg a st of
        (Inl x, st1) \<Rightarrow> None
      | (Inr body, st1) \<Rightarrow> map_option (\<lambda>(bodies, st2). (body # bodies, st2)) (steps_of cfg as st1))"

definition framed :: "byte list \<Rightarrow> byte list" where
  "framed body = u32_be (word_of_nat (length body)) @ body"

lemma read_u32_frame [simp]: "read_u32 (u32_be w @ rest) = Some (w, rest)"
  by (simp add: read_u32_def shim_read_exact_def)

lemma shim_read_exact_frame [simp]: "shim_read_exact (length b) (b @ rest) = Some (b, rest)"
  by (simp add: shim_read_exact_def)

lemma unat_len32: "n < 2 ^ 32 \<Longrightarrow> unat (word_of_nat n :: u32) = n"
  by (simp add: unat_of_nat)

lemma sentinel_values: "unat BATCH_SENTINEL = 2 ^ 32 - 2" "unat SNAPSHOT_SENTINEL = 2 ^ 32 - 1"
  by (simp_all add: BATCH_SENTINEL_def SNAPSHOT_SENTINEL_def)

lemma step_header:
  assumes "length a < 2 ^ 32 - 2"
  shows "(word_of_nat (length a) :: u32) \<noteq> BATCH_SENTINEL" "(word_of_nat (length a) :: u32) \<noteq> SNAPSHOT_SENTINEL"
    "(word_of_nat (length a) :: u32) = 0 \<longleftrightarrow> a = []" "unat (word_of_nat (length a) :: u32) = length a"
proof -
  show u: "unat (word_of_nat (length a) :: u32) = length a" using assms by (simp add: unat_of_nat)
  with assms sentinel_values show "(word_of_nat (length a) :: u32) \<noteq> BATCH_SENTINEL"
      "(word_of_nat (length a) :: u32) \<noteq> SNAPSHOT_SENTINEL" by auto
  show "(word_of_nat (length a) :: u32) = 0 \<longleftrightarrow> a = []" using u by (metis length_0_conv unat_0 unat_eq_zero)
qed

lemma round_single_step:
  assumes "a \<noteq> []" "length a < 2 ^ 32 - 2"
  shows "shim_round cfg (framed a @ rest) st =
    (case step_frame cfg a st of (Inl x, st1) \<Rightarrow> Dies x st1 | (Inr body, st1) \<Rightarrow> respond body rest st1)"
  using assms step_header [OF assms(2)] by (simp add: shim_round_def framed_def single_request_def Let_def)

lemma batch_frames_steps:
  assumes "steps_of cfg actions st = Some (bodies, st')" "\<forall>a\<in>set actions. length a < 2 ^ 32" "\<forall>b\<in>set bodies. length b < 2 ^ 32"
  shows "batch_frames cfg (length actions) (concat (map framed actions) @ rest) st =
    BatchFrames (concat (map framed bodies)) rest st'"
  using assms
proof (induction actions arbitrary: st bodies)
  case (Cons a actions)
  obtain body st1 bodies1 where s: "step_frame cfg a st = (Inr body, st1)" "steps_of cfg actions st1 = Some (bodies1, st')"
      "bodies = body # bodies1"
    using Cons.prems(1) by (auto split: prod.splits sum.splits)
  from Cons.IH [OF s(2)] Cons.prems(2,3) s(3)
  have "batch_frames cfg (length actions) (concat (map framed actions) @ rest) st1 =
      BatchFrames (concat (map framed bodies1)) rest st'" by simp
  with s Cons.prems(2,3) show ?case
    by (simp add: framed_def [of a] framed_def [of body] unat_len32)
qed simp

lemma round_batch:
  assumes "steps_of cfg actions st = Some (bodies, st')" "\<forall>a\<in>set actions. length a < 2 ^ 32" "length actions < 2 ^ 32"
    and "\<forall>b\<in>set bodies. length b < 2 ^ 32"
  shows "shim_round cfg (batch_request actions @ rest) st =
    respond (u32_be (word_of_nat (length actions)) @ concat (map framed bodies)) rest st'"
  using batch_frames_steps [OF assms(1,2,4), of rest] assms(3)
  by (simp add: shim_round_def batch_request_def framed_def [abs_def, symmetric] unat_len32)

text \<open>The same actions as single requests: the payloads of the answers, while the worker answers.\<close>

fun single_rounds :: "'e shim_config \<Rightarrow> byte list list \<Rightarrow> 'e shim_state \<Rightarrow> (byte list list \<times> 'e shim_state) option" where
  "single_rounds cfg [] st = Some ([], st)"
| "single_rounds cfg (a # as) st =
     (case shim_round cfg (framed a) st of
        Responds payload _ st1 \<Rightarrow> map_option (\<lambda>(ps, st2). (payload # ps, st2)) (single_rounds cfg as st1)
      | _ \<Rightarrow> None)"

lemma single_rounds_steps:
  assumes "single_rounds cfg actions st = Some (payloads, st')"
    and "\<forall>a\<in>set actions. a \<noteq> [] \<and> length a < 2 ^ 32 - 2"
  shows "steps_of cfg actions st = Some (payloads, st') \<and> (\<forall>p\<in>set payloads. length p < 2 ^ 32)"
  using assms
proof (induction actions arbitrary: st payloads)
  case (Cons a actions)
  then have a: "a \<noteq> []" "length a < 2 ^ 32 - 2" by auto
  obtain body st1 where s: "step_frame cfg a st = (Inr body, st1)" "length body < 2 ^ 32"
    using Cons.prems(1) round_single_step [OF a, of cfg "[]" st]
    by (auto simp: respond_def split: prod.splits sum.splits if_splits)
  with Cons.prems(1) round_single_step [OF a, of cfg "[]" st] obtain ps where
    "single_rounds cfg actions st1 = Some (ps, st')" "payloads = body # ps" by (auto simp: respond_def)
  with Cons.IH [of st1 ps] Cons.prems(2) s show ?case by simp
qed simp

lemma single_rounds_length: "single_rounds cfg actions st = Some (payloads, st') \<Longrightarrow> length payloads = length actions"
  by (induction actions arbitrary: st payloads) (auto split: round.splits)

lemma single_rounds_batch:
  assumes "single_rounds cfg actions st = Some (payloads, st')"
    and "\<forall>a\<in>set actions. a \<noteq> [] \<and> length a < 2 ^ 32 - 2" "length actions < 2 ^ 32"
  shows "shim_round cfg (batch_request actions @ rest) st =
    respond (u32_be (word_of_nat (length actions)) @ concat (map framed payloads)) rest st'"
proof (rule round_batch)
  show "\<forall>a\<in>set actions. length a < 2 ^ 32"
  proof
    fix a assume "a \<in> set actions"
    with assms(2) have "length a < 2 ^ 32 - 2" by blast
    then show "length a < 2 ^ 32" by simp
  qed
qed (use single_rounds_steps [OF assms(1,2)] assms(3) in auto)

text \<open>
  A batch is the same as its steps one by one: if the worker answers the (non-empty) actions as
  single requests with some payloads, then it answers the batch of them with exactly these payloads,
  in order, and is in the same state afterwards (environment, step count, checkpoint).
\<close>

theorem batch_equals_single_steps:
  assumes "single_rounds cfg actions st = Some (payloads, st')"
    and "\<forall>a\<in>set actions. a \<noteq> [] \<and> length a < 2 ^ 32 - 2" "length actions < 2 ^ 32"
    and "length (concat (map framed payloads)) + 4 < 2 ^ 32"
  shows "shim_round cfg (batch_request actions @ rest) st =
    Responds (u32_be (word_of_nat (length actions)) @ concat (map framed payloads)) rest st'"
  using single_rounds_batch [OF assms(1-3), of rest] assms(4) by (simp add: respond_def)

text \<open>A worker for the examples: a counter that reports itself as one byte.\<close>

definition demo_python :: python where
  "demo_python =
     \<lparr>py_repr_float = (\<lambda>_. ''0.0''), py_repr_int = (\<lambda>i. decimal (nat i)), py_str = (\<lambda>_. Inr []),
      py_float = (\<lambda>v. case v of PyFloat x \<Rightarrow> Inr x | _ \<Rightarrow> Inl (PyException ''TypeError'')),
      py_bool = (\<lambda>v. case v of PyBool b \<Rightarrow> Inr b | _ \<Rightarrow> Inl (PyException ''TypeError'')),
      py_json_dumps = (\<lambda>_ _. Inl (PyException ''TypeError''))\<rparr>"

definition demo_env :: "nat py_env" where
  "demo_env =
     \<lparr>pe_reset = Some (\<lambda>_ _. (Inr (PyBytes [0]), 0)), pe_takes_seed = False,
      pe_step = Some (\<lambda>_ n. (Inr (PyTuple [PyBytes [word_of_nat n], PyFloat 0]), n + 1)),
      pe_save = None, pe_restore = Some (\<lambda>d n. (Inr (), length d)), pe_observe = Some (\<lambda>n. (Inr (PyList []), n))\<rparr>"

definition demo_shim :: "nat shim_config" where
  "demo_shim =
     \<lparr>sc_python = demo_python, sc_mod = demo_env, sc_vec = None, sc_resume = False, sc_snapshot_every = 50,
      sc_persist_every_step = False, sc_seed = None, sc_state_opens = True\<rparr>"

definition demo_state :: "nat \<Rightarrow> nat shim_state" where
  "demo_state n = \<lparr>sh_env = n, sh_step_count = int n, sh_terminal = False, sh_file = None\<rparr>"

definition demo_tick :: "nat \<Rightarrow> byte list" where
  "demo_tick n = pack_tick 0 False False False [] None @ [word_of_nat n]"

lemma length_pack_tick_plain [simp]: "length (pack_tick r a b c [] None) = 17"
  by (simp add: pack_tick_def TICK_MAGIC_def pack_u32_def as_bytes_def)

lemma length_demo_tick [simp]: "length (demo_tick n) = 18"
  by (simp add: demo_tick_def)

lemma demo_step: "step_frame demo_shim a (demo_state n) = (Inr (demo_tick n), demo_state (n + 1))"
  by (simp add: step_frame_def do_step_def mod_step_def run_step_def py_bind_def py_pure_def demo_shim_def demo_env_def
      demo_python_def demo_state_def demo_tick_def convert_step_def save_state_def save_target_def)

lemma demo_singles: "single_rounds demo_shim [[1], [2]] (demo_state 0) = Some ([demo_tick 0, demo_tick 1], demo_state 2)"
  using round_single_step [of "[1]" demo_shim "[]" "demo_state 0"] round_single_step [of "[2]" demo_shim "[]" "demo_state 1"]
  by (simp add: demo_step respond_def) (simp add: numeral_2_eq_2)

theorem batch_equals_single_steps_witness:
  "shim_round demo_shim (batch_request [[1], [2]] @ []) (demo_state 0) =
    Responds (u32_be (word_of_nat (length [[1 :: byte], [2]])) @ concat (map framed [demo_tick 0, demo_tick 1])) [] (demo_state 2)"
  by (rule batch_equals_single_steps [OF demo_singles]) (simp_all add: framed_def)

section \<open>The engine and the worker together\<close>

lemma write_all_poll_enough:
  assumes "list_all (good_turn d) ts" "length data \<le> length ts"
  shows "\<exists>ts'. write_all_poll d data ts = (Inr (), data, ts')"
  using assms
proof (induction d data ts rule: write_all_poll.induct)
  case (3 d b bs t ts)
  from "3.prems"(1) obtain k where t: "await_turn d t = None" "tn_io t = IoBytes k" "0 < k"
    by (auto simp: good_turn_def split: io_rc.splits)
  have "\<exists>ts'. write_all_poll d (drop k (b # bs)) ts = (Inr (), drop k (b # bs), ts')"
    using "3.prems" t(3) by (intro "3.IH"(1) [OF t(1,2)]) auto
  then obtain ts' where "write_all_poll d (drop k (b # bs)) ts = (Inr (), drop k (b # bs), ts')" by blast
  with t have "write_all_poll d (b # bs) (t # ts) = (Inr (), take k (b # bs) @ drop k (b # bs), ts')" by simp
  then show ?case by simp
qed auto

text \<open>An exchange in which the pipes work and the worker's answer is \<open>payload\<close>.\<close>

definition good_io :: "u64 \<Rightarrow> byte list \<Rightarrow> byte list \<Rightarrow> exchange_io \<Rightarrow> bool" where
  "good_io wall_ms request payload io \<longleftrightarrow>
     list_all (good_turn (deadline_ns wall_ms)) (x_writes io) \<and> length request \<le> length (x_writes io) \<and>
     list_all (good_turn (deadline_ns wall_ms)) (x_reads io) \<and> 4 + length payload \<le> length (x_reads io) \<and>
     length payload \<le> MAX_WORKER_FRAME \<and> x_pipe io = framed payload"

lemma good_io_read:
  assumes "good_io wall_ms request payload io"
  shows "\<exists>ts'. read_frame_poll (deadline_ns wall_ms) (x_pipe io) (x_reads io) = (Inr payload, [], ts')"
  using read_frame_enough [of "deadline_ns wall_ms" "x_reads io" payload "[]"] assms by (simp add: good_io_def framed_def)

lemma exchange_good:
  assumes "good_io wall_ms (framed a) payload io"
  shows "worker_exchange json io a wall_ms = (tick_outcome json payload, framed a)"
proof -
  obtain ts' where r: "read_frame_poll (deadline_ns wall_ms) (x_pipe io) (x_reads io) = (Inr payload, [], ts')"
    using good_io_read [OF assms] by blast
  obtain tw where w: "write_all_poll (deadline_ns wall_ms) (framed a) (x_writes io) = (Inr (), framed a, tw)"
    using assms write_all_poll_enough [of "deadline_ns wall_ms" "x_writes io" "framed a"] by (auto simp: good_io_def)
  show ?thesis
    using w r writev_from_offsets [of 0 "u32_be (word_of_nat (length a))" 0 a "deadline_ns wall_ms" "x_writes io"]
    by (cases a) (simp_all add: worker_exchange_def worker_exchange_hdr_def Let_def framed_def)
qed

lemma batch_outcomes_frames:
  assumes "\<forall>p\<in>set ps. length p < 2 ^ 32 \<and> (\<exists>t. tick_outcome json p = Ticked t)"
  shows "batch_outcomes json (length ps) (pre @ concat (map framed ps)) (length pre) = map (tick_outcome json) ps"
  using assms
proof (induction ps arbitrary: pre)
  case (Cons p ps)
  then obtain t where t: "tick_outcome json p = Ticked t" "length p < 2 ^ 32" by auto
  have u: "u32be_at (pre @ framed p @ concat (map framed ps)) (length pre) = Some (length p)"
    using t(2) by (simp add: u32be_at_def framed_def [of p] unat_len32)
  have "batch_outcomes json (length ps) ((pre @ framed p) @ concat (map framed ps)) (length (pre @ framed p)) =
      map (tick_outcome json) ps" using Cons.prems by (intro Cons.IH) auto
  moreover have "length (pre @ framed p) = length pre + 4 + length p" by (simp add: framed_def)
  ultimately have rec: "batch_outcomes json (length ps) (pre @ framed p @ concat (map framed ps)) (length pre + 4 + length p) =
      map (tick_outcome json) ps" by (simp add: add.assoc)
  have "take (length p) (drop (length pre + 4) (pre @ framed p @ concat (map framed ps))) = p"
    by (simp add: framed_def [of p])
  then show ?case using u t(1) rec by (simp add: framed_def [of p] del: drop_append take_append)
qed simp

lemma exchange_batch_good:
  assumes "good_io wall_ms (batch_request actions) (u32_be (word_of_nat (length actions)) @ concat (map framed ps)) io"
    and "length ps = length actions" "length actions < 2 ^ 32"
    and "\<forall>p\<in>set ps. length p < 2 ^ 32 \<and> (\<exists>t. tick_outcome json p = Ticked t)"
  shows "worker_exchange_batch json io actions wall_ms = map (tick_outcome json) ps"
proof -
  let ?reply = "u32_be (word_of_nat (length actions)) @ concat (map framed ps)"
  obtain ts' where r: "read_frame_poll (deadline_ns wall_ms) (x_pipe io) (x_reads io) = (Inr ?reply, [], ts')"
    using good_io_read [OF assms(1)] by blast
  obtain tw where w: "write_all_poll (deadline_ns wall_ms) (batch_request actions) (x_writes io) = (Inr (), batch_request actions, tw)"
    using assms(1) write_all_poll_enough [of "deadline_ns wall_ms" "x_writes io" "batch_request actions"]
    by (auto simp: good_io_def)
  have "u32be_at ?reply 0 = Some (length actions)" using assms(3) by (simp add: u32be_at_def unat_len32)
  moreover have "batch_outcomes json (length actions) ?reply 4 = map (tick_outcome json) ps"
    using batch_outcomes_frames [OF assms(4), of "u32_be (word_of_nat (length actions))"] assms(2) by simp
  ultimately show ?thesis using w r assms(2) by (simp add: worker_exchange_batch_def Let_def)
qed

text \<open>
  C12. Batched stepping is an optimisation only: when the pipes work and every tick is readable, the
  outcomes of one batched exchange are those of the single exchanges with the same actions, and the
  worker ends in the same state.
\<close>

theorem batch_exchange_equals_single_exchanges:
  assumes "single_rounds cfg actions st = Some (payloads, st')"
    and "\<forall>a\<in>set actions. a \<noteq> [] \<and> length a < 2 ^ 32 - 2" "length actions < 2 ^ 32"
    and "shim_round cfg (batch_request actions) st = Responds reply [] st''"
    and "good_io wall_ms (batch_request actions) reply io"
    and "length ios = length actions" "\<forall>i<length actions. good_io wall_ms (framed (actions ! i)) (payloads ! i) (ios ! i)"
    and "\<forall>p\<in>set payloads. \<exists>t. tick_outcome json p = Ticked t"
  shows "worker_exchange_batch json io actions wall_ms =
      map2 (\<lambda>sio a. fst (worker_exchange json sio a wall_ms)) ios actions \<and> st'' = st'"
proof -
  have len: "length payloads = length actions" by (rule single_rounds_length [OF assms(1)])
  have "respond (u32_be (word_of_nat (length actions)) @ concat (map framed payloads)) [] st' = Responds reply [] st''"
    using single_rounds_batch [OF assms(1-3), of "[]"] assms(4) by simp
  then have reply: "reply = u32_be (word_of_nat (length actions)) @ concat (map framed payloads)" "st'' = st'"
    by (auto simp: respond_def split: if_splits)
  have "worker_exchange_batch json io actions wall_ms = map (tick_outcome json) payloads"
    using assms(5) len assms(3,8) single_rounds_steps [OF assms(1,2)] unfolding reply(1)
    by (intro exchange_batch_good) auto
  also have "\<dots> = map2 (\<lambda>sio a. fst (worker_exchange json sio a wall_ms)) ios actions"
    using assms(6,7) len by (intro nth_equalityI) (auto simp: exchange_good)
  finally show ?thesis using reply(2) by simp
qed

definition demo_exchange :: "byte list \<Rightarrow> byte list \<Rightarrow> exchange_io" where
  "demo_exchange request payload =
     \<lparr>x_writes = replicate (length request) steady_turn, x_reads = replicate (4 + length payload) steady_turn,
      x_pipe = framed payload\<rparr>"

lemma deadline_pos: "0 < deadline_ns w"
proof -
  have "1 \<le> max w 1" by simp
  then have "unat (1 :: u64) \<le> unat (max w 1)" by (rule word_le_nat_alt [THEN iffD1])
  then show ?thesis by (simp add: deadline_ns_def)
qed

lemma demo_exchange_good: "length payload \<le> MAX_WORKER_FRAME \<Longrightarrow> good_io w request payload (demo_exchange request payload)"
  by (simp add: good_io_def demo_exchange_def list_all_iff steady_turn_good deadline_pos)

lemma demo_tick_readable: "\<exists>t. tick_outcome json (demo_tick n) = Ticked t"
  using parse_packed_tick [of "[]" None json 0 False False False "[word_of_nat n]"]
  by (simp add: tick_outcome_def demo_tick_def)

theorem batch_exchange_equals_single_exchanges_witness:
  "worker_exchange_batch (\<lambda>_. Inl ''e'')
      (demo_exchange (batch_request [[1], [2]]) (u32_be (word_of_nat 2) @ concat (map framed [demo_tick 0, demo_tick 1]))) [[1], [2]] 1000 =
    map2 (\<lambda>sio a. fst (worker_exchange (\<lambda>_. Inl ''e'') sio a 1000))
      [demo_exchange (framed [1]) (demo_tick 0), demo_exchange (framed [2]) (demo_tick 1)] [[1], [2]] \<and> demo_state 2 = demo_state 2"
proof (rule batch_exchange_equals_single_exchanges [OF demo_singles])
  show "shim_round demo_shim (batch_request [[1], [2]]) (demo_state 0) =
      Responds (u32_be (word_of_nat 2) @ concat (map framed [demo_tick 0, demo_tick 1])) [] (demo_state 2)"
    using single_rounds_batch [OF demo_singles, of "[]"] by (simp add: respond_def framed_def)
  show "\<forall>i<length [[1 :: byte], [2]]. good_io 1000 (framed ([[1], [2]] ! i)) ([demo_tick 0, demo_tick 1] ! i)
      ([demo_exchange (framed [1]) (demo_tick 0), demo_exchange (framed [2]) (demo_tick 1)] ! i)"
    by (auto simp: less_Suc_eq demo_exchange_good MAX_WORKER_FRAME_def)
qed (auto simp: demo_exchange_good demo_tick_readable MAX_WORKER_FRAME_def framed_def)

section \<open>Failures of the environment\<close>





lemma round_boot:
  "shim_round cfg (framed [] @ rest) st =
    (case boot_tick cfg (sh_file st) (sh_env st) of (r, e) \<Rightarrow>
       (case answer r of Inl x \<Rightarrow> Dies x (st\<lparr>sh_env := e\<rparr>) | Inr body \<Rightarrow> respond body rest (st\<lparr>sh_env := e\<rparr>)))"
proof -
  have "BATCH_SENTINEL \<noteq> 0" "SNAPSHOT_SENTINEL \<noteq> 0" by (simp_all add: BATCH_SENTINEL_def SNAPSHOT_SENTINEL_def)
  then show ?thesis
    by (auto simp: shim_round_def framed_def single_request_def Let_def split: prod.splits sum.splits)
qed

text \<open>
  An empty action means two things: as a single request it resets (or resumes) the environment,
  inside a batch it is a step with an empty action.
\<close>

theorem empty_action_resets_or_steps:
  assumes "step_frame cfg [] st = (Inr body, st1)" "length body + 8 < 2 ^ 32"
  shows "shim_round cfg (batch_request [[]] @ rest) st = Responds (u32_be 1 @ framed body) rest st1"
    and "shim_round cfg (framed [] @ rest) st =
      (case boot_tick cfg (sh_file st) (sh_env st) of (r, e) \<Rightarrow>
         (case answer r of Inl x \<Rightarrow> Dies x (st\<lparr>sh_env := e\<rparr>) | Inr b \<Rightarrow> respond b rest (st\<lparr>sh_env := e\<rparr>)))"
  using round_batch [of cfg "[[]]" st "[body]" st1 rest] assms round_boot [of cfg rest st]
  by (simp_all add: respond_def framed_def)

text \<open>
  A failing \<^verbatim>\<open>save()\<close> destroys the checkpoint that was there: the file is emptied before \<^verbatim>\<open>save()\<close> runs,
  so a snapshot request whose \<^verbatim>\<open>save()\<close> raises leaves an empty file, and the next worker that resumes
  from it finds nothing to load and resets the environment instead.
\<close>

theorem failed_save_destroys_checkpoint:
  assumes "save_target cfg = Some save" "sc_state_opens cfg" "save (sh_env st) = (Inl (PyException tb, []), e)"
    and "sc_resume cfg2" "restore_target cfg2 = Some (restore, observe)" "restore [] e0 = (Inl (PyException tb2), e1)"
  shows "sh_file (snd (snapshot_tick cfg st)) = Some [] \<and>
    boot_tick cfg2 (sh_file (snd (snapshot_tick cfg st))) e0 = reset_tick cfg2 e1"
proof -
  have "save_state cfg True st = (Inr False, st\<lparr>sh_env := e, sh_file := Some []\<rparr>)"
    using assms(1-3) by (simp add: save_state_def)
  then have "sh_file (snd (snapshot_tick cfg st)) = Some []"
    by (simp add: snapshot_tick_def split: prod.split sum.split)
  with assms(4-6) show ?thesis by (simp add: boot_tick_def or_else_def py_bind_def)
qed

definition bad_save_shim :: "nat shim_config" where
  "bad_save_shim = demo_shim\<lparr>sc_resume := True, sc_mod := demo_env\<lparr>
     pe_save := Some (\<lambda>n. (Inl (PyException ''disk full'', []), n)),
     pe_restore := Some (\<lambda>d n. if d = [] then (Inl (PyException ''EOFError''), n) else (Inr (), length d))\<rparr>\<rparr>"

theorem failed_save_destroys_checkpoint_witness:
  "sh_file (snd (snapshot_tick bad_save_shim ((demo_state 3)\<lparr>sh_file := Some [1, 2, 3]\<rparr>))) = Some [] \<and>
    boot_tick bad_save_shim (sh_file (snd (snapshot_tick bad_save_shim ((demo_state 3)\<lparr>sh_file := Some [1, 2, 3]\<rparr>)))) 0 =
      reset_tick bad_save_shim 0"
  by (rule failed_save_destroys_checkpoint [where ?e0.0 = 0 and e = 3 and tb = "''disk full''" and ?tb2.0 = "''EOFError''"
      and save = "\<lambda>n. (Inl (PyException ''disk full'', []), n)" and observe = "Some (\<lambda>n. (Inr (PyList []), n))"
      and restore = "\<lambda>d n. if d = [] then (Inl (PyException ''EOFError''), n) else (Inr (), length d)"])
    (simp_all add: bad_save_shim_def demo_shim_def demo_env_def demo_state_def save_target_def restore_target_def)

text \<open>
  A resumed episode needs \<^verbatim>\<open>observe()\<close> to return bytes: the resume path uses its value as it is, while
  a snapshot converts it. An environment whose \<^verbatim>\<open>observe()\<close> returns a list can be snapshotted but kills
  its worker when it is resumed.
\<close>

theorem resume_with_plain_observation_dies:
  assumes "sc_resume cfg" "sh_file st = Some data" "restore_target cfg = Some (restore, Some observe)"
    and "restore data (sh_env st) = (Inr (), e1)" "observe e1 = (Inr (PyList vs), e2)"
  shows "\<exists>x. shim_round cfg (framed [] @ rest) st = Dies x (st\<lparr>sh_env := e2\<rparr>)"
proof -
  have "boot_tick cfg (sh_file st) (sh_env st) = (Inr (PyList vs, [(''resumed'', ''true'')]), e2)"
    using assms by (simp add: boot_tick_def or_else_def py_bind_def py_pure_def)
  then show ?thesis by (simp add: round_boot)
qed

theorem resume_with_plain_observation_dies_witness:
  "\<exists>x. shim_round (demo_shim\<lparr>sc_resume := True\<rparr>) (framed [] @ []) ((demo_state 0)\<lparr>sh_file := Some [1]\<rparr>) =
    Dies x (((demo_state 0)\<lparr>sh_file := Some [1]\<rparr>)\<lparr>sh_env := 1\<rparr>)"
  by (rule resume_with_plain_observation_dies [where restore = "\<lambda>d n. (Inr (), length d)" and ?e1.0 = 1 and vs = "[]"
      and observe = "\<lambda>n. (Inr (PyList []), n)" and data = "[1]"])
    (simp_all add: demo_shim_def demo_env_def demo_state_def restore_target_def)

end
