(* ===== verification/RB_Episodes.thy ===== *)
theory RB_Episodes
  imports RB_Shim RB_Cgroup
begin

text \<open>
  The episodes of the RL mode (\<^verbatim>\<open>engine/src/modes/rl.rs\<close>, \<^verbatim>\<open>engine/src/state.rs\<close>): stepping, batched
  stepping, snapshots and closing, with the worker a running episode owns. The clock, the addition of
  rewards and the JSON readers are arguments; an exchange gets the pipe turns of its own.
\<close>

section \<open>State\<close>

text \<open>A live worker is its cgroup; its pipes appear as the turns of the exchanges.\<close>

record worker =
  wk_cg :: cgroup

record episode_entry =
  ee_settings :: settings
  ee_worker :: "worker option"
  ee_metrics :: episode_metrics
  ee_created_at_ms :: u64
  ee_resumed :: bool
  ee_resumed_notified :: bool

record rl_state =
  rl_episodes :: "string \<rightharpoonup> episode_entry"
  rl_fs :: cgfs

record rl_io =
  ri_cg :: cg_env
  ri_json :: "byte list \<Rightarrow> string + tick"
  ri_obs_meta :: "string \<Rightarrow> smap option"
  ri_fadd :: "f64 \<Rightarrow> f64 \<Rightarrow> f64"
  ri_now_ms :: u64
  ri_exchange :: exchange_io

text \<open>\<^verbatim>\<open>Drop for Worker\<close>: kill, reap, wait until the cgroup is empty, remove it.\<close>

definition drop_worker :: "cg_env \<Rightarrow> worker \<Rightarrow> cgfs \<Rightarrow> cgfs" where
  "drop_worker env w fs =
     (case cg_kill_all env (wk_cg w) fs of
        (_, cg, fs1) \<Rightarrow> snd (cg_remove cg (snd (cg_wait_empty env cg fs1))))"

definition drop_worker_opt :: "cg_env \<Rightarrow> worker option \<Rightarrow> cgfs \<Rightarrow> cgfs" where
  "drop_worker_opt env wo fs = (case wo of Some w \<Rightarrow> drop_worker env w fs | None \<Rightarrow> fs)"

definition elapsed_ms_since :: "u64 \<Rightarrow> u64 \<Rightarrow> u64" where
  "elapsed_ms_since now created = (if created \<le> now then now - created else 0)"

definition update_entry :: "string \<Rightarrow> (episode_entry \<Rightarrow> episode_entry) \<Rightarrow> rl_state \<Rightarrow> rl_state" where
  "update_entry eid f st =
     (case rl_episodes st eid of
        Some en \<Rightarrow> st\<lparr>rl_episodes := (rl_episodes st)(eid \<mapsto> f en)\<rparr>
      | None \<Rightarrow> st)"

text \<open>\<^verbatim>\<open>kill_locked\<close>: a worker that is still in the entry is dropped.\<close>

definition kill_locked :: "cg_env \<Rightarrow> string \<Rightarrow> rl_state \<Rightarrow> rl_state" where
  "kill_locked env eid st =
     (case rl_episodes st eid of
        Some en \<Rightarrow>
          st\<lparr>rl_episodes := (rl_episodes st)(eid \<mapsto> en\<lparr>ee_worker := None\<rparr>),
             rl_fs := drop_worker_opt env (ee_worker en) (rl_fs st)\<rparr>
      | None \<Rightarrow> st)"

definition send_step ::
    "string \<Rightarrow> string \<Rightarrow> byte list \<Rightarrow> f64 \<Rightarrow> bool \<Rightarrow> bool \<Rightarrow> bool \<Rightarrow> smap \<Rightarrow> smap option \<Rightarrow> response" where
  "send_step rid eid observation reward fin terminated truncated info obs_meta =
     RlStep eid \<lparr>t_request_id = rid, t_observation = observation, t_reward = reward, t_done = fin,
       t_terminated = terminated, t_truncated = truncated, t_info = info, t_obs_meta = obs_meta\<rparr>"

definition iter_info :: "(string \<times> string) list \<Rightarrow> smap" where
  "iter_info pairs = fold (\<lambda>(k, v). bt_insert k v) pairs []"

definition not_started :: "string \<Rightarrow> string \<Rightarrow> response" where
  "not_started rid eid = send_step rid eid [] 0 True False False (iter_info [(''error'', ''episode not started'')]) None"

definition with_error :: "string option \<Rightarrow> smap \<Rightarrow> smap" where
  "with_error err info = (case err of Some e \<Rightarrow> bt_or_insert ''error'' e info | None \<Rightarrow> info)"

definition opt_list :: "'a list option \<Rightarrow> 'a list" where
  "opt_list x = (case x of Some l \<Rightarrow> l | None \<Rightarrow> [])"

section \<open>One step\<close>

definition step_entry :: "rl_io \<Rightarrow> tick \<Rightarrow> worker \<Rightarrow> episode_entry \<Rightarrow> episode_entry" where
  "step_entry io t w en =
     en\<lparr>ee_metrics := \<lparr>m_steps = m_steps (ee_metrics en) + 1,
          m_reward_sum = ri_fadd io (m_reward_sum (ee_metrics en)) (k_reward t),
          m_elapsed_ms = elapsed_ms_since (ri_now_ms io) (ee_created_at_ms en)\<rparr>,
        ee_worker := Some w,
        ee_resumed_notified := (ee_resumed_notified en \<or> ee_resumed en \<and> k_error t = None)\<rparr>"

definition step_info :: "tick \<Rightarrow> episode_entry \<Rightarrow> smap" where
  "step_info t en =
     (let info = with_error (k_error t) (opt_list (k_info t)) in
      if ee_resumed en \<and> \<not> ee_resumed_notified en \<and> k_error t = None
      then bt_or_insert ''resumed'' ''true'' info else info)"

definition rl_step :: "rl_io \<Rightarrow> string \<Rightarrow> string \<Rightarrow> byte list \<Rightarrow> rl_state \<Rightarrow> response \<times> rl_state" where
  "rl_step io rid eid action st =
     (case rl_episodes st eid of
        None \<Rightarrow> (not_started rid eid, st)
      | Some en \<Rightarrow>
          (case ee_worker en of
             None \<Rightarrow> (not_started rid eid, st)
           | Some w \<Rightarrow>
               let wall_ms = l_wall_ms (s_limits (ee_settings en));
                   st1 = update_entry eid (\<lambda>en. en\<lparr>ee_worker := None\<rparr>) st
               in case fst (worker_exchange (ri_json io) (ri_exchange io) action wall_ms) of
                    Ticked t \<Rightarrow>
                      (send_step rid eid (opt_list (k_obs t)) (k_reward t) (k_done t) (k_terminated t)
                         (k_truncated t) (step_info t en) (k_obs_meta t),
                       update_entry eid (step_entry io t w) st1)
                  | StepTimeout \<Rightarrow>
                      (send_step rid eid [] 0 True True False
                         (iter_info [(''error'', ''step timeout''), (''timeout_ms'', decimal (unat wall_ms))]) None,
                       kill_locked (ri_cg io) eid (st1\<lparr>rl_fs := drop_worker (ri_cg io) w (rl_fs st1)\<rparr>))
                  | Dead reason \<Rightarrow>
                      (send_step rid eid [] 0 True True False (iter_info [(''error'', reason)]) None,
                       kill_locked (ri_cg io) eid (st1\<lparr>rl_fs := drop_worker (ri_cg io) w (rl_fs st1)\<rparr>))))"

definition rl_snapshot :: "rl_io \<Rightarrow> string \<Rightarrow> string \<Rightarrow> rl_state \<Rightarrow> response \<times> rl_state" where
  "rl_snapshot io rid eid st =
     (case rl_episodes st eid of
        None \<Rightarrow> (not_started rid eid, st)
      | Some en \<Rightarrow>
          (case ee_worker en of
             None \<Rightarrow> (not_started rid eid, st)
           | Some w \<Rightarrow>
               let wall_ms = l_wall_ms (s_limits (ee_settings en));
                   st1 = update_entry eid (\<lambda>en. en\<lparr>ee_worker := None\<rparr>) st;
                   dropped = kill_locked (ri_cg io) eid (st1\<lparr>rl_fs := drop_worker (ri_cg io) w (rl_fs st1)\<rparr>)
               in case fst (worker_snapshot (ri_json io) (ri_exchange io) wall_ms) of
                    Ticked t \<Rightarrow>
                      (send_step rid eid (opt_list (k_obs t)) 0 (k_done t) (k_terminated t) (k_truncated t)
                         (with_error (k_error t) (opt_list (k_info t))) None,
                       update_entry eid (\<lambda>en. en\<lparr>ee_worker := Some w\<rparr>) st1)
                  | StepTimeout \<Rightarrow>
                      (send_step rid eid [] 0 True True False (iter_info [(''error'', ''snapshot timeout'')]) None, dropped)
                  | Dead reason \<Rightarrow>
                      (send_step rid eid [] 0 True True False (iter_info [(''error'', reason)]) None, dropped)))"

text \<open>
  \<^verbatim>\<open>close\<close> removes the entry and drops it. (The replacement worker it schedules is a task of its own.)
\<close>

definition rl_close :: "rl_io \<Rightarrow> string \<Rightarrow> string \<Rightarrow> rl_state \<Rightarrow> response \<times> rl_state" where
  "rl_close io rid eid st =
     (let wo = (case rl_episodes st eid of Some en \<Rightarrow> ee_worker en | None \<Rightarrow> None) in
      (send_step rid eid [] 0 True False False
         (iter_info [(''closed'', if wo \<noteq> None then ''true'' else ''already'')]) None,
       st\<lparr>rl_episodes := (rl_episodes st)(eid := None), rl_fs := drop_worker_opt (ri_cg io) wo (rl_fs st)\<rparr>))"

section \<open>Batches\<close>

record batch_acc =
  ba_ticks :: "rl_tick list"
  ba_reward :: f64
  ba_steps :: u64
  ba_alive :: bool

definition batch_id :: "string \<Rightarrow> nat \<Rightarrow> string" where
  "batch_id rid i = rid @ ''-'' @ decimal i"

definition failed_tick :: "string \<Rightarrow> string \<Rightarrow> rl_tick" where
  "failed_tick req_id reason = (rl_tick_empty req_id)\<lparr>t_info := bt_insert ''error'' reason []\<rparr>"

definition batch_tick :: "(string \<Rightarrow> smap option) \<Rightarrow> string \<Rightarrow> tick \<Rightarrow> rl_tick" where
  "batch_tick obs_meta_of req_id t =
     (case (case k_info t of Some info \<Rightarrow> split_obs_meta obs_meta_of info | None \<Rightarrow> ([], k_obs_meta t)) of
        (info, obs_meta) \<Rightarrow>
          \<lparr>t_request_id = req_id, t_observation = opt_list (k_obs t), t_reward = k_reward t,
           t_done = (k_done t \<or> k_terminated t \<or> k_truncated t),
           t_terminated = (k_terminated t \<or> \<not> k_truncated t \<and> k_done t),
           t_truncated = k_truncated t, t_info = with_error (k_error t) info, t_obs_meta = obs_meta\<rparr>)"

fun batch_loop :: "rl_io \<Rightarrow> string \<Rightarrow> nat \<Rightarrow> step_outcome list \<Rightarrow> batch_acc \<Rightarrow> batch_acc" where
  "batch_loop io rid i [] acc = acc"
| "batch_loop io rid i (out # outs) acc =
     batch_loop io rid (i + 1) outs
       (if \<not> ba_alive acc
        then acc\<lparr>ba_ticks := ba_ticks acc @ [failed_tick (batch_id rid i) ''episode not started'']\<rparr>
        else case out of
          Ticked t \<Rightarrow>
            acc\<lparr>ba_ticks := ba_ticks acc @ [batch_tick (ri_obs_meta io) (batch_id rid i) t],
                ba_reward := ri_fadd io (ba_reward acc) (k_reward t), ba_steps := ba_steps acc + 1\<rparr>
        | StepTimeout \<Rightarrow>
            acc\<lparr>ba_ticks := ba_ticks acc @ [failed_tick (batch_id rid i) ''step timeout''], ba_alive := False\<rparr>
        | Dead reason \<Rightarrow>
            acc\<lparr>ba_ticks := ba_ticks acc @ [failed_tick (batch_id rid i) reason], ba_alive := False\<rparr>)"

definition batch_start :: batch_acc where
  "batch_start = \<lparr>ba_ticks = [], ba_reward = 0, ba_steps = 0, ba_alive = True\<rparr>"

text \<open>The resume announcement on the first tick of a batch.\<close>

definition announce :: "rl_tick list \<Rightarrow> rl_tick list" where
  "announce ticks =
     (case ticks of
        [] \<Rightarrow> []
      | first # rest \<Rightarrow>
          (if bt_get (t_info first) ''error'' = None
           then first\<lparr>t_info := bt_or_insert ''resumed'' ''true'' (t_info first)\<rparr> else first) # rest)"

definition metrics_now :: "rl_io \<Rightarrow> rl_state \<Rightarrow> string \<Rightarrow> episode_metrics" where
  "metrics_now io st eid =
     (case rl_episodes st eid of
        Some en \<Rightarrow> (ee_metrics en)\<lparr>m_elapsed_ms := elapsed_ms_since (ri_now_ms io) (ee_created_at_ms en)\<rparr>
      | None \<Rightarrow> episode_metrics_default)"

definition batch_metrics :: "rl_io \<Rightarrow> batch_acc \<Rightarrow> episode_entry \<Rightarrow> episode_metrics" where
  "batch_metrics io acc en =
     \<lparr>m_steps = m_steps (ee_metrics en) + ba_steps acc,
      m_reward_sum = ri_fadd io (m_reward_sum (ee_metrics en)) (ba_reward acc),
      m_elapsed_ms = elapsed_ms_since (ri_now_ms io) (ee_created_at_ms en)\<rparr>"

definition steps_batch :: "rl_io \<Rightarrow> string \<Rightarrow> string \<Rightarrow> byte list list \<Rightarrow> rl_state \<Rightarrow> response \<times> rl_state" where
  "steps_batch io rid eid actions st =
     (if actions = [] then (RlSteps rid eid [] (metrics_now io st eid), st)
      else case (case rl_episodes st eid of Some en \<Rightarrow> map_option (Pair en) (ee_worker en) | None \<Rightarrow> None) of
        None \<Rightarrow>
          (RlSteps rid eid
             (map (\<lambda>i. failed_tick (batch_id rid i) ''episode not started'') [0..<length actions])
             (metrics_now io st eid), st)
      | Some (en, w) \<Rightarrow>
          let outcomes = worker_exchange_batch (ri_json io) (ri_exchange io) actions (l_wall_ms (s_limits (ee_settings en)));
              acc = batch_loop io rid 0 outcomes batch_start;
              notify = (ee_resumed en \<and> \<not> ee_resumed_notified en \<and> ba_ticks acc \<noteq> [] \<and> ba_alive acc);
              ticks = (if notify then announce (ba_ticks acc) else ba_ticks acc);
              en1 = en\<lparr>ee_worker := (if ba_alive acc then Some w else None), ee_metrics := batch_metrics io acc en,
                       ee_resumed_notified := (ee_resumed_notified en \<or> notify)\<rparr>;
              st1 = st\<lparr>rl_episodes := (rl_episodes st)(eid \<mapsto> en1),
                       rl_fs := (if ba_alive acc then rl_fs st else drop_worker (ri_cg io) w (rl_fs st))\<rparr>
          in (RlSteps rid eid ticks (ee_metrics en1),
              if ba_alive acc then st1 else kill_locked (ri_cg io) eid st1))"

section \<open>An episode as an abstract machine\<close>

text \<open>
  What matters of an episode: its worker, the number of steps it has taken, and the cgroups. A tick
  counts one step; anything else ends the worker and counts nothing.
\<close>

type_synonym episode_view = "(worker option \<times> u64) option \<times> cgfs"

definition view :: "string \<Rightarrow> rl_state \<Rightarrow> episode_view" where
  "view eid st = (map_option (\<lambda>en. (ee_worker en, m_steps (ee_metrics en))) (rl_episodes st eid), rl_fs st)"

fun abs_step :: "cg_env \<Rightarrow> step_outcome \<Rightarrow> episode_view \<Rightarrow> episode_view" where
  "abs_step env (Ticked t) (Some (Some w, n), fs) = (Some (Some w, n + 1), fs)"
| "abs_step env out (Some (Some w, n), fs) = (Some (None, n), drop_worker env w fs)"
| "abs_step env out (Some (None, n), fs) = (Some (None, n), fs)"
| "abs_step env out (None, fs) = (None, fs)"

lemma update_entry_other [simp]: "eid \<noteq> e \<Longrightarrow> rl_episodes (update_entry eid f st) e = rl_episodes st e"
  by (simp add: update_entry_def split: option.split)

lemma update_entry_same [simp]: "rl_episodes (update_entry eid f st) eid = map_option f (rl_episodes st eid)"
  by (simp add: update_entry_def split: option.split)

lemma update_entry_fs [simp]: "rl_fs (update_entry eid f st) = rl_fs st"
  by (simp add: update_entry_def split: option.split)

lemma kill_locked_other [simp]: "eid \<noteq> e \<Longrightarrow> rl_episodes (kill_locked env eid st) e = rl_episodes st e"
  by (simp add: kill_locked_def split: option.split)

lemma kill_locked_none:
  "rl_episodes st eid = Some en \<Longrightarrow> ee_worker en = None \<Longrightarrow>
    rl_episodes (kill_locked env eid st) eid = Some en \<and> rl_fs (kill_locked env eid st) = rl_fs st"
  by (simp add: kill_locked_def drop_worker_opt_def)

lemma step_view:
  "view eid (snd (rl_step io rid eid action st)) =
    abs_step (ri_cg io)
      (fst (worker_exchange (ri_json io) (ri_exchange io) action
        (case rl_episodes st eid of Some en \<Rightarrow> l_wall_ms (s_limits (ee_settings en)) | None \<Rightarrow> 5000)))
      (view eid st)"
proof (cases "rl_episodes st eid")
  case (Some en)
  show ?thesis
  proof (cases "ee_worker en")
    case (Some w)
    let ?out = "fst (worker_exchange (ri_json io) (ri_exchange io) action (l_wall_ms (s_limits (ee_settings en))))"
    let ?st = "(update_entry eid (\<lambda>en. en\<lparr>ee_worker := None\<rparr>) st)\<lparr>rl_fs := drop_worker (ri_cg io) w (rl_fs st)\<rparr>"
    have k: "rl_episodes (kill_locked (ri_cg io) eid ?st) eid = Some (en\<lparr>ee_worker := None\<rparr>)"
        "rl_fs (kill_locked (ri_cg io) eid ?st) = drop_worker (ri_cg io) w (rl_fs st)"
      using kill_locked_none [of ?st eid "en\<lparr>ee_worker := None\<rparr>"] \<open>rl_episodes st eid = Some en\<close> by auto
    from \<open>rl_episodes st eid = Some en\<close> Some show ?thesis
      by (cases ?out) (simp_all add: rl_step_def view_def Let_def step_entry_def k)
  qed (use Some in \<open>simp add: rl_step_def view_def\<close>)
qed (simp add: rl_step_def view_def)

lemma batch_loop_dead:
  "\<not> ba_alive acc \<Longrightarrow> batch_loop io rid i outs acc =
    acc\<lparr>ba_ticks := ba_ticks acc @ map (\<lambda>j. failed_tick (batch_id rid j) ''episode not started'') [i..<i + length outs]\<rparr>"
  by (induction io rid i outs acc rule: batch_loop.induct) (simp_all add: upt_conv_Cons del: upt_Suc)

lemma batch_loop_view:
  assumes "ba_alive acc" "batch_loop io rid i outs acc = acc'"
  shows "fold (abs_step env) outs (Some (Some w, n + ba_steps acc), fs) =
    (Some (if ba_alive acc' then Some w else None, n + ba_steps acc'), if ba_alive acc' then fs else drop_worker env w fs)"
  using assms
proof (induction io rid i outs acc rule: batch_loop.induct)
  case (2 io rid i out outs acc)
  show ?case
  proof (cases out)
    case (Ticked t)
    with "2.IH" "2.prems" show ?thesis by (simp add: add.assoc)
  next
    case StepTimeout
    have "fold (abs_step env) outs (Some (None, m), g) = (Some (None, m), g)" for m g
      by (induction outs) simp_all
    with StepTimeout "2.prems" batch_loop_dead show ?thesis by auto
  next
    case (Dead r)
    have "fold (abs_step env) outs (Some (None, m), g) = (Some (None, m), g)" for m g
      by (induction outs) simp_all
    with Dead "2.prems" batch_loop_dead show ?thesis by auto
  qed
qed simp

lemma fold_abs_dead: "fold (abs_step env) outs (Some (None, m), g) = (Some (None, m), g)"
  by (induction outs) simp_all

lemma fold_abs_absent: "fold (abs_step env) outs (None, g) = (None, g)"
  by (induction outs) simp_all

definition batch_wall :: "string \<Rightarrow> rl_state \<Rightarrow> u64" where
  "batch_wall eid st = (case rl_episodes st eid of Some en \<Rightarrow> l_wall_ms (s_limits (ee_settings en)) | None \<Rightarrow> 5000)"

lemma batch_view:
  "view eid (snd (steps_batch io rid eid actions st)) =
    fold (abs_step (ri_cg io))
      (worker_exchange_batch (ri_json io) (ri_exchange io) actions (batch_wall eid st)) (view eid st)"
proof (cases "actions = []")
  case True
  have "length (worker_exchange_batch (ri_json io) (ri_exchange io) [] (batch_wall eid st)) = 0"
    using batch_length by (metis list.size(3))
  with True show ?thesis by (simp add: steps_batch_def)
next
  case False
  show ?thesis
  proof (cases "rl_episodes st eid")
    case None
    with False show ?thesis by (simp add: steps_batch_def view_def fold_abs_absent)
  next
    case (Some en)
    show ?thesis
    proof (cases "ee_worker en")
      case None
      with False Some show ?thesis by (simp add: steps_batch_def view_def fold_abs_dead)
    next
      case w: (Some w)
      let ?outs = "worker_exchange_batch (ri_json io) (ri_exchange io) actions (l_wall_ms (s_limits (ee_settings en)))"
      let ?acc = "batch_loop io rid 0 ?outs batch_start"
      have v: "fold (abs_step (ri_cg io)) ?outs (Some (Some w, m_steps (ee_metrics en)), rl_fs st) =
          (Some (if ba_alive ?acc then Some w else None, m_steps (ee_metrics en) + ba_steps ?acc),
           if ba_alive ?acc then rl_fs st else drop_worker (ri_cg io) w (rl_fs st))"
        using batch_loop_view [of batch_start io rid 0 ?outs ?acc "ri_cg io" w "m_steps (ee_metrics en)" "rl_fs st"]
        by (simp add: batch_start_def)
      show ?thesis
      proof (cases "ba_alive ?acc")
        case True
        with v Some w False show ?thesis by (simp add: steps_batch_def view_def Let_def batch_wall_def batch_metrics_def)
      next
        case dead: False
        with v Some w False show ?thesis
          by (simp add: steps_batch_def view_def Let_def batch_wall_def batch_metrics_def kill_locked_def drop_worker_opt_def)
      qed
    qed
  qed
qed

text \<open>
  C11. Single steps and batches refine one abstract episode: seen through its worker, its step count
  and the cgroups, a step is one abstract step with the outcome of its exchange, and a batch is the
  fold of the abstract step over the outcomes of the batched exchange, in order. A tick counts one
  step; a timeout or a dead worker kills the worker and counts nothing, and everything after it
  changes nothing.
\<close>

theorem steps_refine_episode:
  "view eid (snd (rl_step io rid eid action st)) =
     abs_step (ri_cg io) (fst (worker_exchange (ri_json io) (ri_exchange io) action (batch_wall eid st))) (view eid st) \<and>
   view eid (snd (steps_batch io rid eid actions st)) =
     fold (abs_step (ri_cg io)) (worker_exchange_batch (ri_json io) (ri_exchange io) actions (batch_wall eid st)) (view eid st)"
  using step_view [of eid io rid action st] batch_view [of eid io rid actions st] by (simp add: batch_wall_def)

text \<open>The ticks of a batch.\<close>

fun is_tick :: "step_outcome \<Rightarrow> bool" where
  "is_tick (Ticked _) = True"
| "is_tick _ = False"

lemma batch_loop_ids:
  "map t_request_id (ba_ticks (batch_loop io rid i outs acc)) =
    map t_request_id (ba_ticks acc) @ map (batch_id rid) [i..<i + length outs]"
proof (induction io rid i outs acc rule: batch_loop.induct)
  case (2 io rid i out outs acc)
  have "t_request_id (batch_tick f x t) = x" for f x t by (simp add: batch_tick_def split: prod.split)
  then show ?case using 2
    by (simp add: upt_conv_Cons failed_tick_def rl_tick_empty_def del: upt_Suc split: step_outcome.split)
qed simp

lemma batch_loop_steps:
  "ba_alive acc \<Longrightarrow> ba_steps (batch_loop io rid i outs acc) = ba_steps acc + word_of_nat (length (takeWhile is_tick outs)) \<and>
    ba_alive (batch_loop io rid i outs acc) = list_all is_tick outs"
proof (induction io rid i outs acc rule: batch_loop.induct)
  case (2 io rid i out outs acc)
  then show ?case by (cases out) (simp_all add: batch_loop_dead add.commute add.left_commute)
qed simp

lemma announce_ids [simp]: "map t_request_id (announce ticks) = map t_request_id ticks"
  by (simp add: announce_def split: list.split)

text \<open>
  C32. The caller of a batch can match and count: the response carries one tick per action, numbered
  \<open>id-0\<close>, \<open>id-1\<close>, \<open>\<dots>\<close> in the order of the actions, the step counter has grown by exactly the number of
  ticks the worker delivered before the first failure, and the episode still has its worker exactly
  if there was no failure.
\<close>

theorem batch_response_accounting:
  assumes "actions \<noteq> []" "rl_episodes st eid = Some en" "ee_worker en = Some w"
    and "worker_exchange_batch (ri_json io) (ri_exchange io) actions (l_wall_ms (s_limits (ee_settings en))) = outcomes"
    and "steps_batch io rid eid actions st = (resp, st')"
  shows "\<exists>ticks metrics. resp = RlSteps rid eid ticks metrics \<and>
    map t_request_id ticks = map (batch_id rid) [0..<length actions] \<and>
    m_steps metrics = m_steps (ee_metrics en) + word_of_nat (length (takeWhile is_tick outcomes)) \<and>
    (\<exists>en'. rl_episodes st' eid = Some en' \<and> ee_metrics en' = metrics \<and>
       ee_worker en' = (if list_all is_tick outcomes then Some w else None))"
proof -
  let ?acc = "batch_loop io rid 0 outcomes batch_start"
  have len: "length outcomes = length actions"
    using assms(4) batch_length by blast
  have ids: "map t_request_id (ba_ticks ?acc) = map (batch_id rid) [0..<length actions]"
    using batch_loop_ids [of io rid 0 outcomes batch_start] len by (simp add: batch_start_def)
  have st: "ba_steps ?acc = word_of_nat (length (takeWhile is_tick outcomes))" "ba_alive ?acc = list_all is_tick outcomes"
    using batch_loop_steps [of batch_start io rid 0 outcomes] by (simp_all add: batch_start_def)
  have "kill_locked env eid (st\<lparr>rl_episodes := (rl_episodes st)(eid \<mapsto> en1), rl_fs := fs\<rparr>) =
      st\<lparr>rl_episodes := (rl_episodes st)(eid \<mapsto> en1), rl_fs := fs\<rparr>" if "ee_worker en1 = None" for env en1 fs
    using that by (cases en1) (simp add: kill_locked_def drop_worker_opt_def)
  then show ?thesis using assms ids st
    by (cases "ba_alive ?acc") (auto simp: steps_batch_def Let_def batch_metrics_def)
qed

definition demo_rl_io :: "exchange_io \<Rightarrow> rl_io" where
  "demo_rl_io x =
     \<lparr>ri_cg = all_ok, ri_json = (\<lambda>_. Inl ''e''), ri_obs_meta = (\<lambda>_. None), ri_fadd = (\<lambda>a b. a), ri_now_ms = 10,
      ri_exchange = x\<rparr>"

definition dead_pipe :: exchange_io where
  "dead_pipe = \<lparr>x_writes = [], x_reads = [], x_pipe = []\<rparr>"

definition demo_worker :: worker where
  "demo_worker = \<lparr>wk_cg = \<lparr>cg_path = ''/cg/a'', cg_swap = False, cg_killed = False\<rparr>\<rparr>"

definition demo_entry :: episode_entry where
  "demo_entry =
     \<lparr>ee_settings = minimal_settings, ee_worker = Some demo_worker, ee_metrics = episode_metrics_default,
      ee_created_at_ms = 0, ee_resumed = False, ee_resumed_notified = False\<rparr>"

definition demo_rl :: rl_state where
  "demo_rl = \<lparr>rl_episodes = [''ep'' \<mapsto> demo_entry], rl_fs = [''/cg/a'' \<mapsto> fresh_group\<lparr>kg_populated := True\<rparr>]\<rparr>"

lemma dead_pipe_times_out:
  "worker_exchange json dead_pipe a wall = (StepTimeout, [])"
  "worker_exchange_batch json dead_pipe as wall = replicate (length as) StepTimeout"
proof -
  have "u32_be w \<noteq> []" for w
  proof
    assume "u32_be w = []"
    then have "length (u32_be w) = 0" by simp
    then show False by simp
  qed
  then have h: "write_all_poll d (u32_be w @ xs) [] = (Inl PipeTimedOut, [], [])" for d w xs
    by (metis append_is_Nil_conv neq_Nil_conv write_all_poll.simps(2))
  show "worker_exchange json dead_pipe a wall = (StepTimeout, [])"
    using h [of _ _ "[]"] h writev_from_offsets [of 0 _ 0 a]
    by (simp add: worker_exchange_def worker_exchange_hdr_def dead_pipe_def Let_def)
  show "worker_exchange_batch json dead_pipe as wall = replicate (length as) StepTimeout"
    using h by (simp add: worker_exchange_batch_def batch_request_def dead_pipe_def Let_def)
qed

theorem batch_response_accounting_witness:
  "\<exists>ticks metrics. fst (steps_batch (demo_rl_io dead_pipe) ''r'' ''ep'' [[1], [2]] demo_rl) = RlSteps ''r'' ''ep'' ticks metrics \<and>
    map t_request_id ticks = map (batch_id ''r'') [0..<length [[1 :: byte], [2]]] \<and>
    m_steps metrics = m_steps (ee_metrics demo_entry) +
      word_of_nat (length (takeWhile is_tick (replicate (length [[1 :: byte], [2]]) StepTimeout))) \<and>
    (\<exists>en'. rl_episodes (snd (steps_batch (demo_rl_io dead_pipe) ''r'' ''ep'' [[1], [2]] demo_rl)) ''ep'' = Some en' \<and>
       ee_metrics en' = metrics \<and>
       ee_worker en' = (if list_all is_tick (replicate (length [[1 :: byte], [2]]) StepTimeout) then Some demo_worker else None))"
proof (rule batch_response_accounting)
  show "rl_episodes demo_rl ''ep'' = Some demo_entry" by (simp add: demo_rl_def)
  show "ee_worker demo_entry = Some demo_worker" by (simp add: demo_entry_def)
  show "worker_exchange_batch (ri_json (demo_rl_io dead_pipe)) (ri_exchange (demo_rl_io dead_pipe)) [[1], [2]]
      (l_wall_ms (s_limits (ee_settings demo_entry))) = replicate (length [[1 :: byte], [2]]) StepTimeout"
    by (simp only: demo_rl_io_def rl_io.simps dead_pipe_times_out(2))
qed simp_all

section \<open>Episodes over time\<close>

text \<open>The operations on running episodes, in any order and for any episode.\<close>

inductive rl_op :: "rl_state \<Rightarrow> rl_state \<Rightarrow> bool" where
  step: "rl_op st (snd (rl_step io rid eid action st))"
| batch: "rl_op st (snd (steps_batch io rid eid actions st))"
| snapshot: "rl_op st (snd (rl_snapshot io rid eid st))"
| close: "rl_op st (snd (rl_close io rid eid st))"

definition dead_or_gone :: "u64 \<Rightarrow> string \<Rightarrow> rl_state \<Rightarrow> bool" where
  "dead_or_gone n eid st \<longleftrightarrow>
     (case rl_episodes st eid of None \<Rightarrow> True | Some en \<Rightarrow> ee_worker en = None \<and> m_steps (ee_metrics en) = n)"

lemma rl_step_other: "e \<noteq> eid \<Longrightarrow> rl_episodes (snd (rl_step io rid eid action st)) e = rl_episodes st e"
  by (auto simp: rl_step_def Let_def split: option.split step_outcome.split)

lemma rl_snapshot_other: "e \<noteq> eid \<Longrightarrow> rl_episodes (snd (rl_snapshot io rid eid st)) e = rl_episodes st e"
  by (auto simp: rl_snapshot_def Let_def split: option.split step_outcome.split)

lemma steps_batch_other: "e \<noteq> eid \<Longrightarrow> rl_episodes (snd (steps_batch io rid eid actions st)) e = rl_episodes st e"
  by (auto simp: steps_batch_def Let_def split: option.split prod.split)

lemma dead_answers:
  assumes "dead_or_gone n eid st"
  shows "rl_step io rid eid action st = (not_started rid eid, st)" "rl_snapshot io rid eid st = (not_started rid eid, st)"
    "snd (steps_batch io rid eid actions st) = st"
  using assms by (auto simp: dead_or_gone_def rl_step_def rl_snapshot_def steps_batch_def split: option.splits)

lemma dead_or_gone_op:
  assumes "rl_op st st'" "dead_or_gone n e st"
  shows "dead_or_gone n e st'"
  using assms(1)
proof cases
  case (step io rid eid action)
  with assms(2) show ?thesis
    by (cases "e = eid") (simp_all add: dead_answers rl_step_other dead_or_gone_def [of n e "snd (rl_step io rid eid action st)"]
        dead_or_gone_def [of n e st, symmetric])
next
  case (batch io rid eid actions)
  with assms(2) show ?thesis
    by (cases "e = eid") (simp_all add: dead_answers steps_batch_other dead_or_gone_def [of n e "snd (steps_batch io rid eid actions st)"]
        dead_or_gone_def [of n e st, symmetric])
next
  case (snapshot io rid eid)
  with assms(2) show ?thesis
    by (cases "e = eid") (simp_all add: dead_answers rl_snapshot_other dead_or_gone_def [of n e "snd (rl_snapshot io rid eid st)"]
        dead_or_gone_def [of n e st, symmetric])
next
  case (close io rid eid)
  with assms(2) show ?thesis by (auto simp: dead_or_gone_def rl_close_def Let_def split: option.splits)
qed

text \<open>
  A dead episode stays dead: once an episode has lost its worker (a timeout, a crash, an unreadable
  answer) or is closed, no sequence of steps, batches, snapshots and closings, of this or of other
  episodes, revives it or moves its step counter; every later step and snapshot is answered with
  "episode not started" and changes nothing.
\<close>

theorem dead_episode_stays_dead:
  assumes "rl_op\<^sup>*\<^sup>* st st'" "dead_or_gone n eid st"
  shows "dead_or_gone n eid st' \<and> rl_step io rid eid action st' = (not_started rid eid, st') \<and>
    rl_snapshot io rid eid st' = (not_started rid eid, st')"
proof -
  have "dead_or_gone n eid st'"
    using assms by (induction rule: rtranclp_induct) (auto intro: dead_or_gone_op)
  then show ?thesis by (simp add: dead_answers)
qed

theorem dead_episode_stays_dead_witness:
  "dead_or_gone 0 ''ep'' (snd (rl_close (demo_rl_io dead_pipe) ''r'' ''ep'' (demo_rl\<lparr>rl_episodes := Map.empty\<rparr>))) \<and>
    rl_step (demo_rl_io dead_pipe) ''s'' ''ep'' [1] (snd (rl_close (demo_rl_io dead_pipe) ''r'' ''ep'' (demo_rl\<lparr>rl_episodes := Map.empty\<rparr>))) =
      (not_started ''s'' ''ep'', snd (rl_close (demo_rl_io dead_pipe) ''r'' ''ep'' (demo_rl\<lparr>rl_episodes := Map.empty\<rparr>))) \<and>
    rl_snapshot (demo_rl_io dead_pipe) ''s'' ''ep'' (snd (rl_close (demo_rl_io dead_pipe) ''r'' ''ep'' (demo_rl\<lparr>rl_episodes := Map.empty\<rparr>))) =
      (not_started ''s'' ''ep'', snd (rl_close (demo_rl_io dead_pipe) ''r'' ''ep'' (demo_rl\<lparr>rl_episodes := Map.empty\<rparr>)))"
  by (rule dead_episode_stays_dead [OF r_into_rtranclp [of rl_op, OF close]]) (simp add: dead_or_gone_def)

section \<open>The end of a worker\<close>

lemma drop_worker_other: "p \<noteq> cg_path (wk_cg w) \<Longrightarrow> drop_worker env w fs p = fs p"
  by (auto simp: drop_worker_def cg_kill_all_def cg_wait_empty_def cg_remove_def split: option.splits if_splits)

lemma drop_worker_gone:
  assumes "ce_read_ok env (cg_path (wk_cg w))" "ce_drains env (cg_path (wk_cg w))"
  shows "drop_worker env w fs (cg_path (wk_cg w)) = None"
  using assms by (auto simp: drop_worker_def cg_kill_all_def cg_wait_empty_def cg_remove_def split: option.splits)

text \<open>
  A worker that does not answer in time is destroyed, and only it: after the step, the episode has
  no worker, its cgroup is gone (given that the kernel empties a killed cgroup), and every other
  episode and every other cgroup is as before.
\<close>

theorem timed_out_worker_is_destroyed:
  assumes "rl_episodes st eid = Some en" "ee_worker en = Some w"
    and "\<not> is_tick (fst (worker_exchange (ri_json io) (ri_exchange io) action (l_wall_ms (s_limits (ee_settings en)))))"
    and "ce_read_ok (ri_cg io) (cg_path (wk_cg w))" "ce_drains (ri_cg io) (cg_path (wk_cg w))"
    and "rl_step io rid eid action st = (resp, st')"
  shows "(\<exists>en'. rl_episodes st' eid = Some en' \<and> ee_worker en' = None \<and> ee_metrics en' = ee_metrics en) \<and>
    rl_fs st' (cg_path (wk_cg w)) = None \<and>
    (\<forall>p. p \<noteq> cg_path (wk_cg w) \<longrightarrow> rl_fs st' p = rl_fs st p) \<and>
    (\<forall>e. e \<noteq> eid \<longrightarrow> rl_episodes st' e = rl_episodes st e) \<and>
    (\<exists>tick. resp = RlStep eid tick \<and> t_done tick \<and> t_request_id tick = rid \<and> bt_get (t_info tick) ''error'' \<noteq> None)"
proof -
  let ?out = "fst (worker_exchange (ri_json io) (ri_exchange io) action (l_wall_ms (s_limits (ee_settings en))))"
  let ?st = "(update_entry eid (\<lambda>en. en\<lparr>ee_worker := None\<rparr>) st)\<lparr>rl_fs := drop_worker (ri_cg io) w (rl_fs st)\<rparr>"
  have k: "rl_episodes (kill_locked (ri_cg io) eid ?st) eid = Some (en\<lparr>ee_worker := None\<rparr>)"
      "rl_fs (kill_locked (ri_cg io) eid ?st) = drop_worker (ri_cg io) w (rl_fs st)"
    using kill_locked_none [of ?st eid "en\<lparr>ee_worker := None\<rparr>"] assms(1) by auto
  have st': "st' = kill_locked (ri_cg io) eid ?st"
    using assms(1-3,6) by (cases ?out) (auto simp: rl_step_def Let_def)
  have "\<exists>info. resp = send_step rid eid [] 0 True True False info None \<and> bt_get info ''error'' \<noteq> None"
  proof -
    have "\<exists>info. fst (rl_step io rid eid action st) = send_step rid eid [] 0 True True False info None \<and> map_of info ''error'' \<noteq> None"
    proof (cases ?out)
      case StepTimeout
      then show ?thesis using assms(1,2) by (simp add: rl_step_def Let_def iter_info_def) (rule exI, rule conjI, rule refl, simp)
    next
      case (Dead r)
      then show ?thesis using assms(1,2) by (simp add: rl_step_def Let_def iter_info_def) (rule exI, rule conjI, rule refl, simp)
    qed (use assms(3) in simp)
    then show ?thesis using assms(6) by (simp add: bt_get_def)
  qed
  then obtain info where i: "resp = send_step rid eid [] 0 True True False info None" "bt_get info ''error'' \<noteq> None" by blast
  then have "\<exists>tick. resp = RlStep eid tick \<and> t_done tick \<and> t_request_id tick = rid \<and> bt_get (t_info tick) ''error'' \<noteq> None"
    by (intro exI [of _ "\<lparr>t_request_id = rid, t_observation = [], t_reward = 0, t_done = True, t_terminated = True,
        t_truncated = False, t_info = info, t_obs_meta = None\<rparr>"]) (simp add: send_step_def)
  moreover have "rl_episodes st' e = rl_episodes st e" if "e \<noteq> eid" for e
    using that by (simp add: st')
  ultimately show ?thesis
    unfolding st' k using drop_worker_gone [OF assms(4,5)] drop_worker_other by simp
qed

theorem timed_out_worker_is_destroyed_witness:
  "\<exists>resp st'. rl_step (demo_rl_io dead_pipe) ''r'' ''ep'' [1] demo_rl = (resp, st') \<and> rl_fs st' ''/cg/a'' = None"
proof -
  obtain resp st' where s: "rl_step (demo_rl_io dead_pipe) ''r'' ''ep'' [1] demo_rl = (resp, st')" by fastforce
  have "rl_fs st' (cg_path (wk_cg demo_worker)) = None"
    by (rule timed_out_worker_is_destroyed [THEN conjunct2, THEN conjunct1, OF _ _ _ _ _ s, of demo_entry])
      (simp_all add: demo_rl_def demo_entry_def demo_rl_io_def dead_pipe_times_out all_ok_def)
  with s show ?thesis by (simp add: demo_worker_def)
qed

section \<open>Where single steps and batches differ\<close>

text \<open>
  The observation metadata of a step: a batch takes the reserved key \<^verbatim>\<open>_obs_meta\<close> out of the info map
  and returns it decoded, a single step leaves it in the info map and returns no metadata.
\<close>

theorem single_step_keeps_obs_meta:
  assumes "rl_episodes st eid = Some en" "ee_worker en = Some w"
    and "fst (worker_exchange (ri_json io) (ri_exchange io) action (l_wall_ms (s_limits (ee_settings en)))) = Ticked t"
    and "k_info t = Some info" "bt_get info ''_obs_meta'' = Some raw" "k_obs_meta t = None"
  shows "\<exists>tick. fst (rl_step io rid eid action st) = RlStep eid tick \<and>
      bt_get (t_info tick) ''_obs_meta'' = Some raw \<and> t_obs_meta tick = None"
    and "bt_get (t_info (batch_tick (ri_obs_meta io) rid t)) ''_obs_meta'' = None \<and>
      t_obs_meta (batch_tick (ri_obs_meta io) rid t) = ri_obs_meta io raw"
proof -
  have i: "bt_get (step_info t en) ''_obs_meta'' = Some raw"
    using assms(4,5) by (auto simp: step_info_def with_error_def opt_list_def Let_def split: option.split)
  have r: "fst (rl_step io rid eid action st) = send_step rid eid (opt_list (k_obs t)) (k_reward t) (k_done t)
      (k_terminated t) (k_truncated t) (step_info t en) None"
    using assms(1-3,6) by (simp add: rl_step_def Let_def)
  show "\<exists>tick. fst (rl_step io rid eid action st) = RlStep eid tick \<and>
      bt_get (t_info tick) ''_obs_meta'' = Some raw \<and> t_obs_meta tick = None"
    unfolding r send_step_def by (rule exI, rule conjI, rule refl) (simp add: i)
  show "bt_get (t_info (batch_tick (ri_obs_meta io) rid t)) ''_obs_meta'' = None \<and>
      t_obs_meta (batch_tick (ri_obs_meta io) rid t) = ri_obs_meta io raw"
    using assms(4,5) by (auto simp: batch_tick_def split_obs_meta_def with_error_def split: option.split)
qed

text \<open>
  A resumed episode whose first batch starts with a failing step never announces that it was
  resumed: the announcement is marked as made, but no tick carries it.
\<close>

theorem batch_swallows_resume_notice:
  assumes "rl_episodes st eid = Some en" "ee_worker en = Some w" "ee_resumed en" "\<not> ee_resumed_notified en"
    and "worker_exchange_batch (ri_json io) (ri_exchange io) [a] (l_wall_ms (s_limits (ee_settings en))) = [Ticked t]"
    and "k_error t = Some e" "k_info t = None"
  shows "\<exists>tick metrics. fst (steps_batch io rid eid [a] st) = RlSteps rid eid [tick] metrics \<and>
      bt_get (t_info tick) ''resumed'' = None"
    and "\<exists>en'. rl_episodes (snd (steps_batch io rid eid [a] st)) eid = Some en' \<and> ee_resumed_notified en'"
  using assms
  by (auto simp: steps_batch_def Let_def batch_start_def announce_def batch_tick_def with_error_def)

end
