(* ===== verification/RB_Warm.thy ===== *)
theory RB_Warm
  imports RB_Exec RB_Episodes
begin

text \<open>
  The start of an RL episode (\<^verbatim>\<open>engine/src/modes/rl.rs\<close>): the settings of a worker, launching it, the pool
  of warm workers and their claim, the manifest, and \<^verbatim>\<open>start\<close> itself. Serialization, hashing and the JSON of
  the load frame are arguments. A booted replacement worker is a task of its own: scheduling it adds
  its template to a queue.
\<close>

section \<open>Fingerprint and manifest\<close>

definition STATE_FILE :: string where "STATE_FILE = ''state.pkl''"
definition MANIFEST_FILE :: string where "MANIFEST_FILE = ''manifest.json''"
definition SHIM_FILENAME :: string where "SHIM_FILENAME = ''.rockbox_rl_worker.py''"

definition shape_of :: "settings \<Rightarrow> settings" where
  "shape_of s =
     s\<lparr>s_request_id := [], s_files := [], s_entrypoint := [], s_stdin := None, s_resolved_secrets := [],
       s_labels := [], s_determinism := (s_determinism s)\<lparr>dt_seed := None\<rparr>,
       s_limits := (s_limits s)\<lparr>l_wall_ms := 0\<rparr>,
       s_env := bt_retain (\<lambda>k. \<not> starts_with k ''ROCKBOX_EPISODE_'') (s_env s)\<rparr>"

definition shape_fingerprint :: "(byte list \<Rightarrow> byte list) \<Rightarrow> (settings \<Rightarrow> byte list) \<Rightarrow> settings \<Rightarrow> byte list" where
  "shape_fingerprint blake3 to_json s = blake3 (to_json (shape_of s))"

definition manifest_settings :: "settings \<Rightarrow> settings" where
  "manifest_settings s = s\<lparr>s_resolved_secrets := [], s_stdin := None\<rparr>"

section \<open>Engine state\<close>

record warm_worker =
  ww_worker :: worker
  ww_dir :: string
  ww_fingerprint :: "byte list"

type_synonym volumes = "string \<rightharpoonup> (string \<rightharpoonup> byte list)"

record rl_engine =
  eg_part :: engine_part
  eg_episodes :: "string \<rightharpoonup> episode_entry"
  eg_warm :: "warm_worker option list"
  eg_vols :: volumes                     \<comment> \<open>the episode volumes, by path\<close>
  eg_pending :: "settings list"          \<comment> \<open>scheduled boots of warm workers\<close>

text \<open>
  The entries of the episode directory are moved into the volume of the warm worker, the empty
  directory is removed and the volume takes its name. A failing rename stops this: \<open>AdoptFails\<close> says
  which entries had been moved by then (all of them when the last rename fails).
\<close>

datatype adopt_result = AdoptOk | AdoptFails "string \<Rightarrow> bool"

record start_io =
  so_tools :: tools
  so_host :: host_kernel
  so_work_root :: string
  so_python_shim :: "byte list"
  so_rl :: rl_io                         \<comment> \<open>its exchange is the reset handshake\<close>
  so_load_writes :: "turn list"          \<comment> \<open>of the load frame\<close>
  so_warm_reset :: exchange_io           \<comment> \<open>reset handshake of a claimed worker\<close>
  so_to_json :: "settings \<Rightarrow> byte list"
  so_load_json :: "string \<Rightarrow> (string \<times> byte list) list \<Rightarrow> smap \<Rightarrow> byte list"
  so_tick_json :: "tick \<Rightarrow> smap \<Rightarrow> smap option \<Rightarrow> byte list \<Rightarrow> string"
  so_prespawn :: bool                    \<comment> \<open>\<^verbatim>\<open>ROCKBOX_RL_PRESPAWN\<close> is not \<^verbatim>\<open>0\<close>\<close>
  so_mkdir_ok :: bool
  so_adopt :: adopt_result
  so_manifest_ok :: bool
  so_elapsed_ms :: u64

definition eg_set_fs :: "cgfs \<Rightarrow> rl_engine \<Rightarrow> rl_engine" where
  "eg_set_fs fs e = e\<lparr>eg_part := (eg_part e)\<lparr>ep_fs := fs\<rparr>\<rparr>"

definition eg_drop :: "cg_env \<Rightarrow> worker \<Rightarrow> rl_engine \<Rightarrow> rl_engine" where
  "eg_drop env w e = eg_set_fs (drop_worker env w (ep_fs (eg_part e))) e"

section \<open>Launching a worker\<close>

definition shim_file :: "byte list \<Rightarrow> file_entry" where
  "shim_file shim = \<lparr>fe_path = SHIM_FILENAME, fe_content = shim, fe_mode = 420\<rparr>"

definition worker_env :: "settings \<Rightarrow> string \<Rightarrow> bool \<Rightarrow> smap" where
  "worker_env base eid prespawn =
     (let env = (if prespawn then bt_insert ''ROCKBOX_PRESPAWN'' ''1'' (s_env base)
                 else bt_insert ''ROCKBOX_USER_ENTRY'' (s_entrypoint base) (s_env base));
          env = bt_insert ''ROCKBOX_EPISODE_ID'' eid env
      in case dt_seed (s_determinism base) of
           Some seed \<Rightarrow> bt_insert ''ROCKBOX_EPISODE_SEED'' (decimal (unat seed)) env
         | None \<Rightarrow> env)"

definition worker_settings :: "byte list \<Rightarrow> settings \<Rightarrow> string \<Rightarrow> bool \<Rightarrow> settings" where
  "worker_settings shim base eid prespawn =
     base\<lparr>s_mode := Exec, s_entrypoint := SHIM_FILENAME, s_request_id := eid @ ''-worker'',
       s_env := worker_env base eid prespawn,
       s_files := shim_file shim # (if prespawn then [] else filter (\<lambda>f. fe_path f \<noteq> SHIM_FILENAME) (s_files base)),
       s_filesystem := (s_filesystem base)\<lparr>fs_mounts :=
         fs_mounts (s_filesystem base) @
         (if list_ex (\<lambda>m. em_target m = ''/episode'') (fs_mounts (s_filesystem base)) then []
          else [\<lparr>em_source = ''episode:'' @ eid, em_target = ''/episode'', em_mode = Rw\<rparr>])\<rparr>\<rparr>"

definition worker_spec :: "bool \<Rightarrow> child_spec \<Rightarrow> child_spec" where
  "worker_spec prespawn spec =
     spec\<lparr>c_seccomp_profile := InterpAot,
       c_limits := (c_limits spec)\<lparr>rl_cpu_weight := (if prespawn then CPU_WEIGHT_BATCH else CPU_WEIGHT_INTERACTIVE)\<rparr>,
       c_protocol_fd := True\<rparr>"

definition launch_worker ::
    "start_io \<Rightarrow> settings \<Rightarrow> string \<Rightarrow> bool \<Rightarrow> engine_part \<Rightarrow> ((string + worker) \<times> engine_part) panics" where
  "launch_worker io base eid prespawn e =
     (case ep_launcher e of
        None \<Rightarrow> Returns (Inl ''no launcher'', e)
      | Some la \<Rightarrow>
          (case resolve (so_tools io) (worker_settings (so_python_shim io) base eid prespawn) (so_work_root io) (ep_world e) of
             Panic \<Rightarrow> Panic
           | Returns (Inl m, w) \<Rightarrow> Returns (Inl ''resolve spec'', e\<lparr>ep_world := w\<rparr>)
           | Returns (Inr r, w) \<Rightarrow>
               (case launch (so_host io) (worker_spec prespawn (rs_spec r)) la (ep_fs e) of
                  Panic \<Rightarrow> Panic
                | Returns (Inl x, la1, fs1, acts) \<Rightarrow>
                    Returns (Inl ''launch'', \<lparr>ep_world = w, ep_launcher = Some la1, ep_fs = fs1\<rparr>)
                | Returns (Inr h, la1, fs1, acts) \<Rightarrow>
                    Returns (Inr \<lparr>wk_cg = h_cgroup h\<rparr>, \<lparr>ep_world = w, ep_launcher = Some la1, ep_fs = fs1\<rparr>))))"

definition reset_handshake ::
    "(byte list \<Rightarrow> string + tick) \<Rightarrow> exchange_io \<Rightarrow> u64 \<Rightarrow> string + tick \<times> byte list" where
  "reset_handshake json x wall_ms =
     (case fst (worker_exchange json x [] wall_ms) of
        Ticked t \<Rightarrow> Inr (t\<lparr>k_obs := None\<rparr>, opt_list (k_obs t))
      | Dead reason \<Rightarrow> Inl (''worker reset failed: '' @ reason)
      | StepTimeout \<Rightarrow> Inl ''worker reset timed out'')"

definition spawn_worker ::
    "start_io \<Rightarrow> settings \<Rightarrow> string \<Rightarrow> engine_part \<Rightarrow> ((string + worker \<times> tick \<times> byte list) \<times> engine_part) panics" where
  "spawn_worker io base eid e =
     (case launch_worker io base eid False e of
        Panic \<Rightarrow> Panic
      | Returns (Inl m, e1) \<Rightarrow> Returns (Inl m, e1)
      | Returns (Inr w, e1) \<Rightarrow>
          (case reset_handshake (ri_json (so_rl io)) (ri_exchange (so_rl io)) (l_wall_ms (s_limits base)) of
             Inr (t, obs) \<Rightarrow> Returns (Inr (w, t, obs), e1)
           | Inl m \<Rightarrow> Returns (Inl m, e1\<lparr>ep_fs := drop_worker (ri_cg (so_rl io)) w (ep_fs e1)\<rparr>)))"

section \<open>Warm workers\<close>

definition schedule_prespawn :: "start_io \<Rightarrow> settings \<Rightarrow> rl_engine \<Rightarrow> rl_engine" where
  "schedule_prespawn io template e =
     (if so_prespawn io \<and> ep_launcher (eg_part e) \<noteq> None then e\<lparr>eg_pending := eg_pending e @ [template]\<rparr> else e)"

fun first_empty :: "'a option list \<Rightarrow> nat option" where
  "first_empty [] = None"
| "first_empty (None # xs) = Some 0"
| "first_empty (Some _ # xs) = map_option Suc (first_empty xs)"

text \<open>The boot of one warm worker: launch, wait for the empty hello frame, fill the slot.\<close>

definition boot_warm :: "start_io \<Rightarrow> settings \<Rightarrow> string \<Rightarrow> rl_engine \<Rightarrow> rl_engine panics" where
  "boot_warm io template name e =
     (case first_empty (eg_warm e) of
        None \<Rightarrow> Returns e
      | Some slot \<Rightarrow>
          let dir = path_join EPISODES_ROOT name in
          if \<not> so_mkdir_ok io then Returns e
          else
            (case launch_worker io template name True (eg_part e) of
               Panic \<Rightarrow> Panic
             | Returns (Inl m, p) \<Rightarrow> Returns (e\<lparr>eg_part := p, eg_vols := (eg_vols e)(dir := None)\<rparr>)
             | Returns (Inr w, p) \<Rightarrow>
                 (case read_frame_poll (deadline_ns (max (l_wall_ms (s_limits template)) 1000))
                         (x_pipe (ri_exchange (so_rl io))) (x_reads (ri_exchange (so_rl io))) of
                    (Inr [], _) \<Rightarrow>
                      Returns (schedule_prespawn io template
                        (e\<lparr>eg_part := p, eg_vols := (eg_vols e)(dir \<mapsto> Map.empty),
                           eg_warm := (eg_warm e)[slot := Some \<lparr>ww_worker = w, ww_dir = dir,
                             ww_fingerprint = shape_fingerprint (tl_blake3 (so_tools io)) (so_to_json io) template\<rparr>]\<rparr>))
                  | _ \<Rightarrow>
                      Returns (eg_drop (ri_cg (so_rl io)) w
                        (e\<lparr>eg_part := p, eg_vols := (eg_vols e)(dir := None)\<rparr>)))))"

fun take_warm :: "warm_worker option list \<Rightarrow> (warm_worker \<times> warm_worker option list) option" where
  "take_warm [] = None"
| "take_warm (Some w # slots) = Some (w, None # slots)"
| "take_warm (None # slots) = map_option (\<lambda>(w, slots'). (w, None # slots')) (take_warm slots)"

definition vol_files :: "volumes \<Rightarrow> string \<Rightarrow> (string \<rightharpoonup> byte list)" where
  "vol_files vols dir = (case vols dir of Some f \<Rightarrow> f | None \<Rightarrow> Map.empty)"

fun adopt_episode_dir :: "adopt_result \<Rightarrow> string \<Rightarrow> string \<Rightarrow> volumes \<Rightarrow> bool \<times> volumes" where
  "adopt_episode_dir AdoptOk warm_dir episode_dir vols =
     (True, vols(warm_dir := None, episode_dir \<mapsto> vol_files vols warm_dir ++ vol_files vols episode_dir))"
| "adopt_episode_dir (AdoptFails moved) warm_dir episode_dir vols =
     (let mv = vol_files vols episode_dir |` {n. moved n}; rest = vol_files vols episode_dir |` {n. \<not> moved n} in
      (False, vols(warm_dir \<mapsto> vol_files vols warm_dir ++ mv,
                   episode_dir := (if rest = Map.empty then None else Some rest))))"

definition load_env :: "settings \<Rightarrow> string \<Rightarrow> bool \<Rightarrow> smap" where
  "load_env s eid resume =
     (let env = bt_insert ''ROCKBOX_EPISODE_ID'' eid (bt_insert ''ROCKBOX_USER_ENTRY'' (s_entrypoint s) []);
          env = (case dt_seed (s_determinism s) of
                   Some seed \<Rightarrow> bt_insert ''ROCKBOX_EPISODE_SEED'' (decimal (unat seed)) env | None \<Rightarrow> env)
      in if resume then bt_insert ''ROCKBOX_EPISODE_RESUME'' ''1'' env else env)"

definition load_frame :: "start_io \<Rightarrow> settings \<Rightarrow> string \<Rightarrow> bool \<Rightarrow> byte list" where
  "load_frame io s eid resume =
     framed (so_load_json io (s_entrypoint s)
       (map (\<lambda>f. (fe_path f, fe_content f)) (filter (\<lambda>f. fe_path f \<noteq> SHIM_FILENAME) (s_files s)))
       (load_env s eid resume))"

definition claim_warm ::
    "start_io \<Rightarrow> settings \<Rightarrow> string \<Rightarrow> string \<Rightarrow> bool \<Rightarrow> rl_engine \<Rightarrow> (worker \<times> tick \<times> byte list) option \<times> rl_engine" where
  "claim_warm io s eid episode_dir resume e =
     (if \<not> so_prespawn io then (None, e)
      else case take_warm (eg_warm e) of
        None \<Rightarrow> (None, e)
      | Some (ww, slots) \<Rightarrow>
          let env = ri_cg (so_rl io); w = ww_worker ww; e1 = e\<lparr>eg_warm := slots\<rparr> in
          if ww_fingerprint ww \<noteq> shape_fingerprint (tl_blake3 (so_tools io)) (so_to_json io) s
          then (None, eg_drop env w (e1\<lparr>eg_vols := (eg_vols e1)(ww_dir ww := None)\<rparr>))
          else case adopt_episode_dir (so_adopt io) (ww_dir ww) episode_dir (eg_vols e1) of
            (False, vols) \<Rightarrow> (None, eg_drop env w (e1\<lparr>eg_vols := vols(ww_dir ww := None)\<rparr>))
          | (True, vols) \<Rightarrow>
            let e2 = e1\<lparr>eg_vols := vols\<rparr>;
                e3 = eg_set_fs (snd (cg_set_cpu_weight env (wk_cg w) CPU_WEIGHT_INTERACTIVE (ep_fs (eg_part e2)))) e2;
                e4 = schedule_prespawn io s e3;
                wall_ms = l_wall_ms (s_limits s)
            in (case write_all_poll (deadline_ns wall_ms) (load_frame io s eid resume) (so_load_writes io) of
                  (Inl _, _) \<Rightarrow> (None, eg_drop env w e4)
                | (Inr _, _) \<Rightarrow>
                    (case reset_handshake (ri_json (so_rl io)) (so_warm_reset io) wall_ms of
                       Inr (t, obs) \<Rightarrow> (Some (w, t, obs), e4)
                     | Inl _ \<Rightarrow> (None, eg_drop env w e4))))"

section \<open>Starting an episode\<close>

definition rl_result :: "string \<Rightarrow> result_status \<Rightarrow> int \<Rightarrow> u64 \<Rightarrow> string \<Rightarrow> string \<Rightarrow> response" where
  "rl_result rid status code ms output errors =
     Result \<lparr>r_request_id = rid, r_status = status, r_exit_code = code, r_exec_time_ms = ms, r_memory_peak_mb = 0,
       r_cpu_time_ms = 0, r_output_bytes = 0, r_output_truncated = False, r_output = output, r_errors = errors\<rparr>"

definition new_entry :: "settings \<Rightarrow> worker \<Rightarrow> u64 \<Rightarrow> bool \<Rightarrow> episode_entry" where
  "new_entry s w now resume =
     \<lparr>ee_settings = s, ee_worker = Some w, ee_metrics = episode_metrics_default, ee_created_at_ms = now,
      ee_resumed = resume, ee_resumed_notified = False\<rparr>"

text \<open>Inserting an entry drops the entry it replaces, and with it its worker.\<close>

definition insert_episode :: "cg_env \<Rightarrow> string \<Rightarrow> episode_entry \<Rightarrow> rl_engine \<Rightarrow> rl_engine" where
  "insert_episode env eid en e =
     eg_set_fs
       (drop_worker_opt env (case eg_episodes e eid of Some old \<Rightarrow> ee_worker old | None \<Rightarrow> None) (ep_fs (eg_part e)))
       (e\<lparr>eg_episodes := (eg_episodes e)(eid \<mapsto> en)\<rparr>)"

definition write_manifest :: "start_io \<Rightarrow> string \<Rightarrow> settings \<Rightarrow> rl_engine \<Rightarrow> rl_engine" where
  "write_manifest io dir s e =
     (case eg_vols e dir of
        Some f \<Rightarrow>
          if so_manifest_ok io then e\<lparr>eg_vols := (eg_vols e)(dir \<mapsto> f(MANIFEST_FILE \<mapsto> so_to_json io (manifest_settings s)))\<rparr>
          else e
      | None \<Rightarrow> e)"

definition start_output :: "start_io \<Rightarrow> tick \<Rightarrow> byte list \<Rightarrow> string" where
  "start_output io t obs =
     (case (case k_info t of Some info \<Rightarrow> split_obs_meta (ri_obs_meta (so_rl io)) info | None \<Rightarrow> ([], None)) of
        (info, meta) \<Rightarrow> so_tick_json io t info meta obs)"

definition rl_start :: "start_io \<Rightarrow> settings \<Rightarrow> rl_engine \<Rightarrow> (response \<times> rl_engine) panics" where
  "rl_start io s e =
     (let rid = s_request_id s; eid = rid; ms = so_elapsed_ms io; dir = path_join EPISODES_ROOT eid in
      if s_language s \<noteq> Python
      then Returns (rl_result rid EngineError (- 1) ms [] ''rl mode currently supports python only'', e)
      else if ep_launcher (eg_part e) = None
      then Returns (die ''platform_unsupported'' (Some ''Linux-only'') (Some rid), e)
      else if \<not> so_mkdir_ok io
      then Returns (rl_result rid EngineError (- 1) ms [] ''mkdir episode root'', e)
      else
        let files = vol_files (eg_vols e) dir;
            resume = (files MANIFEST_FILE \<noteq> None);
            e1 = e\<lparr>eg_vols := (eg_vols e)(dir \<mapsto> (if resume then files else files(STATE_FILE := None)))\<rparr>
        in case claim_warm io s eid dir resume e1 of
          (warm, e2) \<Rightarrow>
            let e3 = write_manifest io dir s e2;
                ws = (if resume then s\<lparr>s_env := bt_insert ''ROCKBOX_EPISODE_RESUME'' ''1'' (s_env s)\<rparr> else s);
                spawned = (case warm of
                   Some ready \<Rightarrow> Returns (Inr ready, eg_part e3)
                 | None \<Rightarrow> spawn_worker io ws eid (eg_part e3))
            in (case spawned of
                  Panic \<Rightarrow> Panic
                | Returns (Inl m, p) \<Rightarrow>
                    Returns (rl_result rid EngineError (- 1) ms [] (''rl reset: '' @ m), e3\<lparr>eg_part := p\<rparr>)
                | Returns (Inr (w, t, obs), p) \<Rightarrow>
                    Returns (rl_result rid Success 0 ms (start_output io t obs) [],
                      insert_episode (ri_cg (so_rl io)) eid (new_entry s w (ri_now_ms (so_rl io)) resume)
                        (e3\<lparr>eg_part := p\<rparr>))))"

section \<open>What a start leaves behind\<close>

lemma eg_simps [simp]:
  "eg_episodes (eg_set_fs fs e) = eg_episodes e" "eg_episodes (eg_drop env w e) = eg_episodes e"
  "eg_vols (eg_set_fs fs e) = eg_vols e" "eg_vols (eg_drop env w e) = eg_vols e"
  "eg_episodes (schedule_prespawn io s e) = eg_episodes e" "eg_vols (schedule_prespawn io s e) = eg_vols e"
  by (simp_all add: eg_set_fs_def eg_drop_def schedule_prespawn_def)

lemma claim_warm_episodes: "claim_warm io s eid dir resume e = (r, e') \<Longrightarrow> eg_episodes e' = eg_episodes e"
  by (auto simp: claim_warm_def Let_def split: if_splits option.splits prod.splits sum.splits bool.splits)

lemma write_manifest_episodes [simp]: "eg_episodes (write_manifest io dir s e) = eg_episodes e"
  by (simp add: write_manifest_def split: option.split)

text \<open>The part of \<^verbatim>\<open>start\<close> behind its guards.\<close>

lemma rl_start_body:
  assumes "s_language s = Python" "ep_launcher (eg_part e) \<noteq> None" "so_mkdir_ok io"
    and "rl_start io s e = Returns (resp, e')"
  defines "dir \<equiv> path_join EPISODES_ROOT (s_request_id s)"
  defines "resume \<equiv> vol_files (eg_vols e) dir MANIFEST_FILE \<noteq> None"
  shows "(\<exists>e3 w t obs p. eg_episodes e3 = eg_episodes e \<and>
      resp = rl_result (s_request_id s) Success 0 (so_elapsed_ms io) (start_output io t obs) [] \<and>
      e' = insert_episode (ri_cg (so_rl io)) (s_request_id s) (new_entry s w (ri_now_ms (so_rl io)) resume) (e3\<lparr>eg_part := p\<rparr>)) \<or>
    (\<exists>m. resp = rl_result (s_request_id s) EngineError (- 1) (so_elapsed_ms io) [] m \<and> eg_episodes e' = eg_episodes e)"
proof -
  let ?e1 = "e\<lparr>eg_vols := (eg_vols e)(dir \<mapsto> (if resume then vol_files (eg_vols e) dir
      else (vol_files (eg_vols e) dir)(STATE_FILE := None)))\<rparr>"
  obtain warm e2 where c: "claim_warm io s (s_request_id s) dir resume ?e1 = (warm, e2)" by fastforce
  define e3 where "e3 = write_manifest io dir s e2"
  define ws where "ws = (if resume then s\<lparr>s_env := bt_insert ''ROCKBOX_EPISODE_RESUME'' ''1'' (s_env s)\<rparr> else s)"
  define spawned where "spawned = (case warm of Some ready \<Rightarrow> Returns (Inr ready, eg_part e3)
      | None \<Rightarrow> spawn_worker io ws (s_request_id s) (eg_part e3))"
  have e3: "eg_episodes e3 = eg_episodes e" using claim_warm_episodes [OF c] by (simp add: e3_def)
  have r: "rl_start io s e = (case spawned of Panic \<Rightarrow> Panic
      | Returns (Inl m, p) \<Rightarrow>
          Returns (rl_result (s_request_id s) EngineError (- 1) (so_elapsed_ms io) [] (''rl reset: '' @ m), e3\<lparr>eg_part := p\<rparr>)
      | Returns (Inr (w, t, obs), p) \<Rightarrow>
          Returns (rl_result (s_request_id s) Success 0 (so_elapsed_ms io) (start_output io t obs) [],
            insert_episode (ri_cg (so_rl io)) (s_request_id s) (new_entry s w (ri_now_ms (so_rl io)) resume) (e3\<lparr>eg_part := p\<rparr>)))"
  proof -
    obtain la where "ep_launcher (eg_part e) = Some la" using assms(2) by blast
    with assms(1,3) c show ?thesis
      unfolding rl_start_def Let_def dir_def resume_def spawned_def e3_def ws_def by simp
  qed
  show ?thesis
  proof (cases spawned)
    case (Returns x)
    obtain y p where x: "x = (y, p)" by fastforce
    show ?thesis
    proof (cases y)
      case (Inl m)
      with r Returns x assms(4) e3 show ?thesis by auto
    next
      case (Inr z)
      obtain w t obs where z: "z = (w, t, obs)" by (metis prod_cases3)
      with r Returns x Inr assms(4) have "resp = rl_result (s_request_id s) Success 0 (so_elapsed_ms io) (start_output io t obs) []"
        "e' = insert_episode (ri_cg (so_rl io)) (s_request_id s) (new_entry s w (ri_now_ms (so_rl io)) resume) (e3\<lparr>eg_part := p\<rparr>)"
        by auto
      with e3 show ?thesis by blast
    qed
  qed (use r assms(4) in simp)
qed

text \<open>
  C33. A start either works or changes no episode. When it is answered with success, the episode named
  by the request id exists with a live worker, zero metrics, and is marked as resumed exactly if its
  volume already held a manifest. In every other case (wrong language, no launcher, no directory,
  a launch or reset that failed) the response is an error and all episodes are as before.
\<close>

theorem start_is_all_or_nothing:
  assumes "rl_start io s e = Returns (resp, e')"
  shows "(\<exists>res en. resp = Result res \<and> r_status res = Success \<and> r_request_id res = s_request_id s \<and>
      eg_episodes e' = (eg_episodes e)(s_request_id s \<mapsto> en) \<and> ee_settings en = s \<and> ee_worker en \<noteq> None \<and>
      ee_metrics en = episode_metrics_default \<and>
      (ee_resumed en \<longleftrightarrow> vol_files (eg_vols e) (path_join EPISODES_ROOT (s_request_id s)) MANIFEST_FILE \<noteq> None)) \<or>
    ((\<exists>d. resp = EngineDied d) \<or> (\<exists>res. resp = Result res \<and> r_status res = EngineError)) \<and> eg_episodes e' = eg_episodes e"
proof (cases "s_language s = Python \<and> ep_launcher (eg_part e) \<noteq> None \<and> so_mkdir_ok io")
  case False
  then show ?thesis using assms by (auto simp: rl_start_def Let_def rl_result_def die_def split: if_splits)
next
  case True
  then have "s_language s = Python" "ep_launcher (eg_part e) \<noteq> None" "so_mkdir_ok io" by auto
  from rl_start_body [OF this assms] show ?thesis
  proof (elim disjE exE conjE)
    fix e3 w t obs p
    let ?en = "new_entry s w (ri_now_ms (so_rl io))
      (vol_files (eg_vols e) (path_join EPISODES_ROOT (s_request_id s)) MANIFEST_FILE \<noteq> None)"
    assume "eg_episodes e3 = eg_episodes e"
      "resp = rl_result (s_request_id s) Success 0 (so_elapsed_ms io) (start_output io t obs) []"
      "e' = insert_episode (ri_cg (so_rl io)) (s_request_id s) ?en (e3\<lparr>eg_part := p\<rparr>)"
    then have "\<exists>res. resp = Result res \<and> r_status res = Success \<and> r_request_id res = s_request_id s"
      and "eg_episodes e' = (eg_episodes e)(s_request_id s \<mapsto> ?en)"
      by (simp_all add: rl_result_def insert_episode_def)
    moreover have "ee_settings ?en = s" "ee_worker ?en \<noteq> None" "ee_metrics ?en = episode_metrics_default"
      "ee_resumed ?en \<longleftrightarrow> vol_files (eg_vols e) (path_join EPISODES_ROOT (s_request_id s)) MANIFEST_FILE \<noteq> None"
      by (simp_all add: new_entry_def)
    ultimately show ?thesis by blast
  qed (simp add: rl_result_def)
qed

text \<open>An engine with one warm worker, for the examples.\<close>

definition demo_start :: start_io where
  "demo_start =
     \<lparr>so_tools = demo_tools, so_host = demo_machine (\<lambda>_. Inr 42), so_work_root = ''/w'', so_python_shim = [],
      so_rl = demo_rl_io dead_pipe, so_load_writes = replicate 4 steady_turn,
      so_warm_reset = demo_exchange (framed []) (demo_tick 0), so_to_json = (\<lambda>_. []), so_load_json = (\<lambda>_ _ _. []),
      so_tick_json = (\<lambda>_ _ _ _. ''{}''), so_prespawn = True, so_mkdir_ok = True, so_adopt = AdoptOk,
      so_manifest_ok = True, so_elapsed_ms = 1\<rparr>"

definition demo_slot :: warm_worker where
  "demo_slot = \<lparr>ww_worker = demo_worker, ww_dir = ''/warm'',
     ww_fingerprint = shape_fingerprint (tl_blake3 demo_tools) (\<lambda>_. []) minimal_settings\<rparr>"

definition warm_engine :: rl_engine where
  "warm_engine = \<lparr>eg_part = demo_engine, eg_episodes = Map.empty, eg_warm = [None, Some demo_slot],
     eg_vols = [''/warm'' \<mapsto> Map.empty], eg_pending = []\<rparr>"

lemma demo_claim:
  assumes "eg_warm e = [None, Some demo_slot]"
  shows "\<exists>w t obs e'. claim_warm demo_start minimal_settings eid dir resume e = (Some (w, t, obs), e')"
proof -
  let ?wall = "l_wall_ms (s_limits minimal_settings)"
  obtain t where t: "tick_outcome (\<lambda>_. Inl ''e'') (demo_tick 0) = Ticked t" using demo_tick_readable by blast
  have "good_io ?wall (framed []) (demo_tick 0) (demo_exchange (framed []) (demo_tick 0))"
    by (rule demo_exchange_good) (simp add: MAX_WORKER_FRAME_def)
  from exchange_good [OF this] t
  have h: "reset_handshake (\<lambda>_. Inl ''e'') (demo_exchange (framed []) (demo_tick 0)) ?wall = Inr (t\<lparr>k_obs := None\<rparr>, opt_list (k_obs t))"
    by (simp add: reset_handshake_def)
  obtain ts where w: "write_all_poll (deadline_ns ?wall) (framed []) (replicate 4 steady_turn) = (Inr (), framed [], ts)"
    using write_all_poll_enough [of "deadline_ns ?wall" "replicate 4 steady_turn" "framed []"]
    by (auto simp: list_all_iff steady_turn_good deadline_pos framed_def)
  show ?thesis
    using assms w h by (simp add: claim_warm_def Let_def demo_start_def demo_slot_def demo_rl_io_def load_frame_def)
qed

lemma demo_start_runs: "\<exists>resp e'. rl_start demo_start minimal_settings warm_engine = Returns (resp, e')"
proof -
  let ?dir = "path_join EPISODES_ROOT (s_request_id minimal_settings)"
  let ?files = "vol_files (eg_vols warm_engine) ?dir"
  let ?resume = "?files MANIFEST_FILE \<noteq> None"
  let ?e1 = "warm_engine\<lparr>eg_vols := (eg_vols warm_engine)(?dir \<mapsto> (if ?resume then ?files else ?files(STATE_FILE := None)))\<rparr>"
  obtain w t obs e2 where "claim_warm demo_start minimal_settings (s_request_id minimal_settings) ?dir ?resume ?e1 = (Some (w, t, obs), e2)"
  proof -
    have "eg_warm ?e1 = [None, Some demo_slot]" by (simp add: warm_engine_def)
    from demo_claim [OF this] that show thesis by blast
  qed
  moreover have "s_language minimal_settings = Python" by (simp add: minimal_settings_def)
  moreover have "ep_launcher (eg_part warm_engine) = Some demo_launcher" "so_mkdir_ok demo_start"
    by (simp_all add: warm_engine_def demo_engine_def demo_start_def)
  ultimately show ?thesis unfolding rl_start_def Let_def by (simp split: prod.split)
qed

theorem start_is_all_or_nothing_witness:
  "\<exists>resp e'. rl_start demo_start minimal_settings warm_engine = Returns (resp, e') \<and>
    ((\<exists>res en. resp = Result res \<and> r_status res = Success \<and> eg_episodes e' = [''req_test'' \<mapsto> en] \<and> ee_worker en \<noteq> None) \<or>
     eg_episodes e' = Map.empty)"
proof -
  obtain resp e' where r: "rl_start demo_start minimal_settings warm_engine = Returns (resp, e')"
    using demo_start_runs by blast
  have "eg_episodes warm_engine = Map.empty" "s_request_id minimal_settings = ''req_test''"
    by (simp_all add: warm_engine_def minimal_settings_def)
  with start_is_all_or_nothing [OF r] r show ?thesis by auto
qed

section \<open>Warm workers and what they carry\<close>

text \<open>
  A warm worker only serves an episode of the same sandbox shape. If the slot was booted with
  \<open>template\<close>, its fingerprint is the one of the claiming request, and the hash does not collide on the
  two, then both requests agree on language, runtime, capabilities, network, mounts, GPU, isolation,
  every limit but the wall clock, and every environment variable outside \<^verbatim>\<open>ROCKBOX_EPISODE_*\<close>.
\<close>

theorem claimed_worker_has_request_shape:
  assumes "claim_warm io s eid dir resume e = (Some claimed, e')"
    and "take_warm (eg_warm e) = Some (ww, slots)"
    and "ww_fingerprint ww = shape_fingerprint (tl_blake3 (so_tools io)) (so_to_json io) template"
    and "tl_blake3 (so_tools io) (so_to_json io (shape_of template)) = tl_blake3 (so_tools io) (so_to_json io (shape_of s)) \<longrightarrow>
      shape_of template = shape_of s"
  shows "s_language template = s_language s \<and> s_runtime template = s_runtime s \<and> s_capabilities template = s_capabilities s \<and>
    s_network template = s_network s \<and> s_filesystem template = s_filesystem s \<and> s_gpu template = s_gpu s \<and>
    s_isolation template = s_isolation s \<and>
    (s_limits template)\<lparr>l_wall_ms := 0\<rparr> = (s_limits s)\<lparr>l_wall_ms := 0\<rparr> \<and>
    (starts_with k ''ROCKBOX_EPISODE_'' \<or> bt_get (s_env template) k = bt_get (s_env s) k)"
proof -
  have "ww_fingerprint ww = shape_fingerprint (tl_blake3 (so_tools io)) (so_to_json io) s"
    using assms(1,2) by (cases "so_prespawn io") (simp_all add: claim_warm_def Let_def split: if_splits)
  with assms(3) have "tl_blake3 (so_tools io) (so_to_json io (shape_of template)) = tl_blake3 (so_tools io) (so_to_json io (shape_of s))"
    by (simp only: shape_fingerprint_def)
  then have eq: "shape_of template = shape_of s" by (rule assms(4) [rule_format])
  have env: "bt_retain (\<lambda>k. \<not> starts_with k ''ROCKBOX_EPISODE_'') (s_env template) =
      bt_retain (\<lambda>k. \<not> starts_with k ''ROCKBOX_EPISODE_'') (s_env s)"
    using arg_cong [OF eq, of s_env] by (simp add: shape_of_def)
  have a: "starts_with k ''ROCKBOX_EPISODE_'' \<or> bt_get (s_env template) k = bt_get (s_env s) k"
    using arg_cong [OF env, of "\<lambda>m. bt_get m k"] by (auto simp: bt_get_retain split: if_splits)
  have b: "s_language template = s_language s" using arg_cong [OF eq, of s_language] by (simp add: shape_of_def)
  have c: "s_runtime template = s_runtime s" using arg_cong [OF eq, of s_runtime] by (simp add: shape_of_def)
  have d: "s_capabilities template = s_capabilities s" using arg_cong [OF eq, of s_capabilities] by (simp add: shape_of_def)
  have f: "s_network template = s_network s" using arg_cong [OF eq, of s_network] by (simp add: shape_of_def)
  have g: "s_filesystem template = s_filesystem s" using arg_cong [OF eq, of s_filesystem] by (simp add: shape_of_def)
  have h: "s_gpu template = s_gpu s" using arg_cong [OF eq, of s_gpu] by (simp add: shape_of_def)
  have i: "s_isolation template = s_isolation s" using arg_cong [OF eq, of s_isolation] by (simp add: shape_of_def)
  have j: "(s_limits template)\<lparr>l_wall_ms := 0\<rparr> = (s_limits s)\<lparr>l_wall_ms := 0\<rparr>"
    using arg_cong [OF eq, of s_limits] by (simp add: shape_of_def)
  show ?thesis by (intro conjI b c d f g h i j a)
qed

theorem claimed_worker_has_request_shape_witness:
  "\<exists>claimed e'. claim_warm demo_start minimal_settings ''ep'' ''/dir'' False warm_engine = (Some claimed, e') \<and>
    s_network minimal_settings = s_network minimal_settings"
proof -
  obtain claimed e' where c: "claim_warm demo_start minimal_settings ''ep'' ''/dir'' False warm_engine = (Some claimed, e')"
  proof -
    have "eg_warm warm_engine = [None, Some demo_slot]" by (simp add: warm_engine_def)
    from demo_claim [OF this] that show thesis by blast
  qed
  have "take_warm (eg_warm warm_engine) = Some (demo_slot, [None, None])" by (simp add: warm_engine_def)
  moreover have "ww_fingerprint demo_slot = shape_fingerprint (tl_blake3 (so_tools demo_start)) (so_to_json demo_start) minimal_settings"
    by (simp add: demo_slot_def demo_start_def)
  ultimately have "s_network minimal_settings = s_network minimal_settings"
    using claimed_worker_has_request_shape [OF c, of demo_slot "[None, None]" minimal_settings] by simp
  with c show ?thesis by blast
qed

text \<open>
  A claimed warm worker runs with the secrets of the episode it was booted for: requests that
  differ only in their secrets have the same fingerprint, the warm worker is launched with the
  secrets of its template in its environment, and the load frame of the claiming episode never
  replaces them (it can only set four variables of its own).
\<close>

theorem warm_worker_keeps_template_secrets:
  assumes "settings_wf template" "bt_get (s_resolved_secrets template) k = Some v"
    and "k \<notin> {''PYTHONHASHSEED'', ''RUST_LOG_SEED'', ''NODE_RANDOM_SEED''}"
    and "k \<notin> {''ROCKBOX_USER_ENTRY'', ''ROCKBOX_EPISODE_ID'', ''ROCKBOX_EPISODE_SEED'', ''ROCKBOX_EPISODE_RESUME''}"
  shows "shape_fingerprint blake3 to_json (template\<lparr>s_resolved_secrets := other\<rparr>) = shape_fingerprint blake3 to_json template \<and>
    bt_get (env_resolve (worker_settings shim template name True) runtime_env) k = Some v \<and>
    bt_get (load_env (template\<lparr>s_resolved_secrets := other\<rparr>) eid resume) k = None"
proof (intro conjI)
  show "shape_fingerprint blake3 to_json (template\<lparr>s_resolved_secrets := other\<rparr>) = shape_fingerprint blake3 to_json template"
    by (simp add: shape_fingerprint_def shape_of_def)
  have "settings_wf (worker_settings shim template name True)"
    using assms(1) by (simp add: settings_wf_def worker_settings_def worker_env_def Let_def split: option.split)
  then show "bt_get (env_resolve (worker_settings shim template name True) runtime_env) k = Some v"
    using env_facts [of "worker_settings shim template name True" runtime_env k] assms(2,3)
    by (simp add: worker_settings_def seed_value_def seed_keys_def split: option.split)
  show "bt_get (load_env (template\<lparr>s_resolved_secrets := other\<rparr>) eid resume) k = None"
    using assms(4) by (auto simp: load_env_def Let_def bt_get_def split: option.split)
qed

theorem warm_worker_keeps_template_secrets_witness:
  "shape_fingerprint (\<lambda>b. b) (\<lambda>_. []) (demo_secret ''alice''\<lparr>s_resolved_secrets := [(''API_KEY'', ''bob'')]\<rparr>) =
      shape_fingerprint (\<lambda>b. b) (\<lambda>_. []) (demo_secret ''alice'') \<and>
    bt_get (env_resolve (worker_settings [] (demo_secret ''alice'') ''.warm-1-0'' True) []) ''API_KEY'' = Some ''alice'' \<and>
    bt_get (load_env (demo_secret ''alice''\<lparr>s_resolved_secrets := [(''API_KEY'', ''bob'')]\<rparr>) ''ep'' False) ''API_KEY'' = None"
  by (rule warm_worker_keeps_template_secrets)
    (simp_all add: settings_wf_def demo_secret_def minimal_settings_def bt_invar_def bt_get_def)

text \<open>
  A failed adoption deletes the episode: when the last rename of the directory swap fails, the
  files of the episode (manifest, checkpoint) have already been moved into the warm volume, and
  the clean-up removes that volume. The episode goes on, on the cold path, without them.
\<close>

theorem failed_adoption_deletes_episode:
  assumes "so_prespawn io" "take_warm (eg_warm e) = Some (ww, slots)" "ww_dir ww \<noteq> dir"
    and "ww_fingerprint ww = shape_fingerprint (tl_blake3 (so_tools io)) (so_to_json io) s"
    and "so_adopt io = AdoptFails (\<lambda>_. True)"
    and "claim_warm io s eid dir resume e = (r, e')"
  shows "r = None \<and> eg_vols e' dir = None \<and> eg_vols e' (ww_dir ww) = None"
proof -
  have "vol_files (eg_vols e) dir |` {n. \<not> True} = Map.empty" by simp
  then have "adopt_episode_dir (so_adopt io) (ww_dir ww) dir (eg_vols e) =
      (False, (eg_vols e)(ww_dir ww \<mapsto> vol_files (eg_vols e) (ww_dir ww) ++ vol_files (eg_vols e) dir, dir := None))"
    using assms(5) by (simp add: Let_def restrict_map_def)
  with assms show ?thesis by (auto simp: claim_warm_def Let_def)
qed

section \<open>The output of a worker\<close>

text \<open>
  \<^verbatim>\<open>spawn_forwarder\<close> (and \<^verbatim>\<open>spawn_discarder\<close>, which sends nothing): the loop ends at the first read that
  returns no byte, whatever the reason. The launcher's pipes are non-blocking.
\<close>

fun forwarder :: "bool \<Rightarrow> read_result list \<Rightarrow> byte list list" where
  "forwarder enabled [] = []"
| "forwarder enabled (Got chunk # rs) =
     (if chunk = [] then [] else (if enabled then [chunk] else []) @ forwarder enabled rs)"
| "forwarder enabled (r # rs) = []"

text \<open>
  The output of a worker is forwarded only up to its first pause: at the first moment the pipe is
  empty, the forwarding thread ends and closes it, and nothing the worker prints later is delivered.
\<close>

theorem forwarder_stops_at_first_pause:
  "forwarder True (map Got chunks @ Again # rest) = takeWhile (\<lambda>c. c \<noteq> []) chunks"
  by (induction chunks) auto

end
