(* ===== verification/RB_DataChannel.thy ===== *)
theory RB_DataChannel
  imports RB_Drain
begin

text \<open>
  The data channel (\<^verbatim>\<open>engine/src/data_channel.rs\<close>): chunks of output are framed, batched by a flusher task
  and sent as datagrams. What the task sees is a list of events; whether a flush succeeds is an
  argument. Large chunks are written to shared memory and replaced by the path of the file.
\<close>

definition BATCH_BYTES :: nat where "BATCH_BYTES = 8 * 1024"
definition SHM_THRESHOLD :: nat where "SHM_THRESHOLD = 8 * 1024"

datatype dc_stream = DcStdout | DcStderr | ShmStdout | ShmStderr

fun stream_tag :: "dc_stream \<Rightarrow> byte" where
  "stream_tag DcStdout = 1"
| "stream_tag DcStderr = 2"
| "stream_tag ShmStdout = 3"
| "stream_tag ShmStderr = 4"

record chunk =
  ck_stream :: dc_stream
  ck_payload :: "byte list"

definition frame_chunk :: "chunk \<Rightarrow> byte list" where
  "frame_chunk c = stream_tag (ck_stream c) # u32_be (word_of_nat (length (ck_payload c))) @ ck_payload c"

section \<open>Queueing a chunk\<close>

text \<open>
  \<^verbatim>\<open>try_shm_write\<close>: the path of the file the payload was written to, or nothing when shared memory is
  missing, the file cannot be created or the write fails.
\<close>

record shm_env =
  sm_exists :: bool
  sm_create_ok :: bool
  sm_write_ok :: bool
  sm_uuid :: string

fun shm_stream :: "dc_stream \<Rightarrow> dc_stream" where
  "shm_stream DcStdout = ShmStdout"
| "shm_stream DcStderr = ShmStderr"
| "shm_stream s = s"

definition try_shm_write :: "shm_env \<Rightarrow> byte list \<Rightarrow> dc_stream \<Rightarrow> (chunk \<times> (string \<times> byte list)) option" where
  "try_shm_write env payload s =
     (if \<not> sm_exists env \<or> \<not> sm_create_ok env \<or> \<not> sm_write_ok env then None
      else let path = ''/dev/shm/rockbox-obs-'' @ sm_uuid env in
        Some (\<lparr>ck_stream = shm_stream s, ck_payload = as_bytes path\<rparr>, (path, payload)))"

text \<open>The chunk that is queued and the file that is left in shared memory.\<close>

definition dc_send :: "shm_env \<Rightarrow> dc_stream \<Rightarrow> byte list \<Rightarrow> chunk \<times> (string \<times> byte list) option" where
  "dc_send env s payload =
     (if length payload > SHM_THRESHOLD
      then (case try_shm_write env payload s of
              Some (c, f) \<Rightarrow> (c, Some f)
            | None \<Rightarrow> (\<lparr>ck_stream = s, ck_payload = payload\<rparr>, None))
      else (\<lparr>ck_stream = s, ck_payload = payload\<rparr>, None))"

section \<open>The flusher\<close>

datatype dc_event = Recv chunk | Tick | ChannelClosed

text \<open>
  The task: the buffer, whether something is pending, the events and the answers of \<^verbatim>\<open>send_to\<close>. The
  timer branch is disabled while nothing is pending. The value is the datagrams that were sent; the
  end of the event list is an engine that is still running.
\<close>

fun flusher :: "byte list \<Rightarrow> bool \<Rightarrow> dc_event list \<Rightarrow> bool list \<Rightarrow> byte list list" where
  "flusher buf pending [] oks = []"
| "flusher buf pending (ChannelClosed # evs) oks =
     (if pending \<and> (oks = [] \<or> hd oks) then [buf] else [])"
| "flusher buf pending (Tick # evs) oks =
     (if \<not> pending then flusher buf pending evs oks
      else if oks = [] \<or> hd oks then buf # flusher [] False evs (tl oks)
      else if tl oks = [] \<or> hd (tl oks) then [buf] else [])"
| "flusher buf pending (Recv c # evs) oks =
     (let buf1 = buf @ frame_chunk c in
      if length buf1 \<ge> BATCH_BYTES
      then if oks = [] \<or> hd oks then buf1 # flusher [] False evs (tl oks)
           else if tl oks = [] \<or> hd (tl oks) then [buf1] else []
      else flusher buf1 True evs oks)"

definition received :: "dc_event list \<Rightarrow> chunk list" where
  "received evs = List.map_filter (\<lambda>e. case e of Recv c \<Rightarrow> Some c | _ \<Rightarrow> None) evs"

section \<open>Reading a datagram\<close>

text \<open>The reader of the documented framing: whole frames until the datagram is used up.\<close>

fun tag_stream :: "byte \<Rightarrow> dc_stream option" where
  "tag_stream b = (if b = 1 then Some DcStdout else if b = 2 then Some DcStderr
     else if b = 3 then Some ShmStdout else if b = 4 then Some ShmStderr else None)"

function parse_datagram :: "byte list \<Rightarrow> chunk list option" where
  "parse_datagram bs =
     (if bs = [] then Some []
      else if length bs < 5 then None
      else let n = unat (u32_of_be (take 4 (drop 1 bs))) in
        if length bs < 5 + n then None
        else case tag_stream (hd bs) of
          None \<Rightarrow> None
        | Some s \<Rightarrow> map_option ((#) \<lparr>ck_stream = s, ck_payload = take n (drop 5 bs)\<rparr>) (parse_datagram (drop (5 + n) bs)))"
  by pat_completeness auto

termination by (relation "measure length") auto

declare parse_datagram.simps [simp del]

lemma tag_stream_tag: "tag_stream (stream_tag s) = Some s"
  by (cases s) simp_all

lemma parse_frame:
  assumes "length (ck_payload c) < 2 ^ 32"
  shows "parse_datagram (frame_chunk c @ rest) = map_option ((#) c) (parse_datagram rest)"
proof -
  have u: "unat (word_of_nat (length (ck_payload c)) :: u32) = length (ck_payload c)"
    using assms by (simp add: unat_of_nat)
  let ?hdr = "u32_be (word_of_nat (length (ck_payload c)))"
  have f: "frame_chunk c @ rest = stream_tag (ck_stream c) # ?hdr @ ck_payload c @ rest"
    by (simp add: frame_chunk_def)
  have d: "drop (5 + length (ck_payload c)) (stream_tag (ck_stream c) # ?hdr @ ck_payload c @ rest) = rest"
    by (simp add: eval_nat_numeral)
  have "take (length (ck_payload c)) (drop 5 (stream_tag (ck_stream c) # ?hdr @ ck_payload c @ rest)) = ck_payload c"
    by (simp add: eval_nat_numeral)
  with d u show ?thesis unfolding f
    by (subst parse_datagram.simps, cases c) (simp add: Let_def tag_stream_tag del: tag_stream.simps)
qed

lemma parse_frames:
  assumes "\<forall>c\<in>set cs. length (ck_payload c) < 2 ^ 32"
  shows "parse_datagram (concat (map frame_chunk cs)) = Some cs"
  using assms by (induction cs) (simp_all add: parse_frame parse_datagram.simps [of "[]"])

text \<open>What the flusher sends, as chunks: whole frames, in order, and a prefix of what it received.\<close>

lemma flusher_frames:
  assumes "buf = concat (map frame_chunk held)" "pending \<longleftrightarrow> held \<noteq> []"
  shows "\<exists>groups rest. flusher buf pending evs oks = map (\<lambda>g. concat (map frame_chunk g)) groups \<and>
    held @ received evs = concat groups @ rest"
  using assms
proof (induction buf pending evs oks arbitrary: held rule: flusher.induct)
  case (1 buf pending oks)
  show ?case by (rule exI [of _ "[]"], rule exI [of _ held]) (simp add: received_def List.map_filter_def)
next
  case (2 buf pending evs oks)
  show ?case
  proof (cases "pending \<and> (oks = [] \<or> hd oks)")
    case True
    then show ?thesis
      by (intro exI [of _ "[held]"] exI [of _ "received evs"]) (use 2 in \<open>simp add: received_def List.map_filter_def\<close>)
  next
    case False
    then show ?thesis
      by (intro exI [of _ "[]"] exI [of _ "held @ received evs"]) (use 2 in \<open>auto simp: received_def List.map_filter_def\<close>)
  qed
next
  case (3 buf pending evs oks)
  have r: "received (Tick # evs) = received evs" by (simp add: received_def List.map_filter_def)
  consider "\<not> pending" | "pending" "oks = [] \<or> hd oks" | "pending" "\<not> (oks = [] \<or> hd oks)" by blast
  then show ?case
  proof cases
    case 1
    with "3.IH"(1) [OF 1 "3.prems"] show ?thesis by (simp add: r)
  next
    case 2
    from "3.IH"(2) [of "[]"] 2 obtain groups rest where
      "flusher [] False evs (tl oks) = map (\<lambda>g. concat (map frame_chunk g)) groups" "received evs = concat groups @ rest" by auto
    with 2 "3.prems" show ?thesis by (intro exI [of _ "held # groups"] exI [of _ rest]) (simp add: r)
  next
    case x: 3
    show ?thesis
    proof (cases "tl oks = [] \<or> hd (tl oks)")
      case True
      with x "3.prems" show ?thesis by (intro exI [of _ "[held]"] exI [of _ "received evs"]) (auto simp: r)
    next
      case False
      with x "3.prems" show ?thesis by (intro exI [of _ "[]"] exI [of _ "held @ received evs"]) (auto simp: r)
    qed
  qed
next
  case (4 buf pending c evs oks)
  have r: "received (Recv c # evs) = c # received evs" by (simp add: received_def List.map_filter_def)
  let ?buf = "buf @ frame_chunk c"
  have b: "?buf = concat (map frame_chunk (held @ [c]))" using "4.prems" by simp
  consider "\<not> BATCH_BYTES \<le> length ?buf" | "BATCH_BYTES \<le> length ?buf" "oks = [] \<or> hd oks"
    | "BATCH_BYTES \<le> length ?buf" "\<not> (oks = [] \<or> hd oks)" by blast
  then show ?case
  proof cases
    case 1
    with "4.IH"(2) [OF refl _ b] show ?thesis by (simp add: r Let_def)
  next
    case 2
    from "4.IH"(1) [OF refl 2, of "[]"] obtain groups rest where
      "flusher [] False evs (tl oks) = map (\<lambda>g. concat (map frame_chunk g)) groups" "received evs = concat groups @ rest" by auto
    with 2 b show ?thesis by (intro exI [of _ "(held @ [c]) # groups"] exI [of _ rest]) (simp add: r Let_def)
  next
    case x: 3
    show ?thesis
    proof (cases "tl oks = [] \<or> hd (tl oks)")
      case True
      with x b show ?thesis by (intro exI [of _ "[held @ [c]]"] exI [of _ "received evs"]) (auto simp: r Let_def)
    next
      case False
      with x show ?thesis by (intro exI [of _ "[]"] exI [of _ "held @ received (Recv c # evs)"]) (auto simp: r Let_def)
    qed
  qed
qed

text \<open>
  C20. Streaming never reorders or splits output: whatever the timing and the failures of the socket,
  every datagram holds whole frames that read back as chunks, and all of them together are an initial
  part of the chunks that were queued, in their order. (A chunk can only be missing at the end.)
\<close>

theorem stream_is_ordered_prefix:
  assumes "\<forall>c\<in>set (received evs). length (ck_payload c) < 2 ^ 32"
  shows "\<exists>groups rest. map parse_datagram (flusher [] False evs oks) = map Some groups \<and>
    received evs = concat groups @ rest"
proof -
  obtain groups rest where g: "flusher [] False evs oks = map (\<lambda>g. concat (map frame_chunk g)) groups"
      "received evs = concat groups @ rest"
    using flusher_frames [of "[]" "[]" False evs oks] by auto
  have "parse_datagram (concat (map frame_chunk x)) = Some x" if "x \<in> set groups" for x
    using assms that by (intro parse_frames) (auto simp: g(2))
  then have "map parse_datagram (flusher [] False evs oks) = map Some groups" by (simp add: g(1))
  with g(2) show ?thesis by blast
qed

definition demo_chunk :: "nat \<Rightarrow> chunk" where
  "demo_chunk n = \<lparr>ck_stream = DcStdout, ck_payload = [word_of_nat n]\<rparr>"

theorem stream_is_ordered_prefix_witness:
  "\<exists>groups rest. map parse_datagram (flusher [] False [Recv (demo_chunk 1), Tick, Recv (demo_chunk 2), Tick] [True, False, False]) =
      map Some groups \<and>
    received [Recv (demo_chunk 1), Tick, Recv (demo_chunk 2), Tick] = concat groups @ rest"
  by (rule stream_is_ordered_prefix) (simp add: received_def List.map_filter_def demo_chunk_def)

lemma flusher_complete:
  assumes "list_all (\<lambda>ok. ok) oks" "\<not> pending \<longrightarrow> buf = []" "ChannelClosed \<notin> set evs"
  shows "concat (flusher buf pending (evs @ [ChannelClosed]) oks) = buf @ concat (map frame_chunk (received evs))"
  using assms
proof (induction buf pending evs oks rule: flusher.induct)
  case (1 buf pending oks)
  then show ?case by (cases oks) (auto simp: received_def List.map_filter_def)
next
  case (3 buf pending evs oks)
  then show ?case by (cases oks) (auto simp: received_def List.map_filter_def)
next
  case (4 buf pending c evs oks)
  have r: "received (Recv c # evs) = c # received evs" by (simp add: received_def List.map_filter_def)
  from 4 show ?case by (cases oks; cases "BATCH_BYTES \<le> length (buf @ frame_chunk c)") (auto simp: r Let_def)
qed simp

lemma shm_chunk_small: "length (sm_uuid env) \<le> 64 \<Longrightarrow> try_shm_write env p s = Some (c, f) \<Longrightarrow> length (ck_payload c) \<le> 100"
  by (auto simp: try_shm_write_def Let_def as_bytes_def split: if_splits)

text \<open>
  Nothing is lost while the socket works: when every send succeeds and the channel is closed at
  the end, the datagrams together are exactly the frames of all queued chunks.
\<close>

theorem stream_is_complete:
  assumes "list_all (\<lambda>ok. ok) oks" "ChannelClosed \<notin> set evs"
  shows "concat (flusher [] False (evs @ [ChannelClosed]) oks) = concat (map frame_chunk (received evs))"
  using flusher_complete [OF assms(1) _ assms(2), of False "[]"] by simp

text \<open>
  Datagrams are bounded by the batch size and one chunk: below 8 KiB of earlier frames, then one
  frame of at most five bytes more than the largest chunk. With shared memory the largest chunk is
  8 KiB, so a datagram stays below 16 KiB and five bytes.
\<close>

lemma datagram_bound:
  assumes "length buf < BATCH_BYTES" "\<forall>c\<in>set (received evs). length (ck_payload c) \<le> n" "d \<in> set (flusher buf pending evs oks)"
  shows "length d < BATCH_BYTES + 5 + n"
  using assms
proof (induction buf pending evs oks rule: flusher.induct)
  case (3 buf pending evs oks)
  then show ?case by (auto simp: received_def List.map_filter_def BATCH_BYTES_def split: if_splits)
next
  case (4 buf pending c evs oks)
  have r: "received (Recv c # evs) = c # received evs" by (simp add: received_def List.map_filter_def)
  have c: "length (frame_chunk c) \<le> 5 + n" using "4.prems"(2) by (simp add: r frame_chunk_def)
  from 4 c show ?case
    by (cases "BATCH_BYTES \<le> length (buf @ frame_chunk c)") (auto simp: r Let_def BATCH_BYTES_def split: if_splits)
qed (auto split: if_splits)

theorem datagrams_bounded:
  assumes "\<forall>c\<in>set (received evs). length (ck_payload c) \<le> SHM_THRESHOLD" "d \<in> set (flusher [] False evs oks)"
  shows "length d < 2 * BATCH_BYTES + 5"
  using datagram_bound [OF _ assms] by (simp add: BATCH_BYTES_def SHM_THRESHOLD_def)

end
