(* ===== verification/RB_Session.thy ===== *)
theory RB_Session
  imports RB_Exec RB_Warm
begin

text \<open>
  The session mode (\<^verbatim>\<open>engine/src/modes/session.rs\<close>): a session is a frozen settings object and a volume;
  every cell is a fresh sandbox whose entry point is a shim that restores the namespace from the
  volume, runs the cell, saves the namespace and leaves a result file. What the sandbox does to the
  volume is an argument of the engine's side; the Python shim is modelled as one such effect.
\<close>

section \<open>Cells\<close>

definition CELL_RESULT_FILE :: string where "CELL_RESULT_FILE = ''.rockbox_cell_result.json''"
definition SHIM_FILENAME_PY :: string where "SHIM_FILENAME_PY = ''.rockbox_session_shim.py''"
definition SHIM_FILENAME_JS :: string where "SHIM_FILENAME_JS = ''.rockbox_session_shim.mjs''"
definition CELL_FILENAME :: string where "CELL_FILENAME = ''.rockbox_cell''"

fun supports_session :: "language \<Rightarrow> bool" where
  "supports_session Python = True"
| "supports_session Typescript = True"
| "supports_session _ = False"

text \<open>File name and body of the shim and the extension of the cell file; the bodies are arguments.\<close>

fun language_shim :: "byte list \<Rightarrow> byte list \<Rightarrow> language \<Rightarrow> string \<times> byte list \<times> string" where
  "language_shim py js Python = (SHIM_FILENAME_PY, py, ''py'')"
| "language_shim py js Typescript = (SHIM_FILENAME_JS, js, ''mjs'')"
| "language_shim py js _ = (''.rockbox_session_shim.sh'', as_bytes (''#!/bin/false'' @ [CHR 0x0A]), ''txt'')"

definition plain_file :: "string \<Rightarrow> byte list \<Rightarrow> file_entry" where
  "plain_file path content = \<lparr>fe_path = path, fe_content = content, fe_mode = 420\<rparr>"

definition cell_files ::
    "byte list \<Rightarrow> byte list \<Rightarrow> language \<Rightarrow> string \<Rightarrow> file_entry list \<Rightarrow> file_entry list" where
  "cell_files py js lang code files =
     (case language_shim py js lang of
        (shim_name, shim_body, ext) \<Rightarrow>
          let cell_filename = CELL_FILENAME @ ''.'' @ ext in
          [plain_file shim_name shim_body, plain_file cell_filename (as_bytes code)] @
          filter (\<lambda>f. \<not> (fe_path f = shim_name \<or> fe_path f = cell_filename)) files)"

definition cell_settings ::
    "byte list \<Rightarrow> byte list \<Rightarrow> settings \<Rightarrow> string \<Rightarrow> string \<Rightarrow> string \<Rightarrow> file_entry list \<Rightarrow> u64 option \<Rightarrow> settings" where
  "cell_settings py js base rid session_id code files wall_ms =
     base\<lparr>s_request_id := rid, s_mode := Exec, s_entrypoint := fst (language_shim py js (s_language base)),
       s_limits := (case wall_ms of Some w \<Rightarrow> (s_limits base)\<lparr>l_wall_ms := w\<rparr> | None \<Rightarrow> s_limits base),
       s_files := cell_files py js (s_language base) code files,
       s_filesystem := (s_filesystem base)\<lparr>fs_mounts :=
         fs_mounts (s_filesystem base) @
         (if list_ex (\<lambda>m. em_target m = ''/session'') (fs_mounts (s_filesystem base)) then []
          else [\<lparr>em_source = ''session:'' @ session_id, em_target = ''/session'', em_mode = Rw\<rparr>])\<rparr>,
       s_capabilities := s_capabilities base @
         (if PersistentSession \<in> set (s_capabilities base) then [] else [PersistentSession])\<rparr>"

record shim_result =
  sr_status :: string
  sr_value_repr :: "string option"
  sr_traceback :: "string option"

definition parse_shim_result ::
    "(byte list \<Rightarrow> string + shim_result) \<Rightarrow> byte list \<Rightarrow> result_status \<times> string option \<times> string option" where
  "parse_shim_result json bytes =
     (case json bytes of
        Inr r \<Rightarrow>
          ((if sr_status r = ''ok'' then Success else if sr_status r = ''error'' then NonZeroExit else EngineError),
           sr_value_repr r, sr_traceback r)
      | Inl e \<Rightarrow> (EngineError, None, Some (''parse cell result: '' @ e)))"

section \<open>The engine's side\<close>

record session_engine =
  sn_part :: engine_part
  sn_sessions :: "string \<rightharpoonup> settings"
  sn_vols :: volumes

record cell_io =
  ci_tools :: tools
  ci_host :: host_kernel
  ci_work_root :: string
  ci_exec :: exec_io
  ci_py_shim :: "byte list"
  ci_js_shim :: "byte list"
  ci_json :: "byte list \<Rightarrow> string + shim_result"
  ci_effect :: "(string \<rightharpoonup> byte list) \<Rightarrow> (string \<rightharpoonup> byte list)"   \<comment> \<open>what the sandbox does to the volume\<close>
  ci_mkdir_ok :: bool
  ci_elapsed_ms :: u64

definition cell_answer ::
    "string \<Rightarrow> string \<Rightarrow> result_status \<Rightarrow> u64 \<Rightarrow> string option \<Rightarrow> string option \<Rightarrow> response" where
  "cell_answer rid session_id status ms value_repr traceback =
     CellResult \<lparr>cr_request_id = rid, cr_session_id = session_id, cr_status = status, cr_exec_time_ms = ms,
       cr_value_repr = value_repr, cr_traceback = traceback\<rparr>"

definition SESSIONS_DIR :: string where "SESSIONS_DIR = ''/var/lib/sandbox/sessions''"

definition start_or_attach :: "cell_io \<Rightarrow> settings \<Rightarrow> session_engine \<Rightarrow> (string + response) \<times> session_engine" where
  "start_or_attach io s e =
     (case s_session_id s of
        None \<Rightarrow> (Inl ''session mode requires session_id'', e)
      | Some sid \<Rightarrow>
          if \<not> supports_session (s_language s)
          then (Inr (cell_answer (s_request_id s) sid EngineError 0 None (Some ''language does not support session mode'')), e)
          else if \<not> ci_mkdir_ok io
          then (Inr (cell_answer (s_request_id s) sid EngineError 0 None (Some ''mkdir session root'')), e)
          else
            let dir = path_join SESSIONS_DIR sid in
            (Inr (cell_answer (s_request_id s) sid Success 0 (Some ''session_ready'') None),
             e\<lparr>sn_sessions := (sn_sessions e)(sid \<mapsto> s),
               sn_vols := (sn_vols e)(dir \<mapsto> (vol_files (sn_vols e) dir)(CELL_RESULT_FILE := None))\<rparr>))"

text \<open>
  \<^verbatim>\<open>run_exec_pipeline\<close>: resolve, launch, drain, release. The drain verdict is thrown away. \<open>None\<close> is a
  drain that does not return; the flag says whether the sandbox was started.
\<close>

definition pipeline_drain ::
    "cg_env \<Rightarrow> exec_io \<Rightarrow> settings \<Rightarrow> child_handle \<Rightarrow> cg_pool \<Rightarrow> cgfs \<Rightarrow> (string + unit) option \<times> cg_pool \<times> cgfs" where
  "pipeline_drain env io s h pool fs =
     (case make_timerfd (fst (xi_timer_ok io)) (snd (xi_timer_ok io)) (h_wall_ms h) of
        Inl e \<Rightarrow> (Some (Inl ''make_drainer''), pool, fs)
      | Inr timer \<Rightarrow>
          (case drainer_run (l_output_bytes (s_limits s)) (ce_write_ok env (cg_path (h_cgroup h)) ''cgroup.kill'')
                  (xi_wakes io) drain_init of
             (None, d) \<Rightarrow> (None, pool, fs)
           | (Some (Inl e), d) \<Rightarrow> (Some (Inl ''drain''), pool, fs)
           | (Some (Inr x), d) \<Rightarrow>
               (case after_drain env x (h_cgroup h) fs of
                  (cg1, fs1) \<Rightarrow>
                    (case release_cgroup env cg1 pool fs1 of (pool1, fs2) \<Rightarrow> (Some (Inr ()), pool1, fs2)))))"

definition run_exec_pipeline ::
    "cell_io \<Rightarrow> settings \<Rightarrow> launcher \<Rightarrow> engine_part \<Rightarrow> ((string + unit) option \<times> bool \<times> engine_part) panics" where
  "run_exec_pipeline io s la e =
     (case resolve (ci_tools io) s (ci_work_root io) (ep_world e) of
        Panic \<Rightarrow> Panic
      | Returns (Inl m, w) \<Rightarrow> Returns (Some (Inl ''resolve spec''), False, e\<lparr>ep_world := w\<rparr>)
      | Returns (Inr r, w) \<Rightarrow>
          (case launch (ci_host io) (rs_spec r) la (ep_fs e) of
             Panic \<Rightarrow> Panic
           | Returns (Inl x, la1, fs1, acts) \<Rightarrow>
               Returns (Some (Inl ''launch''), False, \<lparr>ep_world = w, ep_launcher = Some la1, ep_fs = fs1\<rparr>)
           | Returns (Inr h, la1, fs1, acts) \<Rightarrow>
               (case pipeline_drain (hk_cgroups (ci_host io)) (ci_exec io) s h (la_pool la1) fs1 of
                  (r, pool, fs2) \<Rightarrow>
                    Returns (r, True, \<lparr>ep_world = w, ep_launcher = Some (la1\<lparr>la_pool := pool\<rparr>), ep_fs = fs2\<rparr>))))"

text \<open>The end of a cell: read the result file and remove it.\<close>

definition cell_verdict ::
    "cell_io \<Rightarrow> (string \<rightharpoonup> byte list) \<Rightarrow> result_status \<times> string option \<times> string option" where
  "cell_verdict io files =
     (case files CELL_RESULT_FILE of
        Some bytes \<Rightarrow> parse_shim_result (ci_json io) bytes
      | None \<Rightarrow> (EngineError, None, Some ''no cell result file''))"

definition cell_error :: "cell_io \<Rightarrow> string \<Rightarrow> string \<Rightarrow> string \<Rightarrow> response" where
  "cell_error io rid sid m = cell_answer rid sid EngineError (ci_elapsed_ms io) None (Some m)"

text \<open>The cell once the session is known and an older result file is gone.\<close>

definition run_fresh_cell ::
    "cell_io \<Rightarrow> string \<Rightarrow> string \<Rightarrow> settings \<Rightarrow> string \<Rightarrow> (string \<rightharpoonup> byte list) \<Rightarrow> session_engine \<Rightarrow>
     (response option \<times> session_engine) panics" where
  "run_fresh_cell io rid sid cs dir files0 e1 =
     (case ep_launcher (sn_part e1) of
        None \<Rightarrow> Returns (Some (cell_error io rid sid ''sandbox launcher unavailable on this host''), e1)
      | Some la \<Rightarrow>
          (case run_exec_pipeline io cs la (sn_part e1) of
             Panic \<Rightarrow> Panic
           | Returns (r, was_run, p) \<Rightarrow>
               let files1 = (if was_run then ci_effect io files0 else files0);
                   e2 = e1\<lparr>sn_part := p, sn_vols := (sn_vols e1)(dir \<mapsto> files1)\<rparr>
               in (case r of
                     None \<Rightarrow> Returns (None, e2)
                   | Some (Inl m) \<Rightarrow> Returns (Some (cell_error io rid sid (''exec pipeline: '' @ m)), e2)
                   | Some (Inr _) \<Rightarrow>
                       (case cell_verdict io files1 of
                          (status, value_repr, traceback) \<Rightarrow>
                            Returns (Some (cell_answer rid sid status (ci_elapsed_ms io) value_repr traceback),
                              e2\<lparr>sn_vols := (sn_vols e2)(dir \<mapsto> files1(CELL_RESULT_FILE := None))\<rparr>)))))"

definition run_cell ::
    "cell_io \<Rightarrow> string \<Rightarrow> string \<Rightarrow> string \<Rightarrow> file_entry list \<Rightarrow> u64 option \<Rightarrow> session_engine \<Rightarrow>
     (response option \<times> session_engine) panics" where
  "run_cell io rid sid code files wall_ms e =
     (case sn_sessions e sid of
        None \<Rightarrow> Returns (Some (cell_error io rid sid ''session not started; send Execute with mode=session first''), e)
      | Some base \<Rightarrow>
          if \<not> supports_session (s_language base)
          then Returns (Some (cell_error io rid sid ''language does not support session mode''), e)
          else
            let dir = path_join SESSIONS_DIR sid;
                files0 = (vol_files (sn_vols e) dir)(CELL_RESULT_FILE := None)
            in run_fresh_cell io rid sid (cell_settings (ci_py_shim io) (ci_js_shim io) base rid sid code files wall_ms)
                 dir files0 (e\<lparr>sn_vols := (sn_vols e)(dir \<mapsto> files0)\<rparr>))"

section \<open>The Python shim\<close>

text \<open>
  How a cell ends: normally, with \<^verbatim>\<open>SystemExit\<close> (does its code count as success), with another
  exception, or by the death of the interpreter.
\<close>

datatype cell_end = CellOk | CellExit bool | CellRaised string | CellKilled

text \<open>A namespace is a dictionary in insertion order.\<close>

type_synonym 'v namespace = "(string \<times> 'v) list"

fun dict_put :: "string \<Rightarrow> 'v \<Rightarrow> 'v namespace \<Rightarrow> 'v namespace" where
  "dict_put k v [] = [(k, v)]"
| "dict_put k v ((k', v') # d) = (if k = k' then (k, v) # d else (k', v') # dict_put k v d)"

record 'v session_py =
  sp_unpickle :: "byte list \<Rightarrow> 'v namespace option"
  sp_pickle :: "'v namespace \<Rightarrow> byte list"
  sp_keeps :: "'v \<Rightarrow> bool"                \<comment> \<open>picklable and not a module\<close>
  sp_main :: 'v
  sp_exec :: "string \<Rightarrow> 'v namespace \<Rightarrow> cell_end \<times> 'v namespace"
  sp_json :: "shim_result \<Rightarrow> byte list"
  sp_state_opens :: bool

definition restored :: "'v session_py \<Rightarrow> (string \<rightharpoonup> byte list) \<Rightarrow> 'v namespace" where
  "restored sp files =
     (case files STATE_FILE of
        Some data \<Rightarrow> (case sp_unpickle sp data of Some saved \<Rightarrow> saved | None \<Rightarrow> [])
      | None \<Rightarrow> [])"

definition initial_globals :: "'v session_py \<Rightarrow> 'v namespace \<Rightarrow> 'v namespace" where
  "initial_globals sp saved = fold (\<lambda>(k, v). dict_put k v) saved [(''__name__'', sp_main sp)]"

definition to_save :: "'v session_py \<Rightarrow> 'v namespace \<Rightarrow> 'v namespace" where
  "to_save sp ns = filter (\<lambda>(k, v). \<not> starts_with k ''__'' \<and> sp_keeps sp v) ns"

fun result_of :: "cell_end \<Rightarrow> shim_result" where
  "result_of CellOk = \<lparr>sr_status = ''ok'', sr_value_repr = None, sr_traceback = None\<rparr>"
| "result_of (CellExit success) =
     (if success then \<lparr>sr_status = ''ok'', sr_value_repr = None, sr_traceback = None\<rparr>
      else \<lparr>sr_status = ''error'', sr_value_repr = None, sr_traceback = Some ''SystemExit''\<rparr>)"
| "result_of (CellRaised tb) = \<lparr>sr_status = ''error'', sr_value_repr = None, sr_traceback = Some tb\<rparr>"
| "result_of CellKilled = \<lparr>sr_status = [], sr_value_repr = None, sr_traceback = None\<rparr>"

text \<open>
  What the shim does to the volume, for a cell that leaves the shim's own two files alone. A killed
  interpreter writes nothing.
\<close>

definition shim_effect :: "'v session_py \<Rightarrow> string \<Rightarrow> (string \<rightharpoonup> byte list) \<Rightarrow> (string \<rightharpoonup> byte list)" where
  "shim_effect sp cell files =
     (case sp_exec sp cell (initial_globals sp (restored sp files)) of
        (CellKilled, ns) \<Rightarrow> files
      | (out, ns) \<Rightarrow>
          let files1 = (if sr_status (result_of out) = ''ok'' \<and> sp_state_opens sp
                        then files(STATE_FILE \<mapsto> sp_pickle sp (to_save sp ns)) else files)
          in files1(CELL_RESULT_FILE \<mapsto> sp_json sp (result_of out)))"

section \<open>A session as one interpreter\<close>

text \<open>
  The abstract session is a namespace. A cell runs on it; when it succeeds, the names that can be kept
  are the new namespace, otherwise nothing changes.
\<close>

fun cell_ok :: "cell_end \<Rightarrow> bool" where
  "cell_ok CellOk = True"
| "cell_ok (CellExit success) = success"
| "cell_ok _ = False"

definition abs_cell :: "'v session_py \<Rightarrow> string \<Rightarrow> 'v namespace \<Rightarrow> 'v namespace" where
  "abs_cell sp cell saved =
     (case sp_exec sp cell (initial_globals sp saved) of
        (out, ns) \<Rightarrow> if cell_ok out then to_save sp ns else saved)"

lemma file_names_distinct: "STATE_FILE \<noteq> CELL_RESULT_FILE"
  by (simp add: STATE_FILE_def CELL_RESULT_FILE_def)

lemma result_ok: "sr_status (result_of out) = ''ok'' \<longleftrightarrow> cell_ok out"
  by (cases out) simp_all

lemma restored_ignores_result [simp]: "restored sp (files(CELL_RESULT_FILE := x)) = restored sp files"
  using file_names_distinct by (simp add: restored_def)

lemma shim_effect_refines:
  assumes "sp_state_opens sp" "\<And>ns. sp_unpickle sp (sp_pickle sp (to_save sp ns)) = Some (to_save sp ns)"
  shows "restored sp (shim_effect sp cell files) = abs_cell sp cell (restored sp files)"
proof -
  obtain out ns where x: "sp_exec sp cell (initial_globals sp (restored sp files)) = (out, ns)" by fastforce
  have a: "abs_cell sp cell (restored sp files) = (if cell_ok out then to_save sp ns else restored sp files)"
    by (simp add: abs_cell_def x)
  show ?thesis
  proof (cases "out = CellKilled")
    case True
    then show ?thesis by (simp add: a) (simp add: shim_effect_def x)
  next
    case False
    then have e: "shim_effect sp cell files = ((if cell_ok out then files(STATE_FILE \<mapsto> sp_pickle sp (to_save sp ns)) else files)
        (CELL_RESULT_FILE \<mapsto> sp_json sp (result_of out)))"
      using assms(1) by (cases out) (simp_all add: shim_effect_def x result_ok Let_def)
    show ?thesis unfolding a e using assms(2) by (auto simp: restored_def file_names_distinct)
  qed
qed

lemma shim_effect_result:
  assumes "files CELL_RESULT_FILE = None"
  shows "shim_effect sp cell files CELL_RESULT_FILE =
    (case sp_exec sp cell (initial_globals sp (restored sp files)) of
       (out, ns) \<Rightarrow> if out = CellKilled then None else Some (sp_json sp (result_of out)))"
  using assms by (auto simp: shim_effect_def Let_def split: prod.split cell_end.split)


text \<open>A Python whose values are bytes and whose cells set one variable, for the examples.\<close>

fun demo_pickle :: "byte namespace \<Rightarrow> byte list" where
  "demo_pickle [] = []"
| "demo_pickle ((k, v) # ns) = concat (map (\<lambda>c. [1, c]) (as_bytes k)) @ [0, v] @ demo_pickle ns"

fun demo_unpickle :: "byte list \<Rightarrow> byte list \<Rightarrow> byte namespace option" where
  "demo_unpickle name [] = Some []"
| "demo_unpickle name [b] = None"
| "demo_unpickle name (b # c # bs) =
     (if b = 1 then demo_unpickle (name @ [c]) bs
      else map_option ((#) (of_bytes name, c)) (demo_unpickle [] bs))"

lemma demo_unpickle_name: "demo_unpickle name (concat (map (\<lambda>c. [1, c]) cs) @ bs) = demo_unpickle (name @ cs) bs"
  by (induction cs arbitrary: name) simp_all

lemma demo_pickle_round: "demo_unpickle [] (demo_pickle ns) = Some ns"
  by (induction ns rule: demo_pickle.induct) (simp_all add: demo_unpickle_name)

definition demo_session_py :: "byte session_py" where
  "demo_session_py =
     \<lparr>sp_unpickle = demo_unpickle [], sp_pickle = demo_pickle, sp_keeps = (\<lambda>_. True), sp_main = 0,
      sp_exec = (\<lambda>cell ns. if cell = ''bad'' then (CellRaised ''ValueError'', dict_put ''x'' 9 ns) else (CellOk, dict_put cell 7 ns)),
      sp_json = (\<lambda>r. as_bytes (sr_status r)), sp_state_opens = True\<rparr>"


section \<open>What a cell is told\<close>

text \<open>
  A cell never sees an older result: the answer, and the state afterwards, do not depend on a
  result file that an earlier cell (or anything else) left in the volume.
\<close>

theorem stale_result_never_reported:
  assumes "sn_sessions e sid = Some base" "supports_session (s_language base)"
    and "dir = path_join SESSIONS_DIR sid" "sn_vols e dir = Some files"
  shows "run_cell io rid sid code fs w (e\<lparr>sn_vols := (sn_vols e)(dir \<mapsto> files(CELL_RESULT_FILE \<mapsto> stale))\<rparr>) =
    run_cell io rid sid code fs w e"
proof -
  have "vol_files (sn_vols e) dir = files" "vol_files ((sn_vols e)(dir \<mapsto> files(CELL_RESULT_FILE \<mapsto> stale))) dir = files(CELL_RESULT_FILE \<mapsto> stale)"
    using assms(4) by (simp_all add: vol_files_def)
  then show ?thesis
    using assms(1,2) by (simp add: run_cell_def Let_def assms(3) [symmetric])
qed

text \<open>
  A cell is never reported as timed out, killed for memory or over its output limit: the engine
  throws the verdict of the sandbox away, so every answer is success, an error of the cell or an
  engine error.
\<close>

theorem cell_status_ignores_verdict:
  assumes "run_cell io rid sid code fs w e = Returns (Some resp, e')"
  shows "\<exists>r. resp = CellResult r \<and> cr_request_id r = rid \<and> cr_session_id r = sid \<and>
    cr_status r \<in> {Success, NonZeroExit, EngineError}"
proof -
  have v: "fst (cell_verdict io files) \<in> {Success, NonZeroExit, EngineError}" for files
    by (auto simp: cell_verdict_def parse_shim_result_def split: option.split sum.split)
  have a: "\<exists>r. cell_answer rid sid st ms x y = CellResult r \<and> cr_request_id r = rid \<and> cr_session_id r = sid \<and>
      cr_status r \<in> {Success, NonZeroExit, EngineError}" if "st \<in> {Success, NonZeroExit, EngineError}" for st ms x y
    unfolding cell_answer_def by (rule exI, rule conjI, rule refl) (use that in simp)
  have "\<exists>st ms x y. st \<in> {Success, NonZeroExit, EngineError} \<and> resp = cell_answer rid sid st ms x y"
    if "run_fresh_cell io rid sid cs dir files0 e1 = Returns (Some resp, e')" for cs dir files0 e1
  proof -
    have v': "st \<in> {Success, NonZeroExit, EngineError}" if "cell_verdict io files = (st, x, y)" for files st x y
      using v [of files] that by simp
    have ee: "EngineError \<in> {Success, NonZeroExit, EngineError}" by simp
    show ?thesis
    proof (cases "ep_launcher (sn_part e1)")
      case None
      with that ee show ?thesis by (auto simp: run_fresh_cell_def cell_error_def)
    next
      case (Some la)
      with that obtain r was_run p where run: "run_exec_pipeline io cs la (sn_part e1) = Returns (r, was_run, p)"
        by (auto simp: run_fresh_cell_def split: panics.splits)
      let ?files = "if was_run then ci_effect io files0 else files0"
      obtain st x y where cv: "cell_verdict io ?files = (st, x, y)" by (metis prod_cases3)
      have "(\<exists>m. resp = cell_error io rid sid m) \<or> resp = cell_answer rid sid st (ci_elapsed_ms io) x y"
        using that Some run cv by (auto simp: run_fresh_cell_def Let_def split: option.splits sum.splits)
      with v' [OF cv] ee show ?thesis unfolding cell_error_def by blast
    qed
  qed
  then have "\<exists>st ms x y. st \<in> {Success, NonZeroExit, EngineError} \<and> resp = cell_answer rid sid st ms x y"
    using assms by (auto simp: run_cell_def cell_error_def Let_def split: option.splits if_splits)
  with a show ?thesis by blast
qed

lemma run_fresh_cell_verdict:
  assumes "run_fresh_cell io rid sid cs dir files0 e1 = Returns (Some (CellResult r), e')" "cr_status r \<noteq> EngineError"
  shows "\<exists>was_run. let files1 = (if was_run then ci_effect io files0 else files0) in
    fst (cell_verdict io files1) = cr_status r \<and> sn_vols e' dir = Some (files1(CELL_RESULT_FILE := None))"
proof (cases "ep_launcher (sn_part e1)")
  case None
  with assms(1) have "CellResult r = cell_error io rid sid ''sandbox launcher unavailable on this host''"
    by (simp add: run_fresh_cell_def)
  with assms(2) show ?thesis by (simp add: cell_error_def cell_answer_def)
next
  case (Some la)
  obtain res was_run p where run: "run_exec_pipeline io cs la (sn_part e1) = Returns (res, was_run, p)"
  proof (cases "run_exec_pipeline io cs la (sn_part e1)")
    case Panic
    with assms(1) show ?thesis by (simp add: run_fresh_cell_def Some)
  next
    case (Returns x)
    with that show ?thesis by (cases x) simp
  qed
  let ?files = "if was_run then ci_effect io files0 else files0"
  obtain st x y where cv: "cell_verdict io ?files = (st, x, y)" by (metis prod_cases3)
  let ?m = "\<lambda>m. Some (cell_answer rid sid EngineError (ci_elapsed_ms io) None (Some (''exec pipeline: '' @ m)))"
  obtain u where res: "res = Some (Inr u)"
  proof (cases res)
    case None
    with assms(1) show ?thesis by (simp add: run_fresh_cell_def Some run Let_def)
  next
    case (Some x)
    show ?thesis
    proof (cases x)
      case (Inl m)
      with assms(1) \<open>res = Some x\<close> \<open>ep_launcher (sn_part e1) = Some la\<close> have "CellResult r = cell_error io rid sid (''exec pipeline: '' @ m)"
        by (simp add: run_fresh_cell_def run Let_def)
      with assms(2) show ?thesis by (auto simp: cell_error_def cell_answer_def)
    next
      case (Inr u)
      with \<open>res = Some x\<close> that show ?thesis by simp
    qed
  qed
  have "CellResult r = cell_answer rid sid st (ci_elapsed_ms io) x y"
    "sn_vols e' dir = Some (?files(CELL_RESULT_FILE := None))"
    using assms(1) by (auto simp: run_fresh_cell_def Some run Let_def res cv)
  then have "cr_status r = st \<and> sn_vols e' dir = Some (?files(CELL_RESULT_FILE := None))"
    by (simp add: cell_answer_def)
  with cv show ?thesis by (intro exI [of _ was_run]) (simp add: Let_def)
qed

text \<open>
  The engine and the shim together implement the session: an answer "success" means that the cell
  ended well and that the volume now holds the namespace of the abstract session after this cell; an
  answer "non-zero exit" means that the cell failed and the session is as it was before.
\<close>

theorem answered_cell_is_session_step:
  assumes "ci_effect io = shim_effect sp code" "sp_state_opens sp"
    and "\<forall>ns. sp_unpickle sp (sp_pickle sp (to_save sp ns)) = Some (to_save sp ns)"
    and "\<forall>out. ci_json io (sp_json sp (result_of out)) = Inr (result_of out)"
    and "run_cell io rid sid code fs w e = Returns (Some (CellResult r), e')" "cr_status r \<noteq> EngineError"
  shows "let before = restored sp (vol_files (sn_vols e) (path_join SESSIONS_DIR sid));
             after = restored sp (vol_files (sn_vols e') (path_join SESSIONS_DIR sid));
             ended = fst (sp_exec sp code (initial_globals sp before))
         in if cr_status r = Success then cell_ok ended \<and> after = abs_cell sp code before
            else cr_status r = NonZeroExit \<and> \<not> cell_ok ended \<and> after = before"
proof -
  define dir where "dir = path_join SESSIONS_DIR sid"
  define files where "files = vol_files (sn_vols e) dir"
  define files0 where "files0 = files(CELL_RESULT_FILE := None)"
  obtain cs e1 where "run_fresh_cell io rid sid cs dir files0 e1 = Returns (Some (CellResult r), e')"
    using assms(5,6) by (auto simp: run_cell_def cell_error_def cell_answer_def Let_def dir_def files_def files0_def
        split: option.splits if_splits)
  from run_fresh_cell_verdict [OF this assms(6)] obtain was_run where
    v: "fst (cell_verdict io (if was_run then shim_effect sp code files0 else files0)) = cr_status r"
      "sn_vols e' dir = Some ((if was_run then shim_effect sp code files0 else files0)(CELL_RESULT_FILE := None))"
    unfolding Let_def assms(1) by blast
  have was: "was_run"
    using v(1) assms(6) by (cases was_run) (auto simp: cell_verdict_def files0_def)
  obtain out ns where x: "sp_exec sp code (initial_globals sp (restored sp files)) = (out, ns)" by fastforce
  have res: "shim_effect sp code files0 CELL_RESULT_FILE = (if out = CellKilled then None else Some (sp_json sp (result_of out)))"
    using shim_effect_result [of files0 sp code] x by (simp add: files0_def)
  have killed: "out \<noteq> CellKilled" using v(1) was assms(6) res by (auto simp: cell_verdict_def)
  have st: "cr_status r = (if cell_ok out then Success else NonZeroExit)"
  proof -
    have "cr_status r = fst (parse_shim_result (ci_json io) (sp_json sp (result_of out)))"
      using v(1) was res killed by (simp add: cell_verdict_def)
    also have "\<dots> = (if sr_status (result_of out) = ''ok'' then Success
        else if sr_status (result_of out) = ''error'' then NonZeroExit else EngineError)"
      unfolding parse_shim_result_def assms(4) [rule_format, of out] by simp
    also have "\<dots> = (if cell_ok out then Success else NonZeroExit)"
      using killed by (cases out) simp_all
    finally show ?thesis .
  qed
  have "restored sp (vol_files (sn_vols e') dir) = restored sp (shim_effect sp code files0)"
    using v(2) was by (simp add: vol_files_def)
  also have "\<dots> = abs_cell sp code (restored sp files)"
    using shim_effect_refines [OF assms(2), of code files0] assms(3) by (simp add: files0_def)
  finally have "restored sp (vol_files (sn_vols e') dir) = abs_cell sp code (restored sp files)" .
  with st x show ?thesis
    by (auto simp: Let_def dir_def [symmetric] files_def [symmetric] abs_cell_def)
qed

definition demo_cell_io :: cell_io where
  "demo_cell_io =
     \<lparr>ci_tools = demo_tools, ci_host = demo_machine (\<lambda>_. Inr 42), ci_work_root = ''/w'', ci_exec = demo_io,
      ci_py_shim = [], ci_js_shim = [], ci_json = (\<lambda>b. Inl ''e''), ci_effect = (\<lambda>f. f), ci_mkdir_ok = True, ci_elapsed_ms = 1\<rparr>"

definition demo_sessions :: session_engine where
  "demo_sessions =
     \<lparr>sn_part = demo_engine\<lparr>ep_launcher := None\<rparr>, sn_sessions = [''s'' \<mapsto> minimal_settings],
      sn_vols = [path_join SESSIONS_DIR ''s'' \<mapsto> Map.empty]\<rparr>"

theorem stale_result_never_reported_witness:
  "run_cell demo_cell_io ''r'' ''s'' ''x = 1'' [] None
      (demo_sessions\<lparr>sn_vols := (sn_vols demo_sessions)(path_join SESSIONS_DIR ''s'' \<mapsto> Map.empty(CELL_RESULT_FILE \<mapsto> [1]))\<rparr>) =
    run_cell demo_cell_io ''r'' ''s'' ''x = 1'' [] None demo_sessions"
  by (rule stale_result_never_reported [of _ _ minimal_settings]) (simp_all add: demo_sessions_def minimal_settings_def)

theorem cell_status_ignores_verdict_witness:
  "\<exists>resp e'. run_cell demo_cell_io ''r'' ''other'' ''x = 1'' [] None demo_sessions = Returns (Some resp, e') \<and>
    (\<exists>r. resp = CellResult r \<and> cr_request_id r = ''r'' \<and> cr_session_id r = ''other'' \<and>
      cr_status r \<in> {Success, NonZeroExit, EngineError})"
proof -
  obtain resp e' where run: "run_cell demo_cell_io ''r'' ''other'' ''x = 1'' [] None demo_sessions = Returns (Some resp, e')"
    by (simp add: run_cell_def demo_sessions_def)
  from cell_status_ignores_verdict [OF run] run show ?thesis by blast
qed
text \<open>A cell on a host where everything works.\<close>

definition demo_result_json :: "shim_result \<Rightarrow> byte list" where
  "demo_result_json r =
     (if sr_status r = ''ok'' then [0]
      else case sr_traceback r of Some tb \<Rightarrow> 1 # as_bytes tb | None \<Rightarrow> [2])"

definition demo_parse_json :: "byte list \<Rightarrow> string + shim_result" where
  "demo_parse_json bs =
     (case bs of
        [] \<Rightarrow> Inl ''empty''
      | b # tb \<Rightarrow>
          Inr (if b = 0 then result_of CellOk else if b = 1 then result_of (CellRaised (of_bytes tb)) else result_of CellKilled))"

lemma demo_json_round: "demo_parse_json (demo_result_json (result_of out)) = Inr (result_of out)"
  by (cases out) (simp_all add: demo_result_json_def demo_parse_json_def)

definition demo_live_io :: "string \<Rightarrow> cell_io" where
  "demo_live_io code = demo_cell_io\<lparr>ci_exec := demo_io, ci_json := demo_parse_json,
     ci_effect := shim_effect (demo_session_py\<lparr>sp_json := demo_result_json\<rparr>) code\<rparr>"

definition demo_live :: session_engine where
  "demo_live = demo_sessions\<lparr>sn_part := demo_engine, sn_sessions := [''s'' \<mapsto> demo_request]\<rparr>"

definition demo_cell :: settings where
  "demo_cell = cell_settings [] [] demo_request ''r'' ''s'' ''y'' [] None"

lemma demo_cell_hit:
  "\<exists>w. resolve demo_tools demo_cell ''/w'' (ep_world demo_engine) =
     Returns (Inr \<lparr>rs_spec = demo_spec\<lparr>c_request_id := ''r'', c_wall_timeout_ms := 5000\<rparr>, rs_work_dir = ''/w/00''\<rparr>, w)"
proof -
  have v: "validate demo_cell = Inr ()"
    by (simp add: demo_cell_def cell_settings_def cell_files_def demo_request_def validate_def minimal_settings_def
        minimal_limits_def SCHEMA_VERSION_def)
  have l: "runtime_lookup (tl_from_json demo_tools) (tl_env demo_tools) (runtime_name_of demo_cell) (w_registry (ep_world demo_engine))
      = Returns (Some (entry_flags ''python-base'' Python ''/etc/sandbox/flakes/python-base.lock'' ''python3''
          [Concurrency] py_env [''-S'']), Map.empty)"
    by (simp add: runtime_lookup_def runtime_name_of_def demo_cell_def cell_settings_def demo_request_def
        minimal_settings_def python_base demo_engine_def demo_world_def)
  show ?thesis
    unfolding resolve_def by (subst resolve_opts_reaches [OF v l])
      (simp_all add: Let_def demo_engine_def demo_world_def patch_hit_def demo_cell_def cell_settings_def demo_request_def
        minimal_settings_def minimal_limits_def entry_flags_def)
qed

lemma demo_pipeline:
  "\<exists>p. run_exec_pipeline (demo_live_io code) demo_cell demo_launcher demo_engine = Returns (Some (Inr ()), True, p)"
proof -
  let ?spec = "demo_spec\<lparr>c_request_id := ''r'', c_wall_timeout_ms := 5000\<rparr>"
  obtain w where res: "resolve demo_tools demo_cell ''/w'' (ep_world demo_engine) = Returns (Inr \<lparr>rs_spec = ?spec, rs_work_dir = ''/w/00''\<rparr>, w)"
    using demo_cell_hit by blast
  have plan: "plan_build (c_mounts ?spec) = Inr demo_plan" using demo_plan_build by simp
  have "c_limits ?spec = c_limits demo_spec" by (simp add: demo_spec_def)
  then obtain cg pool fs where t: "take_cgroup all_ok (c_limits ?spec) (la_pool demo_launcher) Map.empty = (Inr cg, pool, fs)"
    using first_take [of "c_limits demo_spec"] by (auto simp: demo_launcher_def pool_init_def)
  have cl: "clone_into_cgroup (\<lambda>_. Inr 42) None cg full_isolation = Inr (42, True)"
    by (simp add: clone_into_cgroup_def with_netns_def)
  obtain h la acts where l: "launch (demo_machine (\<lambda>_. Inr 42)) ?spec demo_launcher Map.empty = Returns (Inr h, la, fs, acts)"
      "h_wall_ms h = 5000"
    using t plan cl
    by (auto simp: launch_def launch_in_def demo_machine_def Let_def seccomp_compile_def demo_launcher_def
        demo_spec_def has_nul_def env_string_def split: sum.splits)
  have out: "drainer_run (l_output_bytes (s_limits demo_cell)) True demo_wakes drain_init =
      (Some (Inr (ExitNormal 0 2 0)), \<lparr>d_sent = 3, d_chunks = [(Stdout, [72, 105]), (Stderr, [33])]\<rparr>)"
    using demo_run by (simp add: demo_cell_def cell_settings_def demo_request_def)
  have ok: "ce_write_ok all_ok p f" for p f by (simp add: all_ok_def)
  have "\<exists>p f. pipeline_drain all_ok demo_io demo_cell h (la_pool la) fs = (Some (Inr ()), p, f)"
    using out l(2)
    by (cases "release_cgroup all_ok (h_cgroup h) (la_pool la) fs")
      (simp add: pipeline_drain_def demo_io_def make_timerfd_def ok after_drain_def)
  moreover have "ep_fs demo_engine = Map.empty" by (simp add: demo_engine_def)
  ultimately show ?thesis
    using res l by (auto simp: run_exec_pipeline_def demo_live_io_def demo_cell_io_def demo_machine_def)
qed

theorem answered_cell_is_session_step_witness:
  "\<exists>r e'. run_cell (demo_live_io ''y'') ''r'' ''s'' ''y'' [] None demo_live = Returns (Some (CellResult r), e') \<and>
     cr_status r = Success \<and>
     restored (demo_session_py\<lparr>sp_json := demo_result_json\<rparr>) (vol_files (sn_vols e') (path_join SESSIONS_DIR ''s'')) = [(''y'', 7)]"
proof -
  let ?sp = "demo_session_py\<lparr>sp_json := demo_result_json\<rparr>" and ?io = "demo_live_io ''y''"
  let ?dir = "path_join SESSIONS_DIR ''s''" and ?f0 = "Map.empty :: string \<rightharpoonup> byte list"
  obtain p where pl: "run_exec_pipeline ?io demo_cell demo_launcher demo_engine = Returns (Some (Inr ()), True, p)"
    using demo_pipeline by blast
  let ?e1 = "demo_live\<lparr>sn_vols := (sn_vols demo_live)(?dir \<mapsto> ?f0)\<rparr>"
  have before: "restored ?sp ?f0 = []" by (simp add: restored_def)
  have ended: "sp_exec ?sp ''y'' (initial_globals ?sp []) = (CellOk, [(''__name__'', 0), (''y'', 7)])"
    by (simp add: demo_session_py_def initial_globals_def)
  have eff: "shim_effect ?sp ''y'' ?f0 CELL_RESULT_FILE = Some [0]"
    using shim_effect_result [of ?f0 ?sp "''y''"] ended before by (simp add: demo_result_json_def)
  have "cell_verdict ?io (shim_effect ?sp ''y'' ?f0) = (Success, None, None)"
    by (simp add: cell_verdict_def eff demo_live_io_def demo_parse_json_def parse_shim_result_def)
  moreover have "ci_effect ?io = shim_effect ?sp ''y''" by (simp add: demo_live_io_def)
  moreover have "sn_part ?e1 = demo_engine" "ep_launcher demo_engine = Some demo_launcher"
    by (simp_all add: demo_live_def demo_engine_def)
  ultimately obtain e' where fresh: "run_fresh_cell ?io ''r'' ''s'' demo_cell ?dir ?f0 ?e1 =
      Returns (Some (cell_answer ''r'' ''s'' Success (ci_elapsed_ms ?io) None None), e')"
    by (simp add: run_fresh_cell_def pl Let_def)
  have shims: "ci_py_shim ?io = []" "ci_js_shim ?io = []" by (simp_all add: demo_live_io_def demo_cell_io_def)
  have vols: "(vol_files (sn_vols demo_live) ?dir)(CELL_RESULT_FILE := None) = ?f0"
    by (simp add: demo_live_def demo_sessions_def vol_files_def)
  have sess: "sn_sessions demo_live ''s'' = Some demo_request" "supports_session (s_language demo_request)"
    by (simp_all add: demo_live_def demo_request_def minimal_settings_def)
  have "run_cell ?io ''r'' ''s'' ''y'' [] None demo_live = run_fresh_cell ?io ''r'' ''s'' demo_cell ?dir ?f0 ?e1"
    by (simp add: run_cell_def sess shims vols demo_cell_def Let_def del: fun_upd_apply)
  with fresh obtain r where run: "run_cell ?io ''r'' ''s'' ''y'' [] None demo_live = Returns (Some (CellResult r), e')"
      "cr_status r = Success" by (simp add: cell_answer_def)
  have h: "ci_effect ?io = shim_effect ?sp ''y''" "sp_state_opens ?sp"
      "\<forall>ns. sp_unpickle ?sp (sp_pickle ?sp (to_save ?sp ns)) = Some (to_save ?sp ns)"
      "\<forall>out. ci_json ?io (sp_json ?sp (result_of out)) = Inr (result_of out)"
    by (simp_all add: demo_live_io_def demo_session_py_def demo_pickle_round demo_json_round)
  have "restored ?sp (vol_files (sn_vols e') ?dir) = abs_cell ?sp ''y'' (restored ?sp (vol_files (sn_vols demo_live) ?dir))"
    using answered_cell_is_session_step [OF h run(1)] run(2) by (simp add: Let_def)
  moreover have "restored ?sp (vol_files (sn_vols demo_live) ?dir) = []"
    using before by (simp add: demo_live_def demo_sessions_def vol_files_def)
  ultimately have "restored ?sp (vol_files (sn_vols e') ?dir) = [(''y'', 7)]"
    using ended by (simp add: abs_cell_def to_save_def starts_with_def demo_session_py_def)
  with run show ?thesis by blast
qed

end
