(* ===== verification/RB_Fork.thy ===== *)
theory RB_Fork
  imports RB_Exec
begin

text \<open>
  The shim of the Python zygote (\<^verbatim>\<open>python_shim\<close> in \<^verbatim>\<open>engine/src/modes/zygote.rs\<close>): one interpreter per
  engine that never runs user code; every request is a fork of it that confines itself and then runs
  the program in-process. The fork is a straight-line routine of system calls, like the child of the
  launcher. The theorems: the program runs only behind every layer, and files stay below
  \<^verbatim>\<open>/sandbox\<close>.
\<close>

section \<open>Paths in Python\<close>

text \<open>\<^verbatim>\<open>os.path.normpath\<close>: empty and \<^verbatim>\<open>.\<close> components go, \<^verbatim>\<open>..\<close> removes the one before it.\<close>

fun norm_comps :: "bool \<Rightarrow> string list \<Rightarrow> string list \<Rightarrow> string list" where
  "norm_comps rooted acc [] = rev acc"
| "norm_comps rooted acc (c # cs) =
     (if c = [] \<or> c = ''.'' then norm_comps rooted acc cs
      else if c \<noteq> ''..'' \<or> \<not> rooted \<and> acc = [] \<or> acc \<noteq> [] \<and> hd acc = ''..''
      then norm_comps rooted (c # acc) cs
      else norm_comps rooted (tl acc) cs)"

fun join_comps :: "string list \<Rightarrow> string" where
  "join_comps [] = []"
| "join_comps [c] = c"
| "join_comps (c # d # cs) = c @ ''/'' @ join_comps (d # cs)"

definition initial_slashes :: "string \<Rightarrow> nat" where
  "initial_slashes p =
     (if \<not> starts_with p ''/'' then 0
      else if starts_with p ''//'' \<and> \<not> starts_with p ''///'' then 2 else 1)"

definition normpath :: "string \<Rightarrow> string" where
  "normpath p =
     (let n = initial_slashes p;
          q = replicate n (CHR ''/'') @ join_comps (norm_comps (n \<noteq> 0) [] (path_components [] p))
      in if q = [] then ''.'' else q)"

section \<open>The fork\<close>

text \<open>The request frame, as the shim decodes it from JSON and base 64.\<close>

record fork_request =
  fq_entry :: string
  fq_files :: "file_entry list"
  fq_env :: "(string \<times> string) list"
  fq_bpf :: "byte list"
  fq_apparmor :: "string option"
  fq_fsize :: u64
  fq_nproc :: u32
  fq_nofile :: u32
  fq_stack :: u64
  fq_tmpfs_mb :: u64
  fq_sandbox_mb :: nat

text \<open>
  Two ways to fail before the program runs: \<^verbatim>\<open>die\<close> writes a line to standard error and exits with 126;
  an exception nobody catches ends the fork with 1.
\<close>

definition died :: sandbox_error where "died = ChildExit 126"
definition raised :: sandbox_error where "raised = ChildExit 1"

definition checked :: "syscall \<Rightarrow> step" where
  "checked c = must c (\<lambda>_. died)"

definition raising :: "syscall \<Rightarrow> step" where
  "raising c = must c (\<lambda>_. raised)"

definition MS_PRIVATE :: u64 where "MS_PRIVATE = 0x40000"
definition MS_NOEXEC :: u64 where "MS_NOEXEC = 8"

definition tmpfs_step :: "string \<Rightarrow> nat \<Rightarrow> string \<Rightarrow> step" where
  "tmpfs_step target mb mode =
     checked (SMount ''tmpfs'' target ''tmpfs'' (MS_NOSUID OR MS_NODEV) (''size='' @ decimal mb @ ''m,mode='' @ mode))"

definition fork_mounts :: "fork_request \<Rightarrow> step list" where
  "fork_mounts req =
     [checked (SMount [] ''/'' [] (MS_REC OR MS_PRIVATE) []),
      checked (SMount ''proc'' ''/proc'' ''proc'' (MS_NOSUID OR MS_NODEV OR MS_NOEXEC OR MS_RDONLY) ''hidepid=2''),
      tmpfs_step ''/sandbox'' (fq_sandbox_mb req) ''0755'', tmpfs_step ''/tmp'' (unat (fq_tmpfs_mb req)) ''1777'']"

text \<open>\<^verbatim>\<open>os.path.dirname\<close> of a normalised absolute path.\<close>

definition dirname :: "string \<Rightarrow> string" where
  "dirname p = rev (drop 1 (dropWhile (\<lambda>c. c \<noteq> CHR ''/'') (rev p)))"

definition file_steps :: "file_entry \<Rightarrow> step list" where
  "file_steps f =
     (let p = normpath (path_join ''/sandbox'' (fe_path f)) in
      if \<not> starts_with p ''/sandbox/'' then [Fail died]
      else [raising (SMakedirs (dirname p)), raising (SWriteFile p (fe_content f)), raising (SChmod p (fe_mode f AND 0x1FF))])"

definition shim_apply_seccomp :: "byte list \<Rightarrow> step list" where
  "shim_apply_seccomp blob = [checked SNoNewPrivs, checked (SSeccompLoad blob)]"

definition shim_drop_caps :: "step list" where
  "shim_drop_caps = map (\<lambda>cap. checked (SCapBsetDrop cap)) [0..<41] @ [checked SCapAmbientClear, checked SCapsetEmpty]"

definition shim_rlimits :: "fork_request \<Rightarrow> step list" where
  "shim_rlimits req =
     [raising (SSetrlimit ''FSIZE'' (fq_fsize req)), raising (SSetrlimit ''NPROC'' (ucast (fq_nproc req))),
      raising (SSetrlimit ''NOFILE'' (ucast (fq_nofile req))), raising (SSetrlimit ''STACK'' (fq_stack req)),
      raising (SSetrlimit ''CORE'' 0)]"

definition apparmor_step :: "fork_request \<Rightarrow> step list" where
  "apparmor_step req =
     (case fq_apparmor req of
        Some profile \<Rightarrow>
          if profile = [] then []
          else [checked (SWriteAttrCurrent (''changeprofile '' @ profile @ [CHR 0x0A]))]
      | None \<Rightarrow> [])"

text \<open>
  \<^verbatim>\<open>child\<close> up to the point where the program runs. The time stamps and their report to the middle
  process are left out.
\<close>

definition fork_steps :: "fork_request \<Rightarrow> int \<Rightarrow> int \<Rightarrow> int \<Rightarrow> step list" where
  "fork_steps req fd0 fd1 fd2 =
     [raising (SDup2 fd0 0), raising (SDup2 fd1 1), raising (SDup2 fd2 2)] @
     fork_mounts req @ concat (map file_steps (fq_files req)) @
     [raising (SChdir ''/'')] @ apparmor_step req @
     shim_apply_seccomp (fq_bpf req) @ shim_drop_caps @ shim_rlimits req"

text \<open>How the program ends, and the code the fork exits with.\<close>

datatype program_end =
    EndNormal
  | EndExit "int option"        \<comment> \<open>\<^verbatim>\<open>SystemExit\<close> with an integer or \<^verbatim>\<open>None\<close>\<close>
  | EndExitOther                \<comment> \<open>\<^verbatim>\<open>SystemExit\<close> with another object\<close>
  | EndRaised
  | EndSignal nat

datatype wait_status = WExited nat | WSignalled nat

fun program_status :: "program_end \<Rightarrow> wait_status" where
  "program_status EndNormal = WExited 0"
| "program_status (EndExit None) = WExited 0"
| "program_status (EndExit (Some code)) = WExited (nat (code mod 256))"
| "program_status EndExitOther = WExited 1"
| "program_status EndRaised = WExited 1"
| "program_status (EndSignal s) = WSignalled s"

text \<open>
  The program is run with the environment of the frame. Its path is not normalised: \<^verbatim>\<open>os.path.join\<close>
  of the entry point. The value is the wait status and, when the program ran, its path and environment.
\<close>

definition fork_child ::
    "kernel \<Rightarrow> fork_request \<Rightarrow> int \<Rightarrow> int \<Rightarrow> int \<Rightarrow> (string \<Rightarrow> (string \<times> string) list \<Rightarrow> program_end) \<Rightarrow> syscall list \<Rightarrow>
     wait_status \<times> (string \<times> (string \<times> string) list) option \<times> syscall list" where
  "fork_child k req fd0 fd1 fd2 prog h =
     (case run_steps k (fork_steps req fd0 fd1 fd2) h of
        (Some (ChildExit code), tr) \<Rightarrow> (WExited (nat code), None, tr)
      | (Some _, tr) \<Rightarrow> (WExited 1, None, tr)
      | (None, tr) \<Rightarrow>
          (let path = path_join ''/sandbox'' (fq_entry req) in
           (program_status (prog path (fq_env req)), Some (path, fq_env req), tr)))"

definition FORK_NAMESPACES :: u64 where
  "FORK_NAMESPACES = CLONE_NEWNS OR CLONE_NEWIPC OR CLONE_NEWUTS OR CLONE_NEWPID"

text \<open>
  The middle process passes the status on: it exits with the same code or kills itself with the same
  signal. Python refuses to reset the disposition of \<^verbatim>\<open>SIGKILL\<close> and \<^verbatim>\<open>SIGSTOP\<close> (\<^verbatim>\<open>EINVAL\<close> from the
  kernel), an exception that ends it with 1.
\<close>

definition SIGKILL :: nat where "SIGKILL = 9"
definition SIGSTOP :: nat where "SIGSTOP = 19"

fun middle_status :: "wait_status \<Rightarrow> wait_status" where
  "middle_status (WExited c) = WExited c"
| "middle_status (WSignalled s) = (if s = SIGKILL \<or> s = SIGSTOP then WExited 1 else WSignalled s)"

definition fork_middle ::
    "kernel \<Rightarrow> fork_request \<Rightarrow> int \<Rightarrow> int \<Rightarrow> int \<Rightarrow> (string \<Rightarrow> (string \<times> string) list \<Rightarrow> program_end) \<Rightarrow>
     wait_status \<times> (string \<times> (string \<times> string) list) option \<times> syscall list" where
  "fork_middle k req fd0 fd1 fd2 prog =
     (case run_steps k [checked (SUnshare FORK_NAMESPACES)] [] of
        (Some _, tr) \<Rightarrow> (WExited 126, None, tr)
      | (None, tr) \<Rightarrow>
          (case fork_child k req fd0 fd1 fd2 prog tr of
             (st, started, tr1) \<Rightarrow> (middle_status st, started, tr1)))"

text \<open>The status frame of the zygote: exit code and signal.\<close>

fun status_report :: "wait_status \<Rightarrow> int \<times> int" where
  "status_report (WExited c) = (int c, 0)"
| "status_report (WSignalled s) = (- 1, int s)"
section \<open>Code runs confined\<close>

lemma run_steps_calls:
  assumes "run_steps k ss h = (r, tr)" "c \<in> set tr" "c \<notin> set h"
  shows "c \<in> set (calls ss)"
  using assms run_steps_ok [of k ss h tr] run_steps_err [of k ss h _ tr] by (cases r) auto

text \<open>The trace of the middle process is that of one routine.\<close>

definition middle_steps :: "fork_request \<Rightarrow> int \<Rightarrow> int \<Rightarrow> int \<Rightarrow> step list" where
  "middle_steps req fd0 fd1 fd2 = checked (SUnshare FORK_NAMESPACES) # fork_steps req fd0 fd1 fd2"

lemma fork_middle_steps:
  assumes "fork_middle k req fd0 fd1 fd2 prog = (st, started, tr)"
  shows "\<exists>r. run_steps k (middle_steps req fd0 fd1 fd2) [] = (r, tr) \<and>
    (case r of
       None \<Rightarrow> started = Some (path_join ''/sandbox'' (fq_entry req), fq_env req) \<and>
         st = middle_status (program_status (prog (path_join ''/sandbox'' (fq_entry req)) (fq_env req)))
     | Some _ \<Rightarrow> started = None)"
proof -
  let ?u = "[checked (SUnshare FORK_NAMESPACES)]"
  have ms: "middle_steps req fd0 fd1 fd2 = ?u @ fork_steps req fd0 fd1 fd2" by (simp add: middle_steps_def)
  obtain r0 tr0 where r0: "run_steps k ?u [] = (r0, tr0)" by fastforce
  show ?thesis
  proof (cases r0)
    case (Some e)
    then have "run_steps k (middle_steps req fd0 fd1 fd2) [] = (Some e, tr0)" unfolding ms run_steps_append r0 by simp
    moreover have "started = None" "tr = tr0" using assms r0 Some by (simp_all add: fork_middle_def)
    ultimately show ?thesis by simp
  next
    case None
    obtain r1 tr1 where r1: "run_steps k (fork_steps req fd0 fd1 fd2) tr0 = (r1, tr1)" by fastforce
    then have m: "run_steps k (middle_steps req fd0 fd1 fd2) [] = (r1, tr1)" unfolding ms run_steps_append r0 None by simp
    have a: "fork_middle k req fd0 fd1 fd2 prog =
        (case fork_child k req fd0 fd1 fd2 prog tr0 of (st, started, tr1) \<Rightarrow> (middle_status st, started, tr1))"
      by (simp only: fork_middle_def r0 None prod.case option.case)
    show ?thesis
    proof (cases r1)
      case None
      then show ?thesis using assms m unfolding a by (auto simp: fork_child_def r1 Let_def)
    next
      case (Some e)
      then show ?thesis using assms m unfolding a by (cases e) (auto simp: fork_child_def r1)
    qed
  qed
qed



text \<open>The files of a request land below \<^verbatim>\<open>/sandbox\<close>.\<close>

lemma norm_comps_clean:
  assumes "\<forall>c\<in>set acc. c \<noteq> [] \<and> c \<noteq> ''..'' \<and> CHR ''/'' \<notin> set c" "\<forall>c\<in>set cs. CHR ''/'' \<notin> set c"
  shows "\<forall>c\<in>set (norm_comps True acc cs). c \<noteq> [] \<and> c \<noteq> ''..'' \<and> CHR ''/'' \<notin> set c"
  using assms
proof (induction cs arbitrary: acc)
  case (Cons c cs)
  have t: "\<forall>x\<in>set (tl acc). x \<noteq> [] \<and> x \<noteq> ''..'' \<and> CHR ''/'' \<notin> set x"
    using Cons.prems(1) by (cases acc) auto
  have h: "\<not> (acc \<noteq> [] \<and> hd acc = ''..'')" using Cons.prems(1) by (cases acc) auto
  show ?case
  proof (cases "c = [] \<or> c = ''.''")
    case True
    with Cons.IH [OF Cons.prems(1)] Cons.prems(2) show ?thesis by auto
  next
    case False
    show ?thesis
    proof (cases "c = ''..''")
      case True
      with h Cons.IH [OF t] Cons.prems(2) show ?thesis by auto
    next
      case dots: False
      have "\<forall>x\<in>set (c # acc). x \<noteq> [] \<and> x \<noteq> ''..'' \<and> CHR ''/'' \<notin> set x"
        using Cons.prems dots False by simp
      from Cons.IH [OF this] Cons.prems(2) dots False show ?thesis by simp
    qed
  qed
qed simp

lemma path_components_no_slash: "CHR ''/'' \<notin> set cur \<Longrightarrow> \<forall>c\<in>set (path_components cur p). CHR ''/'' \<notin> set c"
  by (induction cur p rule: path_components.induct) auto

lemma path_components_name: "CHR ''/'' \<notin> set c \<Longrightarrow> path_components cur c = [rev cur @ c]"
  by (induction c arbitrary: cur) auto

lemma path_components_join_name:
  "CHR ''/'' \<notin> set c \<Longrightarrow> path_components cur (c @ CHR ''/'' # r) = (rev cur @ c) # path_components [] r"
  by (induction c arbitrary: cur) auto

lemma components_of_join:
  assumes "cs \<noteq> []" "\<forall>c\<in>set cs. CHR ''/'' \<notin> set c"
  shows "path_components [] (join_comps cs) = cs"
  using assms by (induction cs rule: join_comps.induct) (simp_all add: path_components_name path_components_join_name)

lemma normpath_components:
  assumes "is_absolute p" "starts_with (normpath p) ''/sandbox/''"
  shows "''..'' \<notin> set (path_components [] (normpath p))"
proof -
  let ?cs = "norm_comps True [] (path_components [] p)"
  have clean: "\<forall>c\<in>set ?cs. c \<noteq> [] \<and> c \<noteq> ''..'' \<and> CHR ''/'' \<notin> set c"
    using norm_comps_clean [of "[]" "path_components [] p"] path_components_no_slash [of "[]" p] by simp
  have n: "initial_slashes p = 1 \<or> initial_slashes p = 2"
    using assms(1) by (cases p) (auto simp: initial_slashes_def is_absolute_def starts_with_def)
  show ?thesis
  proof (cases "initial_slashes p = 2")
    case True
    then have "normpath p = CHR ''/'' # CHR ''/'' # join_comps ?cs"
      by (simp add: normpath_def Let_def numeral_2_eq_2)
    with assms(2) show ?thesis by (simp add: starts_with_def)
  next
    case False
    with n have np: "normpath p = CHR ''/'' # join_comps ?cs" by (simp add: normpath_def Let_def)
    have "?cs \<noteq> []"
    proof
      assume "?cs = []"
      with np assms(2) show False by (simp add: starts_with_def)
    qed
    then have "path_components [] (normpath p) = [] # ?cs"
      using components_of_join [of ?cs] clean by (simp add: np)
    with clean show ?thesis by auto
  qed
qed

text \<open>
  C21. A fork writes only inside its own \<^verbatim>\<open>/sandbox\<close>, whatever paths the request names: every file it
  creates has a path below \<^verbatim>\<open>/sandbox/\<close> without a parent component, and no set-uid, set-gid or sticky
  bit; a request with another path ends the fork with 126 before any code runs.
\<close>

theorem fork_files_stay_in_sandbox:
  assumes "fork_middle k req fd0 fd1 fd2 prog = (st, started, tr)"
  shows "(\<forall>p content. SWriteFile p content \<in> set tr \<longrightarrow>
      starts_with p ''/sandbox/'' \<and> ''..'' \<notin> set (path_components [] p)) \<and>
    (\<forall>p mode. SChmod p mode \<in> set tr \<longrightarrow> mode \<le> 0x1FF) \<and>
    ((\<exists>f\<in>set (fq_files req). \<not> starts_with (normpath (path_join ''/sandbox'' (fe_path f))) ''/sandbox/'') \<longrightarrow> started = None)"
proof (intro conjI allI impI)
  obtain r where run: "run_steps k (middle_steps req fd0 fd1 fd2) [] = (r, tr)" using fork_middle_steps [OF assms] by blast
  have other: "c \<in> set (calls (concat (map file_steps (fq_files req))))"
    if "c \<in> set tr" "(\<exists>p content. c = SWriteFile p content) \<or> (\<exists>p mode. c = SChmod p mode)" for c
    using run_steps_calls [OF run that(1)] that(2)
    by (auto simp: middle_steps_def fork_steps_def checked_def raising_def fork_mounts_def tmpfs_step_def apparmor_step_def
        shim_apply_seccomp_def shim_drop_caps_def shim_rlimits_def calls_def List.map_filter_def must_def
        split: option.splits if_splits)
  have abs: "is_absolute (path_join ''/sandbox'' q)" for q
    by (simp add: path_join_def is_absolute_def)
  {
    fix p content
    assume "SWriteFile p content \<in> set tr"
    with other have "SWriteFile p content \<in> set (calls (concat (map file_steps (fq_files req))))" by blast
    then obtain f where "f \<in> set (fq_files req)" "SWriteFile p content \<in> set (calls (file_steps f))"
      by (auto simp: calls_def List.map_filter_def)
    then have "p = normpath (path_join ''/sandbox'' (fe_path f))" "starts_with p ''/sandbox/''"
      by (auto simp: file_steps_def Let_def raising_def split: if_splits)
    then show "starts_with p ''/sandbox/''" "''..'' \<notin> set (path_components [] p)"
      using normpath_components [OF abs] by auto
  }
  {
    fix p mode
    assume "SChmod p mode \<in> set tr"
    with other have "SChmod p mode \<in> set (calls (concat (map file_steps (fq_files req))))" by blast
    then obtain f where "f \<in> set (fq_files req)" "SChmod p mode \<in> set (calls (file_steps f))"
      by (auto simp: calls_def List.map_filter_def)
    then have "mode = fe_mode f AND 0x1FF" by (auto simp: file_steps_def Let_def raising_def split: if_splits)
    then show "mode \<le> 0x1FF" using word_and_le1 [of "fe_mode f" "0x1FF"] by simp
  }
  assume "\<exists>f\<in>set (fq_files req). \<not> starts_with (normpath (path_join ''/sandbox'' (fe_path f))) ''/sandbox/''"
  then have "Fail died \<in> set (middle_steps req fd0 fd1 fd2)"
    by (force simp: middle_steps_def fork_steps_def file_steps_def Let_def)
  then obtain xs ys where split: "middle_steps req fd0 fd1 fd2 = xs @ Fail died # ys" by (meson split_list)
  have "r \<noteq> None"
    using run unfolding split run_steps_append by (auto split: prod.splits option.splits)
  with fork_middle_steps [OF assms] run show "started = None" by (auto split: option.splits)
qed
definition demo_fork :: fork_request where
  "demo_fork =
     \<lparr>fq_entry = ''m.py'', fq_files = [\<lparr>fe_path = ''a/../m.py'', fe_content = [1], fe_mode = 0x9ED\<rparr>], fq_env = [(''A'', ''1'')],
      fq_bpf = [6], fq_apparmor = Some ''rockbox'', fq_fsize = 1, fq_nproc = 2, fq_nofile = 3, fq_stack = 4,
      fq_tmpfs_mb = 64, fq_sandbox_mb = 256\<rparr>"

definition demo_escape :: fork_request where
  "demo_escape = demo_fork\<lparr>fq_files := [\<lparr>fe_path = ''../etc/x'', fe_content = [1], fe_mode = 420\<rparr>]\<rparr>"

lemma demo_normpath:
  "normpath ''/sandbox/a/../m.py'' = ''/sandbox/m.py''" "normpath ''/sandbox/../etc/x'' = ''/etc/x''"
  by (simp_all add: normpath_def initial_slashes_def starts_with_def Let_def)




theorem fork_files_stay_in_sandbox_witness:
  "fst (snd (fork_middle (\<lambda>_ _. 0) demo_escape 10 11 12 (\<lambda>_ _. EndNormal))) = None"
proof -
  obtain st started tr where e: "fork_middle (\<lambda>_ _. 0) demo_escape 10 11 12 (\<lambda>_ _. EndNormal) = (st, started, tr)"
    by (metis prod_cases3)
  have "\<exists>f\<in>set (fq_files demo_escape). \<not> starts_with (normpath (path_join ''/sandbox'' (fe_path f))) ''/sandbox/''"
    by (simp add: demo_escape_def path_join_def is_absolute_def demo_normpath starts_with_def)
  with fork_files_stay_in_sandbox [OF e] have "started = None" by blast
  with e show ?thesis by simp
qed

end
