(* ===== verification/RB_Zygote.thy ===== *)
theory RB_Zygote
  imports RB_Fork
begin

text \<open>
  The engine's side of the zygote mode (\<^verbatim>\<open>engine/src/modes/zygote.rs\<close>): the slot and the boot of a zygote,
  the hand-over of a request, the poll loop, the verdict and the fall-back to \<^verbatim>\<open>execve\<close>. What the kernel
  and the zygote answer is the input: one record per turn of the loop, and the answers of the
  hand-over.
\<close>

section \<open>The engine's poll loop\<close>

text \<open>What one \<^verbatim>\<open>read\<close> of a pipe and one \<^verbatim>\<open>recv\<close> of the protocol socket answer.\<close>

datatype pipe_read = PGot "byte list" | PEof | PAgain | PErr
datatype sock_read = SFrame "byte list" | SNone | SClosed

text \<open>
  One turn of the loop: has the deadline passed at its head, and what \<^verbatim>\<open>poll\<close> says: it was
  interrupted, it failed, or it names the descriptors that are ready, each with the answer of the
  read that follows. A turn with no ready descriptor is a \<^verbatim>\<open>poll\<close> that timed out.
\<close>

datatype poll_answer = PollInterrupted | PollFails | PollReady "pipe_read option" "pipe_read option" "sock_read option"

record zturn =
  zt_expired :: bool
  zt_poll :: poll_answer

record zstate =
  zs_out_open :: bool
  zs_err_open :: bool
  zs_frame :: "byte list option"
  zs_timeout :: bool
  zs_over :: bool
  zs_total :: u64
  zs_chunks :: "(stream \<times> byte list) list"
  zs_kills :: nat

definition zstate_init :: zstate where
  "zstate_init = \<lparr>zs_out_open = True, zs_err_open = True, zs_frame = None, zs_timeout = False, zs_over = False,
     zs_total = 0, zs_chunks = [], zs_kills = 0\<rparr>"

definition zs_busy :: "zstate \<Rightarrow> bool" where
  "zs_busy z \<longleftrightarrow> zs_out_open z \<or> zs_err_open z \<or> zs_frame z = None"

definition zs_open :: "stream \<Rightarrow> zstate \<Rightarrow> bool" where
  "zs_open st z = (case st of Stdout \<Rightarrow> zs_out_open z | Stderr \<Rightarrow> zs_err_open z)"

definition zs_close :: "stream \<Rightarrow> zstate \<Rightarrow> zstate" where
  "zs_close st z = (case st of Stdout \<Rightarrow> z\<lparr>zs_out_open := False\<rparr> | Stderr \<Rightarrow> z\<lparr>zs_err_open := False\<rparr>)"

text \<open>A ready pipe. The counter crossing the cap kills the cgroup once; reading goes on.\<close>

definition zygote_read :: "u64 \<Rightarrow> stream \<Rightarrow> pipe_read option \<Rightarrow> zstate \<Rightarrow> zstate" where
  "zygote_read cap st r z =
     (if \<not> zs_open st z then z
      else case r of
        None \<Rightarrow> z
      | Some (PGot chunk) \<Rightarrow>
          (if chunk = [] then zs_close st z
           else
             let z1 = z\<lparr>zs_total := zs_total z + word_of_nat (length chunk), zs_chunks := zs_chunks z @ [(st, chunk)]\<rparr> in
             if cap < zs_total z1 \<and> \<not> zs_over z1 then z1\<lparr>zs_over := True, zs_kills := Suc (zs_kills z1)\<rparr> else z1)
      | Some PEof \<Rightarrow> zs_close st z
      | Some PAgain \<Rightarrow> z
      | Some PErr \<Rightarrow> zs_close st z)"

definition zygote_status :: "sock_read option \<Rightarrow> zstate \<Rightarrow> string + zstate" where
  "zygote_status r z =
     (case (zs_frame z, r) of
        (None, Some (SFrame f)) \<Rightarrow> Inr (z\<lparr>zs_frame := Some f\<rparr>)
      | (None, Some SClosed) \<Rightarrow> Inl ''zygote status''
      | _ \<Rightarrow> Inr z)"

definition quiet :: "poll_answer \<Rightarrow> zstate \<Rightarrow> bool" where
  "quiet p z =
     (case p of
        PollReady out err fr \<Rightarrow>
          (zs_out_open z \<longrightarrow> out = None) \<and> (zs_err_open z \<longrightarrow> err = None) \<and> (zs_frame z = None \<longrightarrow> fr = None)
      | _ \<Rightarrow> False)"

definition expire :: "bool \<Rightarrow> zstate \<Rightarrow> zstate" where
  "expire expired z =
     (if expired \<and> \<not> zs_timeout z then z\<lparr>zs_timeout := True, zs_kills := Suc (zs_kills z)\<rparr> else z)"

datatype zflow = ZOn zstate | ZBreak zstate | ZFail string zstate

definition zygote_turn :: "u64 \<Rightarrow> zturn \<Rightarrow> zstate \<Rightarrow> zflow" where
  "zygote_turn cap t z =
     (let z1 = expire (zt_expired t) z in
      case zt_poll t of
        PollInterrupted \<Rightarrow> ZOn z1
      | PollFails \<Rightarrow> ZFail ''poll'' z1
      | PollReady out err fr \<Rightarrow>
          if quiet (zt_poll t) z1 \<and> zs_timeout z1 then ZBreak z1
          else
            let z2 = zygote_read cap Stderr err (zygote_read cap Stdout out z1) in
            (case zygote_status fr z2 of Inr z3 \<Rightarrow> ZOn z3 | Inl e \<Rightarrow> ZFail e z2))"

text \<open>\<open>None\<close> is a loop that is still waiting when the list of turns ends.\<close>

fun zygote_loop :: "u64 \<Rightarrow> zturn list \<Rightarrow> zstate \<Rightarrow> (string + unit) option \<times> zstate" where
  "zygote_loop cap [] z = (if zs_busy z then None else Some (Inr ()), z)"
| "zygote_loop cap (t # ts) z =
     (if \<not> zs_busy z then (Some (Inr ()), z)
      else case zygote_turn cap t z of
             ZOn z1 \<Rightarrow> zygote_loop cap ts z1
           | ZBreak z1 \<Rightarrow> (Some (Inr ()), z1)
           | ZFail e z1 \<Rightarrow> (Some (Inl e), z1))"

section \<open>The verdict\<close>

definition i32_of :: "int \<Rightarrow> 32 word" where "i32_of i = word_of_int i"

text \<open>
  The status frame: the exit code and the signal of its JSON, each if it is there and an integer; a
  missing frame reads as the null value. The order of the verdicts is the one of the code.
\<close>

definition frame_status :: "(byte list \<Rightarrow> string + int option \<times> int option) \<Rightarrow> byte list option \<Rightarrow> string + int option \<times> int option" where
  "frame_status json frame = (case frame of Some f \<Rightarrow> json f | None \<Rightarrow> Inr (None, None))"

definition opt_int :: "int \<Rightarrow> int option \<Rightarrow> int" where
  "opt_int d v = (case v of Some i \<Rightarrow> i | None \<Rightarrow> d)"

definition zygote_verdict :: "zstate \<Rightarrow> bool \<Rightarrow> int option \<times> int option \<Rightarrow> result_status \<times> int" where
  "zygote_verdict z oom js =
     (let exit_code = i32_of (opt_int (- 1) (fst js)); sig = i32_of (opt_int 0 (snd js)) in
      if zs_timeout z then (Timeout, - 1)
      else if zs_over z then (OutputExceeded, - 1)
      else if oom then (OomKilled, - 1)
      else if sig \<noteq> 0 then (SeccompKill, sint (- sig))
      else if exit_code = 0 then (Success, 0)
      else (NonZeroExit, sint exit_code))"
section \<open>What the loop delivers\<close>

text \<open>The bytes of a stream that the turns offer until its end.\<close>

definition ready :: "stream \<Rightarrow> poll_answer \<Rightarrow> pipe_read option" where
  "ready st p = (case p of PollReady out err fr \<Rightarrow> (case st of Stdout \<Rightarrow> out | Stderr \<Rightarrow> err) | _ \<Rightarrow> None)"

fun offered :: "stream \<Rightarrow> bool \<Rightarrow> zturn list \<Rightarrow> byte list" where
  "offered st False ts = []"
| "offered st True [] = []"
| "offered st True (t # ts) =
     (case ready st (zt_poll t) of
        None \<Rightarrow> offered st True ts
      | Some (PGot c) \<Rightarrow> if c = [] then [] else c @ offered st True ts
      | Some PAgain \<Rightarrow> offered st True ts
      | Some PEof \<Rightarrow> []
      | Some PErr \<Rightarrow> [])"

text \<open>The two counters of a state and its kills.\<close>

definition zs_counts :: "u64 \<Rightarrow> zstate \<Rightarrow> bool" where
  "zs_counts cap z \<longleftrightarrow>
     zs_total z = word_of_nat (total_bytes (zs_chunks z)) \<and>
     zs_kills z = (if zs_timeout z then 1 else 0) + (if zs_over z then 1 else 0) \<and>
     (total_bytes (zs_chunks z) < 2 ^ 64 \<longrightarrow> (zs_over z \<longleftrightarrow> cap < zs_total z))"

lemma zs_counts_init: "zs_counts cap zstate_init"
  by (simp add: zs_counts_def zstate_init_def)

lemma zs_counts_expire: "zs_counts cap z \<Longrightarrow> zs_counts cap (expire b z)"
  by (simp add: zs_counts_def expire_def)

lemma zs_counts_close: "zs_counts cap z \<Longrightarrow> zs_counts cap (zs_close st z)"
  by (cases st) (simp_all add: zs_counts_def zs_close_def)

lemma zs_counts_got:
  assumes "zs_counts cap z" "z1 = z\<lparr>zs_total := zs_total z + word_of_nat (length c), zs_chunks := zs_chunks z @ [(st, c)]\<rparr>"
  shows "zs_counts cap (if cap < zs_total z1 \<and> \<not> zs_over z1 then z1\<lparr>zs_over := True, zs_kills := Suc (zs_kills z1)\<rparr> else z1)"
proof -
  let ?n = "total_bytes (zs_chunks z)"
  have t: "zs_total z1 = word_of_nat (total_bytes (zs_chunks z1))" "total_bytes (zs_chunks z1) = ?n + length c"
    using assms by (simp_all add: zs_counts_def)
  have mono: "zs_total z \<le> zs_total z1" if "?n + length c < 2 ^ 64"
    using assms that by (simp add: zs_counts_def word_le_nat_alt unat_of_nat flip: of_nat_add)
  have k: "zs_kills z1 = (if zs_timeout z1 then 1 else 0) + (if zs_over z1 then 1 else 0)"
    using assms by (simp add: zs_counts_def)
  have o': "zs_over z1 \<longrightarrow> cap < zs_total z1" if "?n + length c < 2 ^ 64"
    using assms mono [OF that] that by (auto simp: zs_counts_def)
  show ?thesis using t k o' by (auto simp: zs_counts_def)
qed

lemma zs_counts_read: "zs_counts cap z \<Longrightarrow> zs_counts cap (zygote_read cap st r z)"
  using zs_counts_got [OF _ refl, where cap = cap and z = z and st = st] zs_counts_close [of cap z st]
  by (auto simp: zygote_read_def Let_def split: option.split pipe_read.split)

lemma zygote_read_keeps [simp]:
  "zs_timeout (zygote_read cap st r z) = zs_timeout z" "zs_frame (zygote_read cap st r z) = zs_frame z"
  by (cases st; auto simp: zygote_read_def zs_close_def Let_def split: option.split pipe_read.split)+

lemma zygote_read_other:
  "st' \<noteq> st \<Longrightarrow> zs_open st' (zygote_read cap st r z) = zs_open st' z \<and>
     bytes_on st' (zs_chunks (zygote_read cap st r z)) = bytes_on st' (zs_chunks z)"
  by (cases st; cases st'; auto simp: zygote_read_def zs_close_def zs_open_def Let_def split: option.split pipe_read.split)

lemma zygote_read_own:
  "bytes_on st (zs_chunks (zygote_read cap st r z)) @ offered st (zs_open st (zygote_read cap st r z)) ts =
     bytes_on st (zs_chunks z) @
       (if zs_open st z
        then (case r of
                None \<Rightarrow> offered st True ts
              | Some (PGot c) \<Rightarrow> if c = [] then [] else c @ offered st True ts
              | Some PAgain \<Rightarrow> offered st True ts
              | Some PEof \<Rightarrow> [] | Some PErr \<Rightarrow> [])
        else [])"
  by (cases st) (auto simp: zygote_read_def zs_close_def zs_open_def Let_def split: option.split pipe_read.split)

lemma zygote_status_keeps:
  "zygote_status r z = Inr z1 \<Longrightarrow> zs_chunks z1 = zs_chunks z \<and> zs_open st z1 = zs_open st z \<and> zs_timeout z1 = zs_timeout z \<and>
     (zs_counts cap z \<longrightarrow> zs_counts cap z1)"
  by (cases st) (auto simp: zygote_status_def zs_open_def zs_counts_def split: option.splits sock_read.splits)

lemma expire_keeps [simp]:
  "zs_chunks (expire b z) = zs_chunks z" "zs_open st (expire b z) = zs_open st z" "zs_frame (expire b z) = zs_frame z"
  "zs_timeout (expire b z) \<longleftrightarrow> zs_timeout z \<or> b"
  by (cases st; auto simp: expire_def zs_open_def)+

lemma zygote_turn_on:
  assumes "zygote_turn cap t z = ZOn z1"
  shows "bytes_on st (zs_chunks z1) @ offered st (zs_open st z1) ts = bytes_on st (zs_chunks z) @ offered st (zs_open st z) (t # ts)"
    and "zs_timeout z1 \<longleftrightarrow> zs_timeout z \<or> zt_expired t" and "zs_counts cap z \<Longrightarrow> zs_counts cap z1"
proof -
  let ?z = "expire (zt_expired t) z"
  have "(bytes_on st (zs_chunks z1) @ offered st (zs_open st z1) ts = bytes_on st (zs_chunks z) @ offered st (zs_open st z) (t # ts)) \<and>
    (zs_timeout z1 \<longleftrightarrow> zs_timeout z \<or> zt_expired t) \<and> (zs_counts cap z \<longrightarrow> zs_counts cap z1)"
  proof (cases "zt_poll t")
    case PollInterrupted
    then show ?thesis using assms
      by (cases "zs_open st z") (auto simp: zygote_turn_def Let_def ready_def zs_counts_expire)
  next
    case PollFails
    with assms show ?thesis by (simp add: zygote_turn_def Let_def)
  next
    case (PollReady out err fr)
    let ?z2 = "zygote_read cap Stderr err (zygote_read cap Stdout out ?z)"
    have s: "zygote_status fr ?z2 = Inr z1"
      using assms PollReady by (auto simp: zygote_turn_def Let_def split: if_splits sum.splits)
    have c: "zs_counts cap z \<longrightarrow> zs_counts cap z1"
      using zygote_status_keeps [OF s] zs_counts_read zs_counts_expire by blast
    have b: "bytes_on st (zs_chunks z1) @ offered st (zs_open st z1) ts = bytes_on st (zs_chunks ?z2) @ offered st (zs_open st ?z2) ts"
      using zygote_status_keeps [OF s] by simp
    also have "\<dots> = bytes_on st (zs_chunks z) @ offered st (zs_open st z) (t # ts)"
    proof (cases st)
      case Stdout
      have "bytes_on Stdout (zs_chunks ?z2) @ offered Stdout (zs_open Stdout ?z2) ts =
          bytes_on Stdout (zs_chunks (zygote_read cap Stdout out ?z)) @ offered Stdout (zs_open Stdout (zygote_read cap Stdout out ?z)) ts"
        using zygote_read_other [of Stdout Stderr cap err "zygote_read cap Stdout out ?z"] by simp
      also have "\<dots> = bytes_on Stdout (zs_chunks z) @ offered Stdout (zs_open Stdout z) (t # ts)"
        unfolding zygote_read_own by (cases "zs_open Stdout z") (simp_all add: ready_def PollReady)
      finally show ?thesis by (simp add: Stdout)
    next
      case Stderr
      have "bytes_on Stderr (zs_chunks ?z2) @ offered Stderr (zs_open Stderr ?z2) ts = bytes_on Stderr (zs_chunks z) @ offered Stderr (zs_open Stderr z) (t # ts)"
        unfolding zygote_read_own using zygote_read_other [of Stderr Stdout cap out ?z]
        by (cases "zs_open Stderr z") (simp_all add: ready_def PollReady)
      then show ?thesis by (simp add: Stderr)
    qed
    finally show ?thesis using c zygote_status_keeps [OF s] by simp
  qed
  then show "bytes_on st (zs_chunks z1) @ offered st (zs_open st z1) ts = bytes_on st (zs_chunks z) @ offered st (zs_open st z) (t # ts)"
    "zs_timeout z1 \<longleftrightarrow> zs_timeout z \<or> zt_expired t" "zs_counts cap z \<Longrightarrow> zs_counts cap z1" by blast+
qed

lemma zygote_turn_break:
  "zygote_turn cap t z = ZBreak z1 \<Longrightarrow> z1 = expire (zt_expired t) z \<and> zs_timeout z1"
  by (auto simp: zygote_turn_def Let_def split: poll_answer.splits if_splits sum.splits)

lemma zygote_loop_ok:
  assumes "zygote_loop cap ts z = (Some (Inr ()), z')" "zs_counts cap z"
  shows "zs_counts cap z' \<and> (zs_timeout z' \<longrightarrow> zs_timeout z \<or> (\<exists>t\<in>set ts. zt_expired t)) \<and>
    (zs_busy z' \<longrightarrow> zs_timeout z') \<and>
    (\<exists>rest. bytes_on st (zs_chunks z) @ offered st (zs_open st z) ts = bytes_on st (zs_chunks z') @ rest \<and>
       (\<not> zs_timeout z' \<longrightarrow> rest = []))"
  using assms
proof (induction ts arbitrary: z)
  case Nil
  then have e: "z' = z" "\<not> zs_busy z" by (auto split: if_splits)
  have "offered st (zs_open st z) [] = []" by (cases "zs_open st z") simp_all
  with Nil e show ?case by auto
next
  case (Cons t ts)
  show ?case
  proof (cases "zs_busy z")
    case False
    then have "z' = z" "zs_open st z = False" using Cons.prems(1) by (cases st; auto simp: zs_busy_def zs_open_def)+
    with False Cons.prems(2) show ?thesis by auto
  next
    case True
    show ?thesis
    proof (cases "zygote_turn cap t z")
      case (ZOn z1)
      then have l: "zygote_loop cap ts z1 = (Some (Inr ()), z')" using Cons.prems(1) True by simp
      note o = zygote_turn_on [OF ZOn]
      from Cons.IH [OF l o(3) [OF Cons.prems(2)]] show ?thesis unfolding o(1) [symmetric] by (auto simp: o(2))
    next
      case (ZBreak z1)
      then have "z' = expire (zt_expired t) z" "zs_timeout z'" using Cons.prems(1) True zygote_turn_break [OF ZBreak] by auto
      with Cons.prems(2) show ?thesis by (auto simp: zs_counts_expire)
    next
      case (ZFail e z1)
      with Cons.prems(1) True show ?thesis by simp
    qed
  qed
qed

text \<open>
  The loop of the zygote mode is truthful. When it returns, it has the status frame and both
  streams have ended, or the deadline passed; the output of each stream is complete unless the
  deadline passed (then it is a beginning of it); the byte count is that of the delivered chunks; and
  the cgroup was killed exactly once for a passed deadline and once for an output over the cap.
\<close>

theorem zygote_loop_truthful:
  assumes "zygote_loop cap ts zstate_init = (Some (Inr ()), z)" "total_bytes (zs_chunks z) < 2 ^ 64"
  shows "(\<not> zs_timeout z \<longrightarrow> zs_frame z \<noteq> None \<and> bytes_on st (zs_chunks z) = offered st True ts) \<and>
    (zs_timeout z \<longrightarrow> (\<exists>t\<in>set ts. zt_expired t) \<and> (\<exists>rest. offered st True ts = bytes_on st (zs_chunks z) @ rest)) \<and>
    unat (zs_total z) = total_bytes (zs_chunks z) \<and> (zs_over z \<longleftrightarrow> cap < zs_total z) \<and>
    zs_kills z = (if zs_timeout z then 1 else 0) + (if zs_over z then 1 else 0)"
proof -
  have i: "zs_open st zstate_init" "bytes_on st (zs_chunks zstate_init) = []" "\<not> zs_timeout zstate_init"
    by (cases st; simp add: zs_open_def zstate_init_def)+
  obtain rest where l: "zs_counts cap z" "zs_timeout z \<longrightarrow> (\<exists>t\<in>set ts. zt_expired t)" "zs_busy z \<longrightarrow> zs_timeout z"
      "offered st True ts = bytes_on st (zs_chunks z) @ rest" "\<not> zs_timeout z \<longrightarrow> rest = []"
    using zygote_loop_ok [where st = st, OF assms(1) zs_counts_init] i by auto
  then show ?thesis using assms(2) by (auto simp: zs_counts_def zs_busy_def unat_of_nat)
qed
definition demo_turns :: "zturn list" where
  "demo_turns =
     [\<lparr>zt_expired = False, zt_poll = PollReady (Some (PGot [72, 105])) None None\<rparr>,
      \<lparr>zt_expired = False, zt_poll = PollInterrupted\<rparr>,
      \<lparr>zt_expired = False, zt_poll = PollReady (Some PEof) (Some PEof) (Some (SFrame [7]))\<rparr>]"

lemma demo_turns_run:
  "zygote_loop 3 demo_turns zstate_init = (Some (Inr ()),
     zstate_init\<lparr>zs_out_open := False, zs_err_open := False, zs_frame := Some [7], zs_total := 2, zs_chunks := [(Stdout, [72, 105])]\<rparr>)"
  by (simp add: demo_turns_def zstate_init_def zs_busy_def zygote_turn_def expire_def quiet_def zygote_read_def zs_open_def
      zs_close_def zygote_status_def Let_def)

theorem zygote_loop_truthful_witness:
  "bytes_on Stdout [(Stdout, [72, 105])] = offered Stdout True demo_turns \<and> offered Stdout True demo_turns = [72, 105]"
  using zygote_loop_truthful [OF demo_turns_run, of Stdout]
  by (simp add: zstate_init_def demo_turns_def ready_def bytes_on_def total_bytes_def)

section \<open>The same program on both paths\<close>





section \<open>The engine's side\<close>

definition ZYGOTE_SHIM :: string where "ZYGOTE_SHIM = ''.rockbox_zygote.py''"

text \<open>
  A zygote, with the specification its process was executed with (the code keeps only the process).
\<close>

record zygote =
  zy_pid :: nat
  zy_cg :: cgroup
  zy_shape :: string
  zy_spec :: child_spec

record zygote_io =
  zi_tools :: tools
  zi_host :: host_kernel
  zi_exec :: exec_io                       \<comment> \<open>of the fall-back\<close>
  zi_work_root :: string
  zi_enabled :: bool                       \<comment> \<open>\<^verbatim>\<open>ROCKBOX_EXEC_ZYGOTE\<close> is not \<^verbatim>\<open>0\<close>\<close>
  zi_show_f32 :: "f32 \<Rightarrow> string"
  zi_engine_pid :: nat
  zi_shim :: "byte list"
  zi_hello :: "string + byte list"
  zi_pipes_ok :: bool
  zi_send_ok :: bool
  zi_forked :: "string + byte list"
  zi_child :: "nat option"
  zi_add_ok :: bool
  zi_go_ok :: bool
  zi_nonblock_ok :: bool
  zi_turns :: "zturn list"
  zi_json :: "byte list \<Rightarrow> string + int option \<times> int option"
  zi_events :: "string option"             \<comment> \<open>\<^verbatim>\<open>memory.events\<close> of the request's cgroup\<close>
  zi_peak :: "u64 option"
  zi_elapsed_ms :: u64
  zi_data :: bool

definition zygote_eligible :: "bool \<Rightarrow> settings \<Rightarrow> bool" where
  "zygote_eligible on s \<longleftrightarrow>
     on \<and> s_mode s = Exec \<and> s_language s = Python \<and> s_isolation s = Sandbox \<and> nw_tier (s_network s) = TierNone \<and>
     fs_mounts (s_filesystem s) = [] \<and> \<not> has_capability s Install \<and> \<not> has_capability s Gpu"

definition zygote_shape :: "(f32 \<Rightarrow> string) \<Rightarrow> settings \<Rightarrow> string" where
  "zygote_shape show_f32 s =
     (case s_runtime s of Some r \<Rightarrow> r | None \<Rightarrow> ''default'') @ '':'' @
     decimal (unat (l_memory_mb (s_limits s))) @ '':'' @ show_f32 (l_cpu_cores (s_limits s))"

definition zygote_template :: "zygote_io \<Rightarrow> settings \<Rightarrow> settings" where
  "zygote_template io s =
     s\<lparr>s_request_id := ''zygote-'' @ decimal (zi_engine_pid io),
       s_files := [\<lparr>fe_path = ZYGOTE_SHIM, fe_content = zi_shim io, fe_mode = 420\<rparr>],
       s_entrypoint := ZYGOTE_SHIM, s_stdin := None, s_env := bt_insert ''ROCKBOX_ZYGOTE'' ''1'' (s_env s)\<rparr>"

definition zygote_spec :: "child_spec \<Rightarrow> child_spec" where
  "zygote_spec spec =
     spec\<lparr>c_zygote := True, c_protocol_fd := True, c_limits := (c_limits spec)\<lparr>rl_cpu_weight := CPU_WEIGHT_INTERACTIVE\<rparr>,
       c_wall_timeout_ms := 365 * 24 * 3600 * 1000\<rparr>"

text \<open>\<^verbatim>\<open>Drop for Zygote\<close>.\<close>

definition drop_zygote :: "cg_env \<Rightarrow> zygote \<Rightarrow> cgfs \<Rightarrow> cgfs" where
  "drop_zygote env z fs =
     (case cg_kill_all env (zy_cg z) fs of
        (_, cg, fs1) \<Rightarrow> snd (cg_remove cg (snd (cg_wait_empty env cg fs1))))"

definition drop_slot :: "cg_env \<Rightarrow> zygote option \<Rightarrow> cgfs \<Rightarrow> cgfs" where
  "drop_slot env slot fs = (case slot of Some z \<Rightarrow> drop_zygote env z fs | None \<Rightarrow> fs)"

text \<open>Launching a new zygote and waiting for its greeting.\<close>

definition boot_zygote ::
    "zygote_io \<Rightarrow> settings \<Rightarrow> launcher \<Rightarrow> engine_part \<Rightarrow> ((string + zygote) \<times> engine_part) panics" where
  "boot_zygote io s la e =
     (case resolve (zi_tools io) (zygote_template io s) (zi_work_root io) (ep_world e) of
        Panic \<Rightarrow> Panic
      | Returns (Inl m, w) \<Rightarrow> Returns (Inl ''resolve zygote spec'', e\<lparr>ep_world := w\<rparr>)
      | Returns (Inr r, w) \<Rightarrow>
          (case launch (zi_host io) (zygote_spec (rs_spec r)) la (ep_fs e) of
             Panic \<Rightarrow> Panic
           | Returns (Inl x, la1, fs1, acts) \<Rightarrow>
               Returns (Inl ''launch zygote'', \<lparr>ep_world = w, ep_launcher = Some la1, ep_fs = fs1\<rparr>)
           | Returns (Inr h, la1, fs1, acts) \<Rightarrow>
               let e1 = \<lparr>ep_world = w, ep_launcher = Some la1, ep_fs = fs1\<rparr>;
                   z = \<lparr>zy_pid = h_pid h, zy_cg = h_cgroup h, zy_shape = zygote_shape (zi_show_f32 io) s,
                        zy_spec = zygote_spec (rs_spec r)\<rparr>
               in if \<not> h_proto h then Returns (Inl ''zygote launched without protocol fd'', e1)
                  else if zi_hello io = Inr (as_bytes ''hello'') then Returns (Inr z, e1)
                  else Returns (Inl ''zygote hello'', e1\<lparr>ep_fs := drop_zygote (hk_cgroups (zi_host io)) z fs1\<rparr>)))"

text \<open>
  \<^verbatim>\<open>ensure_zygote\<close>: the zygote of another shape is dropped, a missing one is booted. The result also
  says what the slot holds afterwards.
\<close>

definition ensure_zygote ::
    "zygote_io \<Rightarrow> settings \<Rightarrow> launcher \<Rightarrow> zygote option \<Rightarrow> engine_part \<Rightarrow>
     ((string + zygote) \<times> zygote option \<times> engine_part) panics" where
  "ensure_zygote io s la slot e =
     (case slot of
        Some z \<Rightarrow>
          if zy_shape z = zygote_shape (zi_show_f32 io) s then Returns (Inr z, Some z, e)
          else (case boot_zygote io s la (e\<lparr>ep_fs := drop_zygote (hk_cgroups (zi_host io)) z (ep_fs e)\<rparr>) of
                  Panic \<Rightarrow> Panic
                | Returns (Inl m, e1) \<Rightarrow> Returns (Inl m, None, e1)
                | Returns (Inr z1, e1) \<Rightarrow> Returns (Inr z1, Some z1, e1))
      | None \<Rightarrow>
          (case boot_zygote io s la e of
             Panic \<Rightarrow> Panic
           | Returns (Inl m, e1) \<Rightarrow> Returns (Inl m, None, e1)
           | Returns (Inr z1, e1) \<Rightarrow> Returns (Inr z1, Some z1, e1)))"

text \<open>The frame of a request; JSON and base 64 give the fork back what was put in.\<close>

definition zygote_request :: "settings \<Rightarrow> child_spec \<Rightarrow> sock_filter list \<Rightarrow> bool \<Rightarrow> fork_request" where
  "zygote_request s spec bpf apparmor =
     \<lparr>fq_entry = s_entrypoint s, fq_files = s_files s, fq_env = c_env spec, fq_bpf = raw_bytes bpf,
      fq_apparmor = (if apparmor then Some (c_apparmor_profile spec) else None),
      fq_fsize = rl_fsize_bytes (c_limits spec), fq_nproc = rl_pids_max (c_limits spec),
      fq_nofile = rl_nofile (c_limits spec), fq_stack = rl_stack_bytes (c_limits spec),
      fq_tmpfs_mb = l_tmpfs_mb (s_limits s), fq_sandbox_mb = 256\<rparr>"

text \<open>From the frame to the start of the loop: every early return of the code.\<close>

definition zygote_handshake :: "zygote_io \<Rightarrow> string + unit" where
  "zygote_handshake io =
     (if \<not> zi_pipes_ok io then Inl ''pipe''
      else if \<not> zi_send_ok io then Inl ''sendmsg''
      else case zi_forked io of
        Inl m \<Rightarrow> Inl ''zygote forked frame''
      | Inr f \<Rightarrow>
          if f \<noteq> as_bytes ''forked'' then Inl ''unexpected zygote frame''
          else if zi_child io = None then Inl ''zygote child pid''
          else if \<not> zi_add_ok io then Inl ''cgroup add fork''
          else if \<not> zi_go_ok io then Inl ''sendmsg''
          else if \<not> zi_nonblock_ok io then Inl ''fcntl''
          else Inr ())"

record zoutcome =
  zo_status :: result_status
  zo_exit :: int
  zo_state :: zstate
  zo_mem_peak_mb :: u64

text \<open>The loop, the status frame and the release of the cgroup. Errors return before the release.\<close>

definition after_kills :: "cg_env \<Rightarrow> nat \<Rightarrow> cgroup \<Rightarrow> cgfs \<Rightarrow> cgroup \<times> cgfs" where
  "after_kills env n cg fs = (if n = 0 then (cg, fs) else snd (cg_kill_all env cg fs))"

definition zygote_finish ::
    "zygote_io \<Rightarrow> settings \<Rightarrow> cgroup \<Rightarrow> cg_pool \<Rightarrow> cgfs \<Rightarrow>
     (string + zoutcome) option \<times> (stream \<times> byte list) list \<times> cg_pool \<times> cgfs" where
  "zygote_finish io s cg pool fs =
     (let env = hk_cgroups (zi_host io) in
      case zygote_loop (l_output_bytes (s_limits s)) (zi_turns io) zstate_init of
        (r, z) \<Rightarrow>
          (case after_kills env (zs_kills z) cg fs of
             (cg1, fs1) \<Rightarrow>
               (case r of
                  None \<Rightarrow> (None, zs_chunks z, pool, fs1)
                | Some (Inl m) \<Rightarrow> (Some (Inl m), zs_chunks z, pool, fs1)
                | Some (Inr _) \<Rightarrow>
                    (case frame_status (zi_json io) (zs_frame z) of
                       Inl m \<Rightarrow> (Some (Inl ''zygote status json''), zs_chunks z, pool, fs1)
                     | Inr js \<Rightarrow>
                         (case release_cgroup env cg1 pool (snd (cg_wait_empty env cg1 fs1)) of
                            (pool1, fs2) \<Rightarrow>
                              (Some (Inr \<lparr>zo_status = fst (zygote_verdict z (oom_killed (zi_events io)) js),
                                 zo_exit = snd (zygote_verdict z (oom_killed (zi_events io)) js), zo_state = z,
                                 zo_mem_peak_mb = (case zi_peak io of Some p \<Rightarrow> p | None \<Rightarrow> 0) div (1024 * 1024)\<rparr>),
                               zs_chunks z, pool1, fs2))))))"

text \<open>
  \<^verbatim>\<open>serve\<close>. The result also names the frame that was built for the fork, if it came to that, and the
  chunks read so far.
\<close>

record zserved =
  zv_result :: "(string + zoutcome) option"
  zv_request :: "fork_request option"
  zv_chunks :: "(stream \<times> byte list) list"
  zv_part :: engine_part

definition zygote_serve :: "zygote_io \<Rightarrow> settings \<Rightarrow> launcher \<Rightarrow> engine_part \<Rightarrow> zserved panics" where
  "zygote_serve io s la e =
     (case resolve_opts (zi_tools io) s (zi_work_root io) False (ep_world e) of
        Panic \<Rightarrow> Panic
      | Returns (Inl m, w) \<Rightarrow>
          Returns \<lparr>zv_result = Some (Inl ''resolve spec''), zv_request = None, zv_chunks = [], zv_part = e\<lparr>ep_world := w\<rparr>\<rparr>
      | Returns (Inr r, w) \<Rightarrow>
          (case seccomp_compile (hk_to_bpf (zi_host io)) (hk_arch (zi_host io)) (c_seccomp_profile (rs_spec r)) (la_seccomp la) of
             (Inl x, cache) \<Rightarrow>
               Returns \<lparr>zv_result = Some (Inl ''seccomp''), zv_request = None, zv_chunks = [],
                 zv_part = \<lparr>ep_world = w, ep_launcher = Some (la\<lparr>la_seccomp := cache\<rparr>), ep_fs = ep_fs e\<rparr>\<rparr>
           | (Inr bpf, cache) \<Rightarrow>
               (case take_cgroup (hk_cgroups (zi_host io)) (c_limits (rs_spec r)) (la_pool la) (ep_fs e) of
                  (Inl x, pool, fs1) \<Rightarrow>
                    Returns \<lparr>zv_result = Some (Inl ''cgroup''), zv_request = None, zv_chunks = [],
                      zv_part = \<lparr>ep_world = w, ep_launcher = Some (la\<lparr>la_seccomp := cache, la_pool := pool\<rparr>), ep_fs = fs1\<rparr>\<rparr>
                | (Inr cg, pool, fs1) \<Rightarrow>
                    let req = zygote_request s (rs_spec r) bpf (hk_apparmor (zi_host io)) in
                    (case zygote_handshake io of
                       Inl m \<Rightarrow>
                         Returns \<lparr>zv_result = Some (Inl m), zv_request = Some req, zv_chunks = [],
                           zv_part = \<lparr>ep_world = w, ep_launcher = Some (la\<lparr>la_seccomp := cache, la_pool := pool\<rparr>), ep_fs = fs1\<rparr>\<rparr>
                     | Inr _ \<Rightarrow>
                         (case zygote_finish io s cg pool fs1 of
                            (res, chunks, pool1, fs2) \<Rightarrow>
                              Returns \<lparr>zv_result = res, zv_request = Some req, zv_chunks = chunks,
                                zv_part = \<lparr>ep_world = w, ep_launcher = Some (la\<lparr>la_seccomp := cache, la_pool := pool1\<rparr>), ep_fs = fs2\<rparr>\<rparr>)))))"

definition zygote_result :: "zygote_io \<Rightarrow> settings \<Rightarrow> zoutcome \<Rightarrow> exec_result" where
  "zygote_result io s o' =
     (let cap = l_output_bytes (s_limits s); z = zo_state o' in
      \<lparr>r_request_id = s_request_id s, r_status = zo_status o', r_exit_code = zo_exit o', r_exec_time_ms = zi_elapsed_ms io,
       r_memory_peak_mb = zo_mem_peak_mb o', r_cpu_time_ms = 0, r_output_bytes = zs_total z,
       r_output_truncated = (zo_status o' = OutputExceeded),
       r_output = capture cap Stdout (zs_chunks z), r_errors = capture cap Stderr (zs_chunks z)\<rparr>)"

text \<open>The chunks that a failed attempt has already put on the data channel come before those of the fall-back.\<close>

definition after_sent :: "(stream \<times> byte list) list \<Rightarrow> exec_outcome \<times> engine_part \<Rightarrow> exec_outcome \<times> engine_part" where
  "after_sent pre res = (case res of (Replies resp sent, e) \<Rightarrow> (Replies resp (pre @ sent), e) | _ \<Rightarrow> res)"

fun map_returns :: "('a \<Rightarrow> 'b) \<Rightarrow> 'a panics \<Rightarrow> 'b panics" where
  "map_returns f Panic = Panic"
| "map_returns f (Returns x) = Returns (f x)"

definition zygote_run ::
    "zygote_io \<Rightarrow> settings \<Rightarrow> zygote option \<Rightarrow> engine_part \<Rightarrow> ((exec_outcome \<times> engine_part) \<times> zygote option) panics" where
  "zygote_run io s slot e =
     (let classic = (\<lambda>pre slot e. map_returns (\<lambda>r. (after_sent pre r, slot))
                       (exec_run (zi_tools io) (zi_host io) (zi_exec io) (zi_work_root io) s e));
          streams = out_stream (s_output s) \<and> zi_data io
      in case ep_launcher e of
           None \<Rightarrow> classic [] slot e
         | Some la \<Rightarrow>
             (case ensure_zygote io s la slot e of
                Panic \<Rightarrow> Panic
              | Returns (Inl m, slot1, e1) \<Rightarrow> classic [] slot1 e1
              | Returns (Inr z, slot1, e1) \<Rightarrow>
                  (case ep_launcher e1 of
                     None \<Rightarrow> classic [] slot1 e1
                   | Some la1 \<Rightarrow>
                       (case zygote_serve io s la1 e1 of
                          Panic \<Rightarrow> Panic
                        | Returns v \<Rightarrow>
                            let e2 = zv_part v; sent = (if streams then zv_chunks v else []) in
                            (case zv_result v of
                               None \<Rightarrow> Returns ((Hangs, e2), slot1)
                             | Some (Inl m) \<Rightarrow>
                                 classic sent None (e2\<lparr>ep_fs := drop_slot (hk_cgroups (zi_host io)) slot1 (ep_fs e2)\<rparr>)
                             | Some (Inr o') \<Rightarrow> Returns ((Replies (Result (zygote_result io s o')) sent, e2), slot1))))))"
section \<open>Requests through the zygote\<close>

lemma after_kills_cg: "fst (after_kills env n cg fs) = cg \<or> fst (after_kills env n cg fs) = cg\<lparr>cg_killed := True\<rparr>"
  by (simp add: after_kills_def cg_kill_all_def)

lemma after_kills_dom: "dom (snd (after_kills env n cg fs)) = dom fs"
  by (auto simp: after_kills_def cg_kill_all_def split: option.splits if_splits)

lemma wait_empty_dom: "dom (snd (cg_wait_empty env cg fs)) = dom fs"
  by (auto simp: cg_wait_empty_def split: option.splits if_splits)

lemma zygote_finish_ok:
  assumes "zygote_finish io s cg pool fs = (Some (Inr o'), chunks, pool', fs')"
  shows "\<exists>z js cg1 fs1. zygote_loop (l_output_bytes (s_limits s)) (zi_turns io) zstate_init = (Some (Inr ()), z) \<and>
    frame_status (zi_json io) (zs_frame z) = Inr js \<and> zo_state o' = z \<and> chunks = zs_chunks z \<and>
    (zo_status o', zo_exit o') = zygote_verdict z (oom_killed (zi_events io)) js \<and>
    after_kills (hk_cgroups (zi_host io)) (zs_kills z) cg fs = (cg1, fs1) \<and>
    release_cgroup (hk_cgroups (zi_host io)) cg1 pool (snd (cg_wait_empty (hk_cgroups (zi_host io)) cg1 fs1)) = (pool', fs')"
  using assms
  by (auto simp: zygote_finish_def Let_def split: prod.splits option.splits sum.splits)

lemma zygote_serve_request:
  assumes "zygote_serve io s la e = Returns v" "zv_request v = Some req"
  shows "\<exists>r w bpf cache cg pool fs1.
    resolve_opts (zi_tools io) s (zi_work_root io) False (ep_world e) = Returns (Inr r, w) \<and>
    seccomp_compile (hk_to_bpf (zi_host io)) (hk_arch (zi_host io)) (c_seccomp_profile (rs_spec r)) (la_seccomp la) = (Inr bpf, cache) \<and>
    take_cgroup (hk_cgroups (zi_host io)) (c_limits (rs_spec r)) (la_pool la) (ep_fs e) = (Inr cg, pool, fs1) \<and>
    req = zygote_request s (rs_spec r) bpf (hk_apparmor (zi_host io)) \<and>
    (case zygote_handshake io of
       Inl m \<Rightarrow> zv_result v = Some (Inl m) \<and> ep_fs (zv_part v) = fs1 \<and>
         ep_launcher (zv_part v) = Some (la\<lparr>la_seccomp := cache, la_pool := pool\<rparr>)
     | Inr _ \<Rightarrow> (\<exists>pool1. zygote_finish io s cg pool fs1 = (zv_result v, zv_chunks v, pool1, ep_fs (zv_part v)) \<and>
         ep_launcher (zv_part v) = Some (la\<lparr>la_seccomp := cache, la_pool := pool1\<rparr>)))"
proof -
  obtain r w where r: "resolve_opts (zi_tools io) s (zi_work_root io) False (ep_world e) = Returns (Inr r, w)"
    using assms by (auto simp: zygote_serve_def split: panics.splits prod.splits sum.splits)
  obtain bpf cache where b: "seccomp_compile (hk_to_bpf (zi_host io)) (hk_arch (zi_host io)) (c_seccomp_profile (rs_spec r)) (la_seccomp la) = (Inr bpf, cache)"
    using assms by (auto simp: zygote_serve_def r split: prod.splits sum.splits)
  obtain cg pool fs1 where t: "take_cgroup (hk_cgroups (zi_host io)) (c_limits (rs_spec r)) (la_pool la) (ep_fs e) = (Inr cg, pool, fs1)"
    using assms by (auto simp: zygote_serve_def r b split: prod.splits sum.splits)
  show ?thesis
  proof (cases "zygote_handshake io")
    case (Inl m)
    then have "v = \<lparr>zv_result = Some (Inl m), zv_request = Some (zygote_request s (rs_spec r) bpf (hk_apparmor (zi_host io))),
        zv_chunks = [], zv_part = \<lparr>ep_world = w, ep_launcher = Some (la\<lparr>la_seccomp := cache, la_pool := pool\<rparr>), ep_fs = fs1\<rparr>\<rparr>"
      using assms(1) by (simp add: zygote_serve_def r b t Let_def)
    with r b t Inl assms(2) show ?thesis by simp
  next
    case (Inr u)
    obtain res chunks pool1 fs2 where f: "zygote_finish io s cg pool fs1 = (res, chunks, pool1, fs2)" by (metis prod_cases4)
    then have "v = \<lparr>zv_result = res, zv_request = Some (zygote_request s (rs_spec r) bpf (hk_apparmor (zi_host io))),
        zv_chunks = chunks, zv_part = \<lparr>ep_world = w, ep_launcher = Some (la\<lparr>la_seccomp := cache, la_pool := pool1\<rparr>), ep_fs = fs2\<rparr>\<rparr>"
      using assms(1) Inr by (simp add: zygote_serve_def r b t Let_def)
    with r b t Inr f assms(2) show ?thesis by simp
  qed
qed

lemma zygote_serve_result_request:
  assumes "zygote_serve io s la e = Returns v" "zv_result v = Some (Inr o')"
  shows "\<exists>req. zv_request v = Some req \<and> zygote_handshake io = Inr ()"
  using assms
  by (auto simp: zygote_serve_def Let_def split: panics.splits prod.splits sum.splits)

text \<open>
  A request that the zygote has served gives its cgroup back, like one of the \<^verbatim>\<open>execve\<close> path: a
  take, kernel activity and a release; the pool's reachable states are closed under it.
\<close>

theorem zygote_gives_cgroup_back:
  assumes "zygote_serve io s la e = Returns v" "zv_result v = Some (Inr o')"
    and "preach \<lparr>ps_pool = la_pool la, ps_fs = ep_fs e, ps_held = held\<rparr>"
    and "unat (pl_seq (la_pool la)) < 2 ^ 32 - 1"
  shows "\<exists>la'. ep_launcher (zv_part v) = Some la' \<and>
    preach \<lparr>ps_pool = la_pool la', ps_fs = ep_fs (zv_part v), ps_held = held\<rparr>"
proof -
  let ?env = "hk_cgroups (zi_host io)"
  obtain req where req: "zv_request v = Some req" "zygote_handshake io = Inr ()"
    using zygote_serve_result_request [OF assms(1,2)] by blast
  from zygote_serve_request [OF assms(1) req(1), unfolded req(2) assms(2) sum.case] obtain r :: resolved and cache cg pool fs1 pool1 where
    t: "take_cgroup ?env (c_limits (rs_spec r)) (la_pool la) (ep_fs e) = (Inr cg, pool, fs1)"
    and f: "zygote_finish io s cg pool fs1 = (Some (Inr o'), zv_chunks v, pool1, ep_fs (zv_part v))"
    and la: "ep_launcher (zv_part v) = Some (la\<lparr>la_seccomp := cache, la_pool := pool1\<rparr>)"
    by blast
  from zygote_finish_ok [OF f] obtain z :: zstate and cg1 fs2 where
    k: "after_kills ?env (zs_kills z) cg fs1 = (cg1, fs2)"
    and rel: "release_cgroup ?env cg1 pool (snd (cg_wait_empty ?env cg1 fs2)) = (pool1, ep_fs (zv_part v))" by blast
  let ?s0 = "\<lparr>ps_pool = la_pool la, ps_fs = ep_fs e, ps_held = held\<rparr>"
  let ?s1 = "\<lparr>ps_pool = pool, ps_fs = fs1, ps_held = cg # held\<rparr>"
  let ?s2 = "?s1\<lparr>ps_fs := snd (cg_wait_empty ?env cg1 fs2)\<rparr>"
  have "pstep ?s0 ?s1" using take_ok [of ?env "c_limits (rs_spec r)" ?s0 cg] t assms(4) by simp
  then have "preach ?s1" using assms(3) preach.step by blast
  moreover have "dom (snd (cg_wait_empty ?env cg1 fs2)) = dom fs1"
    using after_kills_dom [of ?env "zs_kills z" cg fs1] by (simp add: k wait_empty_dom)
  then have "pstep ?s1 ?s2" by (intro activity) simp
  ultimately have r2: "preach ?s2" using preach.step by blast
  have c1: "cg1 = cg \<or> cg1 = cg\<lparr>cg_killed := True\<rparr>" using after_kills_cg [of ?env "zs_kills z" cg fs1] by (simp add: k)
  have "pstep ?s2 \<lparr>ps_pool = pool1, ps_fs = ep_fs (zv_part v), ps_held = remove1 cg (ps_held ?s2)\<rparr>"
    by (rule release [OF _ c1, where env = ?env]) (simp_all add: rel)
  with r2 have "preach \<lparr>ps_pool = pool1, ps_fs = ep_fs (zv_part v), ps_held = held\<rparr>" using preach.step by fastforce
  with la show ?thesis by simp
qed

text \<open>
  A request that fails after its cgroup was taken abandons it: the documentation of \<^verbatim>\<open>serve\<close> promises
  that on any error the cgroup is killed, but the early returns neither kill nor release it.
\<close>

theorem failed_handshake_leaks_cgroup:
  assumes "preach st" "la_pool la = ps_pool st" "ep_fs e = ps_fs st" "unat (pl_seq (ps_pool st)) < 2 ^ 32 - 1"
    and "zygote_serve io s la e = Returns v" "zv_request v = Some req" "zygote_handshake io = Inl m"
  shows "\<exists>(cg :: cgroup) la'. ep_launcher (zv_part v) = Some la' \<and> cg_path cg \<in> dom (ep_fs (zv_part v)) \<and>
    cg_path cg \<notin> cg_path ` set (pl_cgroups (la_pool la'))"
proof -
  from zygote_serve_request [OF assms(5,6), unfolded assms(7) sum.case] obtain r :: resolved and cache cg pool fs1 where
    t: "take_cgroup (hk_cgroups (zi_host io)) (c_limits (rs_spec r)) (la_pool la) (ep_fs e) = (Inr cg, pool, fs1)"
    and v: "ep_fs (zv_part v) = fs1" "ep_launcher (zv_part v) = Some (la\<lparr>la_seccomp := cache, la_pool := pool\<rparr>)"
    by blast
  have "pool_inv \<lparr>ps_pool = pool, ps_fs = fs1, ps_held = cg # ps_held st\<rparr>"
    using pool_inv_take [OF pool_inv_reach [OF assms(1)] t [unfolded assms(2,3)] assms(4)] by simp
  then have "cg_path cg \<in> dom fs1 \<and> cg_path cg \<notin> cg_path ` set (pl_cgroups pool)"
    by (auto simp: pool_inv_def paths_def)
  with v show ?thesis by auto
qed

text \<open>
  When the zygote fails in the middle of a request, the request is run a second time from the
  start on the \<^verbatim>\<open>execve\<close> path: the outcome is the one of that run, the slot is empty, and the output
  that was already streamed stays on the data channel, in front of the output of the second run.
\<close>

theorem zygote_failure_reruns_request:
  assumes "ep_launcher e = Some la" "ensure_zygote io s la slot e = Returns (Inr z, slot1, e1)" "ep_launcher e1 = Some la1"
    and "zygote_serve io s la1 e1 = Returns v" "zv_result v = Some (Inl m)" "out_stream (s_output s)" "zi_data io"
  shows "zygote_run io s slot e =
    map_returns (\<lambda>r. (after_sent (zv_chunks v) r, None))
      (exec_run (zi_tools io) (zi_host io) (zi_exec io) (zi_work_root io) s
        ((zv_part v)\<lparr>ep_fs := drop_slot (hk_cgroups (zi_host io)) slot1 (ep_fs (zv_part v))\<rparr>))"
  using assms by (simp add: zygote_run_def Let_def)

text \<open>
  The zygote's process keeps the secrets of the request it was booted for, in the environment it
  was executed with, and serves requests that differ in their secrets: they have the same shape, and
  a slot of that shape is reused as it is. (A fork replaces \<^verbatim>\<open>os.environ\<close>, not the memory behind
  \<^verbatim>\<open>/proc/self/environ\<close>.)
\<close>

theorem zygote_keeps_first_requests_secrets:
  assumes "settings_wf s" "bt_get (s_resolved_secrets s) k = Some v"
    and "k \<notin> {''PYTHONHASHSEED'', ''RUST_LOG_SEED'', ''NODE_RANDOM_SEED''}"
  shows "bt_get (c_env (zygote_spec (make_spec tk (zygote_template io s) en wd argv fd))) k = Some v \<and>
    zygote_eligible on (s\<lparr>s_resolved_secrets := other\<rparr>) = zygote_eligible on s \<and>
    (\<forall>z la e. zy_shape z = zygote_shape (zi_show_f32 io) s \<longrightarrow>
      ensure_zygote io (s\<lparr>s_resolved_secrets := other\<rparr>) la (Some z) e = Returns (Inr z, Some z, e))"
proof -
  have "settings_wf (zygote_template io s)"
    using assms(1) by (simp add: settings_wf_def zygote_template_def)
  then have "bt_get (env_resolve (zygote_template io s) (re_baseline_env en)) k = Some v"
    using env_facts [of "zygote_template io s" "re_baseline_env en" k] assms(2,3)
    by (simp add: zygote_template_def seed_value_def seed_keys_def split: option.split)
  then show ?thesis
    by (simp add: zygote_spec_def make_spec_def zygote_eligible_def has_capability_def zygote_shape_def ensure_zygote_def)
qed
text \<open>A zygote on a host where everything works, and one that closes its socket after some output.\<close>

definition demo_zygote_io :: "zturn list \<Rightarrow> zygote_io" where
  "demo_zygote_io turns =
     \<lparr>zi_tools = demo_tools, zi_host = demo_machine (\<lambda>_. Inr 42), zi_exec = demo_io, zi_work_root = ''/w'', zi_enabled = True,
      zi_show_f32 = (\<lambda>_. ''1''), zi_engine_pid = 7, zi_shim = [], zi_hello = Inr (as_bytes ''hello''), zi_pipes_ok = True,
      zi_send_ok = True, zi_forked = Inr (as_bytes ''forked''), zi_child = Some 43, zi_add_ok = True, zi_go_ok = True,
      zi_nonblock_ok = True, zi_turns = turns, zi_json = (\<lambda>_. Inr (Some 0, Some 0)), zi_events = None, zi_peak = None,
      zi_elapsed_ms = 2, zi_data = True\<rparr>"

lemma demo_serve:
  assumes "zygote_loop 3 turns zstate_init = (Some res, z)"
  shows "\<exists>v. zygote_serve (demo_zygote_io turns) (demo_request\<lparr>s_output := out\<rparr>) demo_launcher demo_engine = Returns v \<and> zv_chunks v = zs_chunks z \<and>
    (case res of Inl m \<Rightarrow> zv_result v = Some (Inl m) | Inr _ \<Rightarrow> (\<exists>o'. zv_result v = Some (Inr o')))"
proof -
  let ?spec = "demo_spec\<lparr>c_request_id := ''req_test'', c_wall_timeout_ms := 5000\<rparr>" and ?io = "demo_zygote_io turns"
    and ?s = "demo_request\<lparr>s_output := out\<rparr>"
  obtain w where res: "resolve_opts demo_tools ?s ''/w'' False (ep_world demo_engine) =
      Returns (Inr \<lparr>rs_spec = ?spec, rs_work_dir = ''/w/00''\<rparr>, w)"
    using demo_hit_opts [of out False] by blast
  have "c_limits ?spec = c_limits demo_spec" by (simp add: demo_spec_def)
  then obtain cg pool fs where t: "take_cgroup all_ok (c_limits ?spec) (la_pool demo_launcher) Map.empty = (Inr cg, pool, fs)"
    using first_take [of "c_limits demo_spec"] by (auto simp: demo_launcher_def pool_init_def)
  have b: "seccomp_compile (\<lambda>_. Inr []) X86_64 (c_seccomp_profile ?spec) Map.empty = (Inr [], [c_seccomp_profile ?spec \<mapsto> []])"
    by (simp add: seccomp_compile_def)
  have h: "zygote_handshake ?io = Inr ()" by (simp add: zygote_handshake_def demo_zygote_io_def)
  have io: "zi_tools ?io = demo_tools" "zi_work_root ?io = ''/w''" "hk_cgroups (zi_host ?io) = all_ok" "zi_turns ?io = turns"
      "hk_to_bpf (zi_host ?io) = (\<lambda>_. Inr [])" "hk_arch (zi_host ?io) = X86_64" "l_output_bytes (s_limits demo_request) = 3"
      "la_seccomp demo_launcher = Map.empty" "ep_fs demo_engine = Map.empty" "\<And>f. zi_json ?io f = Inr (Some 0, Some 0)"
    by (simp_all add: demo_zygote_io_def demo_machine_def demo_request_def demo_launcher_def demo_engine_def)
  obtain r chunks pool1 fs2 where f: "zygote_finish ?io ?s cg pool fs = (r, chunks, pool1, fs2)" by (metis prod_cases4)
  obtain js where js: "frame_status (zi_json ?io) (zs_frame z) = Inr js" by (cases "zs_frame z") (simp_all add: frame_status_def io)
  have c: "chunks = zs_chunks z \<and> (case res of Inl m \<Rightarrow> r = Some (Inl m) | Inr _ \<Rightarrow> (\<exists>o'. r = Some (Inr o')))"
    using f assms js
    by (cases res) (auto simp: zygote_finish_def io Let_def split: prod.splits)
  have "zygote_serve ?io (demo_request\<lparr>s_output := out\<rparr>) demo_launcher demo_engine =
      Returns \<lparr>zv_result = r, zv_request = Some (zygote_request ?s ?spec [] (hk_apparmor (zi_host ?io))), zv_chunks = chunks,
        zv_part = \<lparr>ep_world = w, ep_launcher = Some (demo_launcher\<lparr>la_seccomp := [c_seccomp_profile ?spec \<mapsto> []], la_pool := pool1\<rparr>), ep_fs = fs2\<rparr>\<rparr>"
    unfolding zygote_serve_def io res panics.case sum.case prod.case resolved.simps b t h f Let_def by (rule refl)
  with c show ?thesis by (cases res) auto
qed

theorem zygote_gives_cgroup_back_witness:
  "\<exists>v la'. zygote_serve (demo_zygote_io demo_turns) demo_request demo_launcher demo_engine = Returns v \<and>
     ep_launcher (zv_part v) = Some la' \<and> preach \<lparr>ps_pool = la_pool la', ps_fs = ep_fs (zv_part v), ps_held = []\<rparr>"
proof -
  obtain v o' where v: "zygote_serve (demo_zygote_io demo_turns) demo_request demo_launcher demo_engine = Returns v" "zv_result v = Some (Inr o')"
    using demo_serve [OF demo_turns_run, of "s_output demo_request"] by auto
  have "preach \<lparr>ps_pool = la_pool demo_launcher, ps_fs = ep_fs demo_engine, ps_held = []\<rparr>"
    using preach.init [of 7 Map.empty] by (simp add: demo_launcher_def demo_engine_def pool_init_def)
  from zygote_gives_cgroup_back [OF v this] v(1) show ?thesis by (auto simp: demo_launcher_def pool_init_def)
qed

theorem zygote_keeps_first_requests_secrets_witness:
  "bt_get (c_env (zygote_spec (make_spec demo_tools (zygote_template (demo_zygote_io []) (demo_secret ''alice''))
      (entry_flags ''python-base'' Python ''l'' ''python3'' [] [] []) ''/w'' [] None))) ''API_KEY'' = Some ''alice'' \<and>
   zygote_eligible True (demo_secret ''alice''\<lparr>s_resolved_secrets := [(''API_KEY'', ''bob'')]\<rparr>) = zygote_eligible True (demo_secret ''alice'')"
  using zygote_keeps_first_requests_secrets [of "demo_secret ''alice''" "''API_KEY''" "''alice''" demo_tools "demo_zygote_io []"
      "entry_flags ''python-base'' Python ''l'' ''python3'' [] [] []" "''/w''" "[]" None True "[(''API_KEY'', ''bob'')]"]
  by (simp add: settings_wf_def demo_secret_def minimal_settings_def bt_invar_def bt_get_def)

definition demo_broken_turns :: "zturn list" where
  "demo_broken_turns =
     [\<lparr>zt_expired = False, zt_poll = PollReady (Some (PGot [72])) None None\<rparr>,
      \<lparr>zt_expired = False, zt_poll = PollReady None None (Some SClosed)\<rparr>]"

definition demo_streaming :: settings where
  "demo_streaming = demo_request\<lparr>s_output := (s_output demo_request)\<lparr>out_stream := True\<rparr>\<rparr>"

definition demo_zygote :: zygote where
  "demo_zygote = \<lparr>zy_pid = 42, zy_cg = \<lparr>cg_path = ''z'', cg_swap = False, cg_killed = False\<rparr>,
     zy_shape = zygote_shape (\<lambda>_. ''1'') demo_streaming, zy_spec = demo_spec\<rparr>"

theorem zygote_failure_reruns_request_witness:
  "\<exists>(v :: zserved) e2. zygote_run (demo_zygote_io demo_broken_turns) demo_streaming (Some demo_zygote) demo_engine =
     map_returns (\<lambda>r. (after_sent (zv_chunks v) r, None)) (exec_run demo_tools (demo_machine (\<lambda>_. Inr 42)) demo_io ''/w'' demo_streaming e2) \<and>
     zv_chunks v = [(Stdout, [72])]"
proof -
  let ?io = "demo_zygote_io demo_broken_turns"
  have l: "zygote_loop 3 demo_broken_turns zstate_init = (Some (Inl ''zygote status''), zstate_init\<lparr>zs_total := 1, zs_chunks := [(Stdout, [72])]\<rparr>)"
    by (simp add: demo_broken_turns_def zstate_init_def zs_busy_def zygote_turn_def expire_def quiet_def zygote_read_def
        zs_open_def zygote_status_def Let_def)
  have c: "zs_chunks (zstate_init\<lparr>zs_total := 1, zs_chunks := [(Stdout, [72])]\<rparr>) = [(Stdout, [72])]" by simp
  obtain v where v: "zygote_serve ?io demo_streaming demo_launcher demo_engine = Returns v" "zv_result v = Some (Inl ''zygote status'')"
      "zv_chunks v = [(Stdout, [72])]"
    using demo_serve [OF l, of "(s_output demo_request)\<lparr>out_stream := True\<rparr>", unfolded c sum.case demo_streaming_def [symmetric]]
    by blast
  have la: "ep_launcher demo_engine = Some demo_launcher" by (simp add: demo_engine_def)
  have en: "ensure_zygote ?io demo_streaming demo_launcher (Some demo_zygote) demo_engine = Returns (Inr demo_zygote, Some demo_zygote, demo_engine)"
    by (simp add: ensure_zygote_def demo_zygote_def demo_zygote_io_def)
  have "zygote_run ?io demo_streaming (Some demo_zygote) demo_engine =
    map_returns (\<lambda>r. (after_sent (zv_chunks v) r, None))
      (exec_run (zi_tools ?io) (zi_host ?io) (zi_exec ?io) (zi_work_root ?io) demo_streaming
        ((zv_part v)\<lparr>ep_fs := drop_slot (hk_cgroups (zi_host ?io)) (Some demo_zygote) (ep_fs (zv_part v))\<rparr>))"
    by (rule zygote_failure_reruns_request [OF la en la v(1,2)]) (simp_all add: demo_streaming_def demo_zygote_io_def)
  note run = this
  have io: "zi_tools ?io = demo_tools" "zi_host ?io = demo_machine (\<lambda>_. Inr 42)" "zi_exec ?io = demo_io" "zi_work_root ?io = ''/w''"
    by (simp_all add: demo_zygote_io_def)
  show ?thesis by (intro exI conjI, rule run [unfolded io], rule v(3))
qed

end
