(* ===== verification/RB_Compiler.thy ===== *)
theory RB_Compiler
  imports RB_Resolver
begin

text \<open>
  The compile helper (\<^verbatim>\<open>compiler/src/main.rs\<close>): a privileged process that compiles on behalf of the
  engines and keeps the binaries under a content key. The compiler it runs inside \<^verbatim>\<open>bwrap\<close>, the hash and
  the hex codec are arguments; the file system is the one of the other caches.
\<close>

section \<open>Messages\<close>

record compile_request =
  cm_request_id :: string
  cm_language :: string
  cm_cmd :: "string list"
  cm_flake_lock_hash :: string
  cm_version :: string
  cm_files :: "file_entry list"
  cm_timeout_ms :: u64

datatype helper_response =
    HelperOk string string string u64 bool      \<comment> \<open>request, binary path, SHA-256, time, cached\<close>
  | HelperFailed string string string           \<comment> \<open>request, error, standard error\<close>

record helper_tools =
  ht_sha256 :: "byte list \<Rightarrow> byte list"
  ht_to_hex :: "byte list \<Rightarrow> string"
  ht_bwrap :: "string list \<Rightarrow> fsys \<Rightarrow> (string + process_output) \<times> fsys"
  ht_temp_dir :: string
  ht_elapsed_ms :: u64

section \<open>One compilation\<close>

definition compile_key_preimage :: "file_entry list \<Rightarrow> string \<Rightarrow> string \<Rightarrow> byte list" where
  "compile_key_preimage files compiler_version flake_lock_hash =
     concat (map (\<lambda>f. as_bytes (fe_path f) @ [0] @ fe_content f @ [0]) files) @
     as_bytes compiler_version @ [0] @ as_bytes flake_lock_hash"

definition compute_key :: "helper_tools \<Rightarrow> file_entry list \<Rightarrow> string \<Rightarrow> string \<Rightarrow> string" where
  "compute_key ht files compiler_version flake_lock_hash =
     ht_to_hex ht (ht_sha256 ht (compile_key_preimage files compiler_version flake_lock_hash))"

definition bwrap_args :: "string \<Rightarrow> string \<Rightarrow> string list \<Rightarrow> string list" where
  "bwrap_args work_dir target_dir cmd =
     [''--unshare-all'', ''--ro-bind'', ''/nix/store'', ''/nix/store'', ''--bind'', work_dir, ''/build'',
      ''--bind'', target_dir, ''/output'', ''--tmpfs'', ''/tmp'', ''--dev'', ''/dev'', ''--proc'', ''/proc'',
      ''--die-with-parent'', ''--chdir'', ''/build'', ''--''] @ cmd"

text \<open>The sources: a parent directory that cannot be made is ignored, a failing write is an error.\<close>

fun write_sources :: "string \<Rightarrow> file_entry list \<Rightarrow> fsys \<Rightarrow> bool \<times> fsys" where
  "write_sources work_dir [] fs = (True, fs)"
| "write_sources work_dir (f # files) fs =
     (let p = path_join work_dir (fe_path f);
          fs1 = (case fs_create_dir_all (path_parent p) fs of Some fs1 \<Rightarrow> fs1 | None \<Rightarrow> fs)
      in case fs_write p (fe_content f) fs1 of
           None \<Rightarrow> (False, fs1)
         | Some fs2 \<Rightarrow> write_sources work_dir files fs2)"

definition set_readonly :: "string \<Rightarrow> fsys \<Rightarrow> fsys" where
  "set_readonly p fs = (case fs_set_mode p 365 fs of Some fs1 \<Rightarrow> fs1 | None \<Rightarrow> fs)"

text \<open>\<^verbatim>\<open>remove_dir_all\<close>: every name of the tree.\<close>

definition fs_remove_dir_all :: "string \<Rightarrow> fsys \<Rightarrow> fsys" where
  "fs_remove_dir_all p fs =
     fs\<lparr>fs_names := (\<lambda>q. if q = p \<or> starts_with q (p @ ''/'') then None else fs_names fs q)\<rparr>"

definition hash_file :: "helper_tools \<Rightarrow> string \<Rightarrow> fsys \<Rightarrow> string option" where
  "hash_file ht p fs = map_option (\<lambda>c. ht_to_hex ht (ht_sha256 ht (stream_read (\<lambda>k. k) c []))) (fs_read fs p)"

definition work_dir_of :: "helper_tools \<Rightarrow> string \<Rightarrow> string" where
  "work_dir_of ht request_id = path_join (ht_temp_dir ht) (''rockbox-compile-'' @ request_id)"

definition target_dir_of :: "helper_tools \<Rightarrow> string \<Rightarrow> compile_request \<Rightarrow> string" where
  "target_dir_of ht cache_root r = path_join cache_root (compute_key ht (cm_files r) (cm_version r) (cm_flake_lock_hash r))"

text \<open>The part after the compiler has returned.\<close>

definition publish :: "helper_tools \<Rightarrow> compile_request \<Rightarrow> string \<Rightarrow> string \<Rightarrow> process_output \<Rightarrow> fsys \<Rightarrow> helper_response \<times> fsys" where
  "publish ht r work_dir target_dir out fs =
     (let bin = path_join target_dir ''main.bin''; hash = path_join target_dir ''main.sha256'';
          stderr = from_utf8_lossy (po_stderr out)
      in if \<not> po_success out then (HelperFailed (cm_request_id r) ''compiler exit'' stderr, fs)
         else if \<not> fs_exists fs bin
         then (HelperFailed (cm_request_id r) ''compiler did not produce /output/main.bin'' stderr, fs)
         else (case hash_file ht bin fs of
                 None \<Rightarrow> (HelperFailed (cm_request_id r) ''hash bin'' [], fs)
               | Some sha \<Rightarrow>
                   let fs1 = (case fs_write hash (as_bytes sha) fs of Some fs1 \<Rightarrow> fs1 | None \<Rightarrow> fs);
                       fs2 = set_readonly hash (set_readonly bin fs1)
                   in (HelperOk (cm_request_id r) bin sha (ht_elapsed_ms ht) False, fs_remove_dir_all work_dir fs2)))"

definition compile_fresh :: "helper_tools \<Rightarrow> compile_request \<Rightarrow> string \<Rightarrow> fsys \<Rightarrow> helper_response \<times> fsys" where
  "compile_fresh ht r target_dir fs =
     (let work_dir = work_dir_of ht (cm_request_id r) in
      case fs_create_dir_all work_dir fs of
        None \<Rightarrow> (HelperFailed (cm_request_id r) ''mkdir work'' [], fs)
      | Some fs1 \<Rightarrow>
          (case write_sources work_dir (cm_files r) fs1 of
             (False, fs2) \<Rightarrow> (HelperFailed (cm_request_id r) ''write src'' [], fs2)
           | (True, fs2) \<Rightarrow>
               (case fs_create_dir_all target_dir fs2 of
                  None \<Rightarrow> (HelperFailed (cm_request_id r) ''mkdir cache'' [], fs2)
                | Some fs3 \<Rightarrow>
                    (case ht_bwrap ht (bwrap_args work_dir target_dir (cm_cmd r)) fs3 of
                       (Inl e, fs4) \<Rightarrow> (HelperFailed (cm_request_id r) ''bwrap spawn'' [], fs4)
                     | (Inr out, fs4) \<Rightarrow> publish ht r work_dir target_dir out fs4))))"

definition read_or_default :: "string \<Rightarrow> fsys \<Rightarrow> string" where
  "read_or_default p fs = (case Option.bind (fs_read fs p) from_utf8 of Some s \<Rightarrow> s | None \<Rightarrow> [])"

definition compile_one :: "helper_tools \<Rightarrow> string \<Rightarrow> compile_request \<Rightarrow> fsys \<Rightarrow> helper_response \<times> fsys" where
  "compile_one ht cache_root r fs =
     (let target_dir = target_dir_of ht cache_root r;
          bin = path_join target_dir ''main.bin''; hash = path_join target_dir ''main.sha256''
      in if fs_exists fs bin \<and> fs_exists fs hash
         then (HelperOk (cm_request_id r) bin (trim (read_or_default hash fs)) (ht_elapsed_ms ht) True, fs)
         else compile_fresh ht r target_dir fs)"

text \<open>
  A connection: commands are answered in order until one cannot be read (the peer closed) or an
  answer cannot be written; \<open>writable\<close> says for each answer whether the write succeeds.
\<close>

fun handle_client :: "helper_tools \<Rightarrow> string \<Rightarrow> compile_request list \<Rightarrow> bool list \<Rightarrow> fsys \<Rightarrow> helper_response list \<times> fsys" where
  "handle_client ht cache_root (r # rs) (True # ws) fs =
     (case compile_one ht cache_root r fs of
        (resp, fs1) \<Rightarrow> (case handle_client ht cache_root rs ws fs1 of (resps, fs2) \<Rightarrow> (resp # resps, fs2)))"
| "handle_client ht cache_root (r # rs) ws fs = ([], snd (compile_one ht cache_root r fs))"
| "handle_client ht cache_root [] ws fs = ([], fs)"

fun response_request :: "helper_response \<Rightarrow> string" where
  "response_request (HelperOk rid _ _ _ _) = rid"
| "response_request (HelperFailed rid _ _) = rid"

section \<open>What the helper answers\<close>

lemma hash_file_eq: "hash_file ht p fs = map_option (\<lambda>c. ht_to_hex ht (ht_sha256 ht c)) (fs_read fs p)"
  by (simp add: hash_file_def stream_read_all)

lemma publish_request: "response_request (fst (publish ht r wd td out fs)) = cm_request_id r"
  by (simp add: publish_def Let_def split: option.split)

lemma compile_one_request: "response_request (fst (compile_one ht cache_root r fs)) = cm_request_id r"
  by (auto simp: compile_one_def compile_fresh_def Let_def publish_request split: option.split prod.split sum.split bool.split)

text \<open>
  A fresh compilation is answered with the digest of what the compiler left: the compiler ran
  on the directories of this request, it succeeded, \<^verbatim>\<open>main.bin\<close> exists in the file system it left, and
  the SHA-256 in the answer is that of its content.
\<close>

theorem fresh_answer_is_digest_of_output:
  assumes "compile_one ht cache_root r fs = (HelperOk rid bin sha t False, fs')"
  shows "\<exists>fs3 out fs4 content. ht_bwrap ht (bwrap_args (work_dir_of ht (cm_request_id r)) (target_dir_of ht cache_root r) (cm_cmd r)) fs3 = (Inr out, fs4) \<and>
    po_success out \<and> bin = path_join (target_dir_of ht cache_root r) ''main.bin'' \<and> fs_read fs4 bin = Some content \<and>
    sha = ht_to_hex ht (ht_sha256 ht content) \<and> rid = cm_request_id r"
proof -
  let ?td = "target_dir_of ht cache_root r" and ?wd = "work_dir_of ht (cm_request_id r)"
  have "compile_fresh ht r ?td fs = (HelperOk rid bin sha t False, fs')"
    using assms by (auto simp: compile_one_def Let_def split: if_splits)
  then obtain fs3 out fs4 where b: "ht_bwrap ht (bwrap_args ?wd ?td (cm_cmd r)) fs3 = (Inr out, fs4)"
      and p: "publish ht r ?wd ?td out fs4 = (HelperOk rid bin sha t False, fs')"
    by (auto simp: compile_fresh_def Let_def split: option.splits prod.splits sum.splits bool.splits)
  then have "po_success out \<and> bin = path_join ?td ''main.bin'' \<and> hash_file ht bin fs4 = Some sha \<and> rid = cm_request_id r"
    by (auto simp: publish_def Let_def split: if_splits option.splits)
  with b show ?thesis unfolding hash_file_eq by blast
qed

text \<open>
  A cached answer is not verified, and the command that compiles is not part of the key: when
  both files are there, the answer for any request with the same sources, version and lock hash is the
  stored path and the text of the digest file, whatever the binary contains, whatever compiler
  command and language the request names, and the file system is left as it is.
\<close>

theorem cached_answer_ignores_command_and_content:
  assumes "td = target_dir_of ht cache_root r" "fs_exists fs (path_join td ''main.bin'')" "fs_exists fs (path_join td ''main.sha256'')"
    and "fs_read fs (path_join td ''main.sha256'') = Some (as_bytes sha)" "from_utf8 (as_bytes sha) = Some sha"
  shows "compile_one ht cache_root (r\<lparr>cm_cmd := cmd, cm_language := lang, cm_timeout_ms := t\<rparr>) fs =
    (HelperOk (cm_request_id r) (path_join td ''main.bin'') (trim sha) (ht_elapsed_ms ht) True, fs)"
  using assms by (simp add: compile_one_def target_dir_of_def read_or_default_def Let_def)

text \<open>
  The separators of the key are NUL bytes, which a file may contain: a program of one file and one of
  two files have the same key, for every hash function.
\<close>

theorem compile_key_collision:
  "compute_key ht [\<lparr>fe_path = a, fe_content = x @ [0] @ as_bytes b @ [0] @ y, fe_mode = m\<rparr>] version lock =
   compute_key ht [\<lparr>fe_path = a, fe_content = x, fe_mode = m\<rparr>, \<lparr>fe_path = b, fe_content = y, fe_mode = m\<rparr>] version lock"
  by (simp add: compute_key_def compile_key_preimage_def)

text \<open>
  The helper writes anywhere: a source file with an absolute path is written to that path, outside
  the scratch directory, with the rights of the helper. The file system the compiler then starts from
  holds the requester's bytes under that name.
\<close>

theorem helper_writes_outside_work_dir:
  assumes "is_absolute (fe_path f)" "cm_files r = [f]"
    and "write_sources (work_dir_of ht (cm_request_id r)) (cm_files r) fs = (True, fs')"
  shows "fs_read fs' (fe_path f) = Some (fe_content f)"
proof -
  let ?p = "fe_path f"
  have p: "path_join (work_dir_of ht (cm_request_id r)) ?p = ?p" using assms(1) by (rule path_join_absolute)
  obtain fs1 where "fs_write ?p (fe_content f) fs1 = Some fs'"
    using assms(2,3) by (auto simp: Let_def p split: option.splits)
  from fs_read_write [OF this] show ?thesis by (auto simp: fs_read_def)
qed

text \<open>
  Every command of a connection is answered once, in order and under its own request id, as long as
  the answers can be written.
\<close>

theorem helper_answers_in_order:
  assumes "length rs \<le> length ws" "list_all (\<lambda>w. w) (take (length rs) ws)"
  shows "map response_request (fst (handle_client ht cache_root rs ws fs)) = map cm_request_id rs"
  using assms
proof (induction rs arbitrary: ws fs)
  case (Cons r rs)
  then obtain ws' where ws: "ws = True # ws'" by (cases ws) auto
  obtain resp fs1 where c: "compile_one ht cache_root r fs = (resp, fs1)" by fastforce
  have "response_request resp = cm_request_id r" using compile_one_request [of ht cache_root r fs] c by simp
  moreover have "map response_request (fst (handle_client ht cache_root rs ws' fs1)) = map cm_request_id rs"
    using Cons.IH [of ws' fs1] Cons.prems ws by simp
  ultimately show ?case by (simp add: ws c case_prod_unfold)
qed simp
section \<open>What was published is served\<close>

lemma set_readonly_names [simp]:
  "fs_names (set_readonly p fs) = fs_names fs" "fs_content (set_readonly p fs) = fs_content fs"
  by (auto simp: set_readonly_def fs_set_mode_def split: option.splits if_splits)

lemma read_or_default_hex:
  assumes "fs_names fs p = Some (Ino i)" "fs_content fs i = as_bytes (hex_digest d)"
  shows "read_or_default p fs = hex_digest d"
proof -
  have "fs_read fs p = Some (as_bytes (hex_digest d))" using assms by (simp add: fs_read_def fs_open_plain)
  moreover have "from_utf8 (as_bytes (hex_digest d)) = Some (hex_digest d)"
    using hx.to_hex_utf8 by (simp add: from_utf8_Some)
  ultimately show ?thesis by (simp add: read_or_default_def)
qed

text \<open>
  C25. What a compilation published is served to the next request with the same key: the answer is marked as
  cached and carries the same path and the same digest, and the bytes behind the path are the ones
  the compiler left. (For a target directory that had no digest file and whose files are not inside the
  scratch directory, which is removed in between.)
\<close>

theorem published_binary_is_served:
  assumes ht: "ht_to_hex ht = hex_digest"
    and td: "td = target_dir_of ht cache_root r" "target_dir_of ht cache_root r' = td"
    and pub: "publish ht r wd td out fs = (HelperOk rid bin sha t False, fs')"
    and fs: "fs_wf fs" "fs_names fs bin = Some (Ino i)" "fs_names fs (path_join td ''main.sha256'') = None"
      "fs_names fs td = Some Dir" "\<not> fs_frozen fs (path_join td ''main.sha256'')"
      "path_parent (path_join td ''main.sha256'') = td" "wd \<notin> {bin, path_join td ''main.sha256''}"
      "\<not> starts_with (path_join td ''main.sha256'') (wd @ ''/'')" "\<not> starts_with bin (wd @ ''/'')"
  shows "compile_one ht cache_root r' fs' = (HelperOk (cm_request_id r') bin sha (ht_elapsed_ms ht) True, fs') \<and>
    fs_read fs' bin = Some (fs_content fs i)"
proof -
  let ?bin = "path_join td ''main.bin''" and ?sha = "path_join td ''main.sha256''"
  from pub have bin: "bin = ?bin" and h: "hash_file ht ?bin fs = Some sha"
    by (auto simp: publish_def Let_def split: if_splits option.splits)
  have sha: "sha = hex_digest (ht_sha256 ht (fs_content fs i))"
    using h fs(2) by (simp add: hash_file_eq ht bin fs_read_def fs_open_plain)
  let ?fs1 = "fs_create ?sha (as_bytes sha) 420 fs"
  have w: "fs_write ?sha (as_bytes sha) fs = Some ?fs1"
    using fs(3,4,5,6) by (simp add: fs_write_def fs_real_plain)
  have fs': "fs' = fs_remove_dir_all wd (set_readonly ?sha (set_readonly ?bin ?fs1))"
    using pub by (auto simp: publish_def Let_def h w split: if_splits)
  have ne: "?sha \<noteq> ?bin" by (simp add: path_join_def is_absolute_def)
  have wd: "?sha \<noteq> wd" "?bin \<noteq> wd" using fs(7) bin by auto
  have i: "i \<noteq> fs_next fs" using fs(1,2) by (auto simp: fs_wf_def)
  have n: "fs_names fs' ?sha = Some (Ino (fs_next fs))" "fs_names fs' ?bin = Some (Ino i)"
    using fs(2,8,9) ne wd by (simp_all add: fs' fs_remove_dir_all_def fs_create_def bin)
  have c: "fs_content fs' (fs_next fs) = as_bytes sha" "fs_content fs' i = fs_content fs i"
    using i by (simp_all add: fs' fs_remove_dir_all_def fs_create_def)
  have e: "fs_exists fs' ?bin" "fs_exists fs' ?sha" using n by (simp_all add: fs_exists_def fs_stat_def fs_real_plain)
  have "trim (read_or_default ?sha fs') = sha"
    using read_or_default_hex [OF n(1)] c(1) hx.to_hex_no_blanks by (simp add: sha trim_no_blanks)
  then have "compile_one ht cache_root r' fs' = (HelperOk (cm_request_id r') bin sha (ht_elapsed_ms ht) True, fs')"
    using e by (simp add: compile_one_def td(2) Let_def bin)
  moreover have "fs_read fs' bin = Some (fs_content fs i)" using n(2) c(2) by (simp add: fs_read_def fs_open_plain bin)
  ultimately show ?thesis by simp
qed
section \<open>Witnesses\<close>

text \<open>A helper whose digest is constant and whose compiler writes three bytes.\<close>

definition demo_helper :: helper_tools where
  "demo_helper =
     \<lparr>ht_sha256 = (\<lambda>_. [7]), ht_to_hex = hex_digest,
      ht_bwrap = (\<lambda>args fs. (Inr \<lparr>po_success = True, po_code = Some 0, po_stdout = [], po_stderr = []\<rparr>,
        fs_create ''/c/07/main.bin'' [1, 2, 3] 493 fs)),
      ht_temp_dir = ''/tmp'', ht_elapsed_ms = 3\<rparr>"

definition demo_compile :: compile_request where
  "demo_compile =
     \<lparr>cm_request_id = ''r1'', cm_language = ''rust'', cm_cmd = [''rustc''], cm_flake_lock_hash = ''l'', cm_version = ''v'',
      cm_files = [\<lparr>fe_path = ''/etc/main.rs'', fe_content = [5], fe_mode = 420\<rparr>], cm_timeout_ms = 9\<rparr>"

definition demo_disk :: fsys where
  "demo_disk = \<lparr>fs_names = [''/'' \<mapsto> Dir, ''/c'' \<mapsto> Dir, ''/tmp'' \<mapsto> Dir, ''/etc'' \<mapsto> Dir], fs_content = (\<lambda>_. []), fs_mode = (\<lambda>_. 493),
     fs_next = 1, fs_frozen = (\<lambda>_. False)\<rparr>"

lemma demo_fresh:
  "fst (compile_one demo_helper ''/c'' demo_compile demo_disk) = HelperOk ''r1'' ''/c/07/main.bin'' ''07'' 3 False"
  by code_simp

theorem fresh_answer_is_digest_of_output_witness:
  "\<exists>fs3 out fs4 content. ht_bwrap demo_helper (bwrap_args (work_dir_of demo_helper (cm_request_id demo_compile))
      (target_dir_of demo_helper ''/c'' demo_compile) (cm_cmd demo_compile)) fs3 = (Inr out, fs4) \<and>
    po_success out \<and> ''/c/07/main.bin'' = path_join (target_dir_of demo_helper ''/c'' demo_compile) ''main.bin'' \<and>
    fs_read fs4 ''/c/07/main.bin'' = Some content \<and> ''07'' = ht_to_hex demo_helper (ht_sha256 demo_helper content) \<and>
    ''r1'' = cm_request_id demo_compile"
  by (rule fresh_answer_is_digest_of_output [where t = 3 and fs = demo_disk and
        fs' = "snd (compile_one demo_helper ''/c'' demo_compile demo_disk)"])
    (metis demo_fresh prod.collapse)

definition demo_cached :: fsys where
  "demo_cached = \<lparr>fs_names = [''/c/07/main.bin'' \<mapsto> Ino 0, ''/c/07/main.sha256'' \<mapsto> Ino 1],
     fs_content = (\<lambda>_. as_bytes ''00''), fs_mode = (\<lambda>_. 493), fs_next = 2, fs_frozen = (\<lambda>_. False)\<rparr>"

lemma demo_target: "target_dir_of demo_helper root_dir demo_compile = path_join root_dir ''07''"
  by (simp add: target_dir_of_def compute_key_def demo_helper_def hex_digest_def HEX_def)

theorem cached_answer_ignores_command_and_content_witness:
  "compile_one demo_helper ''/c'' (demo_compile\<lparr>cm_cmd := [''sh''], cm_language := ''go'', cm_timeout_ms := 0\<rparr>) demo_cached =
    (HelperOk ''r1'' ''/c/07/main.bin'' ''00'' 3 True, demo_cached)"
proof -
  have p: "path_join (path_join ''/c'' ''07'') f = ''/c/07/'' @ f" if "\<not> is_absolute f" for f
    using that by (simp add: path_join_def is_absolute_def)
  have "compile_one demo_helper ''/c'' (demo_compile\<lparr>cm_cmd := [''sh''], cm_language := ''go'', cm_timeout_ms := 0\<rparr>) demo_cached =
    (HelperOk (cm_request_id demo_compile) (path_join (path_join ''/c'' ''07'') ''main.bin'') (trim ''00'') (ht_elapsed_ms demo_helper) True, demo_cached)"
  proof (rule cached_answer_ignores_command_and_content)
    show "from_utf8 (as_bytes ''00'') = Some ''00''"
      unfolding from_utf8_Some by (simp add: utf8_valid_ascii as_bytes_def of_char_def)
  qed (simp_all only: demo_target, simp_all add: p is_absolute_def demo_cached_def fs_exists_def fs_stat_def fs_real_plain fs_read_def fs_open_def)
  moreover have "trim ''00'' = ''00''" using hx.to_hex_no_blanks [of "[0]"] by (simp add: trim_no_blanks hex_digest_def HEX_def)
  ultimately show ?thesis by (simp add: p is_absolute_def demo_compile_def demo_helper_def)
qed

theorem helper_writes_outside_work_dir_witness:
  "fs_read (snd (write_sources (work_dir_of demo_helper (cm_request_id demo_compile)) (cm_files demo_compile) demo_disk)) ''/etc/main.rs'' =
    Some [5]"
proof -
  have "fst (write_sources (work_dir_of demo_helper (cm_request_id demo_compile)) (cm_files demo_compile) demo_disk) = True"
    by code_simp
  then have "write_sources (work_dir_of demo_helper (cm_request_id demo_compile)) (cm_files demo_compile) demo_disk =
    (True, snd (write_sources (work_dir_of demo_helper (cm_request_id demo_compile)) (cm_files demo_compile) demo_disk))"
    by (metis prod.collapse)
  from helper_writes_outside_work_dir [OF _ _ this, where f = "\<lparr>fe_path = ''/etc/main.rs'', fe_content = [5], fe_mode = 420\<rparr>"]
  show ?thesis by (simp add: is_absolute_def demo_compile_def)
qed

definition demo_built :: fsys where
  "demo_built = \<lparr>fs_names = [''/c/07'' \<mapsto> Dir, ''/c/07/main.bin'' \<mapsto> Ino 0], fs_content = (\<lambda>_. [1, 2, 3]), fs_mode = (\<lambda>_. 493),
     fs_next = 1, fs_frozen = (\<lambda>_. False)\<rparr>"

definition demo_publish :: "helper_response \<times> fsys" where
  "demo_publish = publish demo_helper demo_compile ''/tmp/w'' ''/c/07''
     \<lparr>po_success = True, po_code = Some 0, po_stdout = [], po_stderr = []\<rparr> demo_built"

theorem published_binary_is_served_witness:
  "compile_one demo_helper ''/c'' demo_compile (snd demo_publish) =
     (HelperOk (cm_request_id demo_compile) ''/c/07/main.bin'' ''07'' (ht_elapsed_ms demo_helper) True, snd demo_publish) \<and>
   fs_read (snd demo_publish) ''/c/07/main.bin'' = Some (fs_content demo_built 0)"
proof (rule published_binary_is_served)
  have "fst demo_publish = HelperOk ''r1'' ''/c/07/main.bin'' ''07'' 3 False" by code_simp
  then show "publish demo_helper demo_compile ''/tmp/w'' ''/c/07''
     \<lparr>po_success = True, po_code = Some 0, po_stdout = [], po_stderr = []\<rparr> demo_built =
     (HelperOk ''r1'' ''/c/07/main.bin'' ''07'' 3 False, snd demo_publish)"
    unfolding demo_publish_def [symmetric] by (metis prod.collapse)
  show "fs_wf demo_built" by (auto simp: fs_wf_def demo_built_def split: if_splits)
  show "''/c/07'' = target_dir_of demo_helper ''/c'' demo_compile" "target_dir_of demo_helper ''/c'' demo_compile = ''/c/07''"
    unfolding demo_target by (simp_all add: path_join_def is_absolute_def)
  show "path_parent (path_join ''/c/07'' ''main.sha256'') = ''/c/07''" by code_simp
qed (simp_all add: demo_built_def demo_helper_def path_join_def is_absolute_def starts_with_def)

theorem helper_answers_in_order_witness:
  "map response_request (fst (handle_client demo_helper ''/c'' [demo_compile, demo_compile] [True, True] demo_disk)) =
    map cm_request_id [demo_compile, demo_compile]"
  by (rule helper_answers_in_order) simp_all

end
