(* ===== verification/RB_Lsp.thy ===== *)
theory RB_Lsp
  imports RB_Settings RB_Hex
begin

text \<open>
  The LSP relay (\<^verbatim>\<open>engine/src/modes/lsp.rs\<close>): one long-lived language server per language, JSON-RPC over
  its standard streams with \<^verbatim>\<open>Content-Length\<close> framing, a reader that hands each response to the call
  whose id it carries. JSON and MessagePack are third-party and are arguments.
\<close>

section \<open>Framing\<close>

definition CR :: byte where "CR = 13"
definition LF :: byte where "LF = 10"

definition lsp_header :: "nat \<Rightarrow> byte list" where
  "lsp_header n = as_bytes (''Content-Length: '' @ decimal n) @ [CR, LF, CR, LF]"

definition lsp_frame :: "byte list \<Rightarrow> byte list" where
  "lsp_frame body = lsp_header (length body) @ body"

text \<open>
  \<^verbatim>\<open>read_line\<close>: up to and including the next line feed, or what is left at the end of the stream.
  While the stream is open and holds no line feed the reader waits.
\<close>

datatype line = LineGot "byte list" "byte list" | LineWait | LineEof

definition next_line :: "bool \<Rightarrow> byte list \<Rightarrow> line" where
  "next_line eof bs =
     (if LF \<in> set bs then LineGot (takeWhile (\<lambda>b. b \<noteq> LF) bs @ [LF]) (tl (dropWhile (\<lambda>b. b \<noteq> LF) bs))
      else if \<not> eof then LineWait
      else if bs = [] then LineEof
      else LineGot bs [])"

definition strip_eol :: "byte list \<Rightarrow> byte list" where
  "strip_eol l = rev (dropWhile (\<lambda>b. b = CR \<or> b = LF) (rev l))"

text \<open>\<^verbatim>\<open>str::parse::<usize>\<close>: an optional plus sign, digits, at most 64 bits.\<close>

fun digits_value :: "nat \<Rightarrow> string \<Rightarrow> nat option" where
  "digits_value acc [] = Some acc"
| "digits_value acc (c # cs) =
     (if 48 \<le> (of_char c :: nat) \<and> (of_char c :: nat) \<le> 57
      then (let v = acc * 10 + (of_char c - 48) in if 2 ^ 64 \<le> v then None else digits_value v cs)
      else None)"

definition parse_usize :: "string \<Rightarrow> nat option" where
  "parse_usize s =
     (let ds = (case s of c # cs \<Rightarrow> if c = CHR ''+'' then cs else s | [] \<Rightarrow> s)
      in if ds = [] then None else digits_value 0 ds)"

definition header_line :: "byte list \<Rightarrow> nat option \<Rightarrow> nat option" where
  "header_line t len =
     (case strip_prefix (of_bytes t) ''Content-Length:'' of
        Some rest \<Rightarrow> parse_usize (trim rest)
      | None \<Rightarrow> len)"

text \<open>
  \<^verbatim>\<open>read_content_length\<close>: the header lines up to the empty one. A block without a length is reported like
  a clean end of the stream.
\<close>

datatype header = HLen nat "byte list" | HNoLen | HEof | HBad | HWait

lemma next_line_shorter: "next_line eof bs = LineGot l r \<Longrightarrow> length r < length bs"
proof -
  assume a: "next_line eof bs = LineGot l r"
  have "length (dropWhile (\<lambda>b. b \<noteq> LF) bs) \<le> length bs" by (rule length_dropWhile_le)
  moreover have "LF \<in> set bs \<Longrightarrow> dropWhile (\<lambda>b. b \<noteq> LF) bs \<noteq> []" by (simp add: dropWhile_eq_Nil_conv)
  ultimately show "length r < length bs"
    using a by (cases "dropWhile (\<lambda>b. b \<noteq> LF) bs") (auto simp: next_line_def split: if_splits)
qed

function read_header :: "bool \<Rightarrow> nat option \<Rightarrow> byte list \<Rightarrow> header" where
  "read_header eof len bs =
     (case next_line eof bs of
        LineWait \<Rightarrow> HWait
      | LineEof \<Rightarrow> HEof
      | LineGot l r \<Rightarrow>
          if \<not> utf8_valid l then HBad
          else if strip_eol l = [] then (case len of Some n \<Rightarrow> HLen n r | None \<Rightarrow> HNoLen)
          else read_header eof (header_line (strip_eol l) len) r)"
  by pat_completeness auto
termination
  by (relation "measure (\<lambda>(_, _, bs). length bs)") (auto simp: next_line_shorter)

declare read_header.simps [simp del]

lemma read_header_shorter: "read_header eof len bs = HLen n r \<Longrightarrow> length r < length bs"
proof (induction eof len bs rule: read_header.induct)
  case (1 eof len bs)
  show ?case
  proof (cases "next_line eof bs")
    case (LineGot l r')
    note s = next_line_shorter [OF LineGot]
    from "1.prems" LineGot show ?thesis
      using "1.IH" [OF LineGot] s
      by (subst (asm) read_header.simps) (auto split: if_splits option.splits)
  qed (use "1.prems" in \<open>auto simp: read_header.simps [of eof len bs]\<close>)
qed

text \<open>
  The reader: the bodies of the frames the stream holds, whether the reader is still alive, and the
  bytes it has not consumed. It ends at the end of the stream, on a header it cannot read, on a
  header block without a length and on a length no vector can have (the thread panics); memory for
  shorter ones is assumed.
\<close>

function lsp_read :: "bool \<Rightarrow> byte list \<Rightarrow> byte list list \<times> bool \<times> byte list" where
  "lsp_read eof bs =
     (case read_header eof None bs of
        HWait \<Rightarrow> ([], True, bs)
      | HLen n r \<Rightarrow>
          if 2 ^ 63 \<le> n then ([], False, bs)
          else if length r < n then ([], \<not> eof, bs)
          else (case lsp_read eof (drop n r) of (bodies, alive, rest) \<Rightarrow> (take n r # bodies, alive, rest))
      | HNoLen \<Rightarrow> ([], False, bs)
      | HEof \<Rightarrow> ([], False, bs)
      | HBad \<Rightarrow> ([], False, bs))"
  by pat_completeness auto
termination
  by (relation "measure (\<lambda>(_, bs). length bs)") (auto dest: read_header_shorter)

declare lsp_read.simps [simp del]
section \<open>The frames the engine writes, read back\<close>

text \<open>The decimal rendering has only digits and its value is the number.\<close>

lemma digit_char: "m < 10 \<Longrightarrow> (of_char (char_of (48 + m) :: char) :: nat) = 48 + m"
  by simp

lemma decimal_digits: "c \<in> set (decimal n) \<Longrightarrow> 48 \<le> (of_char c :: nat) \<and> (of_char c :: nat) \<le> 57"
proof (induction n rule: decimal.induct)
  case (1 n)
  show ?case
  proof (cases "n < 10")
    case True
    with 1 have "c = char_of (48 + n)" by (simp add: decimal.simps)
    with digit_char [OF True] True show ?thesis by simp
  next
    case False
    with "1.prems" have "c \<in> set (decimal (n div 10)) \<or> c = char_of (48 + n mod 10)"
      by (auto simp only: decimal.simps [of n] if_False set_append set_simps Un_iff insert_iff empty_iff)
    moreover have "n mod 10 < 10" by simp
    ultimately show ?thesis using "1.IH" [OF False] digit_char [of "n mod 10"] by auto
  qed
qed

lemma digits_value_append:
  "digits_value a (ds @ [c]) = (case digits_value a ds of Some v \<Rightarrow> digits_value v [c] | None \<Rightarrow> None)"
  by (induction a ds rule: digits_value.induct) (simp_all add: Let_def)

lemma digits_value_decimal: "n < 2 ^ 64 \<Longrightarrow> digits_value 0 (decimal n) = Some n"
proof (induction n rule: decimal.induct)
  case (1 n)
  show ?case
  proof (cases "n < 10")
    case True
    then show ?thesis using digit_char [OF True] "1.prems" by (simp add: decimal.simps Let_def)
  next
    case False
    have "n div 10 < 2 ^ 64" using "1.prems" by simp
    from "1.IH" [OF False this] have "digits_value 0 (decimal n) = digits_value (n div 10) [char_of (48 + n mod 10)]"
      using False by (subst decimal.simps) (simp add: digits_value_append)
    moreover have "n div 10 * 10 + n mod 10 = n" by simp
    ultimately show ?thesis using digit_char [of "n mod 10"] "1.prems" by (simp add: Let_def)
  qed
qed

lemma parse_usize_decimal: "n < 2 ^ 64 \<Longrightarrow> parse_usize (decimal n) = Some n"
proof -
  assume n: "n < 2 ^ 64"
  obtain c cs where d: "decimal n = c # cs" by (cases "decimal n") auto
  have "c \<noteq> CHR ''+''" using decimal_digits [of c n] d by auto
  then show ?thesis using digits_value_decimal [OF n] by (simp add: parse_usize_def d)
qed

lemma decimal_bytes: "b \<in> set (as_bytes (decimal n)) \<Longrightarrow> unat b \<in> {48..57}"
  unfolding as_bytes_def by (auto simp: unat_byte dest!: decimal_digits)

lemma decimal_no_blanks: "no_blanks (decimal n)"
  by (rule digits_no_blanks) (use decimal_bytes in blast)

lemma white_space_blank: "ws_prefix white_space (32 # bs) = 1"
  by (simp add: ws_prefix_def white_space_def)

lemma trim_blank_decimal: "trim ('' '' @ decimal n) = decimal n"
proof -
  let ?d = "as_bytes (decimal n)"
  have nb: "ws_prefix white_space ?d = 0" "ws_prefix (map rev white_space) (rev ?d) = 0"
    using decimal_no_blanks [of n] by (auto simp: no_blanks_def)
  have sp: "as_bytes ('' '' @ decimal n) = 32 # ?d" by (simp add: as_bytes_def of_char_def)
  have "trim_front white_space (32 # ?d) = trim_front white_space ?d"
    by (subst trim_front.simps) (simp add: white_space_blank)
  also have "\<dots> = ?d" using nb(1) by (rule trim_front_none)
  finally show ?thesis unfolding trim_def sp using trim_front_none [OF nb(2)] by simp
qed

text \<open>One line of the header, and then the header.\<close>

lemma next_line_append:
  assumes "LF \<notin> set l"
  shows "next_line eof (l @ LF # r) = LineGot (l @ [LF]) r"
proof -
  have "takeWhile (\<lambda>b. b \<noteq> LF) (l @ LF # r) = l" "dropWhile (\<lambda>b. b \<noteq> LF) (l @ LF # r) = LF # r"
    using assms by (induction l) auto
  then show ?thesis by (simp add: next_line_def)
qed

lemma header_line_decimal:
  assumes "n < 2 ^ 64"
  shows "header_line (as_bytes (''Content-Length: '' @ decimal n)) len = Some n"
proof -
  have "''Content-Length: '' @ decimal n = ''Content-Length:'' @ ('' '' @ decimal n)" by simp
  then have "strip_prefix (''Content-Length: '' @ decimal n) ''Content-Length:'' = Some ('' '' @ decimal n)"
    by (metis strip_prefix_append)
  then show ?thesis
    unfolding header_line_def of_bytes_as_bytes by (simp add: trim_blank_decimal [simplified] parse_usize_decimal [OF assms])
qed

lemma content_length_bytes:
  "b \<in> set (as_bytes (''Content-Length: '' @ decimal n)) \<Longrightarrow> unat b < 128 \<and> b \<noteq> LF \<and> b \<noteq> CR"
proof -
  assume "b \<in> set (as_bytes (''Content-Length: '' @ decimal n))"
  then have "b \<in> set (as_bytes ''Content-Length: '') \<or> b \<in> set (as_bytes (decimal n))"
    by (simp only: as_bytes_simps(3) set_append Un_iff)
  then consider "b \<in> set (as_bytes ''Content-Length: '')" | "unat b \<in> {48..57}" using decimal_bytes [of b n] by blast
  then show ?thesis
  proof cases
    case 1
    have "list_all (\<lambda>b. unat b < 128 \<and> b \<noteq> LF \<and> b \<noteq> CR) (as_bytes ''Content-Length: '')" by code_simp
    then show ?thesis using 1 unfolding list_all_iff by blast
  qed (auto simp: LF_def CR_def)
qed

lemma strip_eol_end:
  assumes "\<forall>b\<in>set t. b \<noteq> LF \<and> b \<noteq> CR"
  shows "strip_eol (t @ [CR, LF]) = t"
proof -
  have "dropWhile (\<lambda>b. b = CR \<or> b = LF) (rev t) = rev t"
    using assms by (auto simp: dropWhile_eq_self_iff hd_rev)
  then show ?thesis by (simp add: strip_eol_def)
qed

lemma read_header_frame:
  assumes n: "n < 2 ^ 64"
  shows "read_header eof None (lsp_header n @ rest) = HLen n rest"
proof -
  let ?t = "as_bytes (''Content-Length: '' @ decimal n)"
  note b = content_length_bytes [of _ n]
  have l1: "next_line eof (lsp_header n @ rest) = LineGot (?t @ [CR, LF]) ([CR, LF] @ rest)"
    using next_line_append [of "?t @ [CR]" eof "[CR, LF] @ rest"] b
    unfolding lsp_header_def by (auto simp: LF_def CR_def simp del: as_bytes_simps)
  have l2: "next_line eof ([CR, LF] @ rest) = LineGot [CR, LF] rest"
    using next_line_append [of "[CR]" eof rest] by (simp add: LF_def CR_def)
  have u1: "utf8_valid (?t @ [CR, LF])" by (rule utf8_valid_ascii) (use b in \<open>auto simp: LF_def CR_def simp del: as_bytes_simps\<close>)
  have u2: "utf8_valid [CR, LF]" by (rule utf8_valid_ascii) (auto simp: LF_def CR_def)
  have t: "strip_eol (?t @ [CR, LF]) = ?t" by (rule strip_eol_end) (use b in blast)
  have "?t \<noteq> []" by (simp add: as_bytes_def)
  have e: "strip_eol [CR, LF] = []" by (simp add: strip_eol_def)
  have "read_header eof None (lsp_header n @ rest) = read_header eof (Some n) ([CR, LF] @ rest)"
    by (subst read_header.simps) (simp only: l1 line.case u1 t \<open>?t \<noteq> []\<close> header_line_decimal [OF n] simp_thms if_True if_False not_True_eq_False)
  also have "\<dots> = HLen n rest"
    by (subst read_header.simps) (simp only: l2 line.case u2 e option.case simp_thms if_True if_False not_True_eq_False)
  finally show ?thesis .
qed

lemma read_header_empty: "read_header False len [] = HWait"
  by (simp add: read_header.simps [of _ _ "[]"] next_line_def)
lemma lsp_read_frame:
  assumes "length b < 2 ^ 63"
  shows "lsp_read eof (lsp_frame b @ r) = (case lsp_read eof r of (bodies, alive, left) \<Rightarrow> (b # bodies, alive, left))"
proof -
  have "read_header eof None (lsp_header (length b) @ b @ r) = HLen (length b) (b @ r)"
    using assms by (intro read_header_frame) simp
  then show ?thesis
    using assms unfolding lsp_frame_def append_assoc by (subst lsp_read.simps) simp
qed

lemma lsp_read_frames:
  assumes "list_all (\<lambda>b. length b < 2 ^ 63) bodies"
  shows "lsp_read eof (concat (map lsp_frame bodies) @ rest) =
    (case lsp_read eof rest of (later, alive, left) \<Rightarrow> (bodies @ later, alive, left))"
  using assms
proof (induction bodies)
  case (Cons b bodies)
  then show ?case by (simp add: lsp_read_frame split: prod.splits)
qed (simp split: prod.split)

text \<open>
  C24. Framing round trip: what \<^verbatim>\<open>write_frame\<close> writes, the reader splits into the same bodies, in order,
  whatever bytes the bodies hold, consuming everything and staying alive; bytes of a frame that has
  not arrived in full stay for later.
\<close>

theorem lsp_frames_roundtrip:
  assumes "list_all (\<lambda>b. length b < 2 ^ 63) bodies"
  shows "lsp_read False (concat (map lsp_frame bodies)) = (bodies, True, [])"
  using lsp_read_frames [OF assms, of False "[]"] by (simp add: lsp_read.simps [of _ "[]"] read_header_empty)

theorem lsp_frames_roundtrip_witness:
  "lsp_read False (concat (map lsp_frame [as_bytes ''{}'', []])) = ([as_bytes ''{}'', []], True, [])"
  by (rule lsp_frames_roundtrip) simp

section \<open>The server the engine talks to\<close>

text \<open>
  What the engine uses of \<^verbatim>\<open>serde_json\<close> and \<^verbatim>\<open>rmp_serde\<close> on values of a type of theirs. Building a request
  from its fields and reading a message's id are the code's.
\<close>

record 'v json_ops =
  jo_object :: "(string \<times> 'v) list \<Rightarrow> 'v"
  jo_str :: "string \<Rightarrow> 'v"
  jo_int :: "u64 \<Rightarrow> 'v"
  jo_null :: 'v
  jo_get :: "'v \<Rightarrow> string \<Rightarrow> 'v option"
  jo_as_i64 :: "'v \<Rightarrow> u64 option"
  jo_to_string :: "'v \<Rightarrow> string"
  jo_to_vec :: "'v \<Rightarrow> byte list"
  jo_parse :: "byte list \<Rightarrow> 'v option"
  jo_from_msgpack :: "byte list \<Rightarrow> string + 'v"
  jo_to_msgpack :: "'v \<Rightarrow> string + byte list"

record lsp_server =
  ls_language :: language
  ls_bin :: string
  ls_pending :: "u64 set"           \<comment> \<open>the ids a caller waits on\<close>
  ls_next_id :: u64
  ls_reader_alive :: bool
  ls_unread :: "byte list"          \<comment> \<open>what the reader holds of an incomplete frame\<close>
  ls_written :: "byte list"         \<comment> \<open>everything written to the server's standard input\<close>

definition alloc_id :: "lsp_server \<Rightarrow> u64 \<times> lsp_server" where
  "alloc_id sv = (ls_next_id sv, sv\<lparr>ls_next_id := ls_next_id sv + 1\<rparr>)"

definition message_id :: "'v json_ops \<Rightarrow> 'v \<Rightarrow> u64 option" where
  "message_id jo v = Option.bind (jo_get jo v ''id'') (jo_as_i64 jo)"

text \<open>
  \<^verbatim>\<open>reader_loop\<close> on the bodies that arrived: a body that does not parse, a message without an id and one
  nobody waits for are dropped, and the first message with a pending id is handed to the caller.
\<close>

fun deliver_bodies :: "'v json_ops \<Rightarrow> u64 set \<Rightarrow> byte list list \<Rightarrow> (u64 \<times> 'v) list \<times> u64 set" where
  "deliver_bodies jo pending [] = ([], pending)"
| "deliver_bodies jo pending (b # bs) =
     (case jo_parse jo b of
        None \<Rightarrow> deliver_bodies jo pending bs
      | Some v \<Rightarrow>
          (case message_id jo v of
             None \<Rightarrow> deliver_bodies jo pending bs
           | Some i \<Rightarrow>
               if i \<in> pending
               then (case deliver_bodies jo (pending - {i}) bs of (ds, p) \<Rightarrow> ((i, v) # ds, p))
               else deliver_bodies jo pending bs))"

definition reader_loop :: "'v json_ops \<Rightarrow> bool \<Rightarrow> byte list \<Rightarrow> lsp_server \<Rightarrow> (u64 \<times> 'v) list \<times> lsp_server" where
  "reader_loop jo eof bytes sv =
     (if \<not> ls_reader_alive sv then ([], sv)
      else (case lsp_read eof (ls_unread sv @ bytes) of
              (bodies, alive, rest) \<Rightarrow>
                (case deliver_bodies jo (ls_pending sv) bodies of
                   (ds, p) \<Rightarrow> (ds, sv\<lparr>ls_pending := p, ls_reader_alive := alive, ls_unread := rest\<rparr>))))"

text \<open>A write that fails has put some of the frame's bytes into the pipe.\<close>

definition write_frame :: "'v json_ops \<Rightarrow> nat \<times> string + unit \<Rightarrow> 'v \<Rightarrow> lsp_server \<Rightarrow> (string + unit) \<times> lsp_server" where
  "write_frame jo io v sv =
     (case io of
        Inl (k, e) \<Rightarrow> (Inl e, sv\<lparr>ls_written := ls_written sv @ take k (lsp_frame (jo_to_vec jo v))\<rparr>)
      | Inr _ \<Rightarrow> (Inr (), sv\<lparr>ls_written := ls_written sv @ lsp_frame (jo_to_vec jo v)\<rparr>))"

definition lsp_initialize :: "'v json_ops \<Rightarrow> u32 \<Rightarrow> nat \<times> string + unit \<Rightarrow> lsp_server \<Rightarrow> (string + unit) \<times> lsp_server" where
  "lsp_initialize jo pid io sv =
     (case alloc_id sv of
        (i, sv1) \<Rightarrow>
          write_frame jo io
            (jo_object jo
               [(''jsonrpc'', jo_str jo ''2.0''), (''id'', jo_int jo i), (''method'', jo_str jo ''initialize''),
                (''params'', jo_object jo
                   [(''processId'', jo_int jo (ucast pid)), (''rootUri'', jo_null jo), (''capabilities'', jo_object jo [])])])
            sv1)"

text \<open>
  What happens around a call: the bytes the reader has taken before the caller is registered, the
  outcome of the write, and the bytes that arrive before the deadline.
\<close>

record lsp_io =
  li_before :: "byte list"
  li_write :: "nat \<times> string + unit"
  li_arrived :: "byte list"
  li_eof :: bool

definition LSP_TIMEOUT_MS :: nat where "LSP_TIMEOUT_MS = 10000"

definition lsp_request :: "'v json_ops \<Rightarrow> u64 \<Rightarrow> string \<Rightarrow> 'v \<Rightarrow> 'v" where
  "lsp_request jo i method params =
     jo_object jo
       [(''jsonrpc'', jo_str jo ''2.0''), (''id'', jo_int jo i), (''method'', jo_str jo method), (''params'', params)]"

definition lsp_await :: "'v json_ops \<Rightarrow> lsp_io \<Rightarrow> u64 \<Rightarrow> lsp_server \<Rightarrow> (string + 'v) \<times> lsp_server" where
  "lsp_await jo io i sv =
     (case reader_loop jo (li_eof io) (li_arrived io) sv of
        (ds, sv1) \<Rightarrow>
          (case map_of ds i of
             Some v \<Rightarrow> (Inr v, sv1)
           | None \<Rightarrow> (Inl (''lsp call timed out after '' @ decimal LSP_TIMEOUT_MS @ ''ms''),
                      sv1\<lparr>ls_pending := ls_pending sv1 - {i}\<rparr>)))"

definition lsp_call :: "'v json_ops \<Rightarrow> lsp_io \<Rightarrow> string \<Rightarrow> 'v \<Rightarrow> lsp_server \<Rightarrow> (string + 'v) \<times> lsp_server" where
  "lsp_call jo io method params sv =
     (case alloc_id (snd (reader_loop jo False (li_before io) sv)) of
        (i, sv1) \<Rightarrow>
          (case write_frame jo (li_write io) (lsp_request jo i method params)
                  (sv1\<lparr>ls_pending := insert i (ls_pending sv1)\<rparr>) of
             (Inl e, sv2) \<Rightarrow> (Inl e, sv2)
           | (Inr _, sv2) \<Rightarrow> lsp_await jo io i sv2))"

fun resolve_server :: "language \<Rightarrow> string \<times> string list" where
  "resolve_server Python = (''pyright-langserver'', [''--stdio''])"
| "resolve_server Typescript = (''typescript-language-server'', [''--stdio''])"
| "resolve_server Go = (''gopls'', [''-mode=stdio''])"
| "resolve_server Rust = (''rust-analyzer'', [])"
| "resolve_server Cpp = (''clangd'', [])"

record lsp_state =
  lp_language :: "language option"
  lp_servers :: "language \<rightharpoonup> lsp_server"

record lsp_env =
  lv_spawn :: "string \<Rightarrow> string list \<Rightarrow> string + unit"
  lv_pid :: u32
  lv_init_write :: "nat \<times> string + unit"
  lv_io :: lsp_io

text \<open>A server that was just started: its \<^verbatim>\<open>initialize\<close> failing is only logged.\<close>

definition spawn_server :: "'v json_ops \<Rightarrow> lsp_env \<Rightarrow> language \<Rightarrow> string + lsp_server" where
  "spawn_server jo env lang =
     (case resolve_server lang of
        (bin, args) \<Rightarrow>
          (case lv_spawn env bin args of
             Inl e \<Rightarrow> Inl (''spawn '' @ bin @ '': '' @ e)
           | Inr _ \<Rightarrow>
               Inr (snd (lsp_initialize jo (lv_pid env) (lv_init_write env)
                      \<lparr>ls_language = lang, ls_bin = bin, ls_pending = {}, ls_next_id = 1,
                       ls_reader_alive = True, ls_unread = [], ls_written = []\<rparr>))))"

definition get_or_spawn :: "'v json_ops \<Rightarrow> lsp_env \<Rightarrow> language \<Rightarrow> lsp_state \<Rightarrow> string + lsp_server" where
  "get_or_spawn jo env lang st =
     (case lp_servers st lang of
        Some sv \<Rightarrow> Inr sv
      | None \<Rightarrow> spawn_server jo env lang)"

definition lsp_error :: "lsp_params \<Rightarrow> string \<Rightarrow> response" where
  "lsp_error p e = LspResponse (lsp_req_id p) [] (Some e)"

definition lsp_answer :: "'v json_ops \<Rightarrow> lsp_params \<Rightarrow> string + 'v \<Rightarrow> string + response" where
  "lsp_answer jo p outcome =
     (case outcome of
        Inl e \<Rightarrow> Inr (lsp_error p e)
      | Inr v \<Rightarrow>
          (case jo_get jo v ''error'' of
             Some err \<Rightarrow> Inr (lsp_error p (jo_to_string jo err))
           | None \<Rightarrow>
               (case jo_to_msgpack jo (case jo_get jo v ''result'' of Some r \<Rightarrow> r | None \<Rightarrow> jo_null jo) of
                  Inl e \<Rightarrow> Inl (''encode lsp result msgpack: '' @ e)
                | Inr payload \<Rightarrow> Inr (LspResponse (lsp_req_id p) payload None))))"

definition decode_params :: "'v json_ops \<Rightarrow> byte list \<Rightarrow> string + 'v" where
  "decode_params jo bs =
     (if bs = [] then Inr (jo_null jo)
      else (case jo_from_msgpack jo bs of Inl e \<Rightarrow> Inl (''decode lsp params msgpack: '' @ e) | Inr v \<Rightarrow> Inr v))"

definition lsp_relay :: "'v json_ops \<Rightarrow> lsp_env \<Rightarrow> lsp_params \<Rightarrow> lsp_state \<Rightarrow> (string + response) \<times> lsp_state" where
  "lsp_relay jo env p st =
     (case lp_language st of
        None \<Rightarrow> (Inr (lsp_error p ''no active language; send Execute with a language before Lsp''), st)
      | Some lang \<Rightarrow>
          (case get_or_spawn jo env lang st of
             Inl e \<Rightarrow> (Inl e, st)
           | Inr sv \<Rightarrow>
               (case decode_params jo (lsp_params.lsp_params p) of
                  Inl e \<Rightarrow> (Inl e, st\<lparr>lp_servers := (lp_servers st)(lang \<mapsto> sv)\<rparr>)
                | Inr v \<Rightarrow>
                    (case lsp_call jo (lv_io env) (lsp_method p) v sv of
                       (outcome, sv1) \<Rightarrow>
                         (lsp_answer jo p outcome, st\<lparr>lp_servers := (lp_servers st)(lang \<mapsto> sv1)\<rparr>)))))"
section \<open>What a caller gets\<close>

lemma deliver_own:
  "(i, v) \<in> set (fst (deliver_bodies jo pending bs)) \<Longrightarrow> message_id jo v = Some i \<and> i \<in> pending"
proof (induction bs arbitrary: pending)
  case (Cons b bs)
  then show ?case by (auto simp: case_prod_unfold split: option.splits if_splits)
qed simp

lemma deliver_pending: "snd (deliver_bodies jo pending bs) = pending - fst ` set (fst (deliver_bodies jo pending bs))"
proof (induction bs arbitrary: pending)
  case (Cons b bs)
  have "snd (deliver_bodies jo (pending - {j}) bs) = pending - insert j (fst ` set (fst (deliver_bodies jo (pending - {j}) bs)))" for j
    by (subst Cons.IH) blast
  with Cons.IH show ?case by (simp add: case_prod_unfold split: option.split)
qed simp

lemma reader_loop_own:
  "reader_loop jo eof bytes sv = (ds, sv') \<Longrightarrow> (i, v) \<in> set ds \<Longrightarrow> message_id jo v = Some i"
  by (auto simp: reader_loop_def case_prod_unfold split: if_splits dest: deliver_own)

lemma reader_loop_frame [simp]:
  "ls_next_id (snd (reader_loop jo eof bytes sv)) = ls_next_id sv"
  by (simp add: reader_loop_def split: prod.split)

lemma write_frame_frame [simp]:
  "ls_next_id (snd (write_frame jo io v sv)) = ls_next_id sv"
  "ls_pending (snd (write_frame jo io v sv)) = ls_pending sv"
  "ls_reader_alive (snd (write_frame jo io v sv)) = ls_reader_alive sv"
  "ls_unread (snd (write_frame jo io v sv)) = ls_unread sv"
  by (simp_all add: write_frame_def split: sum.split prod.split)

text \<open>The message with the caller's id that comes first in the bodies is the one delivered to it.\<close>

lemma deliver_first:
  assumes "i \<in> pending" "\<forall>b\<in>set pre. \<forall>v. jo_parse jo b = Some v \<longrightarrow> message_id jo v \<noteq> Some i"
    and "jo_parse jo b = Some v" "message_id jo v = Some i"
  shows "map_of (fst (deliver_bodies jo pending (pre @ b # post))) i = Some v"
  using assms(1,2)
proof (induction pre arbitrary: pending)
  case Nil
  then show ?case using assms(3,4) by (simp split: prod.split)
next
  case (Cons x pre)
  then have step: "i \<in> q \<Longrightarrow> map_of (fst (deliver_bodies jo q (pre @ b # post))) i = Some v" for q by simp
  show ?case
  proof (cases "Option.bind (jo_parse jo x) (message_id jo)")
    case None
    then show ?thesis using step [OF Cons.prems(1)] by (auto split: option.split simp: bind_eq_None_conv)
  next
    case (Some j)
    then obtain w where w: "jo_parse jo x = Some w" "message_id jo w = Some j" by (auto simp: bind_eq_Some_conv)
    with Cons.prems have "j \<noteq> i" by auto
    then show ?thesis using w step [of pending] step [of "pending - {j}"] Cons.prems(1) by (simp add: case_prod_unfold)
  qed
qed

lemma call_started:
  assumes "li_write io = Inr u"
  shows "lsp_call jo io method params sv =
    lsp_await jo io (ls_next_id sv)
      (snd (write_frame jo (Inr u) (lsp_request jo (ls_next_id sv) method params)
        (let sv1 = snd (reader_loop jo False (li_before io) sv) in
         sv1\<lparr>ls_next_id := ls_next_id sv + 1, ls_pending := insert (ls_next_id sv) (ls_pending sv1)\<rparr>)))"
  by (simp add: lsp_call_def alloc_id_def write_frame_def assms Let_def)

lemma await_own: "lsp_await jo io i sv = (Inr v, sv') \<Longrightarrow> message_id jo v = Some i"
  by (auto simp: lsp_await_def split: prod.splits option.splits dest!: map_of_SomeD reader_loop_own)

text \<open>
  A caller gets a message that carries the id drawn for this very call, never a late answer to an
  earlier one, whatever the server sends and however its output is cut.
\<close>

theorem lsp_call_returns_own_id:
  assumes "lsp_call jo io method params sv = (Inr v, sv')"
  shows "message_id jo v = Some (ls_next_id sv)"
proof (cases "li_write io")
  case (Inl e)
  with assms show ?thesis by (cases e) (simp add: lsp_call_def alloc_id_def write_frame_def)
next
  case (Inr u)
  from assms [unfolded call_started [OF Inr]] show ?thesis by (rule await_own)
qed

lemma call_gets_first:
  assumes "li_write io = Inr u" "ls_reader_alive sv" "ls_unread sv = []" "li_before io = []" "\<not> li_eof io"
    and "li_arrived io = concat (map lsp_frame (pre @ b # post))" "list_all (\<lambda>b. length b < 2 ^ 63) (pre @ b # post)"
    and "\<forall>b\<in>set pre. \<forall>v. jo_parse jo b = Some v \<longrightarrow> message_id jo v \<noteq> Some (ls_next_id sv)"
    and "jo_parse jo b = Some v" "message_id jo v = Some (ls_next_id sv)"
  shows "fst (lsp_call jo io method params sv) = Inr v"
proof -
  define i where "i = ls_next_id sv"
  have rd: "lsp_read False (concat (map lsp_frame bs)) = (bs, True, [])" if "list_all (\<lambda>b. length b < 2 ^ 63) bs" for bs
    using lsp_read_frames [OF that, of False "[]"] by (simp add: lsp_read.simps [of _ "[]"] read_header_empty)
  have idle: "snd (reader_loop jo False [] sv) = sv" using assms(2,3) rd [of "[]"] by (simp add: reader_loop_def)
  define sv2 where "sv2 = snd (write_frame jo (Inr u) (lsp_request jo i method params)
    (sv\<lparr>ls_next_id := i + 1, ls_pending := insert i (ls_pending sv)\<rparr>))"
  have call: "lsp_call jo io method params sv = lsp_await jo io i sv2"
    unfolding call_started [OF assms(1)] assms(4) sv2_def i_def Let_def by (subst idle, subst idle) (rule refl)
  have sv2: "ls_reader_alive sv2" "ls_unread sv2 = []" "i \<in> ls_pending sv2" using assms(2,3) by (simp_all add: sv2_def)
  have d: "map_of (fst (deliver_bodies jo (ls_pending sv2) (pre @ b # post))) i = Some v"
    using sv2(3) assms(8,9,10) unfolding i_def by (rule deliver_first)
  have "fst (reader_loop jo False (li_arrived io) sv2) = fst (deliver_bodies jo (ls_pending sv2) (pre @ b # post))"
    unfolding reader_loop_def assms(6) sv2(2) append_Nil rd [OF assms(7)] by (simp add: sv2(1) split: prod.split)
  with d have "map_of (fst (reader_loop jo False (li_arrived io) sv2)) i = Some v" by (simp only:)
  then show ?thesis using assms(5) by (simp add: call lsp_await_def case_prod_unfold)
qed

text \<open>
  C23. An answer that arrives in time is returned: with the reader alive and between frames, the first
  message with the call's id among the frames the server writes is what the call returns, whatever
  other messages surround it and whether or not they parse.
\<close>

theorem lsp_answer_in_time_is_returned:
  assumes "li_write io = Inr u" "ls_reader_alive sv" "ls_unread sv = []" "li_before io = []" "\<not> li_eof io"
    and "li_arrived io = concat (map lsp_frame (pre @ b # post))" "list_all (\<lambda>b. length b < 2 ^ 63) (pre @ b # post)"
    and "\<forall>b\<in>set pre. \<forall>v. jo_parse jo b = Some v \<longrightarrow> message_id jo v \<noteq> Some (ls_next_id sv)"
    and "jo_parse jo b = Some v" "message_id jo v = Some (ls_next_id sv)"
  shows "fst (lsp_call jo io method params sv) = Inr v"
  using assms by (rule call_gets_first)
section \<open>The relay\<close>

lemma lsp_relay_call:
  assumes "lp_language st = Some lang" "get_or_spawn jo env lang st = Inr sv" "decode_params jo (lsp_params.lsp_params p) = Inr v"
  shows "lsp_relay jo env p st =
    (lsp_answer jo p (fst (lsp_call jo (lv_io env) (lsp_method p) v sv)),
     st\<lparr>lp_servers := (lp_servers st)(lang \<mapsto> snd (lsp_call jo (lv_io env) (lsp_method p) v sv))\<rparr>)"
  by (simp add: lsp_relay_def assms case_prod_unfold)

lemma lsp_answer_cases:
  assumes "lsp_answer jo p outcome = Inr resp"
  shows "(\<exists>e. resp = LspResponse (lsp_req_id p) [] (Some e)) \<or>
    (\<exists>v payload. outcome = Inr v \<and> resp = LspResponse (lsp_req_id p) payload None \<and> jo_get jo v ''error'' = None \<and>
       jo_to_msgpack jo (case jo_get jo v ''result'' of Some r \<Rightarrow> r | None \<Rightarrow> jo_null jo) = Inr payload)"
  using assms by (auto simp: lsp_answer_def lsp_error_def split: sum.splits option.splits)

lemma call_own: "fst (lsp_call jo io method params sv) = Inr v \<Longrightarrow> message_id jo v = Some (ls_next_id sv)"
proof -
  assume a: "fst (lsp_call jo io method params sv) = Inr v"
  show ?thesis
  proof (cases "li_write io")
    case (Inl e)
    with a show ?thesis by (cases e) (simp add: lsp_call_def alloc_id_def write_frame_def)
  next
    case (Inr u)
    from a [unfolded call_started [OF Inr]] show ?thesis by (metis await_own prod.collapse)
  qed
qed

text \<open>
  An answer bears the identifier of the relayed request, and a successful one is the encoding of the
  \<^verbatim>\<open>result\<close> of a message that the server sent with the id of this call, null when it has none.
\<close>

theorem lsp_relay_answers_its_request:
  assumes "lsp_relay jo env p st = (Inr resp, st')"
  shows "(\<exists>e. resp = LspResponse (lsp_req_id p) [] (Some e)) \<or>
    (\<exists>lang sv v payload. lp_language st = Some lang \<and> get_or_spawn jo env lang st = Inr sv \<and>
       message_id jo v = Some (ls_next_id sv) \<and> jo_get jo v ''error'' = None \<and>
       jo_to_msgpack jo (case jo_get jo v ''result'' of Some r \<Rightarrow> r | None \<Rightarrow> jo_null jo) = Inr payload \<and>
       resp = LspResponse (lsp_req_id p) payload None)"
proof (cases "lp_language st")
  case None
  with assms show ?thesis by (auto simp: lsp_relay_def lsp_error_def)
next
  case (Some lang)
  from assms Some obtain sv v where sv: "get_or_spawn jo env lang st = Inr sv"
      and v: "decode_params jo (lsp_params.lsp_params p) = Inr v"
    by (auto simp: lsp_relay_def split: sum.splits)
  from assms lsp_relay_call [OF Some sv v]
  have "lsp_answer jo p (fst (lsp_call jo (lv_io env) (lsp_method p) v sv)) = Inr resp" by simp
  from lsp_answer_cases [OF this] show ?thesis
    using call_own [of jo "lv_io env" "lsp_method p" v sv] Some sv by blast
qed

text \<open>
  A request of the server is taken for the answer: the ids are only drawn apart among the engine's own
  calls, so when the server sends a request of its own whose id is the one the engine drew, the caller
  is answered, successfully, with an empty result.
\<close>

theorem server_request_taken_for_answer:
  assumes "lp_language st = Some lang" "lp_servers st lang = Some sv" "decode_params jo (lsp_params.lsp_params p) = Inr params"
    and "li_write (lv_io env) = Inr u" "ls_reader_alive sv" "ls_unread sv = []" "li_before (lv_io env) = []" "\<not> li_eof (lv_io env)"
    and "li_arrived (lv_io env) = lsp_frame b" "length b < 2 ^ 63" "jo_parse jo b = Some v" "message_id jo v = Some (ls_next_id sv)"
    and "jo_get jo v ''method'' = Some m" "jo_get jo v ''error'' = None" "jo_get jo v ''result'' = None"
    and "jo_to_msgpack jo (jo_null jo) = Inr payload"
  shows "fst (lsp_relay jo env p st) = Inr (LspResponse (lsp_req_id p) payload None)"
proof -
  have g: "get_or_spawn jo env lang st = Inr sv" using assms(2) by (simp add: get_or_spawn_def)
  have "fst (lsp_call jo (lv_io env) (lsp_method p) params sv) = Inr v"
    by (rule call_gets_first [where pre = "[]" and post = "[]"]) (use assms in simp_all)
  then show ?thesis using assms(14-16) by (simp add: lsp_relay_call [OF assms(1) g assms(3)] lsp_answer_def)
qed

lemma dead_reader_idle: "\<not> ls_reader_alive sv \<Longrightarrow> reader_loop jo eof bytes sv = ([], sv)"
  by (simp add: reader_loop_def)

lemma dead_call:
  assumes "\<not> ls_reader_alive sv"
  shows "(\<exists>e. fst (lsp_call jo io method params sv) = Inl e) \<and> \<not> ls_reader_alive (snd (lsp_call jo io method params sv))"
proof (cases "li_write io")
  case (Inl e)
  with assms show ?thesis by (cases e) (simp add: lsp_call_def alloc_id_def write_frame_def dead_reader_idle)
next
  case (Inr u)
  show ?thesis unfolding call_started [OF Inr] lsp_await_def
    by (subst dead_reader_idle, simp add: dead_reader_idle [OF assms] assms Let_def)+
      (simp add: dead_reader_idle [OF assms] assms Let_def)
qed

fun lsp_relays :: "'v json_ops \<Rightarrow> (lsp_env \<times> lsp_params) list \<Rightarrow> lsp_state \<Rightarrow> (string + response) list \<times> lsp_state" where
  "lsp_relays jo [] st = ([], st)"
| "lsp_relays jo ((env, p) # rs) st =
     (case lsp_relay jo env p st of
        (r, st1) \<Rightarrow> (case lsp_relays jo rs st1 of (out, st2) \<Rightarrow> (r # out, st2)))"

definition relay_succeeds :: "string + response \<Rightarrow> bool" where
  "relay_succeeds r \<longleftrightarrow> (case r of Inr (LspResponse _ _ None) \<Rightarrow> True | _ \<Rightarrow> False)"

lemma dead_relay:
  assumes "lp_language st = Some lang" "lp_servers st lang = Some sv" "\<not> ls_reader_alive sv"
  shows "\<not> relay_succeeds (fst (lsp_relay jo env p st)) \<and> lp_language (snd (lsp_relay jo env p st)) = Some lang \<and>
    (\<exists>sv'. lp_servers (snd (lsp_relay jo env p st)) lang = Some sv' \<and> \<not> ls_reader_alive sv')"
proof -
  have g: "get_or_spawn jo env lang st = Inr sv" using assms(2) by (simp add: get_or_spawn_def)
  show ?thesis
  proof (cases "decode_params jo (lsp_params.lsp_params p)")
    case (Inl e)
    then show ?thesis using assms by (simp add: lsp_relay_def g relay_succeeds_def)
  next
    case (Inr v)
    from dead_call [OF assms(3), of jo "lv_io env" "lsp_method p" v]
    show ?thesis using assms(1)
      by (auto simp: lsp_relay_call [OF assms(1) g Inr] lsp_answer_def lsp_error_def relay_succeeds_def)
  qed
qed

text \<open>
  A reader that has stopped is never replaced: once the server of a language sent one header block
  the reader cannot use, every relay for that language times out, and the next one finds the same server.
\<close>

theorem stopped_lsp_reader_is_never_replaced:
  assumes "lp_language st = Some lang" "lp_servers st lang = Some sv" "\<not> ls_reader_alive sv"
  shows "list_all (\<lambda>r. \<not> relay_succeeds r) (fst (lsp_relays jo rs st))"
  using assms
proof (induction rs arbitrary: st sv)
  case (Cons r rs)
  obtain env p where r: "r = (env, p)" by fastforce
  from dead_relay [OF Cons.prems, of jo env p] Cons.IH [of "snd (lsp_relay jo env p st)"]
  show ?case unfolding r by (auto simp: case_prod_unfold)
qed simp

text \<open>
  One header block without a length stops the reader for good, as if the server had closed its output:
  everything behind it stays unread, in whatever frames.
\<close>

theorem header_without_length_stops_reader:
  assumes "ls_reader_alive sv" "ls_unread sv = []"
  shows "reader_loop jo eof ([CR, LF] @ concat (map lsp_frame bodies)) sv =
    ([], sv\<lparr>ls_reader_alive := False, ls_unread := [CR, LF] @ concat (map lsp_frame bodies)\<rparr>)"
proof -
  let ?bs = "[CR, LF] @ concat (map lsp_frame bodies)"
  have "next_line eof ?bs = LineGot [CR, LF] (concat (map lsp_frame bodies))"
    using next_line_append [of "[CR]" eof "concat (map lsp_frame bodies)"] by (simp add: LF_def CR_def)
  moreover have "utf8_valid [CR, LF]" by (rule utf8_valid_ascii) (auto simp: LF_def CR_def)
  moreover have "strip_eol [CR, LF] = []" by (simp add: strip_eol_def)
  ultimately have "read_header eof None ?bs = HNoLen" by (subst read_header.simps) simp
  then have "lsp_read eof ?bs = ([], False, ?bs)" by (subst lsp_read.simps) simp
  then show ?thesis using assms by (simp add: reader_loop_def)
qed
section \<open>Witnesses\<close>

text \<open>A small instance of the value library, and a server that answers the second id (the first one is \<^verbatim>\<open>initialize\<close>).\<close>

datatype demo_value = DNull | DInt u64 | DStr string | DObj "(string \<times> demo_value) list"

fun demo_get :: "demo_value \<Rightarrow> string \<Rightarrow> demo_value option" where
  "demo_get (DObj kvs) k = map_of kvs k"
| "demo_get _ k = None"

definition demo_parse :: "byte list \<Rightarrow> demo_value option" where
  "demo_parse bs =
     (if bs = [1] then Some (DObj [(''id'', DInt 2), (''result'', DStr ''ok'')])
      else if bs = [2] then Some (DObj [(''id'', DInt 2), (''method'', DStr ''workspace/configuration'')])
      else None)"

definition demo_json :: "demo_value json_ops" where
  "demo_json =
     \<lparr>jo_object = DObj, jo_str = DStr, jo_int = DInt, jo_null = DNull, jo_get = demo_get,
      jo_as_i64 = (\<lambda>v. case v of DInt i \<Rightarrow> Some i | _ \<Rightarrow> None), jo_to_string = (\<lambda>_. ''e''), jo_to_vec = (\<lambda>_. [0]),
      jo_parse = demo_parse, jo_from_msgpack = (\<lambda>_. Inr DNull),
      jo_to_msgpack = (\<lambda>v. Inr (if v = DNull then [0xC0] else [0xA0]))\<rparr>"

definition demo_lsp_io :: "byte list \<Rightarrow> lsp_io" where
  "demo_lsp_io bytes = \<lparr>li_before = [], li_write = Inr (), li_arrived = bytes, li_eof = False\<rparr>"

definition demo_lsp_env :: "byte list \<Rightarrow> lsp_env" where
  "demo_lsp_env bytes = \<lparr>lv_spawn = (\<lambda>_ _. Inr ()), lv_pid = 9, lv_init_write = Inr (), lv_io = demo_lsp_io bytes\<rparr>"

definition demo_lsp_server :: lsp_server where
  "demo_lsp_server =
     \<lparr>ls_language = Python, ls_bin = ''pyright-langserver'', ls_pending = {}, ls_next_id = 2, ls_reader_alive = True,
      ls_unread = [], ls_written = []\<rparr>"

definition demo_lsp_state :: "lsp_server \<Rightarrow> lsp_state" where
  "demo_lsp_state sv = \<lparr>lp_language = Some Python, lp_servers = [Python \<mapsto> sv]\<rparr>"

definition demo_lsp_params :: lsp_params where
  "demo_lsp_params = \<lparr>lsp_method = ''textDocument/hover'', lsp_params = [], lsp_req_id = 77\<rparr>"

lemmas demo_lsp = demo_json_def demo_lsp_io_def demo_lsp_env_def demo_lsp_server_def demo_lsp_state_def demo_lsp_params_def

theorem lsp_answer_in_time_is_returned_witness:
  "fst (lsp_call demo_json (demo_lsp_io (concat (map lsp_frame ([[9]] @ [1] # [[2]])))) ''m'' DNull demo_lsp_server) =
    Inr (DObj [(''id'', DInt 2), (''result'', DStr ''ok'')])"
  by (rule lsp_answer_in_time_is_returned [where pre = "[[9]]" and b = "[1]" and post = "[[2]]" and u = "()"])
    (simp_all add: demo_lsp demo_parse_def message_id_def)

theorem lsp_call_returns_own_id_witness:
  "message_id demo_json (DObj [(''id'', DInt 2), (''result'', DStr ''ok'')]) = Some (ls_next_id demo_lsp_server)"
proof (rule lsp_call_returns_own_id)
  have "fst (lsp_call demo_json (demo_lsp_io (concat (map lsp_frame ([] @ [1] # [])))) ''m'' DNull demo_lsp_server) =
    Inr (DObj [(''id'', DInt 2), (''result'', DStr ''ok'')])"
    by (rule call_gets_first [where pre = "[]" and b = "[1]" and post = "[]" and u = "()"])
      (simp_all add: demo_lsp demo_parse_def message_id_def)
  then show "lsp_call demo_json (demo_lsp_io (concat (map lsp_frame ([] @ [1] # [])))) ''m'' DNull demo_lsp_server =
    (Inr (DObj [(''id'', DInt 2), (''result'', DStr ''ok'')]),
     snd (lsp_call demo_json (demo_lsp_io (concat (map lsp_frame ([] @ [1] # [])))) ''m'' DNull demo_lsp_server))"
    by (metis prod.collapse)
qed

theorem server_request_taken_for_answer_witness:
  "fst (lsp_relay demo_json (demo_lsp_env (lsp_frame [2])) demo_lsp_params (demo_lsp_state demo_lsp_server)) =
    Inr (LspResponse 77 [0xC0] None)"
proof -
  have "lsp_req_id demo_lsp_params = 77" by (simp add: demo_lsp)
  moreover have "fst (lsp_relay demo_json (demo_lsp_env (lsp_frame [2])) demo_lsp_params (demo_lsp_state demo_lsp_server)) =
    Inr (LspResponse (lsp_req_id demo_lsp_params) [0xC0] None)"
    by (rule server_request_taken_for_answer
          [where lang = Python and sv = demo_lsp_server and params = DNull and u = "()" and b = "[2]"
             and v = "DObj [(''id'', DInt 2), (''method'', DStr ''workspace/configuration'')]"
             and m = "DStr ''workspace/configuration''"])
      (simp_all add: demo_lsp demo_parse_def message_id_def decode_params_def)
  ultimately show ?thesis by simp
qed

theorem lsp_relay_answers_its_request_witness:
  "(\<exists>e. LspResponse 77 [0xC0] None = LspResponse (lsp_req_id demo_lsp_params) [] (Some e)) \<or>
    (\<exists>lang sv v payload. lp_language (demo_lsp_state demo_lsp_server) = Some lang \<and>
       get_or_spawn demo_json (demo_lsp_env (lsp_frame [2])) lang (demo_lsp_state demo_lsp_server) = Inr sv \<and>
       message_id demo_json v = Some (ls_next_id sv) \<and> jo_get demo_json v ''error'' = None \<and>
       jo_to_msgpack demo_json (case jo_get demo_json v ''result'' of Some r \<Rightarrow> r | None \<Rightarrow> jo_null demo_json) = Inr payload \<and>
       LspResponse 77 [0xC0] None = LspResponse (lsp_req_id demo_lsp_params) payload None)"
proof (rule lsp_relay_answers_its_request)
  have "fst (lsp_call demo_json (demo_lsp_io (concat (map lsp_frame ([] @ [2] # [])))) ''textDocument/hover'' DNull demo_lsp_server) =
    Inr (DObj [(''id'', DInt 2), (''method'', DStr ''workspace/configuration'')])"
    by (rule call_gets_first [where pre = "[]" and b = "[2]" and post = "[]" and u = "()"])
      (simp_all add: demo_lsp demo_parse_def message_id_def)
  then have "fst (lsp_relay demo_json (demo_lsp_env (lsp_frame [2])) demo_lsp_params (demo_lsp_state demo_lsp_server)) =
    Inr (LspResponse 77 [0xC0] None)"
    by (subst lsp_relay_call [where lang = Python and sv = demo_lsp_server and v = DNull])
      (simp_all add: demo_lsp_env_def demo_lsp_state_def get_or_spawn_def decode_params_def demo_lsp_params_def lsp_answer_def demo_json_def)
  then show "lsp_relay demo_json (demo_lsp_env (lsp_frame [2])) demo_lsp_params (demo_lsp_state demo_lsp_server) =
    (Inr (LspResponse 77 [0xC0] None),
     snd (lsp_relay demo_json (demo_lsp_env (lsp_frame [2])) demo_lsp_params (demo_lsp_state demo_lsp_server)))"
    by (metis prod.collapse)
qed

theorem stopped_lsp_reader_is_never_replaced_witness:
  "list_all (\<lambda>r. \<not> relay_succeeds r)
     (fst (lsp_relays demo_json [(demo_lsp_env (lsp_frame [1]), demo_lsp_params), (demo_lsp_env (lsp_frame [1]), demo_lsp_params)]
       (demo_lsp_state (demo_lsp_server\<lparr>ls_reader_alive := False\<rparr>))))"
  by (rule stopped_lsp_reader_is_never_replaced [where lang = Python and sv = "demo_lsp_server\<lparr>ls_reader_alive := False\<rparr>"])
    (simp_all add: demo_lsp)

theorem header_without_length_stops_reader_witness:
  "reader_loop demo_json False ([CR, LF] @ concat (map lsp_frame [[1]])) demo_lsp_server =
    ([], demo_lsp_server\<lparr>ls_reader_alive := False, ls_unread := [CR, LF] @ concat (map lsp_frame [[1]])\<rparr>)"
  by (rule header_without_length_stops_reader) (simp_all add: demo_lsp)

end
