(* ===== verification/RB_Microvm.thy ===== *)
theory RB_Microvm
  imports RB_Lsp RB_Policy RB_Cgroup
begin

text \<open>
  The microVM tier (\<^verbatim>\<open>engine/src/modes/microvm.rs\<close>): one Firecracker guest per request, restored from a
  golden snapshot of its shape or booted cold, driven over Firecracker's HTTP socket and over a line
  protocol with an agent in the guest. Firecracker, the agent and the file system are an environment
  that answers depending on everything done so far; JSON and base 64 are arguments.
\<close>

section \<open>Shape\<close>

text \<open>\<^verbatim>\<open>cores.ceil() as u32\<close>: the cast saturates and sends a NaN to zero.\<close>

definition f32_ceil_u32 :: "f32 \<Rightarrow> u32" where
  "f32_ceil_u32 b =
     (if f32_exponent b = 255 then (if f32_fraction b \<noteq> 0 \<or> f32_negative b then 0 else - 1)
      else if f32_negative b then 0
      else word_of_nat (min ((f32_units b + (2 ^ 149 - 1)) div 2 ^ 149) (2 ^ 32 - 1)))"

definition vm_shape :: "settings \<Rightarrow> u32 \<times> u64" where
  "vm_shape s =
     (min (max (f32_ceil_u32 (l_cpu_cores (s_limits s))) 1) 8, min (max (l_memory_mb (s_limits s)) 128) 32768)"

section \<open>The world\<close>

text \<open>What the engine does to the host, newest last, and the golden files that are in place.\<close>

datatype vm_event =
    VmStarted string bool                       \<comment> \<open>a Firecracker process for a work directory, with its own mount namespace?\<close>
  | VmApi string string "byte list"             \<comment> \<open>method, path, body\<close>
  | VmAgent string "byte list"                  \<comment> \<open>the socket, the request line\<close>
  | VmRename string string
  | VmKilled string                             \<comment> \<open>kill, wait, remove the work directory\<close>

record vm_world =
  vw_trace :: "vm_event list"
  vw_golden :: "string set"

datatype vm_attempt =
    AttemptRefused                              \<comment> \<open>no connection, or the handshake could not be written\<close>
  | AttemptBroken string                        \<comment> \<open>setting up the connection fails with an error\<close>
  | AttemptLine "string option"                 \<comment> \<open>the acknowledgement, or a read error\<close>

record vm_host =
  vh_snapshot_var :: "string option"
  vh_assets_var :: "string option"
  vh_work_root :: string
  vh_pid :: u32
  vh_present :: "string \<Rightarrow> bool"
  vh_mkdir :: "vm_event list \<Rightarrow> string \<Rightarrow> string + unit"
  vh_lock :: "vm_event list \<Rightarrow> string \<Rightarrow> string + string set"   \<comment> \<open>what others published while it waited\<close>
  vh_spawn :: "vm_event list \<Rightarrow> string + unit"
  vh_socket_appears :: "vm_event list \<Rightarrow> bool"
  vh_api :: "vm_event list \<Rightarrow> string + byte list \<times> bool"           \<comment> \<open>the bytes of the response, and whether the stream ended\<close>
  vh_attempts :: "vm_event list \<Rightarrow> vm_attempt list"               \<comment> \<open>those made before the deadline\<close>
  vh_reply :: "vm_event list \<Rightarrow> string + byte list"
  vh_rename :: "vm_event list \<Rightarrow> string + unit"
  vh_status_file :: "vm_event list \<Rightarrow> string option"
  vh_elapsed_ms :: u64

record 'v vm_json = "'v json_ops" +
  jo_bool :: "bool \<Rightarrow> 'v"
  jo_arr :: "'v list \<Rightarrow> 'v"
  jo_as_str :: "'v \<Rightarrow> string option"
  jo_as_bool :: "'v \<Rightarrow> bool option"
  jo_base64 :: "byte list \<Rightarrow> string"
  jo_unbase64 :: "string \<Rightarrow> byte list option"

text \<open>A step of the host side either fails or returns a value; the world moves on in both cases.\<close>

type_synonym 'a vm_step = "vm_world \<Rightarrow> (string + 'a) \<times> vm_world"

definition vm_return :: "'a \<Rightarrow> 'a vm_step" where
  "vm_return a w = (Inr a, w)"

definition vm_bind :: "'a vm_step \<Rightarrow> ('a \<Rightarrow> 'b vm_step) \<Rightarrow> 'b vm_step" where
  "vm_bind m k w = (case m w of (Inl e, w1) \<Rightarrow> (Inl e, w1) | (Inr a, w1) \<Rightarrow> k a w1)"

definition vm_log :: "vm_event \<Rightarrow> vm_world \<Rightarrow> vm_world" where
  "vm_log ev w = w\<lparr>vw_trace := vw_trace w @ [ev]\<rparr>"

section \<open>Names\<close>

definition FIXED_DIR :: string where "FIXED_DIR = ''/run/rockbox-microvm''"

definition AGENT_PORT :: nat where "AGENT_PORT = 5000"

definition BOOT_ARGS :: string where
  "BOOT_ARGS = ''reboot=k panic=1 pci=off root=/dev/vda ro init=/sbin/rockbox-init quiet 8250.nr_uarts=0''"

definition snapshot_enabled :: "vm_host \<Rightarrow> bool" where
  "snapshot_enabled h = (case vh_snapshot_var h of Some v \<Rightarrow> v \<noteq> ''0'' | None \<Rightarrow> True)"

definition assets_dir :: "vm_host \<Rightarrow> string" where
  "assets_dir h = (case vh_assets_var h of Some d \<Rightarrow> d | None \<Rightarrow> ''/var/lib/sandbox/microvm'')"

definition unavailable_reason :: "vm_host \<Rightarrow> string option" where
  "unavailable_reason h =
     (if \<not> vh_present h ''/dev/kvm'' then Some ''/dev/kvm not present''
      else map_option (\<lambda>f. ''missing '' @ path_join (assets_dir h) f @ '' (run microvm/setup-assets.sh)'')
             (find (\<lambda>f. \<not> vh_present h (path_join (assets_dir h) f)) [''firecracker'', ''vmlinux'', ''rootfs.ext4'']))"

definition shape_name :: "u32 \<times> u64 \<Rightarrow> string" where
  "shape_name sh = decimal (unat (fst sh)) @ ''c-'' @ decimal (unat (snd sh)) @ ''m''"

definition golden_dir :: "vm_host \<Rightarrow> u32 \<times> u64 \<Rightarrow> string" where
  "golden_dir h sh = path_join (path_join (vh_work_root h) ''microvm-golden'') (shape_name sh)"

definition golden_snap :: "vm_host \<Rightarrow> u32 \<times> u64 \<Rightarrow> string" where
  "golden_snap h sh = path_join (golden_dir h sh) ''snapshot.bin''"

definition golden_mem :: "vm_host \<Rightarrow> u32 \<times> u64 \<Rightarrow> string" where
  "golden_mem h sh = path_join (golden_dir h sh) ''memory.bin''"

section \<open>Firecracker's API\<close>

text \<open>\<^verbatim>\<open>split_whitespace\<close>, \<^verbatim>\<open>to_ascii_lowercase\<close>, \<^verbatim>\<open>parse::<u16>\<close>.\<close>

function split_ws :: "byte list \<Rightarrow> byte list \<Rightarrow> byte list list" where
  "split_ws word bs =
     (if ws_prefix white_space bs \<noteq> 0 \<and> bs \<noteq> []
      then (if word = [] then [] else [word]) @ split_ws [] (drop (ws_prefix white_space bs) bs)
      else (case bs of [] \<Rightarrow> (if word = [] then [] else [word]) | b # rest \<Rightarrow> split_ws (word @ [b]) rest))"
  by pat_completeness auto
termination
  by (relation "measure (\<lambda>(_, bs). length bs)") (auto simp: diff_less)

declare split_ws.simps [simp del]

definition split_whitespace :: "string \<Rightarrow> string list" where
  "split_whitespace s = map of_bytes (split_ws [] (as_bytes s))"

definition ascii_lower :: "byte \<Rightarrow> byte" where
  "ascii_lower b = (if 65 \<le> b \<and> b \<le> 90 then b + 32 else b)"

definition status_code :: "string \<Rightarrow> nat" where
  "status_code line =
     (case split_whitespace line of
        _ # c # _ \<Rightarrow> (case parse_usize c of Some n \<Rightarrow> if n < 2 ^ 16 then n else 0 | None \<Rightarrow> 0)
      | _ \<Rightarrow> 0)"

text \<open>The header lines up to the empty one; the length is that of the last header that states one.\<close>

function http_headers :: "bool \<Rightarrow> nat \<Rightarrow> byte list \<Rightarrow> string + nat \<times> byte list" where
  "http_headers eof len bs =
     (case next_line eof bs of
        LineWait \<Rightarrow> Inl ''timed out''
      | LineEof \<Rightarrow> Inr (len, [])
      | LineGot l r \<Rightarrow>
          if \<not> utf8_valid l then Inl ''stream did not contain valid UTF-8''
          else if l = [CR, LF] \<or> l = [LF] then Inr (len, r)
          else http_headers eof
            (case strip_prefix (of_bytes (map ascii_lower l)) ''content-length:'' of
               Some v \<Rightarrow> (case parse_usize (trim v) of Some n \<Rightarrow> n | None \<Rightarrow> 0)
             | None \<Rightarrow> len) r)"
  by pat_completeness auto
termination
  by (relation "measure (\<lambda>(_, _, bs). length bs)") (auto simp: next_line_shorter)

declare http_headers.simps [simp del]

definition http_response :: "bool \<Rightarrow> byte list \<Rightarrow> string + nat \<times> byte list" where
  "http_response eof bs =
     (case (case next_line eof bs of
              LineWait \<Rightarrow> Inl ''firecracker status line: timed out''
            | LineEof \<Rightarrow> Inr ([], [])
            | LineGot l r \<Rightarrow> if utf8_valid l then Inr (l, r) else Inl ''firecracker status line: invalid UTF-8'') of
        Inl e \<Rightarrow> Inl e
      | Inr (l, r) \<Rightarrow>
          (case http_headers eof 0 r of
             Inl e \<Rightarrow> Inl e
           | Inr (n, r1) \<Rightarrow>
               if length r1 < n then Inl ''failed to fill whole buffer''
               else Inr (status_code (of_bytes l), take n r1)))"

definition http_outcome :: "string \<Rightarrow> nat \<times> byte list \<Rightarrow> string + unit" where
  "http_outcome path resp =
     (if 200 \<le> fst resp \<and> fst resp < 300 then Inr ()
      else Inl (''firecracker '' @ path @ '': '' @ decimal (fst resp) @ '' '' @ from_utf8_lossy (snd resp)))"

definition api_call :: "vm_host \<Rightarrow> 'v json_ops \<Rightarrow> string \<Rightarrow> string \<Rightarrow> 'v \<Rightarrow> unit vm_step" where
  "api_call h jo verb path body w =
     (let w1 = vm_log (VmApi verb path (as_bytes (jo_to_string jo body))) w in
      case vh_api h (vw_trace w1) of
        Inl e \<Rightarrow> (Inl e, w1)
      | Inr (bs, eof) \<Rightarrow>
          (case http_response eof bs of
             Inl e \<Rightarrow> (Inl e, w1)
           | Inr resp \<Rightarrow> (http_outcome path resp, w1)))"

section \<open>The agent\<close>

text \<open>Connecting is retried until the agent acknowledges or the deadline passes.\<close>

fun agent_connect :: "vm_attempt list \<Rightarrow> string + unit" where
  "agent_connect [] = Inl ''guest agent not reachable''"
| "agent_connect (AttemptRefused # as) = agent_connect as"
| "agent_connect (AttemptBroken e # as) = Inl e"
| "agent_connect (AttemptLine ack # as) =
     (case ack of
        Some line \<Rightarrow> if starts_with line ''OK'' then Inr () else agent_connect as
      | None \<Rightarrow> agent_connect as)"

definition agent_result :: "'v vm_json \<Rightarrow> byte list \<Rightarrow> string + 'v" where
  "agent_result jo line =
     (case jo_parse jo line of
        None \<Rightarrow> Inl ''agent json''
      | Some v \<Rightarrow>
          if Option.bind (jo_get jo v ''ok'') (jo_as_bool jo) \<noteq> Some True
          then Inl (''agent error: '' @ jo_to_string jo (case jo_get jo v ''error'' of Some e \<Rightarrow> e | None \<Rightarrow> jo_null jo))
          else Inr (case jo_get jo v ''result'' of Some r \<Rightarrow> r | None \<Rightarrow> jo_null jo))"

definition json_req :: "'v json_ops \<Rightarrow> string \<Rightarrow> 'v \<Rightarrow> string" where
  "json_req jo verb params =
     jo_to_string jo (jo_object jo [(''id'', jo_int jo 1), (''method'', jo_str jo verb), (''params'', params)])"

record vm =
  vm_assets :: string
  vm_workdir :: string
  vm_vsock :: string

definition vm_agent :: "vm_host \<Rightarrow> 'v vm_json \<Rightarrow> vm \<Rightarrow> string \<Rightarrow> 'v vm_step" where
  "vm_agent h jo vm request w =
     (case agent_connect (vh_attempts h (vw_trace w)) of
        Inl e \<Rightarrow> (Inl e, w)
      | Inr _ \<Rightarrow>
          (let w1 = vm_log (VmAgent (vm_vsock vm) (as_bytes request)) w in
           case vh_reply h (vw_trace w1) of
             Inl e \<Rightarrow> (Inl (''agent reply: '' @ e), w1)
           | Inr line \<Rightarrow> (agent_result jo line, w1)))"
section \<open>The life of a VM\<close>

definition firecracker_dirs :: "vm_host \<Rightarrow> string \<Rightarrow> vm_event list \<Rightarrow> string + unit" where
  "firecracker_dirs h workdir t =
     (case vh_mkdir h t workdir of
        Inl e \<Rightarrow> Inl e
      | Inr _ \<Rightarrow>
          (case vh_mkdir h t FIXED_DIR of
             Inl e \<Rightarrow> Inl e
           | Inr _ \<Rightarrow> if CHR 0x00 \<in> set workdir then Inl ''nul byte found in provided data'' else Inr ()))"

text \<open>
  \<^verbatim>\<open>Vm::spawn\<close>. When the API socket does not appear in time the error leaves the process behind: there is
  no \<^verbatim>\<open>Vm\<close> yet whose drop would kill it.
\<close>

definition vm_spawn :: "vm_host \<Rightarrow> string \<Rightarrow> bool \<Rightarrow> vm vm_step" where
  "vm_spawn h workdir private w =
     (case firecracker_dirs h workdir (vw_trace w) of
        Inl e \<Rightarrow> (Inl e, w)
      | Inr _ \<Rightarrow>
          (case vh_spawn h (vw_trace w) of
             Inl e \<Rightarrow> (Inl (''spawn firecracker: '' @ e), w)
           | Inr _ \<Rightarrow>
               (let w1 = vm_log (VmStarted workdir private) w in
                if \<not> vh_socket_appears h (vw_trace w1) then (Inl ''firecracker API socket never appeared'', w1)
                else (Inr \<lparr>vm_assets = assets_dir h, vm_workdir = workdir,
                        vm_vsock = path_join (if private then workdir else FIXED_DIR) ''vsock.sock''\<rparr>, w1))))"

text \<open>A VM lives as long as the body that uses it; its drop kills it and removes its directory.\<close>

definition vm_scope :: "vm \<Rightarrow> 'a vm_step \<Rightarrow> 'a vm_step" where
  "vm_scope vm body w = (case body w of (r, w1) \<Rightarrow> (r, vm_log (VmKilled (vm_workdir vm)) w1))"

definition with_vm :: "vm_host \<Rightarrow> string \<Rightarrow> bool \<Rightarrow> (vm \<Rightarrow> 'a vm_step) \<Rightarrow> 'a vm_step" where
  "with_vm h workdir private body = vm_bind (vm_spawn h workdir private) (\<lambda>vm. vm_scope vm (body vm))"

definition configure_and_boot :: "vm_host \<Rightarrow> 'v vm_json \<Rightarrow> vm \<Rightarrow> u32 \<times> u64 \<Rightarrow> unit vm_step" where
  "configure_and_boot h jo vm sh =
     (let js = json_ops.truncate jo; str = jo_str jo; put = api_call h js ''PUT'' in
      vm_bind (put ''/machine-config'' (jo_object jo
        [(''vcpu_count'', jo_int jo (ucast (fst sh))), (''mem_size_mib'', jo_int jo (snd sh)), (''smt'', jo_bool jo False)])) (\<lambda>_.
      vm_bind (put ''/boot-source'' (jo_object jo
        [(''kernel_image_path'', str (path_join (vm_assets vm) ''vmlinux'')), (''boot_args'', str BOOT_ARGS)])) (\<lambda>_.
      vm_bind (put ''/drives/rootfs'' (jo_object jo
        [(''drive_id'', str ''rootfs''), (''path_on_host'', str (path_join (vm_assets vm) ''rootfs.ext4'')),
         (''is_root_device'', jo_bool jo True), (''is_read_only'', jo_bool jo True)])) (\<lambda>_.
      vm_bind (put ''/vsock'' (jo_object jo [(''guest_cid'', jo_int jo 3), (''uds_path'', str (vm_vsock vm))])) (\<lambda>_.
      put ''/actions'' (jo_object jo [(''action_type'', str ''InstanceStart'')]))))))"

section \<open>The golden snapshot\<close>

definition vm_rename :: "vm_host \<Rightarrow> string \<Rightarrow> string \<Rightarrow> unit vm_step" where
  "vm_rename h src dst w =
     (let w1 = vm_log (VmRename src dst) w in
      case vh_rename h (vw_trace w1) of
        Inl e \<Rightarrow> (Inl e, w1)
      | Inr _ \<Rightarrow> (Inr (), w1\<lparr>vw_golden := insert dst (vw_golden w1)\<rparr>))"

definition golden_present :: "vm_host \<Rightarrow> u32 \<times> u64 \<Rightarrow> vm_world \<Rightarrow> bool" where
  "golden_present h sh w \<longleftrightarrow> golden_snap h sh \<in> vw_golden w \<and> golden_mem h sh \<in> vw_golden w"

definition golden_lock :: "vm_host \<Rightarrow> u32 \<times> u64 \<Rightarrow> unit vm_step" where
  "golden_lock h sh w =
     (case vh_mkdir h (vw_trace w) (golden_dir h sh) of
        Inl e \<Rightarrow> (Inl e, w)
      | Inr _ \<Rightarrow>
          (case vh_lock h (vw_trace w) (path_join (golden_dir h sh) ''.lock'') of
             Inl e \<Rightarrow> (Inl e, w)
           | Inr others \<Rightarrow> (Inr (), w\<lparr>vw_golden := vw_golden w \<union> others\<rparr>)))"

definition golden_build :: "vm_host \<Rightarrow> 'v vm_json \<Rightarrow> u32 \<times> u64 \<Rightarrow> unit vm_step" where
  "golden_build h jo sh =
     (let js = json_ops.truncate jo; build = path_join (golden_dir h sh) (''build-'' @ decimal (unat (vh_pid h)));
          tmp_snap = path_join build ''snapshot.bin''; tmp_mem = path_join build ''memory.bin'' in
      with_vm h build False (\<lambda>vm.
        vm_bind (configure_and_boot h jo vm sh) (\<lambda>_.
        vm_bind (vm_agent h jo vm (json_req js ''ready'' (jo_object jo []))) (\<lambda>_.
        vm_bind (api_call h js ''PATCH'' ''/vm'' (jo_object jo [(''state'', jo_str jo ''Paused'')])) (\<lambda>_.
        vm_bind (api_call h js ''PUT'' ''/snapshot/create'' (jo_object jo
          [(''snapshot_type'', jo_str jo ''Full''), (''snapshot_path'', jo_str jo tmp_snap), (''mem_file_path'', jo_str jo tmp_mem)])) (\<lambda>_.
        vm_bind (vm_rename h tmp_mem (golden_mem h sh)) (\<lambda>_.
        vm_rename h tmp_snap (golden_snap h sh))))))))"

definition golden_for :: "vm_host \<Rightarrow> 'v vm_json \<Rightarrow> u32 \<times> u64 \<Rightarrow> (string \<times> string) option vm_step" where
  "golden_for h jo sh w =
     (if \<not> snapshot_enabled h then (Inr None, w)
      else if golden_present h sh w then (Inr (Some (golden_snap h sh, golden_mem h sh)), w)
      else vm_bind (golden_lock h sh)
        (\<lambda>_ w1. if golden_present h sh w1 then (Inr (Some (golden_snap h sh, golden_mem h sh)), w1)
          else vm_bind (golden_build h jo sh) (\<lambda>_. vm_return (Some (golden_snap h sh, golden_mem h sh))) w1) w)"

section \<open>One request\<close>

record vm_outcome =
  vo_status :: result_status
  vo_exit_code :: int
  vo_output :: string
  vo_errors :: string
  vo_truncated :: bool
  vo_rss_mb :: u64

definition run_get :: "'v vm_json \<Rightarrow> 'v \<Rightarrow> string \<Rightarrow> string" where
  "run_get jo run k =
     (case Option.bind (Option.bind (jo_get jo run k) (jo_as_str jo)) (jo_unbase64 jo) of
        Some b \<Rightarrow> from_utf8_lossy b
      | None \<Rightarrow> [])"

definition run_flag :: "'v vm_json \<Rightarrow> 'v \<Rightarrow> string \<Rightarrow> bool" where
  "run_flag jo run k = (Option.bind (jo_get jo run k) (jo_as_bool jo) = Some True)"

definition run_exit :: "'v vm_json \<Rightarrow> 'v \<Rightarrow> int" where
  "run_exit jo run =
     sint (ucast (case Option.bind (jo_get jo run ''exit_code'') (jo_as_i64 jo) of Some c \<Rightarrow> c | None \<Rightarrow> - 1) :: 32 word)"

definition vm_verdict :: "bool \<Rightarrow> bool \<Rightarrow> int \<Rightarrow> result_status" where
  "vm_verdict timed_out truncated exit_code =
     (if timed_out then Timeout else if truncated then OutputExceeded
      else if exit_code = 0 then Success else NonZeroExit)"

definition outcome_of :: "'v vm_json \<Rightarrow> 'v \<Rightarrow> u64 \<Rightarrow> vm_outcome" where
  "outcome_of jo run rss =
     \<lparr>vo_status = vm_verdict (run_flag jo run ''timed_out'') (run_flag jo run ''truncated'') (run_exit jo run),
      vo_exit_code = run_exit jo run, vo_output = run_get jo run ''stdout_b64'', vo_errors = run_get jo run ''stderr_b64'',
      vo_truncated = run_flag jo run ''truncated'', vo_rss_mb = rss\<rparr>"

text \<open>\<^verbatim>\<open>str::lines\<close>: without the line ends.\<close>

fun text_lines :: "byte list \<Rightarrow> byte list \<Rightarrow> byte list list" where
  "text_lines line [] = (if line = [] then [] else [line])"
| "text_lines line (b # bs) =
     (if b = LF then (if line \<noteq> [] \<and> last line = CR then butlast line else line) # text_lines [] bs
      else text_lines (line @ [b]) bs)"

definition rss_kib :: "vm_host \<Rightarrow> vm_world \<Rightarrow> u64" where
  "rss_kib h w =
     (case vh_status_file h (vw_trace w) of
        None \<Rightarrow> 0
      | Some s \<Rightarrow>
          (case find (\<lambda>l. starts_with l ''VmRSS:'') (map of_bytes (text_lines [] (as_bytes s))) of
             None \<Rightarrow> 0
           | Some l \<Rightarrow>
               (case split_whitespace l of
                  _ # n # _ \<Rightarrow> (case parse_usize n of Some k \<Rightarrow> word_of_nat k | None \<Rightarrow> 0)
                | _ \<Rightarrow> 0)))"

definition payload_bytes :: "stdin_payload \<Rightarrow> byte list" where
  "payload_bytes p = (case p of Text t \<Rightarrow> as_bytes t | Bytes b \<Rightarrow> b)"

definition write_files_request :: "'v vm_json \<Rightarrow> settings \<Rightarrow> string" where
  "write_files_request jo s =
     json_req (json_ops.truncate jo) ''write_files'' (jo_object jo
       [(''root'', jo_str jo ''/sandbox''),
        (''files'', jo_arr jo (map (\<lambda>f. jo_object jo
           [(''path'', jo_str jo (fe_path f)), (''content_b64'', jo_str jo (jo_base64 jo (fe_content f))),
            (''mode'', jo_int jo (ucast (fe_mode f)))]) (s_files s)))])"

definition run_request :: "'v vm_json \<Rightarrow> settings \<Rightarrow> string" where
  "run_request jo s =
     json_req (json_ops.truncate jo) ''run'' (jo_object jo
       [(''argv'', jo_arr jo [jo_str jo ''/usr/bin/python3'', jo_str jo (''/sandbox/'' @ s_entrypoint s)]),
        (''cwd'', jo_str jo ''/sandbox''),
        (''env'', jo_object jo (map (\<lambda>(k, v). (k, jo_str jo v)) (s_env s))),
        (''stdin_b64'', (case s_stdin s of Some p \<Rightarrow> jo_str jo (jo_base64 jo (payload_bytes p)) | None \<Rightarrow> jo_null jo)),
        (''timeout_ms'', jo_int jo (l_wall_ms (s_limits s))), (''output_bytes'', jo_int jo (l_output_bytes (s_limits s)))])"

definition vm_start :: "vm_host \<Rightarrow> 'v vm_json \<Rightarrow> vm \<Rightarrow> u32 \<times> u64 \<Rightarrow> (string \<times> string) option \<Rightarrow> unit vm_step" where
  "vm_start h jo vm sh golden =
     (case golden of
        Some (snap, mem) \<Rightarrow>
          api_call h (json_ops.truncate jo) ''PUT'' ''/snapshot/load'' (jo_object jo
            [(''snapshot_path'', jo_str jo snap),
             (''mem_backend'', jo_object jo [(''backend_path'', jo_str jo mem), (''backend_type'', jo_str jo ''File'')]),
             (''resume_vm'', jo_bool jo True)])
      | None \<Rightarrow> configure_and_boot h jo vm sh)"

definition vm_program :: "vm_host \<Rightarrow> 'v vm_json \<Rightarrow> settings \<Rightarrow> vm \<Rightarrow> vm_outcome vm_step" where
  "vm_program h jo s vm =
     vm_bind (vm_agent h jo vm (json_req (json_ops.truncate jo) ''ready'' (jo_object jo []))) (\<lambda>_.
     vm_bind (vm_agent h jo vm (write_files_request jo s)) (\<lambda>_.
     vm_bind (vm_agent h jo vm (run_request jo s)) (\<lambda>run w.
       (Inr (outcome_of jo run (rss_kib h w div 1024)), w))))"

definition golden_or_cold :: "vm_host \<Rightarrow> 'v vm_json \<Rightarrow> u32 \<times> u64 \<Rightarrow> (string \<times> string) option vm_step" where
  "golden_or_cold h jo sh w = (case golden_for h jo sh w of (Inr g, w1) \<Rightarrow> (Inr g, w1) | (Inl e, w1) \<Rightarrow> (Inr None, w1))"

definition run_blocking :: "vm_host \<Rightarrow> 'v vm_json \<Rightarrow> settings \<Rightarrow> string \<Rightarrow> vm_outcome vm_step" where
  "run_blocking h jo s workdir w =
     (case vh_mkdir h (vw_trace w) workdir of
        Inl e \<Rightarrow> (Inl e, w)
      | Inr _ \<Rightarrow>
          vm_bind (golden_or_cold h jo (vm_shape s)) (\<lambda>golden.
            with_vm h workdir True (\<lambda>vm. vm_bind (vm_start h jo vm (vm_shape s) golden) (\<lambda>_. vm_program h jo s vm))) w)"

definition vm_workdir_of :: "vm_host \<Rightarrow> string \<Rightarrow> string" where
  "vm_workdir_of h request_id = path_join (vh_work_root h) (''microvm-'' @ request_id)"

definition vm_fail :: "vm_host \<Rightarrow> string \<Rightarrow> string \<Rightarrow> response" where
  "vm_fail h rid msg = Result
     \<lparr>r_request_id = rid, r_status = EngineError, r_exit_code = - 1, r_exec_time_ms = vh_elapsed_ms h, r_memory_peak_mb = 0,
      r_cpu_time_ms = 0, r_output_bytes = 0, r_output_truncated = False, r_output = [], r_errors = msg\<rparr>"

definition vm_result :: "vm_host \<Rightarrow> string \<Rightarrow> vm_outcome \<Rightarrow> response" where
  "vm_result h rid r = Result
     \<lparr>r_request_id = rid, r_status = vo_status r, r_exit_code = vo_exit_code r, r_exec_time_ms = vh_elapsed_ms h,
      r_memory_peak_mb = vo_rss_mb r, r_cpu_time_ms = 0,
      r_output_bytes = word_of_nat (length (vo_output r) + length (vo_errors r)), r_output_truncated = vo_truncated r,
      r_output = vo_output r, r_errors = vo_errors r\<rparr>"

definition microvm_run :: "vm_host \<Rightarrow> 'v vm_json \<Rightarrow> settings \<Rightarrow> vm_world \<Rightarrow> response \<times> vm_world" where
  "microvm_run h jo s w =
     (case unavailable_reason h of
        Some reason \<Rightarrow> (vm_fail h (s_request_id s) (''microvm_unavailable: '' @ reason), w)
      | None \<Rightarrow>
          if s_language s \<noteq> Python
          then (vm_fail h (s_request_id s) ''microvm_unsupported_language: the microVM guest image carries python only'', w)
          else (case run_blocking h jo s (vm_workdir_of h (s_request_id s)) w of
                  (Inr r, w1) \<Rightarrow> (vm_result h (s_request_id s) r, w1)
                | (Inl e, w1) \<Rightarrow> (vm_fail h (s_request_id s) (''microvm_failed: '' @ e), w1)))"
section \<open>Every VM is torn down\<close>

fun vms_started :: "vm_event list \<Rightarrow> string list" where
  "vms_started [] = []"
| "vms_started (VmStarted d _ # t) = d # vms_started t"
| "vms_started (_ # t) = vms_started t"

fun vms_killed :: "vm_event list \<Rightarrow> string list" where
  "vms_killed [] = []"
| "vms_killed (VmKilled d # t) = d # vms_killed t"
| "vms_killed (_ # t) = vms_killed t"

lemma vms_append [simp]:
  "vms_started (s @ t) = vms_started s @ vms_started t" "vms_killed (s @ t) = vms_killed s @ vms_killed t"
  by (induction s rule: vms_started.induct) simp_all

text \<open>The events a step adds satisfy \<open>Q\<close>, a property closed under concatenation.\<close>

definition adds :: "(vm_event list \<Rightarrow> bool) \<Rightarrow> 'a vm_step \<Rightarrow> bool" where
  "adds Q m \<longleftrightarrow> (\<forall>w. \<exists>evs. vw_trace (snd (m w)) = vw_trace w @ evs \<and> Q evs)"

locale closed_events =
  fixes Q :: "vm_event list \<Rightarrow> bool"
  assumes empty: "Q []" and join: "Q s \<Longrightarrow> Q t \<Longrightarrow> Q (s @ t)"
begin

lemma adds_return: "adds Q (vm_return a)"
  using empty by (simp add: adds_def vm_return_def)

lemma adds_bind:
  assumes "adds Q m" "\<And>a. adds Q (k a)"
  shows "adds Q (vm_bind m k)"
  unfolding adds_def
proof
  fix w
  obtain r w1 where m: "m w = (r, w1)" by fastforce
  then obtain s where s: "vw_trace w1 = vw_trace w @ s" "Q s" using assms(1) unfolding adds_def by (metis snd_conv)
  show "\<exists>evs. vw_trace (snd (vm_bind m k w)) = vw_trace w @ evs \<and> Q evs"
  proof (cases r)
    case (Inl e)
    with m s show ?thesis by (auto simp: vm_bind_def)
  next
    case (Inr a)
    obtain t where "vw_trace (snd (k a w1)) = vw_trace w1 @ t" "Q t" using assms(2) [of a] unfolding adds_def by blast
    with m s Inr join show ?thesis by (auto simp: vm_bind_def)
  qed
qed

end

definition quiet_events :: "vm_event list \<Rightarrow> bool" where
  "quiet_events evs \<longleftrightarrow> vms_started evs = [] \<and> vms_killed evs = []"

definition balanced_events :: "vm_event list \<Rightarrow> bool" where
  "balanced_events evs \<longleftrightarrow> vms_started evs = vms_killed evs"

definition api_events :: "vm_event list \<Rightarrow> bool" where
  "api_events evs \<longleftrightarrow> list_all (\<lambda>ev. case ev of VmApi _ _ _ \<Rightarrow> True | _ \<Rightarrow> False) evs"

interpretation quiet: closed_events quiet_events
  by unfold_locales (auto simp: quiet_events_def)


interpretation api: closed_events api_events
  by unfold_locales (auto simp: api_events_def)


lemma quiet_balanced: "quiet_events evs \<Longrightarrow> balanced_events evs"
  by (simp add: quiet_events_def balanced_events_def)


lemma vw_trace_log [simp]: "vw_trace (vm_log ev w) = vw_trace w @ [ev]"
  by (simp add: vm_log_def)

lemma api_call_trace: "snd (api_call h jo verb path body w) = vm_log (VmApi verb path (as_bytes (jo_to_string jo body))) w"
  by (simp add: api_call_def Let_def split: sum.split prod.split)

lemma api_call_api: "adds api_events (api_call h jo verb path body)"
  by (auto simp: adds_def api_call_trace api_events_def)



lemma configure_api: "adds api_events (configure_and_boot h jo vm sh)"
  unfolding configure_and_boot_def Let_def by (intro api.adds_bind api_call_api)

lemma vm_start_api: "adds api_events (vm_start h jo vm sh golden)"
  by (auto simp: vm_start_def intro: api_call_api configure_api split: option.split)









text \<open>
  Without that proviso it fails: a Firecracker whose socket is late is reported as an error and left running.
\<close>

theorem late_socket_leaks_vm:
  assumes "unavailable_reason h = None" "s_language s = Python" "\<not> snapshot_enabled h"
    and "\<forall>t p. vh_mkdir h t p = Inr ()" "\<forall>t. vh_spawn h t = Inr ()" "\<forall>t. \<not> vh_socket_appears h t"
    and "CHR 0x00 \<notin> set (vm_workdir_of h (s_request_id s))"
  shows "vw_trace (snd (microvm_run h jo s w)) = vw_trace w @ [VmStarted (vm_workdir_of h (s_request_id s)) True]"
  by (simp add: microvm_run_def assms(1,2) run_blocking_def assms(4) vm_bind_def golden_or_cold_def golden_for_def assms(3)
      with_vm_def vm_spawn_def firecracker_dirs_def assms(5,6,7) Let_def)

section \<open>The program runs in a VM of its own\<close>

lemma vm_bind_ok: "vm_bind m k w = (Inr b, w2) \<Longrightarrow> \<exists>a w1. m w = (Inr a, w1) \<and> k a w1 = (Inr b, w2)"
  by (auto simp: vm_bind_def split: prod.splits sum.splits)

lemma vm_agent_ok:
  assumes "vm_agent h jo vm request w = (Inr v, w1)"
  shows "w1 = vm_log (VmAgent (vm_vsock vm) (as_bytes request)) w \<and>
    (\<exists>line. vh_reply h (vw_trace w1) = Inr line \<and> agent_result jo line = Inr v)"
  using assms by (auto simp: vm_agent_def Let_def split: sum.splits)

lemma vm_program_ok:
  assumes "vm_program h jo s vm w = (Inr out, w')"
  shows "vw_trace w' = vw_trace w @ map (\<lambda>q. VmAgent (vm_vsock vm) (as_bytes q))
      [json_req (json_ops.truncate jo) ''ready'' (jo_object jo []), write_files_request jo s, run_request jo s] \<and>
    (\<exists>line run rss. vh_reply h (vw_trace w') = Inr line \<and> agent_result jo line = Inr run \<and> out = outcome_of jo run rss)"
proof -
  obtain v1 w1 where a1: "vm_agent h jo vm (json_req (json_ops.truncate jo) ''ready'' (jo_object jo [])) w = (Inr v1, w1)"
      and r1: "vm_bind (vm_agent h jo vm (write_files_request jo s)) (\<lambda>_. vm_bind (vm_agent h jo vm (run_request jo s))
        (\<lambda>run w. (Inr (outcome_of jo run (rss_kib h w div 1024)), w))) w1 = (Inr out, w')"
    using vm_bind_ok [OF assms [unfolded vm_program_def]] by blast
  obtain v2 w2 where a2: "vm_agent h jo vm (write_files_request jo s) w1 = (Inr v2, w2)"
      and r2: "vm_bind (vm_agent h jo vm (run_request jo s)) (\<lambda>run w. (Inr (outcome_of jo run (rss_kib h w div 1024)), w)) w2 = (Inr out, w')"
    using vm_bind_ok [OF r1] by blast
  obtain run w3 where a3: "vm_agent h jo vm (run_request jo s) w2 = (Inr run, w3)"
      and r3: "out = outcome_of jo run (rss_kib h w3 div 1024)" "w' = w3"
    using vm_bind_ok [OF r2] by auto
  from vm_agent_ok [OF a1] vm_agent_ok [OF a2] vm_agent_ok [OF a3] r3 show ?thesis by auto
qed

lemma with_vm_ok:
  assumes "with_vm h workdir True body w = (Inr out, w')"
  obtains vm w1 where "vm_vsock vm = path_join workdir ''vsock.sock''"
    "body vm (vm_log (VmStarted workdir True) w) = (Inr out, w1)" "w' = vm_log (VmKilled workdir) w1"
proof -
  from vm_bind_ok [OF assms [unfolded with_vm_def]] obtain vm w0
    where sp: "vm_spawn h workdir True w = (Inr vm, w0)" and sc: "vm_scope vm (body vm) w0 = (Inr out, w')" by blast
  from sp have "w0 = vm_log (VmStarted workdir True) w" "vm_workdir vm = workdir" "vm_vsock vm = path_join workdir ''vsock.sock''"
    by (auto simp: vm_spawn_def Let_def split: sum.splits if_splits)
  with sc that show thesis by (auto simp: vm_scope_def split: prod.splits)
qed

lemma golden_or_cold_path:
  "golden_or_cold h jo sh w = (Inr (Some g), w1) \<Longrightarrow> g = (golden_snap h sh, golden_mem h sh)"
  by (auto simp: golden_or_cold_def golden_for_def vm_bind_def vm_return_def split: prod.splits sum.splits if_splits)

text \<open>
  C10. A verdict comes from a VM of the request's own: when the answer is not an engine error, a VM was
  started for this request in its own mount namespace, configured or restored by API calls only, told
  over its own socket to write the request's files and then to run its entry point, and killed; the
  answer is the classification of the reply to that run.
\<close>

theorem verdict_comes_from_own_vm:
  assumes "microvm_run h jo s w = (Result r, w')" "r_status r \<noteq> EngineError"
  shows "\<exists>before evs line run rss. let wd = vm_workdir_of h (s_request_id s); sock = path_join wd ''vsock.sock'' in
    vw_trace w' = before @ [VmStarted wd True] @ evs @
      [VmAgent sock (as_bytes (json_req (json_ops.truncate jo) ''ready'' (jo_object jo []))),
       VmAgent sock (as_bytes (write_files_request jo s)), VmAgent sock (as_bytes (run_request jo s)), VmKilled wd] \<and>
    api_events evs \<and> vh_reply h (butlast (vw_trace w')) = Inr line \<and> agent_result jo line = Inr run \<and>
    Result r = vm_result h (s_request_id s) (outcome_of jo run rss)"
proof -
  let ?wd = "vm_workdir_of h (s_request_id s)"
  from assms obtain out where run: "run_blocking h jo s ?wd w = (Inr out, w')" and r: "Result r = vm_result h (s_request_id s) out"
    by (auto simp: microvm_run_def vm_fail_def split: option.splits if_splits prod.splits sum.splits)
  then have all: "vm_bind (golden_or_cold h jo (vm_shape s)) (\<lambda>golden.
      with_vm h ?wd True (\<lambda>vm. vm_bind (vm_start h jo vm (vm_shape s) golden) (\<lambda>_. vm_program h jo s vm))) w = (Inr out, w')"
    by (auto simp: run_blocking_def split: sum.splits)
  obtain golden w1 where
      "with_vm h ?wd True (\<lambda>vm. vm_bind (vm_start h jo vm (vm_shape s) golden) (\<lambda>_. vm_program h jo s vm)) w1 = (Inr out, w')"
    using vm_bind_ok [OF all] by blast
  then obtain vm w2 where vm: "vm_vsock vm = path_join ?wd ''vsock.sock''"
      and b: "vm_bind (vm_start h jo vm (vm_shape s) golden) (\<lambda>_. vm_program h jo s vm) (vm_log (VmStarted ?wd True) w1) = (Inr out, w2)"
      and w': "w' = vm_log (VmKilled ?wd) w2"
    by (rule with_vm_ok)
  obtain u w3 where st: "vm_start h jo vm (vm_shape s) golden (vm_log (VmStarted ?wd True) w1) = (Inr u, w3)"
      and pr: "vm_program h jo s vm w3 = (Inr out, w2)"
    using vm_bind_ok [OF b] by blast
  obtain evs where evs: "vw_trace w3 = vw_trace w1 @ [VmStarted ?wd True] @ evs" "api_events evs"
    using vm_start_api [of h jo vm "vm_shape s" golden] st unfolding adds_def by (metis append.assoc snd_conv vw_trace_log)
  from vm_program_ok [OF pr] obtain line run rss where p: "vh_reply h (vw_trace w2) = Inr line" "agent_result jo line = Inr run"
      "out = outcome_of jo run rss" and t: "vw_trace w2 = vw_trace w3 @ map (\<lambda>q. VmAgent (vm_vsock vm) (as_bytes q))
      [json_req (json_ops.truncate jo) ''ready'' (jo_object jo []), write_files_request jo s, run_request jo s]" by blast
  have "butlast (vw_trace w') = vw_trace w2" by (simp add: w')
  with p evs t r vm show ?thesis
    unfolding Let_def
    by (intro exI [of _ "vw_trace w1"] exI [of _ evs] exI [of _ line] exI [of _ run] exI [of _ rss] conjI) (simp_all add: w')
qed

section \<open>Shapes and snapshots\<close>

lemma decimal_prefix_inj:
  assumes "decimal m @ c # xs = decimal n @ c # ys" "\<not> (48 \<le> (of_char c :: nat) \<and> (of_char c :: nat) \<le> 57)"
  shows "m = n \<and> xs = ys"
proof -
  have tk: "takeWhile (\<lambda>d. d \<noteq> c) (decimal k @ c # zs) = decimal k" for k zs
    using decimal_digits [of _ k] assms(2) by (subst takeWhile_append2) auto
  have "decimal m = decimal n" using tk [of m xs] tk [of n ys] assms(1) by simp
  then show ?thesis using assms(1) decimal_inj by auto
qed

lemma shape_name_inj: "shape_name a = shape_name b \<Longrightarrow> a = b"
proof -
  assume eq: "shape_name a = shape_name b"
  have "decimal (unat (fst a)) @ CHR ''c'' # (''-'' @ decimal (unat (snd a)) @ ''m'') =
      decimal (unat (fst b)) @ CHR ''c'' # (''-'' @ decimal (unat (snd b)) @ ''m'')"
    using eq by (simp add: shape_name_def)
  from decimal_prefix_inj [OF this] have c: "unat (fst a) = unat (fst b)" "decimal (unat (snd a)) = decimal (unat (snd b))" by simp_all
  from c(2) have "unat (snd a) = unat (snd b)" by (rule decimal_inj)
  with c(1) show "a = b" by (simp add: prod_eq_iff unsigned_word_eqI)
qed

lemma path_join_inj:
  assumes "path_join d a = path_join d b" "\<not> is_absolute a" "\<not> is_absolute b"
  shows "a = b"
  using assms by (auto simp: path_join_def split: if_splits)

lemma shape_name_relative: "\<not> is_absolute (shape_name sh)"
proof -
  obtain c cs where d: "decimal (unat (fst sh)) = c # cs" by (cases "decimal (unat (fst sh))") auto
  then have "48 \<le> (of_char c :: nat)" using decimal_digits [of c "unat (fst sh)"] by simp
  then have "c \<noteq> CHR ''/''" by auto
  with d show ?thesis by (simp add: is_absolute_def shape_name_def)
qed

lemma golden_dir_inj: "golden_dir h a = golden_dir h b \<Longrightarrow> a = b"
  unfolding golden_dir_def using path_join_inj shape_name_relative shape_name_inj by blast

lemma path_join_suffix_inj:
  assumes "path_join d f = path_join e f" "\<not> is_absolute f" "d \<noteq> []" "e \<noteq> []" "last d \<noteq> CHR ''/''" "last e \<noteq> CHR ''/''"
  shows "d = e"
  using assms by (simp add: path_join_def)

lemma golden_dir_end: "golden_dir h sh \<noteq> [] \<and> last (golden_dir h sh) = CHR ''m''"
  using shape_name_relative [of sh] by (auto simp: golden_dir_def path_join_def shape_name_def)

lemma golden_snap_inj: "golden_snap h a = golden_snap h b \<Longrightarrow> a = b"
  unfolding golden_snap_def
  using golden_dir_inj [of h a b] golden_dir_end [of h a] golden_dir_end [of h b]
  by (auto dest!: path_join_suffix_inj simp: is_absolute_def)

text \<open>
  The shape of a guest is within what the host allows, whatever the request asks for, and a guest is
  never restored from a snapshot of another shape: the names of two shapes' snapshots differ.
\<close>

theorem vm_shape_bounded_and_named_apart:
  "1 \<le> fst (vm_shape s) \<and> fst (vm_shape s) \<le> 8 \<and> 128 \<le> snd (vm_shape s) \<and> snd (vm_shape s) \<le> 32768 \<and>
   (golden_snap h (vm_shape s) = golden_snap h (vm_shape s') \<longleftrightarrow> vm_shape s = vm_shape s')"
  using golden_snap_inj [of h "vm_shape s" "vm_shape s'"] by (auto simp: vm_shape_def min_def max_def)
definition golden_complete :: "vm_host \<Rightarrow> string set \<Rightarrow> bool" where
  "golden_complete h files \<longleftrightarrow> (\<forall>sh. golden_snap h sh \<in> files \<longrightarrow> golden_mem h sh \<in> files)"

definition keeps :: "(string set \<Rightarrow> bool) \<Rightarrow> 'a vm_step \<Rightarrow> bool" where
  "keeps P m \<longleftrightarrow> (\<forall>w. P (vw_golden w) \<longrightarrow> P (vw_golden (snd (m w))))"

lemma keeps_bind: "keeps P m \<Longrightarrow> (\<And>a. keeps P (k a)) \<Longrightarrow> keeps P (vm_bind m k)"
  unfolding keeps_def vm_bind_def by (fastforce split: prod.split sum.split)

lemma vw_golden_log [simp]: "vw_golden (vm_log ev w) = vw_golden w"
  by (simp add: vm_log_def)

definition same_golden :: "'a vm_step \<Rightarrow> bool" where
  "same_golden m \<longleftrightarrow> (\<forall>w. vw_golden (snd (m w)) = vw_golden w)"

lemma same_keeps: "same_golden m \<Longrightarrow> keeps P m"
  by (simp add: same_golden_def keeps_def)

lemma same_bind: "same_golden m \<Longrightarrow> (\<And>a. same_golden (k a)) \<Longrightarrow> same_golden (vm_bind m k)"
  by (simp add: same_golden_def vm_bind_def case_prod_unfold split: sum.split)

lemma same_steps:
  "same_golden (api_call h jo verb path body)" "same_golden (vm_agent h vj vm request)" "same_golden (vm_spawn h workdir private)"
  by (simp_all add: same_golden_def api_call_trace vm_agent_def vm_spawn_def Let_def split: sum.split)

lemma same_boot: "same_golden (configure_and_boot h jo vm sh)" "same_golden (vm_start h jo vm sh golden)"
proof -
  show c: "same_golden (configure_and_boot h jo vm sh)" for vm sh
    unfolding configure_and_boot_def Let_def by (intro same_bind same_steps)
  show "same_golden (vm_start h jo vm sh golden)" by (auto simp: vm_start_def intro: c same_steps split: option.split)
qed

lemma same_program: "same_golden (vm_program h jo s vm)"
  unfolding vm_program_def
  by (intro same_bind same_steps) (simp add: same_golden_def)

lemma keeps_scope: "keeps P body \<Longrightarrow> keeps P (vm_scope vm body)"
  by (simp add: keeps_def vm_scope_def case_prod_unfold)

lemma keeps_with_vm: "(\<And>vm. keeps P (body vm)) \<Longrightarrow> keeps P (with_vm h workdir private body)"
  unfolding with_vm_def by (intro keeps_bind keeps_scope same_keeps [OF same_steps(3)])

lemma golden_mem_not_snap: "golden_mem h sh \<noteq> golden_snap h sh'"
proof
  have "last (path_join d ''memory.bin'') = CHR ''n''" for d by (simp add: path_join_def is_absolute_def)
  have "take 5 (rev (golden_mem h sh)) = ''nib.y''" "take 5 (rev (golden_snap h sh')) = ''nib.t''"
    by (simp_all add: golden_mem_def golden_snap_def path_join_def is_absolute_def)
  moreover assume "golden_mem h sh = golden_snap h sh'"
  ultimately show False by simp
qed

text \<open>The two renames, in their order, keep the files complete whichever of them fails.\<close>

lemma rename_golden:
  "vw_golden (snd (vm_rename h src dst w)) =
    (if \<exists>e. fst (vm_rename h src dst w) = Inl e then vw_golden w else insert dst (vw_golden w))"
  by (simp add: vm_rename_def Let_def split: sum.split)

lemma complete_insert_mem: "golden_complete h files \<Longrightarrow> golden_complete h (insert (golden_mem h sh) files)"
  by (auto simp: golden_complete_def golden_mem_not_snap [symmetric])

lemma complete_insert_snap:
  "golden_complete h files \<Longrightarrow> golden_complete h (insert (golden_snap h sh) (insert (golden_mem h sh) files))"
  by (auto simp: golden_complete_def golden_mem_not_snap [symmetric] dest: golden_snap_inj)

lemma keeps_publish:
  "keeps (golden_complete h)
     (vm_bind (vm_rename h tmp_mem (golden_mem h sh)) (\<lambda>_. vm_rename h tmp_snap (golden_snap h sh)))"
  unfolding keeps_def
proof (intro allI impI)
  fix w :: vm_world
  assume c: "golden_complete h (vw_golden w)"
  obtain r w1 where m: "vm_rename h tmp_mem (golden_mem h sh) w = (r, w1)" by fastforce
  show "golden_complete h (vw_golden (snd (vm_bind (vm_rename h tmp_mem (golden_mem h sh)) (\<lambda>_. vm_rename h tmp_snap (golden_snap h sh)) w)))"
  proof (cases r)
    case (Inl e)
    then show ?thesis using c m rename_golden [of h tmp_mem "golden_mem h sh" w] by (simp add: vm_bind_def)
  next
    case (Inr u)
    then have "vw_golden w1 = insert (golden_mem h sh) (vw_golden w)" using m rename_golden [of h tmp_mem "golden_mem h sh" w] by simp
    then show ?thesis
      using Inr m complete_insert_mem [OF c] complete_insert_snap [OF c] rename_golden [of h tmp_snap "golden_snap h sh" w1]
      by (simp add: vm_bind_def)
  qed
qed

lemma keeps_golden_for:
  assumes "\<forall>t p others. vh_lock h t p = Inr others \<longrightarrow> golden_complete h others"
  shows "keeps (golden_complete h) (golden_for h jo sh)"
proof -
  have lock: "keeps (golden_complete h) (golden_lock h sh)"
    using assms by (fastforce simp: keeps_def golden_lock_def golden_complete_def split: sum.split)
  have build: "keeps (golden_complete h) (golden_build h jo sh)"
    unfolding golden_build_def Let_def
    by (intro keeps_with_vm keeps_bind [OF same_keeps] same_boot same_steps keeps_publish)
  have ret: "keeps (golden_complete h) (vm_return x)" for x :: "(string \<times> string) option"
    by (simp add: keeps_def vm_return_def)
  have inner: "keeps (golden_complete h) (vm_bind (golden_build h jo sh) (\<lambda>_. vm_return x))" for x :: "(string \<times> string) option"
    by (intro keeps_bind build ret)
  have "keeps (golden_complete h) (vm_bind (golden_lock h sh)
        (\<lambda>_ w1. if golden_present h sh w1 then (Inr (Some (golden_snap h sh, golden_mem h sh)), w1)
          else vm_bind (golden_build h jo sh) (\<lambda>_. vm_return (Some (golden_snap h sh, golden_mem h sh))) w1))"
    by (intro keeps_bind lock) (use inner in \<open>simp add: keeps_def\<close>)
  then show ?thesis by (simp add: keeps_def golden_for_def)
qed

text \<open>
  C40. A published snapshot is complete: whenever a snapshot file is in place its memory file is too, after
  every request and whatever fails in between, because the memory file is renamed first; other
  engines sharing the directory are assumed to do the same.
\<close>

theorem published_snapshot_is_complete:
  assumes "\<forall>t p others. vh_lock h t p = Inr others \<longrightarrow> golden_complete h others" "golden_complete h (vw_golden w)"
  shows "golden_complete h (vw_golden (snd (microvm_run h jo s w)))"
proof -
  have g: "keeps (golden_complete h) (golden_or_cold h jo (vm_shape s))"
    using keeps_golden_for [OF assms(1), of jo "vm_shape s"]
    by (simp add: keeps_def golden_or_cold_def case_prod_unfold split: sum.split)
  have "keeps (golden_complete h) (vm_bind (golden_or_cold h jo (vm_shape s)) (\<lambda>golden.
    with_vm h wd True (\<lambda>vm. vm_bind (vm_start h jo vm (vm_shape s) golden) (\<lambda>_. vm_program h jo s vm))))" for wd
    by (intro keeps_bind g keeps_with_vm same_keeps same_boot same_program)
  then have "golden_complete h (vw_golden (snd (run_blocking h jo s wd w)))" for wd
    using assms(2) by (simp add: run_blocking_def keeps_def split: sum.split)
  then show ?thesis
    using assms(2) by (auto simp: microvm_run_def case_prod_unfold split: option.split sum.split)
qed

lemma run_blocking_cong:
  assumes "s_limits s = s_limits t" "s_files s = s_files t" "s_env s = s_env t" "s_stdin s = s_stdin t" "s_entrypoint s = s_entrypoint t"
  shows "run_blocking h jo s workdir = run_blocking h jo t workdir"
  unfolding run_blocking_def vm_shape_def vm_program_def write_files_request_def run_request_def by (simp only: assms)

lemma microvm_run_cong:
  assumes "s_limits s = s_limits t" "s_files s = s_files t" "s_env s = s_env t" "s_stdin s = s_stdin t" "s_entrypoint s = s_entrypoint t"
    and "s_request_id s = s_request_id t" "s_language s = s_language t"
  shows "microvm_run h jo s w = microvm_run h jo t w"
  unfolding microvm_run_def run_blocking_cong [OF assms(1-5)] by (simp only: assms(6,7))

text \<open>
  The tier applies none of the request policies: two requests that differ in their secrets, runtime,
  capabilities, network, mounts, schema or mode get the same answer and leave the same trace. In particular no
  resolved secret reaches the program, and a request other modes reject as malformed is run.
\<close>

theorem microvm_ignores_policies:
  "microvm_run h jo (s\<lparr>s_schema := schema, s_resolved_secrets := secrets, s_runtime := runtime, s_capabilities := caps,
     s_network := net, s_filesystem := files, s_session_id := sid, s_mode := m, s_determinism := det, s_output := outp\<rparr>) w =
   microvm_run h jo s w"
  by (rule microvm_run_cong) simp_all
section \<open>Witnesses\<close>

text \<open>A host on which everything works: every API call is answered 204, every agent request with a run that exits with 0.\<close>

definition demo_vm_json :: "demo_value vm_json" where
  "demo_vm_json = json_ops.extend
     (demo_json\<lparr>jo_parse := (\<lambda>_. Some (DObj [(''ok'', DInt 1), (''result'', DObj [(''exit_code'', DInt 0)])]))\<rparr>)
     \<lparr>jo_bool = (\<lambda>b. DInt (if b then 1 else 0)), jo_arr = (\<lambda>_. DNull), jo_as_str = (\<lambda>_. None), jo_as_bool = (\<lambda>v. Some (v = DInt 1)),
      jo_base64 = of_bytes, jo_unbase64 = (\<lambda>_. None)\<rparr>"

definition no_content :: "byte list" where
  "no_content = as_bytes ''HTTP/1.1 204 No Content'' @ [CR, LF, CR, LF]"

definition demo_vm_host :: "bool \<Rightarrow> vm_host" where
  "demo_vm_host socket =
     \<lparr>vh_snapshot_var = Some ''0'', vh_assets_var = None, vh_work_root = ''/tmp/rockbox-work'', vh_pid = 7, vh_present = (\<lambda>_. True),
      vh_mkdir = (\<lambda>_ _. Inr ()), vh_lock = (\<lambda>_ _. Inr {}), vh_spawn = (\<lambda>_. Inr ()), vh_socket_appears = (\<lambda>_. socket),
      vh_api = (\<lambda>_. Inr (no_content, False)), vh_attempts = (\<lambda>_. [AttemptRefused, AttemptLine (Some ''OK 5'')]),
      vh_reply = (\<lambda>_. Inr []), vh_rename = (\<lambda>_. Inr ()), vh_status_file = (\<lambda>_. None), vh_elapsed_ms = 4\<rparr>"

definition demo_vm_world :: vm_world where
  "demo_vm_world = \<lparr>vw_trace = [], vw_golden = {}\<rparr>"

lemma demo_response: "http_response False no_content = Inr (204, [])"
proof -
  let ?l = "as_bytes ''HTTP/1.1 204 No Content''"
  have b: "\<forall>b\<in>set ?l. unat b < 128 \<and> b \<noteq> LF"
    unfolding list_all_iff [symmetric] by code_simp
  have l1: "next_line False no_content = LineGot (?l @ [CR, LF]) [CR, LF]"
    using next_line_append [of "?l @ [CR]" False "[CR, LF]"] b unfolding no_content_def by (auto simp: LF_def CR_def simp del: as_bytes_simps)
  have l2: "next_line False [CR, LF] = LineGot [CR, LF] []"
    using next_line_append [of "[CR]" False "[]"] by (simp add: LF_def CR_def)
  have u: "utf8_valid (?l @ [CR, LF])" "utf8_valid [CR, LF]"
    by (rule utf8_valid_ascii; use b in \<open>auto simp: LF_def CR_def simp del: as_bytes_simps\<close>)+
  have h: "http_headers False 0 [CR, LF] = Inr (0, [])"
    by (subst http_headers.simps) (simp add: l2 u)
  have "split_whitespace (of_bytes (?l @ [CR, LF])) = [''HTTP/1.1'', ''204'', ''No'', ''Content'']" by code_simp
  moreover have "parse_usize ''204'' = Some 204" by (simp add: parse_usize_def Let_def)
  ultimately have "status_code (of_bytes (?l @ [CR, LF])) = 204" by (simp add: status_code_def)
  then show ?thesis unfolding http_response_def l1 by (simp only: line.case u h sum.case prod.case if_True) simp
qed

lemma demo_api: "api_call (demo_vm_host socket) jo verb path body w = (Inr (), vm_log (VmApi verb path (as_bytes (jo_to_string jo body))) w)"
  by (simp add: api_call_def demo_vm_host_def demo_response http_outcome_def Let_def)

lemma demo_agent:
  "vm_agent (demo_vm_host socket) demo_vm_json vm request w =
     (Inr (DObj [(''exit_code'', DInt 0)]), vm_log (VmAgent (vm_vsock vm) (as_bytes request)) w)"
  by (simp add: vm_agent_def demo_vm_host_def agent_result_def demo_vm_json_def json_ops.defs demo_json_def starts_with_def Let_def)

lemma demo_outcome: "vo_status (outcome_of demo_vm_json (DObj [(''exit_code'', DInt 0)]) rss) = Success"
  by (simp add: outcome_of_def vm_verdict_def run_flag_def run_exit_def demo_vm_json_def json_ops.defs demo_json_def)

lemma demo_verdict:
  "case microvm_run (demo_vm_host True) demo_vm_json minimal_settings demo_vm_world of
     (Result r, w) \<Rightarrow> r_status r = Success | _ \<Rightarrow> False"
proof -
  have u: "unavailable_reason (demo_vm_host True) = None" by code_simp
  have s: "\<not> snapshot_enabled (demo_vm_host True)" by code_simp
  have g: "golden_or_cold (demo_vm_host True) demo_vm_json sh w = (Inr None, w)" for sh w
    by (simp add: golden_or_cold_def golden_for_def s)
  have m: "vh_mkdir (demo_vm_host True) t p = Inr ()" for t p by (simp add: demo_vm_host_def)
  have c: "\<exists>w'. configure_and_boot (demo_vm_host True) demo_vm_json vm sh w = (Inr (), w')" for vm sh w
    by (simp add: configure_and_boot_def Let_def vm_bind_def demo_api)
  have p: "\<exists>rss w1. vm_program (demo_vm_host True) demo_vm_json s vm w = (Inr (outcome_of demo_vm_json (DObj [(''exit_code'', DInt 0)]) rss), w1)" for s vm w
    by (simp add: vm_program_def vm_bind_def demo_agent, rule exI, rule refl)
  have sp: "\<exists>vm w1. vm_spawn (demo_vm_host True) (vm_workdir_of (demo_vm_host True) ''req_test'') True w = (Inr vm, w1)" for w
    by (simp add: vm_spawn_def firecracker_dirs_def demo_vm_host_def vm_workdir_of_def path_join_def is_absolute_def Let_def)
  have "\<exists>rss w1. run_blocking (demo_vm_host True) demo_vm_json minimal_settings (vm_workdir_of (demo_vm_host True) ''req_test'') demo_vm_world =
    (Inr (outcome_of demo_vm_json (DObj [(''exit_code'', DInt 0)]) rss), w1)"
  proof -
    obtain vm w1 where v: "vm_spawn (demo_vm_host True) (vm_workdir_of (demo_vm_host True) ''req_test'') True demo_vm_world = (Inr vm, w1)"
      using sp by blast
    obtain w2 where c2: "configure_and_boot (demo_vm_host True) demo_vm_json vm (vm_shape minimal_settings) w1 = (Inr (), w2)"
      using c by blast
    obtain rss w3 where "vm_program (demo_vm_host True) demo_vm_json minimal_settings vm w2 =
        (Inr (outcome_of demo_vm_json (DObj [(''exit_code'', DInt 0)]) rss), w3)" using p by blast
    then show ?thesis
      by (simp add: run_blocking_def m vm_bind_def g with_vm_def v vm_scope_def vm_start_def c2) (rule exI, rule refl)
  qed
  then obtain rss w1 where "run_blocking (demo_vm_host True) demo_vm_json minimal_settings (vm_workdir_of (demo_vm_host True) ''req_test'') demo_vm_world =
    (Inr (outcome_of demo_vm_json (DObj [(''exit_code'', DInt 0)]) rss), w1)" by blast
  moreover have "s_request_id minimal_settings = ''req_test''" "s_language minimal_settings = Python" by (simp_all add: minimal_settings_def)
  ultimately show ?thesis by (simp add: microvm_run_def u vm_result_def demo_outcome)
qed

theorem verdict_comes_from_own_vm_witness:
  "case microvm_run (demo_vm_host True) demo_vm_json minimal_settings demo_vm_world of
     (Result r, w') \<Rightarrow> (\<exists>before evs line run rss. let wd = vm_workdir_of (demo_vm_host True) (s_request_id minimal_settings); sock = path_join wd ''vsock.sock'' in
       vw_trace w' = before @ [VmStarted wd True] @ evs @
         [VmAgent sock (as_bytes (json_req (json_ops.truncate demo_vm_json) ''ready'' (jo_object demo_vm_json []))),
          VmAgent sock (as_bytes (write_files_request demo_vm_json minimal_settings)),
          VmAgent sock (as_bytes (run_request demo_vm_json minimal_settings)), VmKilled wd] \<and>
       api_events evs \<and> vh_reply (demo_vm_host True) (butlast (vw_trace w')) = Inr line \<and>
       agent_result demo_vm_json line = Inr run \<and>
       Result r = vm_result (demo_vm_host True) (s_request_id minimal_settings) (outcome_of demo_vm_json run rss))
   | _ \<Rightarrow> False"
proof -
  obtain r w where run: "microvm_run (demo_vm_host True) demo_vm_json minimal_settings demo_vm_world = (Result r, w)"
      and "r_status r = Success"
    using demo_verdict by (auto split: prod.splits response.splits)
  then have "r_status r \<noteq> EngineError" by simp
  from verdict_comes_from_own_vm [OF run this] show ?thesis by (simp only: run prod.case response.case)
qed


theorem late_socket_leaks_vm_witness:
  "vw_trace (snd (microvm_run (demo_vm_host False) demo_vm_json minimal_settings demo_vm_world)) =
     vw_trace demo_vm_world @ [VmStarted (vm_workdir_of (demo_vm_host False) (s_request_id minimal_settings)) True]"
proof (rule late_socket_leaks_vm)
  show "unavailable_reason (demo_vm_host False) = None" by code_simp
  show "CHR 0x00 \<notin> set (vm_workdir_of (demo_vm_host False) (s_request_id minimal_settings))"
    by (simp add: vm_workdir_of_def demo_vm_host_def minimal_settings_def path_join_def is_absolute_def)
qed (simp_all add: demo_vm_host_def snapshot_enabled_def minimal_settings_def)

theorem published_snapshot_is_complete_witness:
  "golden_complete (demo_vm_host True) (vw_golden (snd (microvm_run (demo_vm_host True) demo_vm_json minimal_settings demo_vm_world)))"
  by (rule published_snapshot_is_complete) (simp_all add: demo_vm_host_def demo_vm_world_def golden_complete_def)

end
