(* ===== verification/RB_App.thy ===== *)
theory RB_App
  imports RB_Framing RB_Warm RB_Session RB_Zygote RB_Lsp RB_Microvm
begin

text \<open>
  The engine process (\<^verbatim>\<open>engine/src/app.rs\<close>, \<^verbatim>\<open>engine/src/state.rs\<close>, \<^verbatim>\<open>engine/src/modes/mod.rs\<close>): the
  arguments, the non-blocking port, the state the modes share, the dispatch of an \<^verbatim>\<open>Execute\<close> and the loop
  that answers commands one after the other. It composes the models of all modes.
\<close>

section \<open>Arguments\<close>

record app_args =
  aa_data_socket :: "string option"
  aa_log :: string

fun parse_argv :: "string list \<Rightarrow> app_args \<Rightarrow> app_args" where
  "parse_argv [] a = a"
| "parse_argv (x # xs) a =
     (if x = ''--data-socket''
      then (case xs of [] \<Rightarrow> a\<lparr>aa_data_socket := None\<rparr> | v # ys \<Rightarrow> parse_argv ys (a\<lparr>aa_data_socket := Some v\<rparr>))
      else if x = ''--log''
      then (case xs of [] \<Rightarrow> a | v # ys \<Rightarrow> parse_argv ys (a\<lparr>aa_log := v\<rparr>))
      else parse_argv xs a)"

definition parse_from_env :: "string option \<Rightarrow> string option \<Rightarrow> string list \<Rightarrow> app_args" where
  "parse_from_env socket_var log_var argv =
     parse_argv (drop 1 argv) \<lparr>aa_data_socket = socket_var, aa_log = (case log_var of Some l \<Rightarrow> l | None \<Rightarrow> ''info'')\<rparr>"

section \<open>The port\<close>

text \<open>One attempt on a descriptor, and the poll functions over the attempts that follow.\<close>

datatype 'a fd_try = FdNotReady | FdOk 'a | FdInterrupted | FdWouldBlock | FdFails string

datatype 'a fd_state = FdPending | FdReady "string + 'a"

fun fd_poll :: "'a fd_try list \<Rightarrow> 'a fd_state" where
  "fd_poll [] = FdPending"
| "fd_poll (FdNotReady # ts) = FdPending"
| "fd_poll (FdOk x # ts) = FdReady (Inr x)"
| "fd_poll (FdInterrupted # ts) = fd_poll ts"
| "fd_poll (FdWouldBlock # ts) = fd_poll ts"
| "fd_poll (FdFails e # ts) = FdReady (Inl e)"

text \<open>\<^verbatim>\<open>poll_read\<close> yields the bytes one \<^verbatim>\<open>read\<close> returned (none at the end of the stream), \<^verbatim>\<open>poll_write\<close> their number.\<close>

definition poll_read :: "nat \<Rightarrow> byte list fd_try list \<Rightarrow> byte list fd_state" where
  "poll_read room ts = (case fd_poll ts of FdReady (Inr bs) \<Rightarrow> FdReady (Inr (take room bs)) | p \<Rightarrow> p)"

definition poll_write :: "byte list \<Rightarrow> nat fd_try list \<Rightarrow> nat fd_state" where
  "poll_write buf ts = (case fd_poll ts of FdReady (Inr n) \<Rightarrow> FdReady (Inr (min n (length buf))) | p \<Rightarrow> p)"

section \<open>State\<close>

record request_state =
  rq_request_id :: string
  rq_stdin :: "byte list list option"       \<comment> \<open>what was sent into the channel, when there is one\<close>
  rq_interrupts :: "nat option"

record app_engine =
  ae_part :: engine_part
  ae_current :: "request_state option"
  ae_language :: "language option"
  ae_sessions :: "string \<rightharpoonup> settings"
  ae_episodes :: "string \<rightharpoonup> episode_entry"
  ae_lsp :: "language \<rightharpoonup> lsp_server"
  ae_warm :: "warm_worker option list"
  ae_pending :: "settings list"
  ae_vols :: volumes
  ae_zygote :: "zygote option"
  ae_vm :: vm_world

definition engine_new :: "engine_part \<Rightarrow> volumes \<Rightarrow> vm_world \<Rightarrow> app_engine" where
  "engine_new part vols vm =
     \<lparr>ae_part = part, ae_current = None, ae_language = None, ae_sessions = Map.empty, ae_episodes = Map.empty,
      ae_lsp = Map.empty, ae_warm = [None, None], ae_pending = [], ae_vols = vols, ae_zygote = None, ae_vm = vm\<rparr>"

definition set_language :: "language \<Rightarrow> app_engine \<Rightarrow> app_engine" where
  "set_language l e = e\<lparr>ae_language := Some l\<rparr>"

definition send_stdin :: "byte list \<Rightarrow> app_engine \<Rightarrow> app_engine" where
  "send_stdin bytes e =
     (case ae_current e of
        Some r \<Rightarrow>
          (case rq_stdin r of
             Some sent \<Rightarrow> e\<lparr>ae_current := Some (r\<lparr>rq_stdin := Some (sent @ [bytes])\<rparr>)\<rparr>
           | None \<Rightarrow> e)
      | None \<Rightarrow> e)"

definition interrupt :: "app_engine \<Rightarrow> app_engine" where
  "interrupt e =
     (case ae_current e of
        Some r \<Rightarrow>
          (case rq_interrupts r of
             Some n \<Rightarrow> e\<lparr>ae_current := Some (r\<lparr>rq_interrupts := Some (n + 1)\<rparr>)\<rparr>
           | None \<Rightarrow> e)
      | None \<Rightarrow> e)"

text \<open>The part of the state a mode works on.\<close>

locale lens =
  fixes get :: "'s \<Rightarrow> 'v" and put :: "'v \<Rightarrow> 's \<Rightarrow> 's"
  assumes get_put: "get (put v s) = v" and put_get: "put (get s) s = s" and put_put: "put v (put u s) = put v s"
begin

lemma put_same: "get s = v \<Longrightarrow> put v s = s"
  using put_get by blast

lemma put_inj: "put u s = put v s \<Longrightarrow> u = v"
  by (metis get_put)

end

definition session_view :: "app_engine \<Rightarrow> session_engine" where
  "session_view e = \<lparr>sn_part = ae_part e, sn_sessions = ae_sessions e, sn_vols = ae_vols e\<rparr>"

definition put_session :: "session_engine \<Rightarrow> app_engine \<Rightarrow> app_engine" where
  "put_session v e = e\<lparr>ae_part := sn_part v, ae_sessions := sn_sessions v, ae_vols := sn_vols v\<rparr>"

definition rl_view :: "app_engine \<Rightarrow> rl_engine" where
  "rl_view e = \<lparr>eg_part = ae_part e, eg_episodes = ae_episodes e, eg_warm = ae_warm e, eg_vols = ae_vols e, eg_pending = ae_pending e\<rparr>"

definition put_rl :: "rl_engine \<Rightarrow> app_engine \<Rightarrow> app_engine" where
  "put_rl v e = e\<lparr>ae_part := eg_part v, ae_episodes := eg_episodes v, ae_warm := eg_warm v, ae_vols := eg_vols v, ae_pending := eg_pending v\<rparr>"

definition episodes_view :: "app_engine \<Rightarrow> rl_state" where
  "episodes_view e = \<lparr>rl_episodes = ae_episodes e, rl_fs = ep_fs (ae_part e)\<rparr>"

definition put_episodes :: "rl_state \<Rightarrow> app_engine \<Rightarrow> app_engine" where
  "put_episodes v e = e\<lparr>ae_episodes := rl_episodes v, ae_part := (ae_part e)\<lparr>ep_fs := rl_fs v\<rparr>\<rparr>"

definition lsp_view :: "app_engine \<Rightarrow> lsp_state" where
  "lsp_view e = \<lparr>lp_language = ae_language e, lp_servers = ae_lsp e\<rparr>"

definition put_lsp :: "lsp_state \<Rightarrow> app_engine \<Rightarrow> app_engine" where
  "put_lsp v e = e\<lparr>ae_language := lp_language v, ae_lsp := lp_servers v\<rparr>"

interpretation sessions: lens session_view put_session
  by unfold_locales (simp_all add: session_view_def put_session_def)

interpretation rl: lens rl_view put_rl
  by unfold_locales (simp_all add: rl_view_def put_rl_def)

interpretation episodes: lens episodes_view put_episodes
  by unfold_locales (simp_all add: episodes_view_def put_episodes_def)

interpretation lsp: lens lsp_view put_lsp
  by unfold_locales (simp_all add: lsp_view_def put_lsp_def)

section \<open>One command\<close>

text \<open>The outside world of one command, for whichever mode handles it.\<close>

record 'v app_io =
  ai_zygote :: zygote_io
  ai_cell :: cell_io
  ai_start :: start_io
  ai_rl :: rl_io
  ai_vm :: vm_host
  ai_json :: "'v vm_json"
  ai_lsp :: lsp_env

text \<open>A handler hangs, fails, or is done after at most one response and some data-channel chunks.\<close>

datatype cmd_outcome = CmdHangs | CmdErr string | CmdOk "response list" "(stream \<times> byte list) list"

fun exec_cmd :: "exec_outcome \<Rightarrow> cmd_outcome" where
  "exec_cmd Hangs = CmdHangs"
| "exec_cmd (Fails m) = CmdErr m"
| "exec_cmd (Replies r cs) = CmdOk [r] cs"

fun sum_cmd :: "string + response \<Rightarrow> cmd_outcome" where
  "sum_cmd (Inl m) = CmdErr m"
| "sum_cmd (Inr r) = CmdOk [r] []"

fun cell_cmd :: "response option \<Rightarrow> cmd_outcome" where
  "cell_cmd None = CmdHangs"
| "cell_cmd (Some r) = CmdOk [r] []"

definition exec_in :: "'v app_io \<Rightarrow> settings \<Rightarrow> app_engine \<Rightarrow> (cmd_outcome \<times> app_engine) panics" where
  "exec_in io s e =
     (let z = ai_zygote io in
      map_returns (\<lambda>(r, p). (exec_cmd r, e\<lparr>ae_part := p\<rparr>))
        (exec_run (zi_tools z) (zi_host z) (zi_exec z) (zi_work_root z) s (ae_part e)))"

definition zygote_in :: "'v app_io \<Rightarrow> settings \<Rightarrow> app_engine \<Rightarrow> (cmd_outcome \<times> app_engine) panics" where
  "zygote_in io s e =
     map_returns (\<lambda>((r, p), slot). (exec_cmd r, e\<lparr>ae_part := p, ae_zygote := slot\<rparr>))
       (zygote_run (ai_zygote io) s (ae_zygote e) (ae_part e))"

definition microvm_in :: "'v app_io \<Rightarrow> settings \<Rightarrow> app_engine \<Rightarrow> cmd_outcome \<times> app_engine" where
  "microvm_in io s e =
     (case microvm_run (ai_vm io) (ai_json io) s (ae_vm e) of (r, w) \<Rightarrow> (CmdOk [r] [], e\<lparr>ae_vm := w\<rparr>))"

definition session_in :: "'v app_io \<Rightarrow> settings \<Rightarrow> app_engine \<Rightarrow> cmd_outcome \<times> app_engine" where
  "session_in io s e =
     (case start_or_attach (ai_cell io) s (session_view e) of (r, v) \<Rightarrow> (sum_cmd r, put_session v e))"

definition rl_in :: "'v app_io \<Rightarrow> settings \<Rightarrow> app_engine \<Rightarrow> (cmd_outcome \<times> app_engine) panics" where
  "rl_in io s e = map_returns (\<lambda>(r, v). (CmdOk [r] [], put_rl v e)) (rl_start (ai_start io) s (rl_view e))"

definition dispatch :: "'v app_io \<Rightarrow> settings \<Rightarrow> app_engine \<Rightarrow> (cmd_outcome \<times> app_engine) panics" where
  "dispatch io s e0 =
     (let e = set_language (s_language s) e0 in
      case s_mode s of
        Exec \<Rightarrow>
          if s_isolation s = Microvm then Returns (microvm_in io s e)
          else if zygote_eligible (zi_enabled (ai_zygote io)) s then zygote_in io s e
          else exec_in io s e
      | Session \<Rightarrow> Returns (session_in io s e)
      | RlStepMode \<Rightarrow> rl_in io s e
      | RlEpisode \<Rightarrow> rl_in io s e)"

definition on_episodes :: "(rl_state \<Rightarrow> response \<times> rl_state) \<Rightarrow> app_engine \<Rightarrow> (cmd_outcome \<times> app_engine) panics" where
  "on_episodes f e = (case f (episodes_view e) of (r, v) \<Rightarrow> Returns (CmdOk [r] [], put_episodes v e))"

text \<open>\<^verbatim>\<open>close\<close> takes the closed episode as the template of the next warm worker.\<close>

definition prespawn_like :: "start_io \<Rightarrow> episode_entry option \<Rightarrow> app_engine \<Rightarrow> app_engine" where
  "prespawn_like io eo e =
     (case eo of
        Some en \<Rightarrow> put_rl (schedule_prespawn io (ee_settings en) (rl_view e)) e
      | None \<Rightarrow> e)"

fun run_command :: "'v app_io \<Rightarrow> command \<Rightarrow> app_engine \<Rightarrow> (cmd_outcome \<times> app_engine) panics" where
  "run_command io (Execute s) e = dispatch io s e"
| "run_command io (ExecCell rid sid code files stdin wall_ms) e =
     map_returns (\<lambda>(r, v). (cell_cmd r, put_session v e)) (run_cell (ai_cell io) rid sid code files wall_ms (session_view e))"
| "run_command io (CmdRlStep rid eid action) e = on_episodes (rl_step (ai_rl io) rid eid action) e"
| "run_command io (CmdRlSteps rid eid actions) e = on_episodes (steps_batch (ai_rl io) rid eid actions) e"
| "run_command io (RlSnapshot rid eid) e = on_episodes (rl_snapshot (ai_rl io) rid eid) e"
| "run_command io (RlPrespawn s) e =
     Returns (CmdOk [] [], put_rl (schedule_prespawn (ai_start io) s (rl_view e)) e)"
| "run_command io (RlClose rid eid) e =
     map_returns (\<lambda>(r, e1). (r, prespawn_like (ai_start io) (ae_episodes e eid) e1))
       (on_episodes (rl_close (ai_rl io) rid eid) e)"
| "run_command io (Stdin bytes) e = Returns (CmdOk [] [], send_stdin bytes e)"
| "run_command io (Interrupt rid) e = Returns (CmdOk [] [], interrupt e)"
| "run_command io (Lsp p) e =
     (case lsp_relay (json_ops.truncate (ai_json io)) (ai_lsp io) p (lsp_view e) of
        (r, v) \<Rightarrow> Returns (sum_cmd r, put_lsp v e))"
| "run_command io Shutdown e = Returns (CmdOk [] [], e)"

section \<open>The loop\<close>

text \<open>
  What the loop sees next: a command (read from the port), a read that failed, or a turn of a background
  boot of a warm worker, which runs between commands.
\<close>

datatype 'v app_event =
    AppRead "'v app_io" command
  | AppReadFails string
  | AppBoot start_io string                  \<comment> \<open>the world of the boot and the name of its volume\<close>

datatype loop_end = LoopWaits | LoopStopped | LoopHangs | LoopPanics

definition unknown_result :: "string \<Rightarrow> response" where
  "unknown_result m = Result
     \<lparr>r_request_id = ''unknown'', r_status = EngineError, r_exit_code = - 1, r_exec_time_ms = 0, r_memory_peak_mb = 0,
      r_cpu_time_ms = 0, r_output_bytes = 0, r_output_truncated = False, r_output = [], r_errors = m\<rparr>"

fun responses_of :: "cmd_outcome \<Rightarrow> response list" where
  "responses_of CmdHangs = []"
| "responses_of (CmdErr m) = [unknown_result m]"
| "responses_of (CmdOk rs cs) = rs"

definition background_boot :: "start_io \<Rightarrow> string \<Rightarrow> app_engine \<Rightarrow> app_engine panics" where
  "background_boot io name e =
     (case ae_pending e of
        [] \<Rightarrow> Returns e
      | template # rest \<Rightarrow>
          map_returns (\<lambda>v. put_rl v e) (boot_warm io template name ((rl_view e)\<lparr>eg_pending := rest\<rparr>)))"

text \<open>A panic of a background boot ends its task only; the engine goes on.\<close>

fun app_loop :: "'v app_event list \<Rightarrow> app_engine \<Rightarrow> (command \<times> response list) list \<times> app_engine \<times> loop_end" where
  "app_loop [] e = ([], e, LoopWaits)"
| "app_loop (AppReadFails m # evs) e = ([], e, LoopStopped)"
| "app_loop (AppBoot io name # evs) e =
     app_loop evs (case background_boot io name e of Panic \<Rightarrow> e\<lparr>ae_pending := tl (ae_pending e)\<rparr> | Returns e1 \<Rightarrow> e1)"
| "app_loop (AppRead io cmd # evs) e =
     (if cmd = Shutdown then ([], e, LoopStopped)
      else case run_command io cmd e of
        Panic \<Rightarrow> ([], e, LoopPanics)
      | Returns (CmdHangs, e1) \<Rightarrow> ([], e1, LoopHangs)
      | Returns (out, e1) \<Rightarrow>
          (case app_loop evs e1 of (rest, e2, fin) \<Rightarrow> ((cmd, responses_of out) # rest, e2, fin)))"


section \<open>Every command is answered once, in order, under its own id\<close>





lemma map_returns_Returns: "map_returns f m = Returns y \<Longrightarrow> \<exists>x. m = Returns x \<and> y = f x"
  by (cases m) auto












text \<open>One turn of the loop: the command ends it, or it is answered and the loop goes on.\<close>

lemma app_loop_turn:
  assumes "app_loop (AppRead io cmd # evs) e = (answered, e', fin)"
  obtains (stop) "cmd = Shutdown" "answered = []" "e' = e" "fin = LoopStopped"
  | (dead) "cmd \<noteq> Shutdown" "answered = []" "fin = LoopHangs \<or> fin = LoopPanics"
      "e' = e \<or> run_command io cmd e = Returns (CmdHangs, e')"
  | (go) out e1 rest where "cmd \<noteq> Shutdown" "run_command io cmd e = Returns (out, e1)" "out \<noteq> CmdHangs"
      "app_loop evs e1 = (rest, e', fin)" "answered = (cmd, responses_of out) # rest"
proof (cases "cmd = Shutdown")
  case True
  with assms stop show thesis by simp
next
  case cmd: False
  show thesis
  proof (cases "run_command io cmd e")
    case Panic
    with assms cmd show thesis by (intro dead) auto
  next
    case (Returns y)
    obtain out e1 where y: "y = (out, e1)" by fastforce
    show thesis
    proof (cases "out = CmdHangs")
      case True
      with assms cmd Returns y show thesis by (intro dead) auto
    next
      case False
      obtain rest e2 fin2 where l: "app_loop evs e1 = (rest, e2, fin2)" by (metis prod_cases3)
      have "answered = (cmd, responses_of out) # rest" "e' = e2" "fin = fin2"
        using assms cmd Returns y l False by (cases out; simp)+
      with go [OF cmd _ False] Returns y l show thesis by blast
    qed
  qed
qed



section \<open>What the composition does not do\<close>

lemma put_current [simp]:
  "ae_current (put_session v e) = ae_current e" "ae_current (put_rl w e) = ae_current e"
  "ae_current (put_episodes st e) = ae_current e" "ae_current (put_lsp l e) = ae_current e"
  "ae_current (set_language g e) = ae_current e"
  "ae_current (prespawn_like sio eo e) = ae_current e"
  by (simp_all add: put_session_def put_rl_def put_episodes_def put_lsp_def set_language_def prespawn_like_def split: option.split)

lemma dispatch_current: "dispatch io s e = Returns (out, e') \<Longrightarrow> ae_current e' = ae_current e"
  by (auto simp: dispatch_def exec_in_def zygote_in_def microvm_in_def session_in_def rl_in_def Let_def case_prod_unfold
      split: mode.splits if_splits dest!: map_returns_Returns)

lemma run_command_current:
  assumes "run_command io cmd e = Returns (out, e')" "ae_current e = None"
  shows "ae_current e' = None"
proof (cases cmd)
  case (Execute s)
  with assms dispatch_current [of io s e out e'] show ?thesis by simp
qed (use assms in \<open>auto simp: on_episodes_def send_stdin_def interrupt_def split: prod.splits dest!: map_returns_Returns\<close>)

lemma background_boot_current: "background_boot io name e = Returns e1 \<Longrightarrow> ae_current e1 = ae_current e"
  by (auto simp: background_boot_def split: list.splits dest!: map_returns_Returns)

lemma app_loop_current:
  "app_loop evs e = (answered, e', fin) \<Longrightarrow> ae_current e = None \<Longrightarrow> ae_current e' = None"
proof (induction evs arbitrary: e answered e' fin)
  case (Cons ev evs)
  show ?case
  proof (cases ev)
    case (AppRead io cmd)
    from Cons.prems(1) [unfolded AppRead] show ?thesis
    proof (cases rule: app_loop_turn)
      case (go out e1 rest)
      from Cons.IH [OF go(4)] run_command_current [OF go(2) Cons.prems(2)] show ?thesis by blast
    qed (use Cons.prems(2) run_command_current [of io cmd e] in auto)
  next
    case (AppBoot io name)
    let ?e1 = "case background_boot io name e of Panic \<Rightarrow> e\<lparr>ae_pending := tl (ae_pending e)\<rparr> | Returns e1 \<Rightarrow> e1"
    have "ae_current ?e1 = None"
      using Cons.prems(2) background_boot_current [of io name e] by (cases "background_boot io name e") auto
    with Cons.IH Cons.prems(1) [unfolded AppBoot app_loop.simps] show ?thesis by blast
  qed (use Cons.prems in auto)
qed simp

text \<open>
  Input and interrupts never reach a program. No handler ever stores a running request in the shared state,
  so from the engine's start on every \<^verbatim>\<open>Stdin\<close> and every \<^verbatim>\<open>Interrupt\<close> command is a no-op, and no answer says so.
\<close>

theorem input_and_interrupts_are_lost:
  assumes "app_loop evs (engine_new part vols vm) = (answered, e, fin)"
  shows "run_command io (Stdin bytes) e = Returns (CmdOk [] [], e) \<and> run_command io (Interrupt rid) e = Returns (CmdOk [] [], e)"
proof -
  have "ae_current e = None" by (rule app_loop_current [OF assms]) (simp add: engine_new_def)
  then show ?thesis by (simp add: send_stdin_def interrupt_def)
qed

text \<open>
  A request that asks for a microVM is never run in the shared-kernel sandbox when its mode is \<^verbatim>\<open>exec\<close>: the
  launcher, its cgroups and the zygote are left alone, whatever the tier answers.
\<close>

theorem microvm_never_falls_back:
  assumes "s_mode s = Exec" "s_isolation s = Microvm" "dispatch io s e = Returns (out, e')"
  shows "ae_part e' = ae_part e \<and> ae_zygote e' = ae_zygote e \<and> out = CmdOk [fst (microvm_run (ai_vm io) (ai_json io) s (ae_vm e))] []"
  using assms by (auto simp: dispatch_def microvm_in_def set_language_def Let_def split: prod.splits)

text \<open>
  The other modes ignore the tier: a session opened with \<^verbatim>\<open>isolation = microvm\<close> is accepted with the answer of
  a session opened with the sandbox, and no microVM is started for it; its cells run in the shared-kernel sandbox.
\<close>

theorem session_ignores_microvm_isolation:
  assumes "s_mode s = Session"
  shows "\<exists>out e1 e2. dispatch io (s\<lparr>s_isolation := Microvm\<rparr>) e = Returns (out, e1) \<and>
    dispatch io (s\<lparr>s_isolation := Sandbox\<rparr>) e = Returns (out, e2) \<and> ae_vm e1 = ae_vm e \<and>
    ae_part e1 = ae_part e2"
  using assms
  by (auto simp: dispatch_def session_in_def start_or_attach_def put_session_def session_view_def set_language_def Let_def
      split: option.split)
section \<open>Witnesses\<close>

text \<open>An engine without launcher, a relay before any \<^verbatim>\<open>Execute\<close>, a step of an unknown episode, an interrupt, a VM request, a shutdown.\<close>

definition demo_app_io :: "demo_value app_io" where
  "demo_app_io =
     \<lparr>ai_zygote = demo_zygote_io [], ai_cell = demo_cell_io, ai_start = demo_start, ai_rl = demo_rl_io dead_pipe,
      ai_vm = (demo_vm_host True)\<lparr>vh_present := (\<lambda>_. False)\<rparr>, ai_json = demo_vm_json, ai_lsp = demo_lsp_env []\<rparr>"

definition demo_app :: app_engine where
  "demo_app = engine_new demo_engine Map.empty demo_vm_world"

definition demo_events :: "demo_value app_event list" where
  "demo_events =
     [AppRead demo_app_io (Lsp demo_lsp_params), AppRead demo_app_io (CmdRlStep ''r1'' ''ep'' []),
      AppRead demo_app_io (Interrupt ''r1''), AppRead demo_app_io (Execute (minimal_settings\<lparr>s_isolation := Microvm\<rparr>)),
      AppRead demo_app_io Shutdown]"

lemma demo_minimal: "s_mode minimal_settings = Exec" "s_request_id minimal_settings = ''req_test''"
  by (simp_all add: minimal_settings_def)

lemma demo_dispatch:
  "\<exists>r e'. dispatch demo_app_io (minimal_settings\<lparr>s_isolation := Microvm\<rparr>) e = Returns (CmdOk [r] [], e')"
  by (simp add: dispatch_def demo_minimal microvm_in_def case_prod_unfold Let_def)

lemma app_loop_step:
  "cmd \<noteq> Shutdown \<Longrightarrow> run_command io cmd e = Returns (CmdOk rs cs, e1) \<Longrightarrow>
     app_loop (AppRead io cmd # evs) e = (case app_loop evs e1 of (rest, e2, fin) \<Rightarrow> ((cmd, rs) # rest, e2, fin))"
  by simp

lemma demo_loop: "\<exists>answered e'. app_loop demo_events demo_app = (answered, e', LoopStopped) \<and> length answered = 4"
proof -
  have "ae_language demo_app = None" by (simp add: demo_app_def engine_new_def)
  then obtain rs1 e1 where 1: "run_command demo_app_io (Lsp demo_lsp_params) demo_app = Returns (CmdOk rs1 [], e1)"
    by (simp add: lsp_relay_def lsp_view_def)
  obtain rs2 e2 where 2: "run_command demo_app_io (CmdRlStep ''r1'' ''ep'' []) e1 = Returns (CmdOk rs2 [], e2)"
    by (simp add: on_episodes_def case_prod_unfold)
  obtain e3 where 3: "run_command demo_app_io (Interrupt ''r1'') e2 = Returns (CmdOk [] [], e3)" by simp
  obtain r4 e4 where 4: "run_command demo_app_io (Execute (minimal_settings\<lparr>s_isolation := Microvm\<rparr>)) e3 = Returns (CmdOk [r4] [], e4)"
    using demo_dispatch [of e3] by auto
  show ?thesis
    unfolding demo_events_def
    by (simp add: app_loop_step [OF _ 1] app_loop_step [OF _ 2] app_loop_step [OF _ 3] app_loop_step [OF _ 4]
        del: run_command.simps app_loop.simps(4)) (simp add: app_loop.simps(4))
qed


theorem input_and_interrupts_are_lost_witness:
  "case app_loop demo_events (engine_new demo_engine Map.empty demo_vm_world) of (answered, e, fin) \<Rightarrow>
     run_command demo_app_io (Stdin [1]) e = Returns (CmdOk [] [], e) \<and>
     run_command demo_app_io (Interrupt ''r1'') e = Returns (CmdOk [] [], e)"
proof -
  obtain answered e where l: "app_loop demo_events (engine_new demo_engine Map.empty demo_vm_world) = (answered, e, LoopStopped)"
    using demo_loop unfolding demo_app_def by blast
  from input_and_interrupts_are_lost [OF l] l show ?thesis by simp
qed

theorem microvm_never_falls_back_witness:
  "case dispatch demo_app_io (minimal_settings\<lparr>s_isolation := Microvm\<rparr>) demo_app of
     Returns (out, e') \<Rightarrow> ae_part e' = ae_part demo_app \<and> ae_zygote e' = ae_zygote demo_app \<and>
       out = CmdOk [fst (microvm_run (ai_vm demo_app_io) (ai_json demo_app_io) (minimal_settings\<lparr>s_isolation := Microvm\<rparr>) (ae_vm demo_app))] []
   | Panic \<Rightarrow> False"
proof -
  obtain r e' where d: "dispatch demo_app_io (minimal_settings\<lparr>s_isolation := Microvm\<rparr>) demo_app = Returns (CmdOk [r] [], e')"
    using demo_dispatch by blast
  from microvm_never_falls_back [OF _ _ d] d show ?thesis by (simp add: demo_minimal)
qed

theorem session_ignores_microvm_isolation_witness:
  "\<exists>out e1 e2. dispatch demo_app_io (minimal_settings\<lparr>s_mode := Session, s_isolation := Microvm\<rparr>) demo_app = Returns (out, e1) \<and>
    dispatch demo_app_io (minimal_settings\<lparr>s_mode := Session, s_isolation := Sandbox\<rparr>) demo_app = Returns (out, e2) \<and>
    ae_vm e1 = ae_vm demo_app \<and> ae_part e1 = ae_part e2"
  using session_ignores_microvm_isolation [of "minimal_settings\<lparr>s_mode := Session\<rparr>" demo_app_io demo_app] by simp
section \<open>The shared state stays well formed\<close>

text \<open>
  What each map of the engine may hold: a session under its own id and of a language that has sessions, an episode under
  the id of the request that started it and in Python, a language server under its language, and two
  warm slots.
\<close>

definition sessions_typed :: "(string \<rightharpoonup> settings) \<Rightarrow> bool" where
  "sessions_typed m \<longleftrightarrow> (\<forall>sid s. m sid = Some s \<longrightarrow> s_session_id s = Some sid \<and> supports_session (s_language s))"

definition episodes_typed :: "(string \<rightharpoonup> episode_entry) \<Rightarrow> bool" where
  "episodes_typed m \<longleftrightarrow>
     (\<forall>eid en. m eid = Some en \<longrightarrow> s_request_id (ee_settings en) = eid \<and> s_language (ee_settings en) = Python)"

definition servers_typed :: "(language \<rightharpoonup> lsp_server) \<Rightarrow> bool" where
  "servers_typed m \<longleftrightarrow> (\<forall>l sv. m l = Some sv \<longrightarrow> ls_language sv = l \<and> ls_bin sv = fst (resolve_server l))"

definition engine_typed :: "app_engine \<Rightarrow> bool" where
  "engine_typed e \<longleftrightarrow> sessions_typed (ae_sessions e) \<and> episodes_typed (ae_episodes e) \<and> servers_typed (ae_lsp e) \<and> length (ae_warm e) = 2"

text \<open>Episode operations keep the settings of every entry.\<close>

lemma episodes_typed_sub:
  assumes "episodes_typed m" "\<And>eid en. m' eid = Some en \<Longrightarrow> \<exists>en0. m eid = Some en0 \<and> ee_settings en = ee_settings en0"
  shows "episodes_typed m'"
  using assms unfolding episodes_typed_def by metis

lemma update_entry_settings:
  "(\<And>en. ee_settings (f en) = ee_settings en) \<Longrightarrow> rl_episodes (update_entry eid f st) x = Some en \<Longrightarrow>
     \<exists>en0. rl_episodes st x = Some en0 \<and> ee_settings en = ee_settings en0"
  by (auto simp: update_entry_def split: option.splits if_splits)

lemma kill_locked_settings:
  "rl_episodes (kill_locked env eid st) x = Some en \<Longrightarrow> \<exists>en0. rl_episodes st x = Some en0 \<and> ee_settings en = ee_settings en0"
  by (auto simp: kill_locked_def split: option.splits if_splits)

lemma entry_settings [simp]: "ee_settings (step_entry io t w en) = ee_settings en"
  by (simp add: step_entry_def)

lemma episode_ops_settings:
  "rl_episodes (snd (rl_step io rid eid action st)) x = Some en \<Longrightarrow> \<exists>en0. rl_episodes st x = Some en0 \<and> ee_settings en = ee_settings en0"
  "rl_episodes (snd (rl_snapshot io rid eid st)) x = Some en \<Longrightarrow> \<exists>en0. rl_episodes st x = Some en0 \<and> ee_settings en = ee_settings en0"
  "rl_episodes (snd (rl_close io rid eid st)) x = Some en \<Longrightarrow> \<exists>en0. rl_episodes st x = Some en0 \<and> ee_settings en = ee_settings en0"
  "rl_episodes (snd (steps_batch io rid eid actions st)) x = Some en \<Longrightarrow> \<exists>en0. rl_episodes st x = Some en0 \<and> ee_settings en = ee_settings en0"
  by (cases "x = eid"; auto simp: rl_step_def rl_snapshot_def rl_close_def steps_batch_def kill_locked_def update_entry_def Let_def
      split: option.splits step_outcome.splits if_splits)+

lemma on_episodes_typed:
  assumes "on_episodes f e = Returns (out, e')" "engine_typed e"
    and "\<And>x en. rl_episodes (snd (f (episodes_view e))) x = Some en \<Longrightarrow> \<exists>en0. rl_episodes (episodes_view e) x = Some en0 \<and> ee_settings en = ee_settings en0"
  shows "engine_typed e'"
proof -
  have "episodes_typed (rl_episodes (snd (f (episodes_view e))))"
    by (rule episodes_typed_sub [of "ae_episodes e"]) (use assms(2,3) in \<open>auto simp: engine_typed_def episodes_view_def\<close>)
  with assms(1,2) show ?thesis by (auto simp: on_episodes_def engine_typed_def put_episodes_def split: prod.splits)
qed

text \<open>Warm slots are filled and emptied, never added.\<close>

lemma take_warm_length: "take_warm ws = Some (w, ws') \<Longrightarrow> length ws' = length ws"
  by (induction ws arbitrary: w ws' rule: take_warm.induct) auto

lemma eg_warm_simps [simp]:
  "eg_warm (eg_set_fs fs v) = eg_warm v" "eg_warm (eg_drop env w v) = eg_warm v" "eg_warm (schedule_prespawn io s v) = eg_warm v"
  "eg_warm (write_manifest io dir s v) = eg_warm v" "eg_warm (insert_episode env eid en v) = eg_warm v"
  by (simp_all add: eg_set_fs_def eg_drop_def schedule_prespawn_def write_manifest_def insert_episode_def split: option.split)

lemma claim_warm_length: "claim_warm io s eid dir resume v = (r, v') \<Longrightarrow> length (eg_warm v') = length (eg_warm v)"
  by (auto simp: claim_warm_def Let_def dest: take_warm_length split: if_splits option.splits prod.splits sum.splits bool.splits)

lemma rl_start_warm: "rl_start io s v = Returns (r, v') \<Longrightarrow> length (eg_warm v') = length (eg_warm v)"
  by (auto simp: rl_start_def Let_def split: if_splits prod.splits panics.splits sum.splits dest!: claim_warm_length)

lemma boot_warm_typed:
  "boot_warm io template name v = Returns v' \<Longrightarrow> length (eg_warm v') = length (eg_warm v) \<and> eg_episodes v' = eg_episodes v"
  by (auto simp: boot_warm_def Let_def split: option.splits if_splits panics.splits prod.splits sum.splits list.splits)

lemma rl_start_typed:
  assumes "rl_start io s v = Returns (r, v')" "episodes_typed (eg_episodes v)"
  shows "episodes_typed (eg_episodes v')"
proof (cases "s_language s = Python \<and> ep_launcher (eg_part v) \<noteq> None \<and> so_mkdir_ok io")
  case True
  then show ?thesis
    using rl_start_body [OF _ _ _ assms(1)] assms(2)
    by (auto simp: episodes_typed_def insert_episode_def new_entry_def eg_set_fs_def split: if_splits)
next
  case False
  then have "v' = v" using assms(1) by (auto simp: rl_start_def Let_def split: if_splits)
  with assms(2) show ?thesis by simp
qed
text \<open>The language servers keep their identity.\<close>

lemma lsp_call_keeps: "ls_language (snd (lsp_call jo io verb params sv)) = ls_language sv \<and> ls_bin (snd (lsp_call jo io verb params sv)) = ls_bin sv"
proof -
  have r: "ls_language (snd (reader_loop jo eof bs v)) = ls_language v \<and> ls_bin (snd (reader_loop jo eof bs v)) = ls_bin v" for eof bs v
    by (simp add: reader_loop_def case_prod_unfold)
  have w: "ls_language (snd (RB_Lsp.write_frame jo wio x v)) = ls_language v \<and> ls_bin (snd (RB_Lsp.write_frame jo wio x v)) = ls_bin v" for wio x v
    by (simp add: RB_Lsp.write_frame_def split: sum.split prod.split)
  have a: "ls_language (snd (lsp_await jo io i v)) = ls_language v \<and> ls_bin (snd (lsp_await jo io i v)) = ls_bin v" for i v
    using r by (simp add: lsp_await_def case_prod_unfold split: option.split)
  show ?thesis
    using r w a by (simp add: lsp_call_def alloc_id_def case_prod_unfold split: sum.split)
qed

lemma spawn_server_typed: "spawn_server jo env l = Inr sv \<Longrightarrow> ls_language sv = l \<and> ls_bin sv = fst (resolve_server l)"
  by (auto simp: spawn_server_def lsp_initialize_def alloc_id_def RB_Lsp.write_frame_def case_prod_unfold split: sum.splits)

lemma lsp_relay_typed:
  assumes "lsp_relay jo env p st = (r, st')" "servers_typed (lp_servers st)"
  shows "servers_typed (lp_servers st')"
proof (cases "lp_language st")
  case None
  with assms show ?thesis by (auto simp: lsp_relay_def)
next
  case (Some l)
  show ?thesis
  proof (cases "get_or_spawn jo env l st")
    case (Inl m)
    with assms Some show ?thesis by (auto simp: lsp_relay_def)
  next
    case (Inr sv)
    then have "ls_language sv = l \<and> ls_bin sv = fst (resolve_server l)"
      using assms(2) spawn_server_typed [of jo env l sv] by (auto simp: get_or_spawn_def servers_typed_def split: option.splits)
    then have ok: "servers_typed ((lp_servers st)(l \<mapsto> v))" if "ls_language v = ls_language sv" "ls_bin v = ls_bin sv" for v
      using assms(2) that by (simp add: servers_typed_def)
    show ?thesis
    proof (cases "decode_params jo (lsp_params.lsp_params p)")
      case e: (Inl m)
      with assms(1) Some Inr ok show ?thesis by (auto simp: lsp_relay_def)
    next
      case v: (Inr v)
      have "lp_servers st' = (lp_servers st)(l \<mapsto> snd (lsp_call jo (lv_io env) (lsp_method p) v sv))"
        using assms(1) unfolding lsp_relay_call [OF Some Inr v] by auto
      then show ?thesis using ok [OF conjunct1 [OF lsp_call_keeps] conjunct2 [OF lsp_call_keeps]] by simp
    qed
  qed
qed

lemma dispatch_typed:
  assumes "dispatch io s e = Returns (out, e')" "engine_typed e"
  shows "engine_typed e'"
proof -
  let ?e = "set_language (s_language s) e"
  have e: "engine_typed ?e" using assms(2) by (simp add: engine_typed_def set_language_def)
  have ex: ?thesis if "exec_in io s ?e = Returns (out, e')"
    using that e by (auto simp: exec_in_def engine_typed_def Let_def dest!: map_returns_Returns)
  have zy: ?thesis if "zygote_in io s ?e = Returns (out, e')"
    using that e by (auto simp: zygote_in_def engine_typed_def dest!: map_returns_Returns)
  have vm: ?thesis if "microvm_in io s ?e = (out, e')"
    using that e by (auto simp: microvm_in_def engine_typed_def split: prod.splits)
  have se: ?thesis if "session_in io s ?e = (out, e')"
    using that e
    by (auto simp: session_in_def start_or_attach_def engine_typed_def sessions_typed_def put_session_def session_view_def Let_def
        split: prod.splits option.splits if_splits)
  have rl: ?thesis if "rl_in io s ?e = Returns (out, e')"
  proof -
    from map_returns_Returns [OF that [unfolded rl_in_def]] obtain r v where
        v: "rl_start (ai_start io) s (rl_view ?e) = Returns (r, v)" and e': "e' = put_rl v ?e" by auto
    with e rl_start_typed [OF v] rl_start_warm [OF v] show ?thesis by (simp add: engine_typed_def put_rl_def rl_view_def)
  qed
  show ?thesis
    using assms(1) ex zy rl vm se unfolding dispatch_def Let_def by (cases "s_mode s") (auto split: if_splits)
qed

lemma run_cell_sessions: "run_cell io rid sid code files wall v = Returns (r, v') \<Longrightarrow> sn_sessions v' = sn_sessions v"
  by (auto simp: run_cell_def run_fresh_cell_def Let_def split: option.splits if_splits panics.splits prod.splits sum.splits)

lemma prespawn_like_typed [simp]: "engine_typed (prespawn_like sio eo e) = engine_typed e"
  by (simp add: prespawn_like_def engine_typed_def put_rl_def rl_view_def split: option.split)

lemma run_command_typed:
  assumes "run_command io cmd e = Returns (out, e')" "engine_typed e"
  shows "engine_typed e'"
proof (cases cmd)
  case (Execute s)
  with assms dispatch_typed show ?thesis by simp
next
  case (ExecCell rid sid code files stdin wall)
  from map_returns_Returns [OF assms(1) [unfolded ExecCell run_command.simps]] obtain r v where
      v: "run_cell (ai_cell io) rid sid code files wall (session_view e) = Returns (r, v)" and e': "e' = put_session v e" by auto
  from run_cell_sessions [OF v] assms(2) show ?thesis by (simp add: e' engine_typed_def put_session_def session_view_def)
next
  case (Lsp p)
  obtain r v where v: "lsp_relay (json_ops.truncate (ai_json io)) (ai_lsp io) p (lsp_view e) = (r, v)" by fastforce
  from lsp_relay_typed [OF v] assms v show ?thesis by (auto simp: Lsp engine_typed_def put_lsp_def lsp_view_def)
next
  case (RlClose rid eid)
  from map_returns_Returns [OF assms(1) [unfolded RlClose run_command.simps]] obtain r e1 where
      c: "on_episodes (rl_close (ai_rl io) rid eid) e = Returns (r, e1)" and e': "e' = prespawn_like (ai_start io) (ae_episodes e eid) e1" by auto
  from on_episodes_typed [OF c assms(2)] episode_ops_settings(3) show ?thesis unfolding e' prespawn_like_typed by blast
next
  case (CmdRlStep rid eid action)
  from on_episodes_typed [OF assms(1) [unfolded CmdRlStep run_command.simps] assms(2)] episode_ops_settings(1) show ?thesis by blast
next
  case (CmdRlSteps rid eid actions)
  from on_episodes_typed [OF assms(1) [unfolded CmdRlSteps run_command.simps] assms(2)] episode_ops_settings(4) show ?thesis by blast
next
  case (RlSnapshot rid eid)
  from on_episodes_typed [OF assms(1) [unfolded RlSnapshot run_command.simps] assms(2)] episode_ops_settings(2) show ?thesis by blast
next
  case (RlPrespawn s)
  with assms show ?thesis by (auto simp: engine_typed_def put_rl_def rl_view_def schedule_prespawn_def)
qed (use assms in \<open>auto simp: engine_typed_def send_stdin_def interrupt_def split: option.splits\<close>)

lemma background_boot_typed: "background_boot io name e = Returns e1 \<Longrightarrow> engine_typed e \<Longrightarrow> engine_typed e1"
  by (auto simp: background_boot_def engine_typed_def put_rl_def rl_view_def split: list.splits
      dest!: map_returns_Returns boot_warm_typed)

text \<open>
  C9. Type invariant of the engine: from its start on, over every sequence of commands and background boots and
  whatever handlers do or fail to do, a session is stored under its own id and in a language that has
  sessions, an episode under the id of the request that started it and in Python, a language server under its
  language with that language's binary, and there are two warm slots.
\<close>

theorem engine_state_well_typed:
  assumes "app_loop evs e = (answered, e', fin)" "engine_typed e"
  shows "engine_typed e'"
  using assms
proof (induction evs arbitrary: e answered e' fin)
  case (Cons ev evs)
  show ?case
  proof (cases ev)
    case (AppRead io cmd)
    from Cons.prems(1) [unfolded AppRead] show ?thesis
    proof (cases rule: app_loop_turn)
      case (go out e1 rest)
      from Cons.IH [OF go(4)] run_command_typed [OF go(2) Cons.prems(2)] show ?thesis by blast
    qed (use Cons.prems(2) run_command_typed [of io cmd e] in auto)
  next
    case (AppBoot io name)
    let ?e1 = "case background_boot io name e of Panic \<Rightarrow> e\<lparr>ae_pending := tl (ae_pending e)\<rparr> | Returns e1 \<Rightarrow> e1"
    have "engine_typed ?e1"
      using Cons.prems(2) background_boot_typed [of io name e]
      by (cases "background_boot io name e") (auto simp: engine_typed_def)
    with Cons.IH Cons.prems(1) [unfolded AppBoot app_loop.simps] show ?thesis by blast
  qed (use Cons.prems in auto)
qed simp

theorem engine_state_well_typed_witness:
  "engine_typed (fst (snd (app_loop demo_events demo_app)))"
proof -
  obtain answered e' where l: "app_loop demo_events demo_app = (answered, e', LoopStopped)" using demo_loop by blast
  have "engine_typed demo_app"
    by (simp add: demo_app_def engine_new_def engine_typed_def sessions_typed_def episodes_typed_def servers_typed_def)
  from engine_state_well_typed [OF l this] show ?thesis by (simp add: l)
qed

end
