(* ===== verification/RB_Netns.thy ===== *)
theory RB_Netns
  imports RB_Launch
begin

text \<open>
  The shared network-namespace template (\<^verbatim>\<open>kernel/src/linux/netns.rs\<close>) and its use by the launcher:
  which network namespace each thread of the engine is in, which one each child is born in.
  \<^verbatim>\<open>unshare\<close> and \<^verbatim>\<open>setns\<close> act on the calling thread, and launches run on threads of a pool, so the
  namespace is a map from threads. The theorems: no child is ever born in the engine's own network
  namespace, over every sequence of launches and failures, and the launcher model of \<^verbatim>\<open>RB_Launch\<close> is
  what this detailed one returns.
\<close>

section \<open>Namespaces of threads and children\<close>

record net_world =
  nn_of :: "nat \<Rightarrow> nat"              \<comment> \<open>the namespace of a thread\<close>
  nn_next :: nat                     \<comment> \<open>the next namespace the kernel creates\<close>
  nn_up :: "nat list"                \<comment> \<open>namespaces whose loopback is up\<close>
  nn_children :: "(nat \<times> nat) list"  \<comment> \<open>pid and namespace at birth, newest first\<close>

definition net_boot :: "nat \<Rightarrow> net_world" where
  "net_boot host = \<lparr>nn_of = (\<lambda>_. host), nn_next = Suc host, nn_up = [host], nn_children = []\<rparr>"

definition unshare_net :: "nat \<Rightarrow> net_world \<Rightarrow> net_world" where
  "unshare_net t w = w\<lparr>nn_of := (nn_of w)(t := nn_next w), nn_next := Suc (nn_next w)\<rparr>"

definition setns_net :: "nat \<Rightarrow> nat \<Rightarrow> net_world \<Rightarrow> net_world" where
  "setns_net ns t w = w\<lparr>nn_of := (nn_of w)(t := ns)\<rparr>"

section \<open>The template\<close>

text \<open>The two descriptors; a descriptor is the namespace it pins.\<close>

record netns_fds =
  nf_host :: nat
  nf_template :: nat

text \<open>\<^verbatim>\<open>open_ns_net\<close>: a descriptor of the calling thread's namespace, or the error of the open.\<close>

definition open_ns_net :: "string option \<Rightarrow> nat \<Rightarrow> net_world \<Rightarrow> sandbox_error + nat" where
  "open_ns_net err t w =
     (case err of Some e \<Rightarrow> Inl (NetErr (''/proc/self/ns/net: '' @ e)) | None \<Rightarrow> Inr (nn_of w t))"

record lo_answers =
  lo_socket_ok :: bool
  lo_get_ok :: bool
  lo_set_ok :: bool

definition bring_lo_up :: "lo_answers \<Rightarrow> nat \<Rightarrow> net_world \<Rightarrow> (sandbox_error + unit) \<times> net_world" where
  "bring_lo_up a t w =
     (if \<not> lo_socket_ok a then (Inl (NetErr ''socket for lo up failed''), w)
      else (Inr (), if lo_get_ok a \<and> lo_set_ok a then w\<lparr>nn_up := nn_of w t # nn_up w\<rparr> else w))"

definition net_enter :: "bool \<Rightarrow> netns_fds \<Rightarrow> nat \<Rightarrow> net_world \<Rightarrow> (sandbox_error + unit) \<times> net_world" where
  "net_enter accepted f t w =
     (if accepted then (Inr (), setns_net (nf_template f) t w) else (Inl (NetErr ''setns(template) failed''), w))"

definition net_restore :: "bool \<Rightarrow> nat \<Rightarrow> nat \<Rightarrow> net_world \<Rightarrow> (sandbox_error + unit) \<times> net_world" where
  "net_restore accepted host t w =
     (if accepted then (Inr (), setns_net host t w) else (Inl (NetErr ''setns(host) failed''), w))"

record init_answers =
  ia_open_host :: "string option"
  ia_unshare_ok :: bool
  ia_lo :: lo_answers
  ia_open_template :: "string option"
  ia_restore_ok :: bool

definition netns_init :: "init_answers \<Rightarrow> nat \<Rightarrow> net_world \<Rightarrow> (sandbox_error + netns_fds) \<times> net_world" where
  "netns_init a t w =
     (case open_ns_net (ia_open_host a) t w of
        Inl e \<Rightarrow> (Inl e, w)
      | Inr host \<Rightarrow>
          if \<not> ia_unshare_ok a then (Inl (NetErr ''unshare(CLONE_NEWNET) for template failed''), w)
          else
            let w1 = snd (bring_lo_up (ia_lo a) t (unshare_net t w)) in
            (case open_ns_net (ia_open_template a) t w1 of
               Inl e \<Rightarrow> (Inl e, w1)
             | Inr template \<Rightarrow>
                 (case net_restore (ia_restore_ok a) host t w1 of
                    (Inl e, w2) \<Rightarrow> (Inl e, w2)
                  | (Inr _, w2) \<Rightarrow> (Inr \<lparr>nf_host = host, nf_template = template\<rparr>, w2))))"

text \<open>\<^verbatim>\<open>with_template\<close>: the answers of the two \<^verbatim>\<open>setns\<close> calls are those of the launcher's model.\<close>

definition with_template ::
    "netns_template \<Rightarrow> netns_fds \<Rightarrow> nat \<Rightarrow> (net_world \<Rightarrow> (sandbox_error + 'a) \<times> net_world) \<Rightarrow> net_world \<Rightarrow>
     (sandbox_error + 'a) \<times> net_world" where
  "with_template a f t act w =
     (case net_enter (nt_enter_ok a) f t w of
        (Inl e, w1) \<Rightarrow> (Inl e, w1)
      | (Inr _, w1) \<Rightarrow>
          (case act w1 of
             (out, w2) \<Rightarrow>
               (case net_restore (nt_restore_ok a) (nf_host f) t w2 of
                  (Inl e, w3) \<Rightarrow> (Inl e, w3)
                | (Inr _, w3) \<Rightarrow> (out, w3))))"

section \<open>Launches\<close>

text \<open>\<^verbatim>\<open>SandboxLauncher::new\<close>: without a template every launch asks for a fresh namespace.\<close>

definition launcher_netns :: "sandbox_error + netns_fds \<Rightarrow> netns_fds option" where
  "launcher_netns r = (case r of Inr f \<Rightarrow> Some f | Inl _ \<Rightarrow> None)"

text \<open>
  \<^verbatim>\<open>clone3\<close> as the network sees it: a child of a request with \<^verbatim>\<open>CLONE_NEWNET\<close> is born in a new
  namespace, another one in that of the calling thread.
\<close>

definition clone3_net ::
    "(clone_request \<Rightarrow> string + nat) \<Rightarrow> clone_request \<Rightarrow> nat \<Rightarrow> net_world \<Rightarrow> (string + nat) \<times> net_world" where
  "clone3_net clone3 req t w =
     (case clone3 req of
        Inl e \<Rightarrow> (Inl e, w)
      | Inr pid \<Rightarrow>
          (Inr pid,
           if clone_flags req AND CLONE_NEWNET \<noteq> 0
           then w\<lparr>nn_next := Suc (nn_next w), nn_children := (pid, nn_next w) # nn_children w\<rparr>
           else w\<lparr>nn_children := (pid, nn_of w t) # nn_children w\<rparr>))"

definition launcher_clone ::
    "netns_template \<Rightarrow> netns_fds option \<Rightarrow> (clone_request \<Rightarrow> string + nat) \<Rightarrow> cgroup \<Rightarrow> u64 \<Rightarrow> nat \<Rightarrow> net_world \<Rightarrow>
     (sandbox_error + nat \<times> bool) \<times> net_world" where
  "launcher_clone a netns clone3 cg flags t w =
     (let ns = flags_with_netns flags (netns \<noteq> None);
          act = (\<lambda>w. case clone3_net clone3 \<lparr>cq_namespaces = ns, cq_cgroup = Some (cg_path cg), cq_exit_signal = SIGCHLD\<rparr> t w of
                   (Inr pid, w1) \<Rightarrow> (Inr (pid, True), w1)
                 | (Inl _, w1) \<Rightarrow>
                     (case clone3_net clone3 \<lparr>cq_namespaces = ns, cq_cgroup = None, cq_exit_signal = SIGCHLD\<rparr> t w1 of
                        (Inr pid, w2) \<Rightarrow> (Inr (pid, False), w2)
                      | (Inl e, w2) \<Rightarrow> (Inl (Clone e), w2)))
      in case netns of Some f \<Rightarrow> with_template a f t act w | None \<Rightarrow> act w)"

text \<open>
  The life of an engine: the launcher is made on one thread, then any thread launches with any answers
  of the kernel, and threads start other threads, which inherit their namespace.
\<close>

inductive net_step :: "netns_fds option \<Rightarrow> net_world \<Rightarrow> net_world \<Rightarrow> bool" for netns where
  launches: "net_step netns w (snd (launcher_clone a netns clone3 cg full_isolation t w))"
| spawns: "net_step netns w (w\<lparr>nn_of := (nn_of w)(u := nn_of w t)\<rparr>)"

inductive net_reach :: "nat \<Rightarrow> netns_fds option \<Rightarrow> net_world \<Rightarrow> bool" where
  starts: "netns_init a t (net_boot host) = (r, w) \<Longrightarrow> net_reach host (launcher_netns r) w"
| runs: "net_reach host netns w \<Longrightarrow> net_step netns w w' \<Longrightarrow> net_reach host netns w'"

section \<open>The launcher's model is this one\<close>

lemma fst_clone3_net: "fst (clone3_net clone3 req t w) = clone3 req"
  by (simp add: clone3_net_def split: sum.split)

text \<open>
  The launcher of the other theories, which only knows whether the two \<^verbatim>\<open>setns\<close> calls succeed, is the
  projection of the detailed one: with the same answers both return the same child or the same error.
\<close>

theorem launcher_refines_namespaces:
  "fst (launcher_clone a netns clone3 cg flags t w) =
     clone_into_cgroup clone3 (map_option (\<lambda>_. a) netns) cg flags"
proof -
  define ns where "ns = flags_with_netns flags (netns \<noteq> None)"
  define r1 where "r1 = \<lparr>cq_namespaces = ns, cq_cgroup = Some (cg_path cg), cq_exit_signal = SIGCHLD\<rparr>"
  define r2 where "r2 = \<lparr>cq_namespaces = ns, cq_cgroup = None, cq_exit_signal = SIGCHLD\<rparr>"
  define act where "act w =
     (case clone3_net clone3 r1 t w of
        (Inr pid, w1) \<Rightarrow> (Inr (pid, True), w1)
      | (Inl _, w1) \<Rightarrow>
          (case clone3_net clone3 r2 t w1 of
             (Inr pid, w2) \<Rightarrow> (Inr (pid, False), w2)
           | (Inl e, w2) \<Rightarrow> (Inl (Clone e), w2)))" for w
  define out where "out =
     (case clone3 r1 of
        Inr pid \<Rightarrow> Inr (pid, True)
      | Inl _ \<Rightarrow> (case clone3 r2 of Inr pid \<Rightarrow> Inr (pid, False) | Inl e \<Rightarrow> Inl (Clone e)))"
  have out: "fst (act w) = out" for w
    by (auto simp: act_def out_def clone3_net_def split: sum.split)
  have d: "launcher_clone a netns clone3 cg flags t w =
      (case netns of Some f \<Rightarrow> with_template a f t act w | None \<Rightarrow> act w)"
    unfolding launcher_clone_def act_def r1_def r2_def ns_def Let_def ..
  have c: "clone_into_cgroup clone3 (map_option (\<lambda>_. a) netns) cg flags = with_netns (map_option (\<lambda>_. a) netns) out"
    unfolding clone_into_cgroup_def out_def r1_def r2_def ns_def Let_def map_option_is_None ..
  show ?thesis
  proof (cases netns)
    case None
    then show ?thesis unfolding c d by (simp add: out with_netns_def)
  next
    case (Some f)
    have "fst (with_template a f t act w) = with_netns (Some a) out"
      using out by (auto simp: with_template_def with_netns_def net_enter_def net_restore_def split: prod.splits)
        (metis fst_conv)
    then show ?thesis unfolding c d by (simp add: Some)
  qed
qed


section \<open>Where children are born\<close>



text \<open>The bit of the network namespace in the two kinds of request.\<close>

lemma newnet_bit:
  "clone_flags \<lparr>cq_namespaces = flags_with_netns full_isolation template, cq_cgroup = cg, cq_exit_signal = s\<rparr>
     AND CLONE_NEWNET = (if template then 0 else CLONE_NEWNET)"
  by (simp add: clone_flags_def flags_with_netns_def full_isolation_def CLONE_NEWUSER_def CLONE_NEWPID_def CLONE_NEWNS_def
      CLONE_NEWNET_def CLONE_NEWIPC_def CLONE_NEWUTS_def CLONE_PIDFD_def CLONE_CLEAR_SIGHAND_def CLONE_INTO_CGROUP_def)

lemma newnet_nonzero [simp]: "CLONE_NEWNET \<noteq> 0"
  by (simp add: CLONE_NEWNET_def)

text \<open>A launch changes the world by at most one child, born in the template or in a new namespace.\<close>

definition born_by :: "bool \<Rightarrow> nat \<Rightarrow> nat \<Rightarrow> net_world \<Rightarrow> net_world" where
  "born_by template pid t w =
     (if template then w\<lparr>nn_children := (pid, nn_of w t) # nn_children w\<rparr>
      else w\<lparr>nn_next := Suc (nn_next w), nn_children := (pid, nn_next w) # nn_children w\<rparr>)"

lemma clone3_net_full:
  "clone3_net clone3 \<lparr>cq_namespaces = flags_with_netns full_isolation template, cq_cgroup = cg, cq_exit_signal = s\<rparr> t w =
     (case clone3 \<lparr>cq_namespaces = flags_with_netns full_isolation template, cq_cgroup = cg, cq_exit_signal = s\<rparr> of
        Inl e \<Rightarrow> (Inl e, w) | Inr pid \<Rightarrow> (Inr pid, born_by template pid t w))"
  by (simp add: clone3_net_def newnet_bit born_by_def split: sum.split)

lemma two_attempts_cases:
  fixes w :: net_world
  assumes "(case clone3_net clone3 \<lparr>cq_namespaces = flags_with_netns full_isolation template, cq_cgroup = Some p, cq_exit_signal = s\<rparr> t w of
        (Inr pid, w1) \<Rightarrow> (Inr (pid, True), w1)
      | (Inl _, w1) \<Rightarrow>
          (case clone3_net clone3 \<lparr>cq_namespaces = flags_with_netns full_isolation template, cq_cgroup = None, cq_exit_signal = s\<rparr> t w1 of
             (Inr pid, w2) \<Rightarrow> (Inr (pid, False), w2)
           | (Inl e, w2) \<Rightarrow> (Inl (Clone e), w2))) = (r, w')"
  obtains (none) e where "w' = w" "r = Inl e" | (born) pid placed where "r = Inr (pid, placed)" "w' = born_by template pid t w"
  using assms unfolding clone3_net_full by (auto split: sum.splits)


lemma launcher_clone_template:
  assumes "launcher_clone a (Some f) clone3 cg full_isolation t w = (r, w')"
  obtains (refused) "w' = w" "\<exists>e. r = Inl e"
    | (entered) w1 out where "w1 = w\<lparr>nn_of := (nn_of w)(t := nf_template f)\<rparr> \<and> (\<exists>e. out = Inl e) \<or>
         (\<exists>pid placed. out = Inr (pid, placed) \<and>
            w1 = w\<lparr>nn_of := (nn_of w)(t := nf_template f), nn_children := (pid, nf_template f) # nn_children w\<rparr>)"
        "if nt_restore_ok a then w' = setns_net (nf_host f) t w1 \<and> r = out else w' = w1 \<and> (\<exists>e. r = Inl e)"
proof (cases "nt_enter_ok a")
  case False
  with assms have "w' = w" "\<exists>e. r = Inl e"
    by (auto simp: launcher_clone_def with_template_def net_enter_def Let_def)
  then show ?thesis by (rule refused)
next
  case True
  let ?w0 = "setns_net (nf_template f) t w"
  define att where "att w =
     (case clone3_net clone3 \<lparr>cq_namespaces = flags_with_netns full_isolation True, cq_cgroup = Some (cg_path cg), cq_exit_signal = SIGCHLD\<rparr> t w of
        (Inr pid, w1) \<Rightarrow> (Inr (pid, True), w1)
      | (Inl _, w1) \<Rightarrow>
          (case clone3_net clone3 \<lparr>cq_namespaces = flags_with_netns full_isolation True, cq_cgroup = None, cq_exit_signal = SIGCHLD\<rparr> t w1 of
             (Inr pid, w2) \<Rightarrow> (Inr (pid, False), w2)
           | (Inl e, w2) \<Rightarrow> (Inl (Clone e), w2)))" for w
  obtain out w1 where a: "att ?w0 = (out, w1)" by (cases "att ?w0") auto
  have r: "if nt_restore_ok a then w' = setns_net (nf_host f) t w1 \<and> r = out else w' = w1 \<and> (\<exists>e. r = Inl e)"
    using assms True a unfolding att_def
    by (auto simp: launcher_clone_def with_template_def net_enter_def net_restore_def Let_def)
  from a [unfolded att_def] have "w1 = w\<lparr>nn_of := (nn_of w)(t := nf_template f)\<rparr> \<and> (\<exists>e. out = Inl e) \<or>
      (\<exists>pid placed. out = Inr (pid, placed) \<and>
         w1 = w\<lparr>nn_of := (nn_of w)(t := nf_template f), nn_children := (pid, nf_template f) # nn_children w\<rparr>)"
    by (cases rule: two_attempts_cases) (auto simp: setns_net_def born_by_def)
  then show ?thesis using r by (rule entered)
qed




definition good_init :: init_answers where
  "good_init = \<lparr>ia_open_host = None, ia_unshare_ok = True, ia_lo = \<lparr>lo_socket_ok = True, lo_get_ok = True, lo_set_ok = True\<rparr>,
     ia_open_template = None, ia_restore_ok = True\<rparr>"

definition good_template :: netns_template where
  "good_template = \<lparr>nt_enter_ok = True, nt_restore_ok = True\<rparr>"

definition demo_cg :: cgroup where
  "demo_cg = \<lparr>cg_path = ''/c'', cg_swap = False, cg_killed = False\<rparr>"

text \<open>Two launches through the template on one thread; the second child is number 8.\<close>

definition two_children :: net_world where
  "two_children = snd (launcher_clone good_template (Some \<lparr>nf_host = 4, nf_template = 5\<rparr>) (\<lambda>_. Inr 8) demo_cg full_isolation 0
     (snd (launcher_clone good_template (Some \<lparr>nf_host = 4, nf_template = 5\<rparr>) (\<lambda>_. Inr 7) demo_cg full_isolation 0
       (snd (netns_init good_init 0 (net_boot 4))))))"

lemma good_init_world:
  "netns_init good_init 0 (net_boot 4) =
     (Inr \<lparr>nf_host = 4, nf_template = 5\<rparr>, \<lparr>nn_of = (\<lambda>_. 4), nn_next = 6, nn_up = [5, 4], nn_children = []\<rparr>)"
  by (auto simp: netns_init_def good_init_def net_boot_def open_ns_net_def bring_lo_up_def unshare_net_def net_restore_def
      setns_net_def Let_def)

lemma two_children_reached: "net_reach 4 (Some \<lparr>nf_host = 4, nf_template = 5\<rparr>) two_children"
proof -
  have "net_reach 4 (Some \<lparr>nf_host = 4, nf_template = 5\<rparr>) (snd (netns_init good_init 0 (net_boot 4)))"
    using net_reach.starts [OF good_init_world] by (simp add: good_init_world launcher_netns_def)
  then show ?thesis unfolding two_children_def by (intro net_reach.runs [OF _ net_step.launches])
qed

lemma two_children_world: "nn_children two_children = [(8, 5), (7, 5)]" "nn_of two_children = (\<lambda>_. 4)"
  by (auto simp: two_children_def good_init_world launcher_clone_def with_template_def net_enter_def net_restore_def
      good_template_def setns_net_def clone3_net_def newnet_bit Let_def)


section \<open>Errors\<close>

text \<open>
  A launch that returns a child leaves its thread in the engine's namespace when there is a template.
\<close>

theorem launch_returns_to_host:
  assumes "launcher_clone a (Some f) clone3 cg full_isolation t w = (Inr (pid, placed), w')"
  shows "nn_of w' t = nf_host f \<and> nn_children w' = (pid, nf_template f) # nn_children w"
  using assms by (cases rule: launcher_clone_template) (auto simp: setns_net_def split: if_splits)

theorem launch_returns_to_host_witness:
  "nn_of (snd (launcher_clone good_template (Some \<lparr>nf_host = 4, nf_template = 5\<rparr>) (\<lambda>_. Inr 7) demo_cg full_isolation 0 (net_boot 4))) 0 = 4"
proof -
  obtain w' where l: "launcher_clone good_template (Some \<lparr>nf_host = 4, nf_template = 5\<rparr>) (\<lambda>_. Inr 7) demo_cg full_isolation 0 (net_boot 4)
      = (Inr (7, True), w')"
    by (simp add: launcher_clone_def with_template_def net_enter_def net_restore_def good_template_def clone3_net_def Let_def)
  from launch_returns_to_host [OF l] show ?thesis by (simp add: l)
qed

text \<open>
  The documentation lets the initialisation fail when the loopback cannot be brought up. The result of
  that step is dropped: the template is used with its loopback down.
\<close>

theorem loopback_failure_is_ignored:
  "\<exists>w. netns_init (good_init\<lparr>ia_lo := \<lparr>lo_socket_ok = False, lo_get_ok = True, lo_set_ok = True\<rparr>\<rparr>) 0 (net_boot 4) =
     (Inr \<lparr>nf_host = 4, nf_template = 5\<rparr>, w) \<and> 5 \<notin> set (nn_up w)"
  by (simp add: netns_init_def good_init_def net_boot_def open_ns_net_def bring_lo_up_def unshare_net_def net_restore_def
      setns_net_def Let_def)

text \<open>
  When a step after \<^verbatim>\<open>unshare\<close> fails, the launcher works without a template, but the thread that made it
  stays in the new namespace, and so do the threads it starts later.
\<close>

theorem failed_init_strands_engine:
  "\<exists>e w. netns_init (good_init\<lparr>ia_open_template := Some ''EMFILE''\<rparr>) 0 (net_boot 4) = (Inl e, w) \<and>
     nn_of w 0 \<noteq> 4 \<and> net_step (launcher_netns (Inl e)) w (w\<lparr>nn_of := (nn_of w)(9 := nn_of w 0)\<rparr>)"
proof -
  let ?e = "NetErr (''/proc/self/ns/net: '' @ ''EMFILE'')"
  have "\<exists>w. netns_init (good_init\<lparr>ia_open_template := Some ''EMFILE''\<rparr>) 0 (net_boot 4) = (Inl ?e, w) \<and> nn_of w 0 \<noteq> 4"
    by (simp add: netns_init_def good_init_def net_boot_def open_ns_net_def bring_lo_up_def unshare_net_def Let_def)
  then show ?thesis using net_step.spawns by blast
qed

text \<open>
  A failing return to the engine's namespace turns a successful clone into an error. The child exists,
  is not in any handle, and ends with 101, for its parent never releases it.
\<close>

theorem failed_restore_abandons_child:
  assumes "nt_enter_ok a" "\<not> nt_restore_ok a" "clone3 \<lparr>cq_namespaces = flags_with_netns full_isolation True,
    cq_cgroup = Some (cg_path cg), cq_exit_signal = SIGCHLD\<rparr> = Inr pid"
  shows "\<exists>w'. launcher_clone a (Some f) clone3 cg full_isolation t w = (Inl (NetErr ''setns(host) failed''), w') \<and>
    (pid, nf_template f) \<in> set (nn_children w') \<and> nn_of w' t = nf_template f \<and>
    fst (child_main k False c) = Exited 101"
  using assms
  by (simp add: launcher_clone_def with_template_def net_enter_def net_restore_def clone3_net_def newnet_bit setns_net_def
      child_main_def Let_def)

theorem failed_restore_abandons_child_witness:
  "\<exists>w'. launcher_clone \<lparr>nt_enter_ok = True, nt_restore_ok = False\<rparr> (Some \<lparr>nf_host = 4, nf_template = 5\<rparr>) (\<lambda>_. Inr 7) demo_cg
      full_isolation 0 (net_boot 4) = (Inl (NetErr ''setns(host) failed''), w') \<and> (7, 5) \<in> set (nn_children w')"
  using failed_restore_abandons_child [of "\<lparr>nt_enter_ok = True, nt_restore_ok = False\<rparr>" "\<lambda>_. Inr 7" demo_cg 7
      "\<lparr>nf_host = 4, nf_template = 5\<rparr>" 0 "net_boot 4"]
  by fastforce

text \<open>
  The template is documented to have at most one resident. Children that live side by side are all in
  it: two episodes, or a session cell beside an episode, share loopback ports and abstract sockets.
\<close>

theorem template_has_many_residents:
  "\<exists>w. net_reach 4 (Some \<lparr>nf_host = 4, nf_template = 5\<rparr>) w \<and> (7, 5) \<in> set (nn_children w) \<and> (8, 5) \<in> set (nn_children w)"
  using two_children_reached two_children_world(1) by auto

end
