(* ===== verification/RB_Diag.thy ===== *)
theory RB_Diag
  imports RB_Launch
begin

text \<open>
  What the fork child says about itself (\<^verbatim>\<open>set_child_name\<close>, \<^verbatim>\<open>write_u32\<close>, \<^verbatim>\<open>child_diag\<close> and the message of
  a failed set-up in \<^verbatim>\<open>kernel/src/linux/launcher.rs\<close>). The child is a fork of a process with many threads:
  it may neither allocate nor panic, so it writes digits into buffers of fixed size. An index out of
  range is \<open>Panic\<close>. The theorems: no index is ever out of range, whatever the tag, the error number and
  the layer that failed, and what is written is the decimal rendering.
\<close>

section \<open>Fixed buffers\<close>

definition put :: "nat \<Rightarrow> 'a \<Rightarrow> 'a list \<Rightarrow> 'a list panics" where
  "put i x xs = (if i < length xs then Returns (xs[i := x]) else Panic)"

definition fetch :: "nat \<Rightarrow> 'a list \<Rightarrow> 'a panics" where
  "fetch i xs = (if i < length xs then Returns (xs ! i) else Panic)"

definition digit :: "nat \<Rightarrow> byte" where
  "digit v = word_of_nat (48 + v mod 10)"

text \<open>\<^verbatim>\<open>while v > 0\<close>: the digits, last one first.\<close>

fun digits_down :: "nat \<Rightarrow> byte list \<Rightarrow> nat \<Rightarrow> (byte list \<times> nat) panics" where
  "digits_down v ds d =
     (if v = 0 then Returns (ds, d)
      else case put d (digit v) ds of Panic \<Rightarrow> Panic | Returns ds1 \<Rightarrow> digits_down (v div 10) ds1 (Suc d))"

definition digits_of :: "nat \<Rightarrow> nat \<Rightarrow> (byte list \<times> nat) panics" where
  "digits_of cap v =
     (if v = 0 then (case put 0 48 (replicate cap 0) of Panic \<Rightarrow> Panic | Returns ds \<Rightarrow> digits_down v ds 1)
      else digits_down v (replicate cap 0) 0)"

text \<open>\<^verbatim>\<open>while d > 0\<close>: the digits from the last one down, to the end of what is written.\<close>

fun copy_back :: "byte list \<Rightarrow> nat \<Rightarrow> byte list \<Rightarrow> nat \<Rightarrow> (byte list \<times> nat) panics" where
  "copy_back ds 0 buf n = Returns (buf, n)"
| "copy_back ds (Suc d) buf n =
     (case fetch d ds of
        Panic \<Rightarrow> Panic
      | Returns b \<Rightarrow> (case put n b buf of Panic \<Rightarrow> Panic | Returns buf1 \<Rightarrow> copy_back ds d buf1 (Suc n)))"

text \<open>\<^verbatim>\<open>for b in bytes\<close>: the bytes one after the other.\<close>

fun put_all :: "byte list \<Rightarrow> byte list \<Rightarrow> nat \<Rightarrow> (byte list \<times> nat) panics" where
  "put_all [] buf n = Returns (buf, n)"
| "put_all (b # bs) buf n = (case put n b buf of Panic \<Rightarrow> Panic | Returns buf1 \<Rightarrow> put_all bs buf1 (Suc n))"

section \<open>The name of a child\<close>

definition set_child_name :: "u32 \<Rightarrow> byte list \<Rightarrow> byte list panics" where
  "set_child_name tag prefix =
     (case put_all prefix (replicate 16 0) 0 of
        Panic \<Rightarrow> Panic
      | Returns (name, n) \<Rightarrow>
          (case digits_of 5 (unat (tag AND 0xFFFF)) of
             Panic \<Rightarrow> Panic
           | Returns (ds, d) \<Rightarrow> (case copy_back ds d name n of Panic \<Rightarrow> Panic | Returns (name1, _) \<Rightarrow> Returns name1)))"

section \<open>Diagnostic lines\<close>

text \<open>\<^verbatim>\<open>write_u32\<close> into the rest of a buffer: \<^verbatim>\<open>for i in 0..d\<close>.\<close>

fun copy_forward :: "byte list \<Rightarrow> nat \<Rightarrow> nat list \<Rightarrow> byte list \<Rightarrow> byte list panics" where
  "copy_forward ds d [] buf = Returns buf"
| "copy_forward ds d (i # is) buf =
     (case fetch (d - 1 - i) ds of
        Panic \<Rightarrow> Panic
      | Returns b \<Rightarrow> (case put i b buf of Panic \<Rightarrow> Panic | Returns buf1 \<Rightarrow> copy_forward ds d is buf1))"

definition write_u32 :: "byte list \<Rightarrow> u32 \<Rightarrow> (byte list \<times> nat) panics" where
  "write_u32 buf v =
     (case digits_of 10 (unat v) of
        Panic \<Rightarrow> Panic
      | Returns (ds, d) \<Rightarrow> (case copy_forward ds d [0..<d] buf of Panic \<Rightarrow> Panic | Returns buf1 \<Rightarrow> Returns (buf1, d)))"

text \<open>The tail of a progress line: digits from slot 12 down, at most to slot 3.\<close>

fun tail_digits :: "nat \<Rightarrow> nat \<Rightarrow> byte list \<Rightarrow> byte list panics" where
  "tail_digits v i t =
     (case put i (digit v) t of
        Panic \<Rightarrow> Panic
      | Returns t1 \<Rightarrow>
          if v div 10 = 0 \<or> i = 3 then Returns t1
          else if i = 0 then Panic
          else tail_digits (v div 10) (i - 1) t1)"

declare digits_down.simps [simp del] tail_digits.simps [simp del]

definition DIAG_TAIL :: "byte list" where
  "DIAG_TAIL = as_bytes '' t=0000000000'' @ [10]"

definition child_diag :: "bool \<Rightarrow> u32 \<Rightarrow> string \<Rightarrow> byte list panics" where
  "child_diag enabled tag msg =
     (if \<not> enabled then Returns []
      else case tail_digits (unat tag) (length DIAG_TAIL - 2) DIAG_TAIL of
             Panic \<Rightarrow> Panic | Returns t \<Rightarrow> Returns (as_bytes msg @ t))"

text \<open>
  The message of a failed set-up. The error number of an operating-system error is that of its source,
  an argument; the other errors have none and name their layer.
\<close>

fun setup_layer :: "(string \<Rightarrow> 32 word) \<Rightarrow> sandbox_error \<Rightarrow> 32 word \<times> string" where
  "setup_layer errno (Mount step source) = (errno source, step)"
| "setup_layer errno (RLimit limit source) = (errno source, limit)"
| "setup_layer errno (Seccomp _) = (- 1, ''seccomp'')"
| "setup_layer errno (AppArmor _) = (- 1, ''apparmor'')"
| "setup_layer errno (CapDrop _) = (- 1, ''capdrop'')"
| "setup_layer errno (IoErr source) = (errno source, ''exec'')"
| "setup_layer errno (Internal _) = (- 1, ''internal'')"
| "setup_layer errno _ = (- 1, ''other'')"

definition SETUP_PREFIX :: string where "SETUP_PREFIX = ''child setup failed errno=''"

definition setup_message :: "32 word \<Rightarrow> string \<Rightarrow> u32 \<Rightarrow> byte list panics" where
  "setup_message errno layer tag =
     (let v = (if sint errno < 0 then 0 else unat errno) in
      case put_all (as_bytes SETUP_PREFIX) (replicate 96 0) 0 of
        Panic \<Rightarrow> Panic
      | Returns (buf, n) \<Rightarrow>
          (case digits_of 10 v of
             Panic \<Rightarrow> Panic
           | Returns (ds, d) \<Rightarrow>
               (case copy_back ds d buf n of
                  Panic \<Rightarrow> Panic
                | Returns (buf, n) \<Rightarrow>
                    (case put_all (as_bytes layer) buf n of
                       Panic \<Rightarrow> Panic
                     | Returns (buf, n) \<Rightarrow>
                         (case put_all [32] buf n of
                            Panic \<Rightarrow> Panic
                          | Returns (buf, n) \<Rightarrow>
                              (case write_u32 (drop n buf) tag of
                                 Panic \<Rightarrow> Panic
                               | Returns (rest, d) \<Rightarrow>
                                   (case put_all [10] (take n buf @ rest) (n + d) of
                                      Panic \<Rightarrow> Panic
                                    | Returns (buf, n) \<Rightarrow> Returns (take n buf))))))))"

section \<open>Digits\<close>

lemma put_ok [simp]: "i < length xs \<Longrightarrow> put i x xs = Returns (xs[i := x])"
  by (simp add: put_def)

lemma fetch_ok [simp]: "i < length xs \<Longrightarrow> fetch i xs = Returns (xs ! i)"
  by (simp add: fetch_def)

lemma length_decimal: "0 < k \<Longrightarrow> v < 10 ^ k \<Longrightarrow> length (decimal v) \<le> k"
proof (induction v arbitrary: k rule: decimal.induct)
  case (1 n)
  show ?case
  proof (cases "n < 10")
    case True
    then show ?thesis using "1.prems" by (simp add: decimal.simps [of n])
  next
    case False
    then obtain j where k: "k = Suc j" "0 < j" using "1.prems" by (cases k; cases "k - 1") auto
    have "n div 10 < 10 ^ j" using "1.prems"(2) k by (simp add: div_less_iff_less_mult mult.commute)
    with "1.IH" [OF False k(2)] k False show ?thesis by (simp add: decimal.simps [of n])
  qed
qed

lemma length_decimal_pos: "0 < length (decimal v)"
  by simp

text \<open>The bytes of a rendering, last digit apart.\<close>

lemma decimal_last_digit: "as_bytes (decimal v) = (if v < 10 then [] else as_bytes (decimal (v div 10))) @ [digit v]"
proof -
  have "of_char (char_of (48 + v mod 10) :: char) = 48 + v mod 10" by (simp add: of_char_of)
  then show ?thesis by (subst decimal.simps) (simp add: as_bytes_def digit_def of_char_of)
qed

lemma take_Suc_update: "d < length ds \<Longrightarrow> take (Suc d) (ds[d := x]) = take d ds @ [x]"
  by (simp add: take_Suc_conv_app_nth)

lemma digits_down_ok:
  assumes "0 < v" "d + length (decimal v) \<le> length ds"
  shows "\<exists>ds'. digits_down v ds d = Returns (ds', d + length (decimal v)) \<and> length ds' = length ds \<and>
    take (d + length (decimal v)) ds' = take d ds @ rev (as_bytes (decimal v))"
  using assms
proof (induction v ds d rule: digits_down.induct)
  case (1 v ds d)
  have d: "d < length ds" using "1.prems"(2) length_decimal_pos [of v] by linarith
  then have p: "put d (digit v) ds = Returns (ds[d := digit v])" by simp
  show ?case
  proof (cases "v < 10")
    case True
    then have "digits_down v ds d = Returns (ds[d := digit v], Suc d)" "length (decimal v) = 1"
        "as_bytes (decimal v) = [digit v]"
      using "1.prems"(1) p decimal_last_digit [of v] by (simp_all add: digits_down.simps decimal.simps [of v])
    then show ?thesis using d take_Suc_update [OF d] by simp
  next
    case False
    then have l: "length (decimal v) = Suc (length (decimal (v div 10)))" by (simp add: decimal.simps [of v])
    have s: "digits_down v ds d = digits_down (v div 10) (ds[d := digit v]) (Suc d)"
      using "1.prems"(1) p by (simp add: digits_down.simps [of v])
    have "0 < v div 10" "Suc d + length (decimal (v div 10)) \<le> length (ds[d := digit v])"
      using False "1.prems"(2) l by simp_all
    from "1.IH" [OF _ p this] "1.prems"(1) obtain ds' where
      ds': "digits_down (v div 10) (ds[d := digit v]) (Suc d) = Returns (ds', Suc d + length (decimal (v div 10)))"
        "length ds' = length ds"
        "take (Suc d + length (decimal (v div 10))) ds' = take (Suc d) (ds[d := digit v]) @ rev (as_bytes (decimal (v div 10)))"
      by auto
    have "rev (as_bytes (decimal v)) = digit v # rev (as_bytes (decimal (v div 10)))"
      using False decimal_last_digit [of v] by simp
    with ds' show ?thesis using take_Suc_update [OF d] by (simp add: s l)
  qed
qed

lemma digits_of_ok:
  assumes "0 < cap" "v < 10 ^ cap"
  shows "\<exists>ds. digits_of cap v = Returns (ds, length (decimal v)) \<and> length ds = cap \<and>
    take (length (decimal v)) ds = rev (as_bytes (decimal v))"
proof (cases "v = 0")
  case True
  have "length (decimal 0) = 1" "as_bytes (decimal 0) = [48]"
    using decimal_last_digit [of 0] by (simp_all add: decimal.simps [of 0] digit_def)
  moreover have "digits_of cap 0 = Returns ((replicate cap 0)[0 := 48], 1)"
    using assms(1) by (simp add: digits_of_def digits_down.simps)
  ultimately show ?thesis using True assms(1) by (cases cap) simp_all
next
  case False
  then show ?thesis
    using digits_down_ok [of v 0 "replicate cap 0"] length_decimal [OF assms] by (auto simp: digits_of_def)
qed

section \<open>Copies\<close>

text \<open>What a sequence of writes from position \<open>n\<close> leaves.\<close>

definition pasted :: "byte list \<Rightarrow> nat \<Rightarrow> byte list \<Rightarrow> byte list" where
  "pasted bs n buf = take n buf @ bs @ drop (n + length bs) buf"

lemma pasted_step: "n < length buf \<Longrightarrow> pasted bs (Suc n) (buf[n := b]) = pasted (b # bs) n buf"
  by (simp add: pasted_def take_Suc_update drop_update_cancel)

lemma length_pasted [simp]: "n + length bs \<le> length buf \<Longrightarrow> length (pasted bs n buf) = length buf"
  by (simp add: pasted_def)

lemma put_all_ok: "n + length bs \<le> length buf \<Longrightarrow> put_all bs buf n = Returns (pasted bs n buf, n + length bs)"
proof (induction bs arbitrary: buf n)
  case Nil
  then show ?case by (simp add: pasted_def)
next
  case (Cons b bs)
  then show ?case using pasted_step [of n buf bs b] by simp
qed

lemma copy_back_ok:
  "d \<le> length ds \<Longrightarrow> n + d \<le> length buf \<Longrightarrow> copy_back ds d buf n = Returns (pasted (rev (take d ds)) n buf, n + d)"
proof (induction d arbitrary: buf n)
  case 0
  then show ?case by (simp add: pasted_def)
next
  case (Suc d)
  then have "rev (take (Suc d) ds) = ds ! d # rev (take d ds)" by (simp add: take_Suc_conv_app_nth)
  with Suc show ?case using pasted_step [of n buf "rev (take d ds)" "ds ! d"] by simp
qed

lemma copy_forward_ok:
  assumes "d \<le> length ds" "d \<le> length buf" "k \<le> d"
  shows "copy_forward ds d [d - k..<d] buf = Returns (pasted (rev (take k ds)) (d - k) buf)"
  using assms
proof (induction k arbitrary: buf)
  case 0
  then show ?case by (simp add: pasted_def)
next
  case (Suc k)
  have u: "[d - Suc k..<d] = (d - Suc k) # [d - k..<d]"
    using Suc.prems(3) by (subst upt_conv_Cons) (auto simp: Suc_diff_Suc)
  have i: "d - 1 - (d - Suc k) = k" using Suc.prems(3) by simp
  have s: "Suc (d - Suc k) = d - k" using Suc.prems(3) by simp
  have t: "rev (take (Suc k) ds) = ds ! k # rev (take k ds)" using Suc.prems by (simp add: take_Suc_conv_app_nth)
  show ?case
    using Suc.IH [of "buf[d - Suc k := ds ! k]"] Suc.prems pasted_step [of "d - Suc k" buf "rev (take k ds)" "ds ! k"]
    unfolding u t s by (simp only: copy_forward.simps i) simp
qed


text \<open>A buffer that has been filled up to a position.\<close>

definition filled :: "nat \<Rightarrow> byte list \<Rightarrow> byte list" where
  "filled cap bs = bs @ replicate (cap - length bs) 0"

lemma pasted_filled: "length bs + length cs \<le> cap \<Longrightarrow> pasted cs (length bs) (filled cap bs) = filled cap (bs @ cs)"
  by (simp add: pasted_def filled_def)

lemma length_filled: "length bs \<le> cap \<Longrightarrow> length (filled cap bs) = cap"
  by (simp add: filled_def)

lemma put_all_filled:
  "length bs + length cs \<le> cap \<Longrightarrow> put_all cs (filled cap bs) (length bs) = Returns (filled cap (bs @ cs), length bs + length cs)"
  by (simp add: put_all_ok length_filled pasted_filled)

lemma copy_back_filled:
  assumes "take d ds = rev cs" "length cs = d" "length bs + d \<le> cap"
  shows "copy_back ds d (filled cap bs) (length bs) = Returns (filled cap (bs @ cs), length bs + d)"
proof -
  have "d \<le> length ds" using arg_cong [OF assms(1), of length] assms(2) by simp
  with assms show ?thesis by (simp add: copy_back_ok length_filled pasted_filled)
qed

lemma empty_filled: "replicate cap 0 = filled cap []"
  by (simp add: filled_def)

lemma write_u32_ok:
  assumes "length bs + length (decimal (unat v)) \<le> cap"
  shows "write_u32 (drop (length bs) (filled cap bs)) v =
    Returns (drop (length bs) (filled cap (bs @ as_bytes (decimal (unat v)))), length (decimal (unat v)))"
proof -
  let ?n = "length (decimal (unat v))" and ?rest = "drop (length bs) (filled cap bs)"
  have "unat v < 2 ^ 32" using unsigned_less [of v, where ?'a = nat] by simp
  then have "unat v < 10 ^ 10" by simp
  then obtain ds where ds: "digits_of 10 (unat v) = Returns (ds, ?n)" "length ds = 10"
      "take ?n ds = rev (as_bytes (decimal (unat v)))"
    using digits_of_ok [of 10 "unat v"] by auto
  have l: "?n \<le> length ds" using arg_cong [OF ds(3), of length] by simp
  have "copy_forward ds ?n [0..<?n] ?rest = Returns (pasted (rev (take ?n ds)) 0 ?rest)"
    using copy_forward_ok [of ?n ds ?rest ?n] l assms by (simp add: filled_def)
  with ds(1,3) show ?thesis by (simp add: write_u32_def pasted_def filled_def)
qed

section \<open>The name\<close>

text \<open>
  The name of a child fits the sixteen bytes of \<^verbatim>\<open>PR_SET_NAME\<close> and is terminated: the prefix, the low
  sixteen bits of the tag in decimal, zeros.
\<close>

theorem child_name_fits:
  assumes "length prefix \<le> 10"
  shows "set_child_name tag prefix = Returns (filled 16 (prefix @ as_bytes (decimal (unat (tag AND 0xFFFF))))) \<and>
    length (prefix @ as_bytes (decimal (unat (tag AND 0xFFFF)))) < 16"
proof -
  let ?v = "unat (tag AND 0xFFFF)"
  have "(0xFFFF :: u32) = mask 16" by (simp add: mask_eq_exp_minus_1)
  then have "tag AND 0xFFFF = take_bit 16 tag" by (simp only: take_bit_eq_mask)
  then have "?v = unat tag mod 65536" by (simp only: unsigned_take_bit_eq) (simp add: take_bit_eq_mod)
  then have v: "?v < 10 ^ 5" by simp
  then obtain ds where ds: "digits_of 5 ?v = Returns (ds, length (decimal ?v))" "length ds = 5"
      "take (length (decimal ?v)) ds = rev (as_bytes (decimal ?v))"
    using digits_of_ok [of 5 ?v] by auto
  have l: "length (decimal ?v) \<le> 5" using length_decimal [of 5 ?v] v by simp
  have "put_all prefix (replicate 16 0) 0 = Returns (filled 16 prefix, length prefix)"
    using put_all_filled [of "[]" prefix 16] assms by (simp add: empty_filled)
  moreover have "copy_back ds (length (decimal ?v)) (filled 16 prefix) (length prefix) =
      Returns (filled 16 (prefix @ as_bytes (decimal ?v)), length prefix + length (decimal ?v))"
    using assms l by (intro copy_back_filled [OF ds(3)]) simp_all
  ultimately show ?thesis using assms l by (simp add: set_child_name_def ds(1))
qed

theorem child_name_fits_witness:
  "set_child_name 0x1002A (as_bytes ''rbc'') = Returns (filled 16 (as_bytes ''rbc42''))"
proof -
  have "unat ((0x1002A :: u32) AND 0xFFFF) = 42" by code_simp
  moreover have "decimal 42 = ''42''" by code_simp
  ultimately show ?thesis using child_name_fits [of "as_bytes ''rbc''" "0x1002A"]
    by (simp flip: as_bytes_simps(3))
qed

section \<open>Progress lines\<close>

lemma tail_digits_ok:
  assumes "length (decimal v) + 2 \<le> i" "i < length t"
  shows "tail_digits v i t = Returns (take (Suc i - length (decimal v)) t @ as_bytes (decimal v) @ drop (Suc i) t)"
  using assms
proof (induction v i t rule: tail_digits.induct)
  case (1 v i t)
  have p: "put i (digit v) t = Returns (t[i := digit v])" using "1.prems"(2) by simp
  show ?case
  proof (cases "v < 10")
    case True
    then have d: "as_bytes (decimal v) = [digit v]" "length (decimal v) = 1"
      using decimal_last_digit [of v] by (simp_all add: decimal.simps [of v])
    have "t[i := digit v] = take i t @ digit v # drop (Suc i) t"
      using "1.prems"(2) by (simp add: upd_conv_take_nth_drop)
    with True p d show ?thesis by (simp add: tail_digits.simps [of v])
  next
    case False
    then have l: "length (decimal v) = Suc (length (decimal (v div 10)))" by (simp add: decimal.simps [of v])
    have i: "i \<noteq> 3" "i \<noteq> 0" using "1.prems"(1) l length_decimal_pos [of "v div 10"] by linarith+
    have "v div 10 \<noteq> 0" using False by (simp add: div_eq_0_iff)
    then have s: "tail_digits v i t = tail_digits (v div 10) (i - 1) (t[i := digit v])"
      using i p by (simp add: tail_digits.simps [of v])
    have "tail_digits (v div 10) (i - 1) (t[i := digit v]) =
        Returns (take (Suc (i - 1) - length (decimal (v div 10))) (t[i := digit v]) @ as_bytes (decimal (v div 10)) @
          drop (Suc (i - 1)) (t[i := digit v]))"
      using "1.IH" [OF p] False i "1.prems" l by simp
    moreover have "drop i (t[i := digit v]) = digit v # drop (Suc i) t"
      using "1.prems"(2) by (simp add: upd_conv_take_nth_drop)
    ultimately show ?thesis using False i "1.prems" l decimal_last_digit [of v] by (simp add: s)
  qed
qed

text \<open>
  A progress line is the message and the tag, padded with zeros to ten digits; the message is never
  touched and nothing is written when the diagnostics are off.
\<close>

theorem child_diag_line:
  "child_diag enabled tag msg =
     Returns (if enabled
              then as_bytes msg @ as_bytes '' t='' @ replicate (10 - length (decimal (unat tag))) 48 @ as_bytes (decimal (unat tag)) @ [10]
              else [])"
proof -
  let ?n = "length (decimal (unat tag))"
  have "unat tag < 2 ^ 32" using unsigned_less [of tag, where ?'a = nat] by simp
  then have "unat tag < 10 ^ 10" by simp
  then have l: "?n \<le> 10" using length_decimal [of 10 "unat tag"] by simp
  have t: "DIAG_TAIL = as_bytes '' t='' @ replicate 10 48 @ [10]" "length DIAG_TAIL = 14"
    by (simp_all add: DIAG_TAIL_def as_bytes_def numeral_eq_Suc)
  have "tail_digits (unat tag) 12 DIAG_TAIL = Returns (take (13 - ?n) DIAG_TAIL @ as_bytes (decimal (unat tag)) @ drop 13 DIAG_TAIL)"
    using tail_digits_ok [of "unat tag" 12 DIAG_TAIL] l by (simp add: t(2))
  moreover have "take (13 - ?n) DIAG_TAIL = as_bytes '' t='' @ replicate (10 - ?n) 48" "drop 13 DIAG_TAIL = [10]"
    using l by (simp_all add: t(1) min_def take_Cons')
  ultimately show ?thesis by (simp add: child_diag_def t(2))
qed

section \<open>The message of a failed set-up\<close>

lemma setup_message_ok:
  assumes "length layer \<le> 49"
  shows "setup_message errno layer tag =
    Returns (as_bytes (SETUP_PREFIX @ decimal (if sint errno < 0 then 0 else unat errno) @ layer @ '' '' @ decimal (unat tag)) @ [10])"
proof -
  define v where "v = (if sint errno < 0 then 0 else unat errno)"
  let ?p = "as_bytes SETUP_PREFIX" and ?e = "as_bytes (decimal v)" and ?l = "as_bytes layer" and ?t = "as_bytes (decimal (unat tag))"
  have "v < 2 ^ 32" using unsigned_less [of errno, where ?'a = nat] by (simp add: v_def)
  then have v: "v < 10 ^ 10" by simp
  have "unat tag < 2 ^ 32" using unsigned_less [of tag, where ?'a = nat] by simp
  then have "unat tag < 10 ^ 10" by simp
  then have len: "length SETUP_PREFIX = 25" "length (decimal v) \<le> 10" "length (decimal (unat tag)) \<le> 10"
    using length_decimal [of 10 v] length_decimal [of 10 "unat tag"] v by (simp_all add: SETUP_PREFIX_def)
  obtain ds where ds: "digits_of 10 v = Returns (ds, length (decimal v))" "take (length (decimal v)) ds = rev ?e"
    using digits_of_ok [of 10 v] v by auto
  have 1: "put_all ?p (replicate 96 0) 0 = Returns (filled 96 ?p, length ?p)"
    using put_all_filled [of "[]" ?p 96] len by (simp add: empty_filled)
  have 2: "copy_back ds (length (decimal v)) (filled 96 ?p) (length ?p) = Returns (filled 96 (?p @ ?e), length (?p @ ?e))"
    using len by (subst copy_back_filled [OF ds(2)]) simp_all
  have 3: "put_all ?l (filled 96 (?p @ ?e)) (length (?p @ ?e)) = Returns (filled 96 (?p @ ?e @ ?l), length (?p @ ?e @ ?l))"
    using len assms by (subst put_all_filled) simp_all
  have 4: "put_all [32] (filled 96 (?p @ ?e @ ?l)) (length (?p @ ?e @ ?l)) = Returns (filled 96 (?p @ ?e @ ?l @ [32]), length (?p @ ?e @ ?l @ [32]))"
    using len assms by (subst put_all_filled) simp_all
  let ?b = "?p @ ?e @ ?l @ [32]"
  have 5: "write_u32 (drop (length ?b) (filled 96 ?b)) tag = Returns (drop (length ?b) (filled 96 (?b @ ?t)), length (decimal (unat tag)))"
    using len assms by (intro write_u32_ok) simp
  have 6: "take (length ?b) (filled 96 ?b) @ drop (length ?b) (filled 96 (?b @ ?t)) = filled 96 (?b @ ?t)"
    by (simp add: filled_def)
  have n: "length ?b + length (decimal (unat tag)) = length (?b @ ?t)" by simp
  have 7: "put_all [10] (filled 96 (?b @ ?t)) (length ?b + length (decimal (unat tag))) =
      Returns (filled 96 ((?b @ ?t) @ [10]), length (?b @ ?t) + length [10 :: byte])"
    unfolding n by (rule put_all_filled) (use len assms in simp)
  have sp: "as_bytes '' '' = [32]" by (simp add: as_bytes_def)
  have "setup_message errno layer tag = Returns (take (length (?b @ ?t) + length [10 :: byte]) (filled 96 ((?b @ ?t) @ [10])))"
    unfolding setup_message_def Let_def v_def [symmetric] 1 ds(1) panics.case prod.case 2 3 4 5 6 7 ..
  also have "\<dots> = Returns (?b @ ?t @ [10])" by (simp add: filled_def)
  finally show ?thesis unfolding v_def as_bytes_simps(3) sp by simp
qed

text \<open>The layer names the steps of a child can fail with.\<close>

fun step_errors :: "step \<Rightarrow> sandbox_error set" where
  "step_errors (Do _ _ err) = range err"
| "step_errors (Fail e) = {e}"

definition short_named :: "step \<Rightarrow> bool" where
  "short_named s \<longleftrightarrow> (\<forall>e\<in>step_errors s. \<forall>errno. length (snd (setup_layer errno e)) \<le> 49)"

lemma run_steps_error: "run_steps k ss h = (Some e, h') \<Longrightarrow> \<exists>s\<in>set ss. e \<in> step_errors s"
  by (induction k ss h rule: run_steps.induct) (auto simp: Let_def split: if_splits)

lemma short_named_simps [simp]:
  "short_named (must c err) \<longleftrightarrow> (\<forall>r errno. length (snd (setup_layer errno (err r))) \<le> 49)"
  "short_named (ignore c)"
  "short_named (Do c tol err) \<longleftrightarrow> (\<forall>r errno. length (snd (setup_layer errno (err r))) \<le> 49)"
  "short_named (Fail e) \<longleftrightarrow> (\<forall>errno. length (snd (setup_layer errno e)) \<le> 49)"
  by (auto simp: short_named_def must_def ignore_def)

lemma mkdir_all_short: "length what \<le> 49 \<Longrightarrow> list_all short_named (mkdir_all path what)"
  by (auto simp: mkdir_all_def mkdir_step_def mount_err_def list_all_iff)

lemma apply_step_short: "list_all short_named (apply_step is_dir s)"
  by (auto simp: apply_step_def raw_mount_def remount_ro_def mount_err_def mkdir_all_short mkdir_parent_def
      split: mount_step_kind.split option.split)

lemma plan_apply_short: "list_all short_named (plan_apply is_dir plan)"
proof -
  have "list_all short_named (concat (map (apply_step is_dir) ps))" for ps
    using apply_step_short by (induction ps) simp_all
  then show ?thesis
    by (simp add: plan_apply_def pivot_steps_def mkdir_all_short raw_mount_def mount_err_def)
qed

lemma child_steps_short: "list_all short_named (child_steps c)"
  using plan_apply_short [of "ch_is_dir c" "ch_plan c"]
  by (auto simp: child_steps_def redirect_def set_no_new_privs_def apply_rlimits_def rlimit_step_def
      drop_all_capabilities_def list_all_iff split: option.split)

text \<open>
  C31. The fork child never panics while it reports a failure. Whatever layer fails, with whatever error
  number and tag, the message that is written names them all and stays within its buffer of 96 bytes.
\<close>

theorem setup_failure_is_reported:
  assumes "run_steps k (child_steps c) h = (Some e, h')"
  shows "\<exists>msg. setup_message (fst (setup_layer errno e)) (snd (setup_layer errno e)) tag = Returns msg \<and> length msg \<le> 96 \<and>
    msg = as_bytes (SETUP_PREFIX @
      decimal (if sint (fst (setup_layer errno e)) < 0 then 0 else unat (fst (setup_layer errno e))) @
      snd (setup_layer errno e) @ '' '' @ decimal (unat tag)) @ [10]"
proof -
  define v where "v = (if sint (fst (setup_layer errno e)) < 0 then 0 else unat (fst (setup_layer errno e)))"
  obtain s where "s \<in> set (child_steps c)" "e \<in> step_errors s" using run_steps_error [OF assms] by blast
  then have l: "length (snd (setup_layer errno e)) \<le> 49"
    using child_steps_short [of c] by (auto simp: list_all_iff short_named_def)
  have "v < 2 ^ 32" using unsigned_less [of "fst (setup_layer errno e)", where ?'a = nat] by (simp add: v_def)
  moreover have "unat tag < 2 ^ 32" using unsigned_less [of tag, where ?'a = nat] by simp
  ultimately have "length (decimal v) \<le> 10" "length (decimal (unat tag)) \<le> 10" by (auto intro!: length_decimal)
  then show ?thesis unfolding setup_message_ok [OF l] v_def [symmetric] using l by (simp add: SETUP_PREFIX_def)
qed


lemma failing_child_run: "run_steps (\<lambda>_ _. 9) (child_steps demo_child) [] = (Some (Internal (''dup2: '' @ decimal 9)), [SDup2 10 0])"
  by (simp add: child_steps_def demo_child_def redirect_def must_def)

theorem setup_failure_is_reported_witness:
  "\<exists>msg. setup_message (- 1) ''internal'' 7 = Returns msg \<and> length msg \<le> 96"
  using setup_failure_is_reported [OF failing_child_run, of "\<lambda>_. 0" 7] by auto

end
