(* ===== verification/RB_Serve.thy ===== *)
theory RB_Serve
  imports RB_Zygote RB_Microvm
begin

text \<open>
  The two ends of the zygote's protocol socket (\<^verbatim>\<open>engine/src/modes/zygote.rs\<close>): the engine's frame helpers
  and its search for the forked process, and the serving loop of the Python shim with its descriptor
  table. The theorems: frames that are there in time are delivered, the process found is the newest
  child, the loop answers every request with two frames and leaves no descriptor behind, and an engine and a shim that talk to each other stay in step.
\<close>

section \<open>Frames\<close>

text \<open>What \<^verbatim>\<open>sendmsg\<close> says: it is tried again after a signal and while the socket is full.\<close>

datatype send_answer = SendDone | SendInterrupted | SendFull | SendFails string

fun send_frame :: "send_answer list \<Rightarrow> (string + unit) option" where
  "send_frame [] = None"
| "send_frame (SendDone # as) = Some (Inr ())"
| "send_frame (SendInterrupted # as) = send_frame as"
| "send_frame (SendFull # as) = send_frame as"
| "send_frame (SendFails e # as) = Some (Inl e)"

definition RECV_BUF :: nat where "RECV_BUF = 64 * 1024"

text \<open>A message longer than the buffer is cut by the kernel.\<close>

datatype recv_answer = RecvMsg "byte list" | RecvAgain | RecvFails string

definition recv_frame_nonblocking :: "recv_answer \<Rightarrow> string + byte list option" where
  "recv_frame_nonblocking a =
     (case a of
        RecvMsg m \<Rightarrow> if m = [] then Inl ''zygote socket closed'' else Inr (Some (take RECV_BUF m))
      | RecvAgain \<Rightarrow> Inr None
      | RecvFails e \<Rightarrow> Inl e)"

datatype poll_one = OneInterrupted | OneNotReady | OneReady recv_answer

record recv_turn =
  rt_now_ns :: nat
  rt_poll :: poll_one

fun recv_frame :: "nat \<Rightarrow> recv_turn list \<Rightarrow> (string + byte list) option" where
  "recv_frame deadline [] = None"
| "recv_frame deadline (t # ts) =
     (if deadline - rt_now_ns t = 0 then Some (Inl ''zygote frame timeout'')
      else case rt_poll t of
        OneInterrupted \<Rightarrow> recv_frame deadline ts
      | OneNotReady \<Rightarrow> Some (Inl ''zygote frame timeout'')
      | OneReady a \<Rightarrow>
          (case recv_frame_nonblocking a of
             Inl e \<Rightarrow> Some (Inl e)
           | Inr (Some f) \<Rightarrow> Some (Inr f)
           | Inr None \<Rightarrow> recv_frame deadline ts))"

text \<open>A turn that delivers nothing and does not end the wait.\<close>

definition idle_turn :: "nat \<Rightarrow> recv_turn \<Rightarrow> bool" where
  "idle_turn deadline t \<longleftrightarrow> rt_now_ns t < deadline \<and> (rt_poll t = OneInterrupted \<or> rt_poll t = OneReady RecvAgain)"

lemma recv_frame_idle: "list_all (idle_turn deadline) pre \<Longrightarrow> recv_frame deadline (pre @ ts) = recv_frame deadline ts"
  by (induction pre) (auto simp: idle_turn_def recv_frame_nonblocking_def)

text \<open>
  A frame that is there before the deadline is delivered, whatever signals and spurious wake-ups come
  before it; and a wait that has passed the deadline ends.
\<close>

theorem frame_in_time_is_delivered:
  assumes "list_all (idle_turn deadline) pre" "rt_now_ns t < deadline" "rt_poll t = OneReady (RecvMsg f)" "f \<noteq> []"
    and "length f \<le> RECV_BUF"
  shows "recv_frame deadline (pre @ t # post) = Some (Inr f)"
  using assms by (simp add: recv_frame_idle recv_frame_nonblocking_def)

theorem frame_in_time_is_delivered_witness:
  "recv_frame 9 [\<lparr>rt_now_ns = 1, rt_poll = OneInterrupted\<rparr>, \<lparr>rt_now_ns = 5, rt_poll = OneReady (RecvMsg [7])\<rparr>] = Some (Inr [7])"
  using frame_in_time_is_delivered [of 9 "[\<lparr>rt_now_ns = 1, rt_poll = OneInterrupted\<rparr>]"
      "\<lparr>rt_now_ns = 5, rt_poll = OneReady (RecvMsg [7])\<rparr>" "[7]" "[]"]
  by (simp add: idle_turn_def RECV_BUF_def)

section \<open>The newest child\<close>

definition parse_i32 :: "string \<Rightarrow> int option" where
  "parse_i32 s =
     (case s of
        [] \<Rightarrow> None
      | c # cs \<Rightarrow>
          if c = CHR ''-''
          then (if cs = [] then None
                else case digits_value 0 cs of Some v \<Rightarrow> if v \<le> 2 ^ 31 then Some (- int v) else None | None \<Rightarrow> None)
          else (case parse_usize s of Some v \<Rightarrow> if v < 2 ^ 31 then Some (int v) else None | None \<Rightarrow> None))"

definition last_pid :: "string \<Rightarrow> int option" where
  "last_pid s = (case rev (split_whitespace s) of [] \<Rightarrow> None | w # _ \<Rightarrow> parse_i32 w)"

text \<open>Each try reads the file again; a file that cannot be read ends the search.\<close>

definition CHILD_TRIES :: nat where "CHILD_TRIES = 200"

fun child_search :: "nat \<Rightarrow> (string + string) list \<Rightarrow> (string + int) option" where
  "child_search 0 rs = Some (Inl ''zygote reported a fork but /proc shows no child'')"
| "child_search (Suc n) [] = None"
| "child_search (Suc n) (Inl e # rs) = Some (Inl e)"
| "child_search (Suc n) (Inr s # rs) = (case last_pid s of Some pid \<Rightarrow> Some (Inr pid) | None \<Rightarrow> child_search n rs)"

definition newest_child :: "(string + string) list \<Rightarrow> (string + int) option" where
  "newest_child rs = child_search CHILD_TRIES rs"

text \<open>The file as the kernel prints it: every pid is followed by a blank.\<close>

definition children_file :: "nat list \<Rightarrow> string" where
  "children_file pids = concat (map (\<lambda>p. decimal p @ '' '') pids)"

lemma ws_prefix_digit:
  assumes "unat b \<in> {48..57}"
  shows "ws_prefix white_space (b # bs) = 0"
proof -
  have "\<forall>w\<in>set white_space. w \<noteq> [] \<and> hd w \<noteq> b" using assms by (auto simp: white_space_def)
  then have "filter (\<lambda>w. take (length w) (b # bs) = w) white_space = []"
    unfolding filter_empty_conv by (metis hd_conv_nth length_greater_0_conv list.sel(1) nth_Cons_0 nth_take)
  then show ?thesis by (simp add: ws_prefix_def)
qed

lemma split_ws_word:
  assumes "\<forall>b\<in>set ds. unat b \<in> {48..57}"
  shows "split_ws word (ds @ bs) = split_ws (word @ ds) bs"
  using assms
proof (induction ds arbitrary: word)
  case (Cons b ds)
  have "ws_prefix white_space (b # ds @ bs) = 0" using Cons.prems by (intro ws_prefix_digit) simp
  then have "split_ws word ((b # ds) @ bs) = split_ws (word @ [b]) (ds @ bs)" by (simp add: split_ws.simps [of word])
  with Cons show ?case by simp
qed simp

lemma split_ws_pid: "split_ws [] (as_bytes (decimal p @ '' '') @ bs) = as_bytes (decimal p) # split_ws [] bs"
proof -
  have e: "as_bytes (decimal p @ '' '') @ bs = as_bytes (decimal p) @ 32 # bs" by (simp add: as_bytes_def)
  have d: "split_ws [] (as_bytes (decimal p) @ 32 # bs) = split_ws ([] @ as_bytes (decimal p)) (32 # bs)"
    by (rule split_ws_word) (use RB_Lsp.decimal_bytes in blast)
  have n: "as_bytes (decimal p) \<noteq> []" by (metis decimal_nonempty of_bytes_as_bytes as_bytes_simps(5))
  show ?thesis unfolding e d using n by (simp add: split_ws.simps [of _ "32 # bs"] white_space_blank)
qed

lemma split_children: "split_whitespace (children_file pids) = map decimal pids"
proof -
  have "split_ws [] (as_bytes (children_file pids)) = map (\<lambda>p. as_bytes (decimal p)) pids"
  proof (induction pids)
    case Nil
    show ?case by (simp add: children_file_def split_ws.simps)
  next
    case (Cons p pids)
    have "as_bytes (children_file (p # pids)) = as_bytes (decimal p @ '' '') @ as_bytes (children_file pids)"
      by (simp only: children_file_def list.map concat.simps as_bytes_simps(3) append_assoc)
    with Cons show ?case by (simp only: split_ws_pid list.map)
  qed
  then show ?thesis by (simp add: split_whitespace_def o_def)
qed

lemma parse_i32_decimal: "n < 2 ^ 31 \<Longrightarrow> parse_i32 (decimal n) = Some (int n)"
proof -
  assume n: "n < 2 ^ 31"
  obtain c cs where d: "decimal n = c # cs" by (cases "decimal n") auto
  have "c \<noteq> CHR ''-''" using decimal_digits [of c n] d by auto
  moreover have "parse_usize (decimal n) = Some n" using parse_usize_decimal [of n] n by simp
  ultimately show ?thesis using n by (simp add: parse_i32_def d)
qed

lemma child_search_blank: "length rs \<le> n \<Longrightarrow> \<forall>r\<in>set rs. r = Inr [] \<Longrightarrow> child_search n (rs @ more') = child_search (n - length rs) more'"
proof (induction rs arbitrary: n)
  case (Cons r rs)
  then obtain m where "n = Suc m" by (cases n) auto
  moreover have "last_pid [] = None" by (simp add: last_pid_def split_whitespace_def split_ws.simps)
  ultimately show ?case using Cons by simp
qed simp

text \<open>
  The process that the engine puts into the cgroup of the request is the newest child of the zygote,
  even when it takes the kernel up to 199 reads to show it.
\<close>

theorem newest_child_is_found:
  assumes "length early < 200" "\<forall>r\<in>set early. r = Inr []" "pid < 2 ^ 31"
  shows "newest_child (early @ Inr (children_file (pids @ [pid])) # later) = Some (Inr (int pid))"
proof -
  have l: "last_pid (children_file (pids @ [pid])) = Some (int pid)"
    using parse_i32_decimal [OF assms(3)] by (simp add: last_pid_def split_children)
  obtain m where m: "CHILD_TRIES - length early = Suc m" using assms(1) by (metis CHILD_TRIES_def Suc_diff_Suc)
  have "newest_child (early @ Inr (children_file (pids @ [pid])) # later) =
      child_search (CHILD_TRIES - length early) (Inr (children_file (pids @ [pid])) # later)"
    unfolding newest_child_def using assms by (intro child_search_blank) (simp_all add: CHILD_TRIES_def)
  with l show ?thesis by (simp add: m)
qed

theorem newest_child_is_found_witness:
  "newest_child [Inr [], Inr (children_file [41, 43])] = Some (Inr 43)"
  using newest_child_is_found [of "[Inr []]" 43 "[41]" "[]"] by simp


section \<open>The shim's loop\<close>

text \<open>A process opens the lowest free descriptor; the table is the list of open ones.\<close>

definition lowest_free :: "nat list \<Rightarrow> nat" where
  "lowest_free fds = hd (filter (\<lambda>n. n \<notin> set fds) [0..<Suc (length fds)])"

fun open_fds :: "nat \<Rightarrow> nat list \<Rightarrow> nat list \<times> nat list" where
  "open_fds 0 fds = ([], fds)"
| "open_fds (Suc k) fds =
     (let n = lowest_free fds in case open_fds k (n # fds) of (ns, fds') \<Rightarrow> (n # ns, fds'))"

definition close_fds :: "nat list \<Rightarrow> nat list \<Rightarrow> nat list" where
  "close_fds cs fds = filter (\<lambda>n. n \<notin> set cs) fds"

text \<open>
  One message of the engine: its bytes decoded, the number of descriptors that came with it, and how
  the middle process will end. The receive buffer for descriptors has room for three.
\<close>

record shim_message =
  sq_request :: "fork_request option"
  sq_nfds :: nat
  sq_status :: wait_status

record server_state =
  sh_fds :: "nat list"
  sh_sent :: "byte list list"
  sh_forked :: "(fork_request \<times> nat list \<times> nat list) list"
    \<comment> \<open>requests with the descriptors of their middle process and of their program\<close>

text \<open>
  The middle process closes its copies of the two ends it does not use and the go pipe; the program's
  process closes what it was given, the socket (3) and the report pipe. Neither closes the write end
  of the status pipe in the program's process.
\<close>

definition middle_fds :: "nat list \<Rightarrow> nat \<Rightarrow> nat \<Rightarrow> nat list" where
  "middle_fds fds go_w stat_r = close_fds [go_w, stat_r] fds"

definition program_fds :: "nat list \<Rightarrow> nat list \<Rightarrow> nat \<Rightarrow> nat list" where
  "program_fds fds given go_r =
     (case open_fds 2 (close_fds [go_r] fds) of
        (ts, fds1) \<Rightarrow> close_fds (ts @ given @ [3]) fds1)"

text \<open>
  \<^verbatim>\<open>while True\<close>: \<open>None\<close> as the request is a message that is no JSON, an exception that ends the zygote.
  \<open>render\<close> makes the status frame. What the engine answers to the first frame is not looked at.
\<close>

definition shim_serve_one :: "(int \<times> int \<Rightarrow> byte list) \<Rightarrow> shim_message \<Rightarrow> server_state \<Rightarrow> server_state option" where
  "shim_serve_one render q st =
     (case open_fds (min 3 (sq_nfds q)) (sh_fds st) of
        (given, f1) \<Rightarrow>
          (case sq_request q of
             None \<Rightarrow> None
           | Some req \<Rightarrow>
               (case open_fds 2 f1 of
                  (go, f2) \<Rightarrow>
                    (case open_fds 2 f2 of
                       (stat, f3) \<Rightarrow>
                         let mid = middle_fds f3 (go ! 1) (stat ! 0);
                             f4 = close_fds given (close_fds [go ! 0, stat ! 1] f3);
                             f5 = close_fds [stat ! 0] (close_fds [go ! 1] f4)
                         in Some \<lparr>sh_fds = f5,
                              sh_sent = sh_sent st @ [as_bytes ''forked'', render (status_report (sq_status q))],
                              sh_forked = sh_forked st @ [(req, mid, program_fds mid given (go ! 0))]\<rparr>))))"

datatype shim_input = ShimEof | ShimMessage shim_message

text \<open>\<open>None\<close> is a zygote that died of an exception.\<close>

fun shim_serve :: "(int \<times> int \<Rightarrow> byte list) \<Rightarrow> shim_input list \<Rightarrow> server_state \<Rightarrow> server_state option" where
  "shim_serve render [] st = Some st"
| "shim_serve render (ShimEof # is) st = Some st"
| "shim_serve render (ShimMessage q # is) st =
     (case shim_serve_one render q st of None \<Rightarrow> None | Some st1 \<Rightarrow> shim_serve render is st1)"

definition shim_boot :: server_state where
  "shim_boot = \<lparr>sh_fds = [3, 2, 1, 0], sh_sent = [as_bytes ''hello''], sh_forked = []\<rparr>"

lemma lowest_free_not_in: "lowest_free fds \<notin> set fds"
proof -
  have "\<not> set [0..<Suc (length fds)] \<subseteq> set fds"
  proof
    assume "set [0..<Suc (length fds)] \<subseteq> set fds"
    then have "card (set [0..<Suc (length fds)]) \<le> card (set fds)" by (intro card_mono) auto
    also have "\<dots> \<le> length fds" by (rule card_length)
    finally show False by simp
  qed
  then have "filter (\<lambda>n. n \<notin> set fds) [0..<Suc (length fds)] \<noteq> []" by (auto simp: filter_empty_conv)
  then have "lowest_free fds \<in> set (filter (\<lambda>n. n \<notin> set fds) [0..<Suc (length fds)])"
    unfolding lowest_free_def by (rule hd_in_set)
  then have "lowest_free fds \<in> {n \<in> set [0..<Suc (length fds)]. n \<notin> set fds}" by (simp only: set_filter)
  then show ?thesis by blast
qed

lemma open_fds_spec:
  "open_fds k fds = (ns, fds') \<Longrightarrow> fds' = rev ns @ fds \<and> length ns = k \<and> distinct ns \<and> set ns \<inter> set fds = {}"
proof (induction k arbitrary: fds ns fds')
  case (Suc k)
  obtain ms gs where o: "open_fds k (lowest_free fds # fds) = (ms, gs)" by fastforce
  with Suc.prems have e: "ns = lowest_free fds # ms" "fds' = gs" by (simp_all add: Let_def)
  from Suc.IH [OF o] have "gs = rev ms @ lowest_free fds # fds" "length ms = k" "distinct ms"
      "set ms \<inter> set (lowest_free fds # fds) = {}" by simp_all
  with e lowest_free_not_in [of fds] show ?case by auto
qed simp

lemma close_fds_simps [simp]:
  "close_fds cs [] = []" "close_fds cs (f # fds) = (if f \<in> set cs then close_fds cs fds else f # close_fds cs fds)"
  "close_fds cs (xs @ ys) = close_fds cs xs @ close_fds cs ys" "set (close_fds cs fds) = set fds - set cs"
  by (auto simp: close_fds_def)

lemma close_fds_disjoint: "set cs \<inter> set fds = {} \<Longrightarrow> close_fds cs fds = fds"
  by (auto simp: close_fds_def filter_id_conv)

lemma close_fds_all: "set xs \<subseteq> set cs \<Longrightarrow> close_fds cs xs = []"
  by (auto simp: close_fds_def filter_empty_conv)

lemma close_close: "close_fds cs (close_fds ds fds) = close_fds (ds @ cs) fds"
  by (auto simp: close_fds_def intro: filter_cong)

lemma two_list: "length xs = 2 \<Longrightarrow> xs = [xs ! 0, xs ! 1]"
  by (cases xs; cases "tl xs") auto

lemma shim_serve_one_ok:
  assumes "sq_request q = Some req"
  obtains mid prog given stat_w go_r where
    "shim_serve_one render q st = Some \<lparr>sh_fds = sh_fds st,
       sh_sent = sh_sent st @ [as_bytes ''forked'', render (status_report (sq_status q))],
       sh_forked = sh_forked st @ [(req, mid, prog)]\<rparr>"
    "length given = min 3 (sq_nfds q)" "set given \<inter> set (sh_fds st) = {}" "stat_w \<notin> set (sh_fds st)"
    "set mid = set (sh_fds st) \<union> set given \<union> {go_r, stat_w}"
    "set prog = set (sh_fds st) - {3} \<union> (if 3 \<in> set (sh_fds st) then {stat_w} else {stat_w} - {3})"
proof -
  obtain given f1 where g: "open_fds (min 3 (sq_nfds q)) (sh_fds st) = (given, f1)" by fastforce
  obtain go f2 where go: "open_fds 2 f1 = (go, f2)" by fastforce
  obtain stat f3 where stat: "open_fds 2 f2 = (stat, f3)" by fastforce
  note G = open_fds_spec [OF g] and O = open_fds_spec [OF go] and S = open_fds_spec [OF stat]
  let ?mid = "middle_fds f3 (go ! 1) (stat ! 0)"
  have f3: "f3 = [stat ! 1, stat ! 0, go ! 1, go ! 0] @ rev given @ sh_fds st"
    using two_list [of go] two_list [of stat] G O S by (metis append.assoc append_Cons append_Nil rev.simps(1,2))
  have d: "distinct ([stat ! 1, stat ! 0, go ! 1, go ! 0] @ given)"
      "{stat ! 1, stat ! 0, go ! 1, go ! 0} \<inter> set (sh_fds st) = {}" "set given \<inter> set (sh_fds st) = {}"
    using two_list [of go] two_list [of stat] G O S
    by (auto simp: numeral_2_eq_2 length_Suc_conv)
  have f5: "close_fds [stat ! 0] (close_fds [go ! 1] (close_fds given (close_fds [go ! 0, stat ! 1] f3))) = sh_fds st"
  proof -
    define cs where "cs = [go ! 0, stat ! 1] @ given @ [go ! 1] @ [stat ! 0]"
    have "close_fds cs [stat ! 1, stat ! 0, go ! 1, go ! 0] = []" "close_fds cs (rev given) = []"
      by (rule close_fds_all; auto simp: cs_def)+
    moreover have "close_fds cs (sh_fds st) = sh_fds st"
      using d by (intro close_fds_disjoint) (auto simp: cs_def)
    moreover have "close_fds [stat ! 0] (close_fds [go ! 1] (close_fds given (close_fds [go ! 0, stat ! 1] f3))) = close_fds cs f3"
      by (simp only: close_close cs_def append_assoc)
    ultimately show ?thesis by (simp only: f3 close_fds_simps(3) append_Nil)
  qed
  have mid: "set ?mid = set (sh_fds st) \<union> set given \<union> {go ! 0, stat ! 1}"
    using d by (auto simp: middle_fds_def f3)
  obtain ts f6 where t: "open_fds 2 (close_fds [go ! 0] ?mid) = (ts, f6)" by fastforce
  have prog: "set (program_fds ?mid given (go ! 0)) =
      set (sh_fds st) - {3} \<union> (if 3 \<in> set (sh_fds st) then {stat ! 1} else {stat ! 1} - {3})"
  proof -
    have "program_fds ?mid given (go ! 0) = close_fds (ts @ given @ [3]) f6" by (simp only: program_fds_def t prod.case)
    then have p: "set (program_fds ?mid given (go ! 0)) = set ts \<union> (set ?mid - {go ! 0}) - (set ts \<union> set given \<union> {3})"
      using open_fds_spec [OF t] by (simp only: close_fds_simps(4) set_append set_rev list.set) blast
    have m: "set ?mid - {go ! 0} = set (sh_fds st) \<union> set given \<union> {stat ! 1}" unfolding mid using d(1,2) by auto
    have ts: "set ts \<inter> (set (sh_fds st) \<union> set given \<union> {stat ! 1}) = {}"
      using open_fds_spec [OF t] by (simp only: close_fds_simps(4) list.set m)
    have w: "stat ! 1 \<notin> set (sh_fds st)" "stat ! 1 \<notin> set given" using d(1,2) by auto
    show ?thesis
    proof (cases "3 \<in> set (sh_fds st)")
      case True
      then show ?thesis unfolding p m using ts w d(3) by auto
    next
      case False
      then show ?thesis unfolding p m using ts w d(3) by auto
    qed
  qed
  have "shim_serve_one render q st = Some \<lparr>sh_fds = sh_fds st,
      sh_sent = sh_sent st @ [as_bytes ''forked'', render (status_report (sq_status q))],
      sh_forked = sh_forked st @ [(req, ?mid, program_fds ?mid given (go ! 0))]\<rparr>"
    using assms f5 by (simp add: shim_serve_one_def g go stat Let_def del: close_fds_simps)
  then show thesis by (rule that) (use mid prog G d(2,3) in auto)
qed


lemma shim_serve_ok:
  assumes "\<forall>q\<in>set qs. sq_request q \<noteq> None"
  shows "\<exists>forks. shim_serve render (map ShimMessage qs) st = Some \<lparr>sh_fds = sh_fds st,
      sh_sent = sh_sent st @ concat (map (\<lambda>q. [as_bytes ''forked'', render (status_report (sq_status q))]) qs),
      sh_forked = sh_forked st @ forks\<rparr> \<and>
    map fst forks = map (\<lambda>q. the (sq_request q)) qs \<and>
    (sh_fds st = [3, 2, 1, 0] \<longrightarrow> (\<forall>f\<in>set forks. \<exists>w. w \<notin> {0, 1, 2, 3} \<and> set (snd (snd f)) = {0, 1, 2, w}))"
  using assms
proof (induction qs arbitrary: st)
  case Nil
  show ?case by simp
next
  case (Cons q qs)
  then obtain req where q: "sq_request q = Some req" by auto
  obtain mid prog given stat_w go_r where one:
    "shim_serve_one render q st = Some \<lparr>sh_fds = sh_fds st,
       sh_sent = sh_sent st @ [as_bytes ''forked'', render (status_report (sq_status q))],
       sh_forked = sh_forked st @ [(req, mid, prog)]\<rparr>" (is "_ = Some ?st")
    "stat_w \<notin> set (sh_fds st)"
    "set prog = set (sh_fds st) - {3} \<union> (if 3 \<in> set (sh_fds st) then {stat_w} else {stat_w} - {3})"
    by (rule shim_serve_one_ok [OF q, of render st])
  from Cons.IH [of ?st] Cons.prems obtain forks where rest:
    "shim_serve render (map ShimMessage qs) ?st = Some \<lparr>sh_fds = sh_fds st,
       sh_sent = sh_sent ?st @ concat (map (\<lambda>q. [as_bytes ''forked'', render (status_report (sq_status q))]) qs),
       sh_forked = sh_forked ?st @ forks\<rparr>"
    "map fst forks = map (\<lambda>q. the (sq_request q)) qs"
    "sh_fds st = [3, 2, 1, 0] \<longrightarrow> (\<forall>f\<in>set forks. \<exists>w. w \<notin> {0, 1, 2, 3} \<and> set (snd (snd f)) = {0, 1, 2, w})" by auto
  have p: "\<exists>w. w \<notin> {0, 1, 2, 3} \<and> set prog = {0, 1, 2, w}" if "sh_fds st = [3, 2, 1, 0]"
    using one(2,3) that by (intro exI [of _ stat_w]) auto
  show ?case
    by (rule exI [of _ "(req, mid, prog) # forks"]) (use one(1) rest q p in auto)
qed

text \<open>
  C22. The loop of the zygote neither leaks nor mixes requests. After any number of requests its descriptors
  are the four it started with; it has sent its greeting and then exactly two frames per request, the
  announcement of the fork and the end of that request, in order; and it forked once for each. The
  program of a request holds its three streams and one descriptor more: the write end of the pipe over
  which the middle process reports to the zygote, which nobody closes before user code runs.
\<close>

theorem shim_answers_in_order:
  assumes "\<forall>q\<in>set qs. sq_request q \<noteq> None"
  shows "\<exists>st. shim_serve render (map ShimMessage qs) shim_boot = Some st \<and> sh_fds st = sh_fds shim_boot \<and>
    sh_sent st = as_bytes ''hello'' # concat (map (\<lambda>q. [as_bytes ''forked'', render (status_report (sq_status q))]) qs) \<and>
    map fst (sh_forked st) = map (\<lambda>q. the (sq_request q)) qs \<and>
    (\<forall>f\<in>set (sh_forked st). \<exists>w. w \<notin> {0, 1, 2, 3} \<and> set (snd (snd f)) = {0, 1, 2, w})"
  using shim_serve_ok [OF assms, of render shim_boot] by (auto simp: shim_boot_def)

definition tiny_request :: fork_request where
  "tiny_request = \<lparr>fq_entry = ''main.py'', fq_files = [], fq_env = [], fq_bpf = [], fq_apparmor = None, fq_fsize = 1, fq_nproc = 1,
     fq_nofile = 1, fq_stack = 1, fq_tmpfs_mb = 1, fq_sandbox_mb = 1\<rparr>"

definition tiny_message :: "wait_status \<Rightarrow> shim_message" where
  "tiny_message ws = \<lparr>sq_request = Some tiny_request, sq_nfds = 3, sq_status = ws\<rparr>"

theorem shim_answers_in_order_witness:
  "\<exists>st. shim_serve (\<lambda>_. [1]) (map ShimMessage [tiny_message (WExited 0), tiny_message (WExited 3)]) shim_boot = Some st \<and>
     sh_fds st = [3, 2, 1, 0] \<and> length (sh_sent st) = 5"
proof -
  have "\<forall>q\<in>set [tiny_message (WExited 0), tiny_message (WExited 3)]. sq_request q \<noteq> None"
    by (simp add: tiny_message_def)
  from shim_answers_in_order [OF this, of "\<lambda>_. [1]"] show ?thesis by (auto simp: shim_boot_def)
qed

section \<open>Engine and shim together\<close>

text \<open>What the engine sees when the frames of a request are those of the shim.\<close>

definition sees_shim :: "zygote_io \<Rightarrow> byte list list \<Rightarrow> bool" where
  "sees_shim io frames \<longleftrightarrow>
     (case frames of
        [forked, _] \<Rightarrow> zi_forked io = Inr forked
      | _ \<Rightarrow> False)"

text \<open>
  An engine that reads the frames of the shim goes through its hand-over (as long as its own calls
  succeed), and the verdict it gives when the loop has the second frame is the one for the way the
  fork ended: no frame is taken for another.
\<close>

theorem engine_and_shim_in_step:
  assumes "sq_request q = Some req"
    and "shim_serve_one render q st = Some st'" "sh_sent st' = sh_sent st @ frames" "sees_shim io frames"
    and "zi_pipes_ok io" "zi_send_ok io" "zi_child io \<noteq> None" "zi_add_ok io" "zi_go_ok io" "zi_nonblock_ok io"
    and "zs_frame z = Some (frames ! 1)" "zi_json io (render (status_report (sq_status q))) = Inr (map_prod Some Some (status_report (sq_status q)))"
  shows "zygote_handshake io = Inr () \<and>
    (\<exists>js. frame_status (zi_json io) (zs_frame z) = Inr js \<and>
       zygote_verdict z oom js = zygote_verdict z oom (map_prod Some Some (status_report (sq_status q))))"
proof -
  have "\<exists>mid prog. st' = \<lparr>sh_fds = sh_fds st, sh_sent = sh_sent st @ [as_bytes ''forked'', render (status_report (sq_status q))],
      sh_forked = sh_forked st @ [(req, mid, prog)]\<rparr>"
    by (rule shim_serve_one_ok [OF assms(1), of render st]) (use assms(2) in simp)
  then have f: "frames = [as_bytes ''forked'', render (status_report (sq_status q))]" using assms(3) by auto
  have "zi_forked io = Inr (as_bytes ''forked'')" using assms(4) by (simp add: sees_shim_def f)
  then have "zygote_handshake io = Inr ()" using assms(5-10) by (simp add: zygote_handshake_def)
  moreover have "frame_status (zi_json io) (zs_frame z) = Inr (map_prod Some Some (status_report (sq_status q)))"
    using assms(11,12) f by (simp add: frame_status_def)
  ultimately show ?thesis by auto
qed


definition demo_answers :: zygote_io where
  "demo_answers = (demo_zygote_io [])\<lparr>zi_json := (\<lambda>_. Inr (Some 3, Some 0))\<rparr>"

theorem engine_and_shim_in_step_witness:
  "zygote_handshake demo_answers = Inr () \<and>
   frame_status (zi_json demo_answers) (Some [1]) = Inr (Some 3, Some 0)"
proof -
  let ?q = "tiny_message (WExited 3)"
  have q: "sq_request ?q = Some tiny_request" "sq_status ?q = WExited 3" by (simp_all add: tiny_message_def)
  obtain st' where st': "shim_serve_one (\<lambda>_. [1]) ?q shim_boot = Some st'"
      "sh_sent st' = sh_sent shim_boot @ [as_bytes ''forked'', [1]]"
    by (rule shim_serve_one_ok [OF q(1), of "\<lambda>_. [1]" shim_boot]) auto
  have a: "sees_shim demo_answers [as_bytes ''forked'', [1]]"
    by (simp add: sees_shim_def demo_answers_def demo_zygote_io_def)
  show ?thesis
    using engine_and_shim_in_step [OF q(1) st'(1) st'(2) a, of "zstate_init\<lparr>zs_frame := Some [1]\<rparr>" False]
    by (simp add: demo_answers_def demo_zygote_io_def q(2) frame_status_def)
qed

end
