(* ===== verification/RB_Procfs.thy ===== *)
theory RB_Procfs
  imports RB_Microvm RB_Drain
begin

text \<open>
  Text the kernel prints and the engine parses: the files of \<^verbatim>\<open>/proc\<close> read when a child runs out of time
  (\<^verbatim>\<open>log_timeout_state\<close>, \<^verbatim>\<open>locate_addr\<close>, \<^verbatim>\<open>peek_futex\<close> in \<^verbatim>\<open>kernel/src/linux/drain.rs\<close>) and the events file of
  a cgroup (\<^verbatim>\<open>fd_read\<close>, \<^verbatim>\<open>is_populated\<close> in \<^verbatim>\<open>cgroup.rs\<close>). The theorems: an address is found in the mapping
  that holds it, the state of a task is read past any command name, and the populated bit is the one
  the kernel printed.
\<close>

section \<open>Hexadecimal numbers\<close>

definition nibble :: "char \<Rightarrow> nat option" where
  "nibble c =
     (let n = (of_char c :: nat) in
      if 48 \<le> n \<and> n \<le> 57 then Some (n - 48)
      else if 97 \<le> n \<and> n \<le> 102 then Some (n - 87)
      else if 65 \<le> n \<and> n \<le> 70 then Some (n - 55)
      else None)"

fun radix16 :: "nat \<Rightarrow> string \<Rightarrow> nat option" where
  "radix16 acc [] = Some acc"
| "radix16 acc (c # cs) =
     (case nibble c of
        None \<Rightarrow> None
      | Some d \<Rightarrow> (let v = acc * 16 + d in if 2 ^ 64 \<le> v then None else radix16 v cs))"

text \<open>\<^verbatim>\<open>usize::from_str_radix(s, 16)\<close>: an optional plus sign and at least one digit.\<close>

definition from_str_radix16 :: "string \<Rightarrow> nat option" where
  "from_str_radix16 s =
     (let ds = (case s of c # cs \<Rightarrow> if c = CHR ''+'' then cs else s | [] \<Rightarrow> s)
      in if ds = [] then None else radix16 0 ds)"

text \<open>\<^verbatim>\<open>trim_start_matches("0x")\<close>.\<close>

fun trim_0x :: "string \<Rightarrow> string" where
  "trim_0x (c # d # s) = (if c = CHR ''0'' \<and> d = CHR ''x'' then trim_0x s else c # d # s)"
| "trim_0x s = s"

text \<open>\<^verbatim>\<open>{:x}\<close>.\<close>

fun hex_of :: "nat \<Rightarrow> string" where
  "hex_of n = (if n < 16 then [HEX ! n] else hex_of (n div 16) @ [HEX ! (n mod 16)])"

declare hex_of.simps [simp del]

section \<open>Pieces of text\<close>

definition before_char :: "char \<Rightarrow> string \<Rightarrow> string" where
  "before_char c s = takeWhile (\<lambda>d. d \<noteq> c) s"

text \<open>\<^verbatim>\<open>split_once\<close>.\<close>

definition split_once :: "char \<Rightarrow> string \<Rightarrow> (string \<times> string) option" where
  "split_once c s =
     (if c \<in> set s then Some (before_char c s, tl (dropWhile (\<lambda>d. d \<noteq> c) s)) else None)"

text \<open>\<^verbatim>\<open>str::lines\<close>: the last line may lack its end, and a carriage return before the end goes with it.\<close>

definition chomp :: "string \<Rightarrow> string" where
  "chomp l = (if l \<noteq> [] \<and> last l = CHR 0x0D then butlast l else l)"

fun str_lines_from :: "string \<Rightarrow> string \<Rightarrow> string list" where
  "str_lines_from acc [] = (if acc = [] then [] else [acc])"
| "str_lines_from acc (c # cs) =
     (if c = CHR 0x0A then chomp acc # str_lines_from [] cs else str_lines_from (acc @ [c]) cs)"

definition str_lines :: "string \<Rightarrow> string list" where
  "str_lines s = str_lines_from [] s"

section \<open>Mappings\<close>

definition map_range :: "string \<Rightarrow> (nat \<times> nat) option" where
  "map_range r =
     (case split_once (CHR ''-'') r of
        None \<Rightarrow> None
      | Some (lo, hi) \<Rightarrow>
          (case (from_str_radix16 lo, from_str_radix16 hi) of
             (Some a, Some b) \<Rightarrow> Some (a, b)
           | _ \<Rightarrow> None))"

fun locate_line :: "nat \<Rightarrow> string list \<Rightarrow> (string \<times> nat) option" where
  "locate_line addr [] = None"
| "locate_line addr (l # ls) =
     (case map_range (before_char (CHR '' '') l) of
        Some (lo, hi) \<Rightarrow> if lo \<le> addr \<and> addr < hi then Some (l, addr - lo) else locate_line addr ls
      | None \<Rightarrow> locate_line addr ls)"

definition locate_addr :: "nat \<Rightarrow> string \<Rightarrow> string" where
  "locate_addr addr maps =
     (case locate_line addr (str_lines maps) of
        Some (l, off) \<Rightarrow> l @ '' (offset=0x'' @ hex_of off @ '')''
      | None \<Rightarrow> ''mapping-not-found'')"

text \<open>\<^verbatim>\<open>i32::from_le_bytes(..).to_string()\<close>.\<close>

definition show_i32 :: "byte list \<Rightarrow> string" where
  "show_i32 bs =
     (let i = sint (u32_of_le bs) in if i < 0 then ''-'' @ decimal (nat (- i)) else decimal (nat i))"

text \<open>
  \<^verbatim>\<open>peek_futex\<close>: \<open>mem\<close> are the four bytes of the task's memory at an address, when they can be read.
\<close>

definition FUTEX :: string where "FUTEX = ''98''"

definition peek_futex :: "(nat \<Rightarrow> byte list option) \<Rightarrow> string \<Rightarrow> string \<Rightarrow> string \<times> string" where
  "peek_futex mem syscall_raw maps =
     (case split_whitespace syscall_raw of
        nr # arg # rest \<Rightarrow>
          if nr \<noteq> FUTEX then (''-'', ''-'')
          else (case from_str_radix16 (trim_0x arg) of
                  None \<Rightarrow> (''-'', ''-'')
                | Some addr \<Rightarrow>
                    (case mem addr of Some bs \<Rightarrow> show_i32 bs | None \<Rightarrow> ''unreadable'',
                     case find (\<lambda>l. case split_whitespace l of
                                       [] \<Rightarrow> False
                                     | r # _ \<Rightarrow> (case map_range r of Some (lo, hi) \<Rightarrow> lo \<le> addr \<and> addr < hi | None \<Rightarrow> False))
                            (str_lines maps) of
                       Some l \<Rightarrow> l | None \<Rightarrow> ''mapping-not-found''))
      | _ \<Rightarrow> (''-'', ''-''))"

text \<open>The state letter of \<^verbatim>\<open>/proc/<pid>/stat\<close>: the first word after the last closing parenthesis.\<close>

definition after_last :: "char \<Rightarrow> string \<Rightarrow> string" where
  "after_last c s = rev (takeWhile (\<lambda>d. d \<noteq> c) (rev s))"

definition task_state :: "string \<Rightarrow> string" where
  "task_state stat =
     (case split_whitespace (after_last (CHR '')'') stat) of w # _ \<Rightarrow> w | [] \<Rightarrow> ''?'')"

text \<open>The mapping of the program counter, field 8 of \<^verbatim>\<open>/proc/<pid>/syscall\<close>.\<close>

definition pc_mapping :: "string \<Rightarrow> string \<Rightarrow> string" where
  "pc_mapping syscall_raw maps =
     (case drop 8 (split_whitespace syscall_raw) of
        pc # _ \<Rightarrow> (case from_str_radix16 (trim_0x pc) of Some a \<Rightarrow> locate_addr a maps | None \<Rightarrow> ''-'')
      | [] \<Rightarrow> ''-'')"

text \<open>The number of threads, the line of \<^verbatim>\<open>/proc/<pid>/status\<close> that says so.\<close>

definition threads_line :: "string \<Rightarrow> string" where
  "threads_line status =
     trim (case find (\<lambda>l. starts_with l ''Threads:'') (str_lines status) of Some l \<Rightarrow> l | None \<Rightarrow> ''Threads: ?'')"

record proc_files =
  pf_comm :: string
  pf_exe :: "string option"
  pf_stat :: string
  pf_wchan :: string
  pf_maps :: string
  pf_status :: string
  pf_syscall :: string
  pf_mem :: "nat \<Rightarrow> byte list option"

text \<open>The fields of the log line, in the order of the code. The files of the engine itself come second.\<close>

definition log_timeout_state :: "proc_files \<Rightarrow> proc_files \<Rightarrow> string \<Rightarrow> (string \<times> string) list" where
  "log_timeout_state child self early =
     (let fw = peek_futex (pf_mem child) (pf_syscall child) (pf_maps child);
          pw = peek_futex (pf_mem self) (pf_syscall child) (pf_maps self)
      in [(''comm'', trim (pf_comm child)), (''exe'', (case pf_exe child of Some p \<Rightarrow> p | None \<Rightarrow> ''?'')),
          (''state'', task_state (pf_stat child)), (''wchan'', trim (pf_wchan child)),
          (''threads'', threads_line (pf_status child)), (''futex_word'', fst fw), (''futex_map'', snd fw),
          (''parent_word'', fst pw), (''parent_map'', snd pw),
          (''pc_map'', pc_mapping (pf_syscall child) (pf_maps child)), (''early_exit'', early)])"

section \<open>The events file of a cgroup\<close>

definition FD_READ_BUF :: nat where "FD_READ_BUF = 4096"

definition fd_read :: "string + byte list \<Rightarrow> sandbox_error + string" where
  "fd_read r =
     (case r of Inl e \<Rightarrow> Inl (Cgroup ''pread'' e) | Inr bs \<Rightarrow> Inr (from_utf8_lossy (take FD_READ_BUF bs)))"

fun contains :: "string \<Rightarrow> string \<Rightarrow> bool" where
  "contains [] p = (p = [])"
| "contains (c # s) p = (starts_with (c # s) p \<or> contains s p)"

definition is_populated :: "string + byte list \<Rightarrow> sandbox_error + bool" where
  "is_populated r = and_then (fd_read r) (\<lambda>s. Inr (contains s ''populated 1''))"

definition events_file :: "bool \<Rightarrow> bool \<Rightarrow> string" where
  "events_file populated frozen =
     ''populated '' @ (if populated then ''1'' else ''0'') @ [CHR 0x0A] @
     ''frozen '' @ (if frozen then ''1'' else ''0'') @ [CHR 0x0A]"

text \<open>What the kernel prints is what is read back.\<close>

theorem populated_bit_is_read: "is_populated (Inr (as_bytes (events_file p f))) = Inr p"
proof -
  have "length (events_file p f) \<le> FD_READ_BUF" by (cases p; cases f) (simp_all add: events_file_def FD_READ_BUF_def)
  moreover have "utf8_valid (as_bytes (events_file p f))"
    by (rule bool.exhaust [of p]; rule bool.exhaust [of f]; hypsubst; code_simp)
  ultimately have "fd_read (Inr (as_bytes (events_file p f))) = Inr (events_file p f)"
    by (simp add: fd_read_def)
  moreover have "contains (events_file p f) ''populated 1'' = p"
    by (cases p; cases f) (simp_all add: events_file_def starts_with_def)
  ultimately show ?thesis by (simp add: is_populated_def)
qed

section \<open>Printing and parsing mappings\<close>

lemma nibble_HEX: "x < 16 \<Longrightarrow> nibble (HEX ! x) = Some x"
  by (drule less_16_cases) (elim insertE emptyE; hypsubst; code_simp)

lemma radix16_append:
  "radix16 a (ds @ [c]) = (case radix16 a ds of Some v \<Rightarrow> radix16 v [c] | None \<Rightarrow> None)"
  by (induction a ds rule: radix16.induct) (simp_all add: Let_def split: option.split)

lemma radix16_hex_of: "n < 2 ^ 64 \<Longrightarrow> radix16 0 (hex_of n) = Some n"
proof (induction n rule: hex_of.induct)
  case (1 n)
  show ?case
  proof (cases "n < 16")
    case True
    then show ?thesis using nibble_HEX [OF True] "1.prems" by (simp add: hex_of.simps Let_def)
  next
    case False
    have "n div 16 < 2 ^ 64" using "1.prems" by simp
    from "1.IH" [OF False this] have "radix16 0 (hex_of n) = radix16 (n div 16) [HEX ! (n mod 16)]"
      using False by (subst hex_of.simps) (simp add: radix16_append)
    moreover have "n div 16 * 16 + n mod 16 = n" by simp
    ultimately show ?thesis using nibble_HEX [of "n mod 16"] "1.prems" by (simp add: Let_def)
  qed
qed

lemma hex_of_chars: "c \<in> set (hex_of n) \<Longrightarrow> c \<in> set HEX"
proof (induction n rule: hex_of.induct)
  case (1 n)
  have h: "HEX ! m \<in> set HEX" if "m < 16" for m using that by (intro nth_mem) (simp add: HEX_def)
  show ?case
  proof (cases "n < 16")
    case True
    with "1.prems" h [of n] show ?thesis by (simp add: hex_of.simps [of n])
  next
    case False
    with "1.prems" have "c \<in> set (hex_of (n div 16)) \<or> c = HEX ! (n mod 16)" by (auto simp: hex_of.simps [of n])
    with "1.IH" [OF False] h [of "n mod 16"] show ?thesis by auto
  qed
qed

lemma hex_of_nonempty [simp]: "hex_of n \<noteq> []"
  by (subst hex_of.simps) simp

lemma hex_of_clean: "CHR ''-'' \<notin> set (hex_of n)" "CHR '' '' \<notin> set (hex_of n)" "CHR 0x0A \<notin> set (hex_of n)" "CHR ''+'' \<notin> set (hex_of n)"
  using hex_of_chars [of _ n] by (force simp: HEX_def)+

lemma from_str_radix16_hex_of: "n < 2 ^ 64 \<Longrightarrow> from_str_radix16 (hex_of n) = Some n"
proof -
  assume n: "n < 2 ^ 64"
  obtain c cs where d: "hex_of n = c # cs" by (cases "hex_of n") auto
  have "c \<noteq> CHR ''+''" using hex_of_clean(4) [of n] d by auto
  then show ?thesis using radix16_hex_of [OF n] by (simp add: from_str_radix16_def d)
qed

lemma before_char_append: "c \<notin> set s \<Longrightarrow> before_char c (s @ c # t) = s"
  by (induction s) (auto simp: before_char_def)

lemma split_once_append: "c \<notin> set s \<Longrightarrow> split_once c (s @ c # t) = Some (s, t)"
  by (induction s) (auto simp: split_once_def before_char_def)

text \<open>A mapping as the kernel prints it: the range, a blank, permissions and path.\<close>

record mapping =
  mg_lo :: nat
  mg_hi :: nat
  mg_rest :: string

definition map_line :: "mapping \<Rightarrow> string" where
  "map_line m = hex_of (mg_lo m) @ ''-'' @ hex_of (mg_hi m) @ '' '' @ mg_rest m"

definition maps_file :: "mapping list \<Rightarrow> string" where
  "maps_file ms = concat (map (\<lambda>m. map_line m @ [CHR 0x0A]) ms)"

definition printable :: "mapping \<Rightarrow> bool" where
  "printable m \<longleftrightarrow> mg_lo m < 2 ^ 64 \<and> mg_hi m < 2 ^ 64 \<and> CHR 0x0A \<notin> set (mg_rest m) \<and> CHR 0x0D \<notin> set (mg_rest m)"

lemma str_lines_from_line:
  "CHR 0x0A \<notin> set l \<Longrightarrow> str_lines_from acc (l @ CHR 0x0A # s) = chomp (acc @ l) # str_lines_from [] s"
  by (induction l arbitrary: acc) auto

lemma map_line_chomp: "printable m \<Longrightarrow> chomp (map_line m) = map_line m"
proof -
  assume p: "printable m"
  have "last (map_line m) \<noteq> CHR 0x0D"
    using p by (cases "mg_rest m = []") (auto simp: map_line_def printable_def dest: last_in_set)
  then show ?thesis by (simp add: chomp_def)
qed

lemma map_line_clean: "printable m \<Longrightarrow> CHR 0x0A \<notin> set (map_line m)"
  using hex_of_clean(3) by (auto simp: map_line_def printable_def)

lemma str_lines_maps: "list_all printable ms \<Longrightarrow> str_lines (maps_file ms) = map map_line ms"
proof (induction ms)
  case (Cons m ms)
  then show ?case
    using str_lines_from_line [OF map_line_clean, of m "[]" "maps_file ms"] map_line_chomp [of m]
    by (simp add: str_lines_def maps_file_def)
qed (simp add: str_lines_def maps_file_def)

lemma map_range_line: "printable m \<Longrightarrow> map_range (before_char (CHR '' '') (map_line m)) = Some (mg_lo m, mg_hi m)"
proof -
  assume p: "printable m"
  let ?r = "hex_of (mg_lo m) @ CHR ''-'' # hex_of (mg_hi m)"
  have "CHR '' '' \<notin> set ?r" using hex_of_clean(2) by auto
  then have "before_char (CHR '' '') (map_line m) = ?r"
    using before_char_append [of "CHR '' ''" ?r "mg_rest m"] by (simp add: map_line_def)
  then show ?thesis
    using p split_once_append [OF hex_of_clean(1), of "mg_lo m" "hex_of (mg_hi m)"]
    by (simp add: map_range_def from_str_radix16_hex_of printable_def)
qed

lemma locate_line_maps:
  "list_all printable ms \<Longrightarrow> locate_line addr (map map_line ms) =
     map_option (\<lambda>m. (map_line m, addr - mg_lo m)) (find (\<lambda>m. mg_lo m \<le> addr \<and> addr < mg_hi m) ms)"
  by (induction ms) (auto simp: map_range_line)

text \<open>
  An address is located in the first mapping of the kernel's table that holds it, with its offset from
  the start of that mapping, and not found exactly when no mapping holds it.
\<close>

theorem address_is_located:
  assumes "list_all printable ms"
  shows "locate_addr addr (maps_file ms) =
    (case find (\<lambda>m. mg_lo m \<le> addr \<and> addr < mg_hi m) ms of
       Some m \<Rightarrow> map_line m @ '' (offset=0x'' @ hex_of (addr - mg_lo m) @ '')''
     | None \<Rightarrow> ''mapping-not-found'')"
  unfolding locate_addr_def str_lines_maps [OF assms] locate_line_maps [OF assms] by (simp split: option.split)

theorem address_is_located_witness:
  "locate_addr 0x1010 (maps_file [\<lparr>mg_lo = 0, mg_hi = 16, mg_rest = ''r--p''\<rparr>, \<lparr>mg_lo = 0x1000, mg_hi = 0x2000, mg_rest = ''r-xp''\<rparr>]) =
     map_line \<lparr>mg_lo = 0x1000, mg_hi = 0x2000, mg_rest = ''r-xp''\<rparr> @ '' (offset=0x'' @ hex_of 16 @ '')''"
  by (subst address_is_located) (simp_all add: printable_def)

section \<open>The state of a task\<close>

lemma after_last_append: "c \<notin> set t \<Longrightarrow> after_last c (s @ c # t) = t"
proof -
  assume c: "c \<notin> set t"
  then have "takeWhile (\<lambda>d. d \<noteq> c) (rev t @ c # rev s) = rev t" by (subst takeWhile_append2) auto
  then show ?thesis by (simp add: after_last_def)
qed

lemma split_ws_letter:
  assumes "ws_prefix white_space (b # 32 # bs) = 0"
  shows "split_ws [] (32 # b # 32 # bs) = [b] # split_ws [] bs"
  using assms by (simp add: split_ws.simps [of _ "32 # _"] split_ws.simps [of _ "b # _"] white_space_blank)

text \<open>
  The state is read correctly whatever the command is called: a name with blanks and parentheses does
  not shift the fields.
\<close>

theorem task_state_ignores_name:
  assumes "CHR '')'' \<notin> set rest" "state \<in> set ''RSDTtZXIPKW''"
  shows "task_state (decimal pid @ '' ('' @ comm @ '') '' @ [state] @ '' '' @ rest) = [state]"
proof -
  have "after_last (CHR '')'') ((decimal pid @ '' ('' @ comm) @ CHR '')'' # ('' '' @ [state] @ '' '' @ rest)) = '' '' @ [state] @ '' '' @ rest"
    by (rule after_last_append) (use assms in auto)
  then have a: "after_last (CHR '')'') (decimal pid @ '' ('' @ comm @ '') '' @ [state] @ '' '' @ rest) = '' '' @ [state] @ '' '' @ rest"
    by simp
  let ?b = "word_of_nat (of_char state) :: byte"
  have b: "as_bytes ('' '' @ [state] @ '' '' @ rest) = 32 # ?b # 32 # as_bytes rest"
    by (simp add: as_bytes_def)
  have "ws_prefix white_space (?b # 32 # as_bytes rest) = 0"
    using assms(2) by (auto simp: ws_prefix_def white_space_def)
  then have "split_ws [] (32 # ?b # 32 # as_bytes rest) = [?b] # split_ws [] (as_bytes rest)" by (rule split_ws_letter)
  moreover have "of_bytes [?b] = [state]" using of_bytes_as_bytes [of "[state]"] by (simp add: as_bytes_def)
  ultimately show ?thesis by (simp only: task_state_def a split_whitespace_def b list.map list.case)
qed

theorem task_state_ignores_name_witness:
  "task_state (decimal 12 @ '' ('' @ ''a) Z (b'' @ '') '' @ [CHR ''S''] @ '' '' @ ''1 12'') = ''S''"
  by (rule task_state_ignores_name) simp_all

section \<open>Two shortcomings\<close>

text \<open>
  The number compared with is that of \<^verbatim>\<open>futex\<close> on AArch64; on x86-64 it is 202 (98 is another call), so
  there the word a blocked program waits for is never shown.
\<close>

theorem futex_on_x86_is_not_recognised:
  "peek_futex mem ''202 0x7f00 0x80 0x0'' maps = (''-'', ''-'')"
proof -
  have "split_whitespace ''202 0x7f00 0x80 0x0'' = [''202'', ''0x7f00'', ''0x80'', ''0x0'']" by code_simp
  then show ?thesis by (simp add: peek_futex_def FUTEX_def)
qed

text \<open>
  A pipe that has reached its end stays registered and is reported again at once: every such wake-up
  leaves the loop where it was, so a child that closes its output and runs on keeps the engine spinning.
\<close>

theorem ended_pipe_spins:
  "drainer_run cap k (replicate n (Events [EvStdout [Got []]]) @ ws) d = drainer_run cap k ws d"
  by (induction n) (simp_all add: handle_event_def read_chunk_def)

end
