(* ===== verification/RB_Once.thy ===== *)
theory RB_Once
  imports RB_Warm RB_Procfs
begin

text \<open>
  Work an engine does once in its life: the parent of all cgroups (\<^verbatim>\<open>ensure_root\<close> in
  \<^verbatim>\<open>kernel/src/linux/cgroup.rs\<close>) and the sweep of left-over warm volumes (\<^verbatim>\<open>sweep_stale_warm_dirs\<close> in
  \<^verbatim>\<open>engine/src/modes/rl.rs\<close>). A cell filled on first use is a contract of its own, stated as a locale. The
  theorems: the first outcome is the outcome of every later call, and the sweep removes the volumes of
  dead engines and nothing that belongs to a live one.
\<close>

section \<open>Cells filled once\<close>

text \<open>
  \<open>use\<close> takes what the world answers and the cell; the contract: an empty cell takes the value computed
  from the answer, a full one keeps its value.
\<close>

locale once_cell =
  fixes compute :: "'w \<Rightarrow> 'r"
    and use :: "'w \<Rightarrow> 'r option \<Rightarrow> 'r \<times> 'r option"
  assumes use_empty: "use w None = (compute w, Some (compute w))"
    and use_full: "use w (Some r) = (r, Some r)"
begin

fun uses :: "'w list \<Rightarrow> 'r option \<Rightarrow> 'r list \<times> 'r option" where
  "uses [] c = ([], c)"
| "uses (w # ws) c = (case use w c of (r, c1) \<Rightarrow> case uses ws c1 of (rs, c2) \<Rightarrow> (r # rs, c2))"

lemma uses_full: "uses ws (Some r) = (replicate (length ws) r, Some r)"
  by (induction ws) (simp_all add: use_full)

lemma first_decides: "uses (w # ws) None = (replicate (Suc (length ws)) (compute w), Some (compute w))"
  by (simp add: use_empty uses_full)

lemma used_once: "snd (use w' (snd (use w c))) = snd (use w c)"
  by (cases c) (simp_all add: use_empty use_full)

end

section \<open>The parent of all cgroups\<close>

text \<open>What \<^verbatim>\<open>create_dir\<close> (an error kind and its text) and the write of the delegated controllers say.\<close>

record root_io =
  ri_mkdir :: "(bool \<times> string) option"     \<comment> \<open>is it \<^verbatim>\<open>AlreadyExists\<close>, and the text\<close>
  ri_control :: "string option"

definition root_init :: "root_io \<Rightarrow> string + unit" where
  "root_init io =
     (case ri_mkdir io of
        Some (False, e) \<Rightarrow> Inl (''create '' @ CGROUP_ROOT @ '': '' @ e)
      | _ \<Rightarrow> (case ri_control io of Some e \<Rightarrow> Inl (''subtree_control: '' @ e) | None \<Rightarrow> Inr ()))"

text \<open>\<^verbatim>\<open>OnceLock::get_or_init\<close>: errors are kept like values.\<close>

definition root_cell_use :: "root_io \<Rightarrow> (string + unit) option \<Rightarrow> (string + unit) \<times> (string + unit) option" where
  "root_cell_use io cell = (case cell of Some r \<Rightarrow> (r, cell) | None \<Rightarrow> (root_init io, Some (root_init io)))"

definition ensure_root :: "root_io \<Rightarrow> (string + unit) option \<Rightarrow> (sandbox_error + unit) \<times> (string + unit) option" where
  "ensure_root io cell =
     (case root_cell_use io cell of
        (Inl m, c) \<Rightarrow> (Inl (Cgroup ''ensure_root'' m), c)
      | (Inr _, c) \<Rightarrow> (Inr (), c))"

interpretation root: once_cell root_init root_cell_use
  by unfold_locales (simp_all add: root_cell_use_def)

lemma ensure_root_first: "root_init io = Inl m \<Longrightarrow> ensure_root io None = (Inl (Cgroup ''ensure_root'' m), Some (Inl m))"
  by (simp add: ensure_root_def root.use_empty)

lemma ensure_root_later: "ensure_root io (Some (Inl m)) = (Inl (Cgroup ''ensure_root'' m), Some (Inl m))"
  by (simp add: ensure_root_def root.use_full)

text \<open>\<^verbatim>\<open>Cgroup::create\<close> with the cell; the rest is the model of \<^verbatim>\<open>RB_Cgroup\<close>.\<close>

definition cg_create_first ::
    "root_io \<Rightarrow> (string + unit) option \<Rightarrow> cg_env \<Rightarrow> string \<Rightarrow> resource_limits \<Rightarrow> cgfs \<Rightarrow>
     (sandbox_error + cgroup) \<times> (string + unit) option \<times> cgfs" where
  "cg_create_first io cell env name l fs =
     (case ensure_root io cell of
        (Inl e, c) \<Rightarrow> (Inl e, c, fs)
      | (Inr _, c) \<Rightarrow> (case cg_create (env\<lparr>ce_root_ok := True\<rparr>) name l fs of (r, fs1) \<Rightarrow> (r, c, fs1)))"

fun cg_creates ::
    "(root_io \<times> string) list \<Rightarrow> (string + unit) option \<Rightarrow> cg_env \<Rightarrow> resource_limits \<Rightarrow> cgfs \<Rightarrow>
     (sandbox_error + cgroup) list \<times> cgfs" where
  "cg_creates [] cell env l fs = ([], fs)"
| "cg_creates ((io, name) # rest) cell env l fs =
     (case cg_create_first io cell env name l fs of
        (r, c, fs1) \<Rightarrow> (case cg_creates rest c env l fs1 of (rs, fs2) \<Rightarrow> (r # rs, fs2)))"

lemma cg_creates_failed:
  "cg_creates reqs (Some (Inl m)) env l fs = (replicate (length reqs) (Inl (Cgroup ''ensure_root'' m)), fs)"
  by (induction reqs) (auto simp: cg_create_first_def ensure_root_later)

text \<open>
  One failure to prepare the parent is final. When the first attempt of an engine fails, every later
  creation of a cgroup fails with the same error, whatever the host would answer by then, and touches
  nothing; the engine can only be restarted.
\<close>

theorem failed_root_is_final:
  assumes "root_init io = Inl m"
  shows "cg_creates ((io, name) # reqs) None env l fs = (replicate (Suc (length reqs)) (Inl (Cgroup ''ensure_root'' m)), fs)"
  using assms by (simp add: cg_create_first_def ensure_root_first cg_creates_failed)

theorem failed_root_is_final_witness:
  "cg_creates [(\<lparr>ri_mkdir = Some (False, ''EROFS''), ri_control = None\<rparr>, ''a''), (\<lparr>ri_mkdir = None, ri_control = None\<rparr>, ''b'')]
      None all_ok l Map.empty =
    (replicate 2 (Inl (Cgroup ''ensure_root'' (''create '' @ CGROUP_ROOT @ '': '' @ ''EROFS''))), Map.empty)"
proof -
  have "root_init \<lparr>ri_mkdir = Some (False, ''EROFS''), ri_control = None\<rparr> = Inl (''create '' @ CGROUP_ROOT @ '': '' @ ''EROFS'')"
    by (simp add: root_init_def)
  from failed_root_is_final [OF this, of "''a''" "[(\<lparr>ri_mkdir = None, ri_control = None\<rparr>, ''b'')]" all_ok l Map.empty]
  show ?thesis by (simp add: numeral_2_eq_2)
qed

section \<open>The sweep of warm volumes\<close>

definition parse_u32 :: "string \<Rightarrow> nat option" where
  "parse_u32 s = (case parse_usize s of Some n \<Rightarrow> if n < 2 ^ 32 then Some n else None | None \<Rightarrow> None)"

definition warm_name :: "nat \<Rightarrow> nat \<Rightarrow> string" where
  "warm_name pid n = ''.warm-'' @ decimal pid @ ''-'' @ decimal n"

text \<open>A name is doomed when it has the prefix and does not lead to a living process.\<close>

definition doomed :: "(nat \<Rightarrow> bool) \<Rightarrow> string \<Rightarrow> bool" where
  "doomed alive name =
     (case strip_prefix name ''.warm-'' of
        None \<Rightarrow> False
      | Some rest \<Rightarrow> \<not> (case parse_u32 (before_char (CHR ''-'') rest) of Some pid \<Rightarrow> alive pid | None \<Rightarrow> False))"

text \<open>
  \<open>left\<close> is what \<^verbatim>\<open>remove_dir_all\<close> leaves of a volume: nothing, or the files it could not remove; its
  error is dropped. A name that is no UTF-8 (\<open>None\<close>) is skipped, a directory that cannot be read is left
  alone, and only the first call of the process does anything.
\<close>

fun sweep_entries :: "(nat \<Rightarrow> bool) \<Rightarrow> (string \<Rightarrow> (string \<rightharpoonup> byte list) option) \<Rightarrow> string option list \<Rightarrow> volumes \<Rightarrow> volumes" where
  "sweep_entries alive left [] v = v"
| "sweep_entries alive left (None # es) v = sweep_entries alive left es v"
| "sweep_entries alive left (Some name # es) v =
     sweep_entries alive left es
       (if doomed alive name then v(path_join EPISODES_ROOT name := left name) else v)"

definition sweep_stale_warm_dirs ::
    "(nat \<Rightarrow> bool) \<Rightarrow> (string \<Rightarrow> (string \<rightharpoonup> byte list) option) \<Rightarrow> string option list option \<Rightarrow> bool \<Rightarrow> volumes \<Rightarrow> bool \<times> volumes" where
  "sweep_stale_warm_dirs alive left entries swept v =
     (if swept then (True, v)
      else (True, case entries of None \<Rightarrow> v | Some es \<Rightarrow> sweep_entries alive left es v))"

lemma before_char_decimal: "before_char (CHR ''-'') (decimal pid @ ''-'' @ s) = decimal pid"
proof -
  have "CHR ''-'' \<notin> set (decimal pid)" using decimal_digits [of "CHR ''-''" pid] by auto
  then show ?thesis using before_char_append [of "CHR ''-''" "decimal pid" s] by simp
qed

lemma doomed_warm_name: "pid < 2 ^ 32 \<Longrightarrow> doomed alive (warm_name pid n) \<longleftrightarrow> \<not> alive pid"
proof -
  assume "pid < 2 ^ 32"
  then have "parse_u32 (decimal pid) = Some pid" using parse_usize_decimal [of pid] by (simp add: parse_u32_def)
  moreover have "strip_prefix (warm_name pid n) ''.warm-'' = Some (decimal pid @ ''-'' @ decimal n)"
    unfolding warm_name_def by (rule strip_prefix_append)
  ultimately show ?thesis by (simp add: doomed_def before_char_decimal [simplified])
qed

lemma episode_path: "\<not> is_absolute name \<Longrightarrow> path_join EPISODES_ROOT name = EPISODES_ROOT @ ''/'' @ name"
  by (simp add: path_join_def EPISODES_ROOT_def)

lemma sweep_entries_at:
  assumes "\<forall>n. Some n \<in> set es \<longrightarrow> \<not> is_absolute n" "\<not> is_absolute name"
  shows "sweep_entries alive left es v (path_join EPISODES_ROOT name) =
    (if Some name \<in> set es \<and> doomed alive name then left name else v (path_join EPISODES_ROOT name))"
  using assms(1)
proof (induction alive left es v rule: sweep_entries.induct)
  case (3 alive left n es v)
  then have "path_join EPISODES_ROOT n = path_join EPISODES_ROOT name \<longleftrightarrow> n = name"
    using assms(2) by (simp add: episode_path)
  with 3 show ?case by auto
qed auto

text \<open>
  The sweep takes the volumes of dead engines and no others: after it, what is left of the warm volume
  of a process that is gone is what could not be removed, while the warm volumes of living engines and
  every volume whose name does not begin with \<^verbatim>\<open>.warm-\<close> are what they were. A second sweep does nothing.
\<close>

theorem sweep_spares_the_living:
  assumes "\<forall>n. Some n \<in> set es \<longrightarrow> \<not> is_absolute n"
    and "sweep_stale_warm_dirs alive left (Some es) False v = (swept, v')"
  shows "swept \<and>
    (\<forall>pid n. pid < 2 ^ 32 \<and> Some (warm_name pid n) \<in> set es \<longrightarrow>
       v' (path_join EPISODES_ROOT (warm_name pid n)) =
         (if alive pid then v (path_join EPISODES_ROOT (warm_name pid n)) else left (warm_name pid n))) \<and>
    (\<forall>name. \<not> is_absolute name \<and> \<not> starts_with name ''.warm-'' \<longrightarrow>
       v' (path_join EPISODES_ROOT name) = v (path_join EPISODES_ROOT name)) \<and>
    sweep_stale_warm_dirs alive' left' es' swept v' = (True, v')"
proof -
  have v': "swept" "v' = sweep_entries alive left es v" using assms(2) by (simp_all add: sweep_stale_warm_dirs_def)
  have "\<not> is_absolute (warm_name pid n)" for pid n by (simp add: warm_name_def is_absolute_def)
  moreover have "\<not> doomed alive name" if "\<not> starts_with name ''.warm-''" for name
    using that by (simp add: doomed_def strip_prefix_def)
  ultimately show ?thesis
    using sweep_entries_at [OF assms(1), of _ alive left v] doomed_warm_name
    by (auto simp: v' sweep_stale_warm_dirs_def)
qed

definition swept_volumes :: volumes where
  "swept_volumes = [path_join EPISODES_ROOT (warm_name 7 0) \<mapsto> Map.empty, path_join EPISODES_ROOT (warm_name 8 0) \<mapsto> Map.empty,
     path_join EPISODES_ROOT ''ep1'' \<mapsto> Map.empty]"

lemma warm_names_relative: "\<not> is_absolute (warm_name pid n)"
  by (simp add: warm_name_def is_absolute_def)

theorem sweep_spares_the_living_witness:
  "\<exists>v'. sweep_stale_warm_dirs (\<lambda>pid. pid = 7) (\<lambda>_. None) (Some [Some (warm_name 7 0), Some (warm_name 8 0), Some ''ep1'']) False
      swept_volumes = (True, v') \<and>
    v' (path_join EPISODES_ROOT (warm_name 7 0)) = swept_volumes (path_join EPISODES_ROOT (warm_name 7 0)) \<and>
    v' (path_join EPISODES_ROOT (warm_name 8 0)) = None"
proof -
  let ?es = "[Some (warm_name 7 0), Some (warm_name 8 0), Some ''ep1'']"
  obtain v' where s: "sweep_stale_warm_dirs (\<lambda>pid. pid = 7) (\<lambda>_. None) (Some ?es) False swept_volumes = (True, v')"
    by (simp add: sweep_stale_warm_dirs_def)
  have "\<forall>n. Some n \<in> set ?es \<longrightarrow> \<not> is_absolute n" by (auto simp: warm_names_relative) (simp add: is_absolute_def)
  from sweep_spares_the_living [OF this s] have
    "\<forall>pid n. pid < 2 ^ 32 \<and> Some (warm_name pid n) \<in> set ?es \<longrightarrow>
       v' (path_join EPISODES_ROOT (warm_name pid n)) =
         (if pid = 7 then swept_volumes (path_join EPISODES_ROOT (warm_name pid n)) else None)" by blast
  from this [rule_format, of 7 0] this [rule_format, of 8 0] s show ?thesis by auto
qed

text \<open>
  An episode is stored under the id the caller chose, which may begin with \<^verbatim>\<open>.warm-\<close>: the next engine
  that starts takes it for left-over and removes it with its checkpoint.
\<close>

theorem episode_named_warm_is_swept:
  "validate (minimal_settings\<lparr>s_request_id := ''.warm-up''\<rparr>) = Inr () \<and>
   (\<forall>alive. snd (sweep_stale_warm_dirs alive (\<lambda>_. None) (Some [Some ''.warm-up'']) False
      [path_join EPISODES_ROOT ''.warm-up'' \<mapsto> [''checkpoint'' \<mapsto> [1]]]) (path_join EPISODES_ROOT ''.warm-up'') = None)"
proof
  show "validate (minimal_settings\<lparr>s_request_id := ''.warm-up''\<rparr>) = Inr ()"
    by (simp add: validate_def minimal_settings_def minimal_limits_def SCHEMA_VERSION_def)
  have "parse_u32 ''up'' = None" "before_char (CHR ''-'') ''up'' = ''up''"
    by (simp_all add: parse_u32_def parse_usize_def before_char_def of_char_def)
  then have "doomed alive ''.warm-up''" for alive
    by (simp add: doomed_def strip_prefix_def starts_with_def)
  then show "\<forall>alive. snd (sweep_stale_warm_dirs alive (\<lambda>_. None) (Some [Some ''.warm-up'']) False
      [path_join EPISODES_ROOT ''.warm-up'' \<mapsto> [''checkpoint'' \<mapsto> [1]]]) (path_join EPISODES_ROOT ''.warm-up'') = None"
    by (simp add: sweep_stale_warm_dirs_def)
qed

end
