(* ===== verification/RB_Streams.thy ===== *)
theory RB_Streams
  imports RB_Exec
begin

text \<open>
  The pipes of a child (\<^verbatim>\<open>make_pipe\<close> and the pipe set-up of \<^verbatim>\<open>launch\<close> in \<^verbatim>\<open>kernel/src/linux/launcher.rs\<close>,
  \<^verbatim>\<open>pipe\<close> in \<^verbatim>\<open>engine/src/modes/zygote.rs\<close>). Both ends are made non-blocking, and the child's end keeps that
  flag through \<^verbatim>\<open>dup2\<close>, fork and \<^verbatim>\<open>execve\<close>, for it belongs to the open file. The theorems: what a pipe
  accepts arrives in order whatever the interleaving of writer and reader; and what follows for the
  program from a flag that was set for the engine.
\<close>

section \<open>Pipes\<close>

definition PIPE_CAP :: nat where "PIPE_CAP = 65536"
definition PIPE_BUF :: nat where "PIPE_BUF = 4096"

record pipe =
  pi_nonblock :: bool
  pi_content :: "byte list"
  pi_writer :: bool          \<comment> \<open>the write end is open\<close>

text \<open>\<^verbatim>\<open>pipe2(O_CLOEXEC | O_NONBLOCK)\<close>, or its error.\<close>

definition make_pipe :: "string option \<Rightarrow> sandbox_error + pipe" where
  "make_pipe err =
     (case err of
        Some e \<Rightarrow> Inl (Internal (''pipe2: '' @ e))
      | None \<Rightarrow> Inr \<lparr>pi_nonblock = True, pi_content = [], pi_writer = True\<rparr>)"

definition zygote_pipe :: "string option \<Rightarrow> string + pipe" where
  "zygote_pipe err =
     (case err of Some e \<Rightarrow> Inl e | None \<Rightarrow> Inr \<lparr>pi_nonblock = True, pi_content = [], pi_writer = True\<rparr>)"

text \<open>
  \<^verbatim>\<open>write\<close>: up to \<open>PIPE_BUF\<close> bytes go in as a whole or not at all, longer buffers may go in partly. A
  blocking pipe makes the writer wait (\<open>None\<close>) where a non-blocking one answers \<^verbatim>\<open>EAGAIN\<close>.
\<close>

definition pipe_write :: "pipe \<Rightarrow> byte list \<Rightarrow> write_result option \<times> pipe" where
  "pipe_write p buf =
     (let free = PIPE_CAP - length (pi_content p); n = length buf;
          wait = (if pi_nonblock p then Some WAgain else None)
      in if n \<le> free then (Some (Wrote n), p\<lparr>pi_content := pi_content p @ buf\<rparr>)
         else if n \<le> PIPE_BUF \<or> free = 0 \<or> \<not> pi_nonblock p then (wait, p)
         else (Some (Wrote free), p\<lparr>pi_content := pi_content p @ take free buf\<rparr>))"

text \<open>\<^verbatim>\<open>read\<close>: bytes, the end when nobody can write any more, or nothing yet.\<close>

definition read_end :: "pipe \<Rightarrow> nat \<Rightarrow> read_result option \<times> pipe" where
  "read_end p n =
     (if pi_content p \<noteq> [] then (Some (Got (take n (pi_content p))), p\<lparr>pi_content := drop n (pi_content p)\<rparr>)
      else if \<not> pi_writer p then (Some (Got []), p)
      else (if pi_nonblock p then Some Again else None, p))"

section \<open>The pipes of a launch\<close>

text \<open>
  Standard output, error and input, the protocol channel of a worker, and the pipe the child waits on.
  The five are made in this order; the first failure is the error of the launch.
\<close>

record child_pipes =
  cp_stdout :: pipe
  cp_stderr :: pipe
  cp_stdin :: pipe
  cp_proto :: "pipe option"     \<comment> \<open>a socket pair for a zygote, not a pipe\<close>
  cp_sync :: pipe

definition launch_pipes :: "child_spec \<Rightarrow> (nat \<Rightarrow> string option) \<Rightarrow> sandbox_error + child_pipes" where
  "launch_pipes spec err =
     and_then (make_pipe (err 0)) (\<lambda>out.
     and_then (make_pipe (err 1)) (\<lambda>er.
     and_then (make_pipe (err 2)) (\<lambda>inp.
     and_then (if c_zygote spec then (case err 3 of Some e \<Rightarrow> Inl (Internal (''socketpair: '' @ e)) | None \<Rightarrow> Inr None)
               else if c_protocol_fd spec then map_sum id Some (make_pipe (err 3))
               else Inr None) (\<lambda>proto.
     and_then (make_pipe (err 4)) (\<lambda>sync.
     Inr \<lparr>cp_stdout = out, cp_stderr = er, cp_stdin = inp, cp_proto = proto, cp_sync = sync\<rparr>)))))"

section \<open>A writer and a reader\<close>

text \<open>What went into the pipe, what came out, and how often a write was refused.\<close>

record pipe_run =
  pu_pipe :: pipe
  pu_accepted :: "byte list"
  pu_drained :: "byte list"
  pu_refused :: nat

inductive pipe_step :: "pipe_run \<Rightarrow> pipe_run \<Rightarrow> bool" where
  accepted: "pipe_write (pu_pipe r) buf = (Some (Wrote n), p) \<Longrightarrow>
     pipe_step r (r\<lparr>pu_pipe := p, pu_accepted := pu_accepted r @ take n buf\<rparr>)"
| refused: "pipe_write (pu_pipe r) buf = (Some WAgain, p) \<Longrightarrow> pipe_step r (r\<lparr>pu_pipe := p, pu_refused := Suc (pu_refused r)\<rparr>)"
| drained: "read_end (pu_pipe r) n = (Some (Got bs), p) \<Longrightarrow> pipe_step r (r\<lparr>pu_pipe := p, pu_drained := pu_drained r @ bs\<rparr>)"
| closed: "pipe_step r (r\<lparr>pu_pipe := (pu_pipe r)\<lparr>pi_writer := False\<rparr>\<rparr>)"

definition pipe_start :: "pipe \<Rightarrow> pipe_run" where
  "pipe_start p = \<lparr>pu_pipe = p, pu_accepted = [], pu_drained = [], pu_refused = 0\<rparr>"

inductive pipe_reach :: "pipe \<Rightarrow> pipe_run \<Rightarrow> bool" for p where
  start: "pipe_reach p (pipe_start p)"
| step: "pipe_reach p r \<Longrightarrow> pipe_step r r' \<Longrightarrow> pipe_reach p r'"

definition pipe_ok :: "bool \<Rightarrow> pipe_run \<Rightarrow> bool" where
  "pipe_ok nonblock r \<longleftrightarrow>
     pi_nonblock (pu_pipe r) = nonblock \<and> pu_accepted r = pu_drained r @ pi_content (pu_pipe r) \<and>
     length (pi_content (pu_pipe r)) \<le> PIPE_CAP \<and> (\<not> nonblock \<longrightarrow> pu_refused r = 0)"

lemma pipe_write_wrote:
  "pipe_write p buf = (Some (Wrote n), p') \<Longrightarrow>
     p' = p\<lparr>pi_content := pi_content p @ take n buf\<rparr> \<and> (length (pi_content p) \<le> PIPE_CAP \<longrightarrow> length (pi_content p') \<le> PIPE_CAP)"
  by (auto simp: pipe_write_def Let_def split: if_splits)

lemma pipe_write_again: "pipe_write p buf = (Some WAgain, p') \<Longrightarrow> p' = p \<and> pi_nonblock p"
  by (auto simp: pipe_write_def Let_def split: if_splits)

lemma read_end_got: "read_end p n = (Some (Got bs), p') \<Longrightarrow> p' = p\<lparr>pi_content := drop n (pi_content p)\<rparr> \<and> bs = take n (pi_content p)"
  by (auto simp: read_end_def split: if_splits)

lemma pipe_step_ok: "pipe_step r r' \<Longrightarrow> pipe_ok nb r \<Longrightarrow> pipe_ok nb r'"
proof (induction rule: pipe_step.induct)
  case (accepted r buf n p)
  with pipe_write_wrote [OF accepted(1)] show ?case by (auto simp: pipe_ok_def)
next
  case (refused r buf p)
  with pipe_write_again [OF refused(1)] show ?case by (auto simp: pipe_ok_def)
next
  case (drained r n bs p)
  with read_end_got [OF drained(1)] show ?case by (auto simp: pipe_ok_def)
next
  case (closed r)
  then show ?case by (simp add: pipe_ok_def)
qed

lemma pipe_reach_ok: "pipe_reach p r \<Longrightarrow> pi_content p = [] \<Longrightarrow> pipe_ok (pi_nonblock p) r"
  by (induction rule: pipe_reach.induct) (simp_all add: pipe_step_ok, simp add: pipe_ok_def pipe_start_def)

text \<open>
  A pipe of the launcher loses nothing it has accepted: for every interleaving of the program's writes
  and the engine's reads, what was accepted is what was read followed by what is still inside, and
  never more than its capacity is inside.
\<close>

theorem accepted_bytes_are_delivered:
  assumes "make_pipe err = Inr p" "pipe_reach p r"
  shows "pu_accepted r = pu_drained r @ pi_content (pu_pipe r) \<and> length (pi_content (pu_pipe r)) \<le> PIPE_CAP"
proof -
  have "pi_content p = []" using assms(1) by (auto simp: make_pipe_def split: option.splits)
  from pipe_reach_ok [OF assms(2) this] show ?thesis by (simp add: pipe_ok_def)
qed

text \<open>A run in which the program writes once more than fits while the engine is alive and has not yet read.\<close>

definition full_run :: pipe_run where
  "full_run = \<lparr>pu_pipe = \<lparr>pi_nonblock = True, pi_content = replicate PIPE_CAP 120, pi_writer = True\<rparr>,
     pu_accepted = replicate PIPE_CAP 120, pu_drained = [], pu_refused = 1\<rparr>"

lemma full_run_reached: "pipe_reach \<lparr>pi_nonblock = True, pi_content = [], pi_writer = True\<rparr> full_run"
proof -
  let ?p = "\<lparr>pi_nonblock = True, pi_content = [], pi_writer = True\<rparr>"
  let ?buf = "replicate PIPE_CAP (120 :: byte)"
  let ?full = "?p\<lparr>pi_content := ?buf\<rparr>"
  have w: "pipe_write (pu_pipe (pipe_start ?p)) ?buf = (Some (Wrote PIPE_CAP), ?full)"
    by (simp add: pipe_write_def pipe_start_def)
  let ?r1 = "(pipe_start ?p)\<lparr>pu_pipe := ?full, pu_accepted := pu_accepted (pipe_start ?p) @ take PIPE_CAP ?buf\<rparr>"
  have "pipe_reach ?p ?r1" using pipe_reach.step [OF pipe_reach.start pipe_step.accepted [OF w]] by simp
  moreover have "pipe_write (pu_pipe ?r1) [120] = (Some WAgain, ?full)"
    by (simp add: pipe_write_def PIPE_CAP_def PIPE_BUF_def)
  ultimately have "pipe_reach ?p (?r1\<lparr>pu_pipe := ?full, pu_refused := Suc (pu_refused ?r1)\<rparr>)"
    by (rule pipe_reach.step [OF _ pipe_step.refused])
  then show ?thesis by (simp add: full_run_def pipe_start_def)
qed

theorem accepted_bytes_are_delivered_witness:
  "pu_accepted full_run = pu_drained full_run @ pi_content (pu_pipe full_run)"
proof -
  have "make_pipe None = Inr \<lparr>pi_nonblock = True, pi_content = [], pi_writer = True\<rparr>" by (simp add: make_pipe_def)
  from accepted_bytes_are_delivered [OF this full_run_reached] show ?thesis by blast
qed

section \<open>What the program notices\<close>

text \<open>
  With a blocking pipe no write of the program would ever be refused. With the pipes of the launcher a
  program that is faster than the drain loop gets \<^verbatim>\<open>EAGAIN\<close> on its standard output, which most programs
  take for an error: the output is cut although the request is within its limits.
\<close>

theorem program_output_is_refused:
  "(\<forall>p r. pi_content p = [] \<and> \<not> pi_nonblock p \<and> pipe_reach p r \<longrightarrow> pu_refused r = 0) \<and>
   (\<exists>p r. make_pipe None = Inr p \<and> pipe_reach p r \<and> pi_writer (pu_pipe r) \<and> 0 < pu_refused r)"
proof
  show "\<forall>p r. pi_content p = [] \<and> \<not> pi_nonblock p \<and> pipe_reach p r \<longrightarrow> pu_refused r = 0"
    using pipe_reach_ok by (auto simp: pipe_ok_def)
  have "make_pipe None = Inr \<lparr>pi_nonblock = True, pi_content = [], pi_writer = True\<rparr>" by (simp add: make_pipe_def)
  moreover have "pi_writer (pu_pipe full_run)" "0 < pu_refused full_run" by (simp_all add: full_run_def)
  ultimately show "\<exists>p r. make_pipe None = Inr p \<and> pipe_reach p r \<and> pi_writer (pu_pipe r) \<and> 0 < pu_refused r"
    using full_run_reached by blast
qed

text \<open>A program that reads its input before the engine's thread has written it gets \<^verbatim>\<open>EAGAIN\<close>, not the input.\<close>

theorem early_read_of_stdin_fails:
  assumes "launch_pipes spec (\<lambda>_. None) = Inr ps" "0 < n"
  shows "read_end (cp_stdin ps) n = (Some Again, cp_stdin ps)"
  using assms by (auto simp: launch_pipes_def make_pipe_def read_end_def and_then_Inr_iff split: if_splits)

theorem early_read_of_stdin_fails_witness:
  "\<exists>ps. launch_pipes demo_spec (\<lambda>_. None) = Inr ps \<and> read_end (cp_stdin ps) 1 = (Some Again, cp_stdin ps)"
proof -
  obtain ps where l: "launch_pipes demo_spec (\<lambda>_. None) = Inr ps" by (simp add: launch_pipes_def make_pipe_def demo_spec_def)
  with early_read_of_stdin_fails [OF l, of 1] show ?thesis by simp
qed

section \<open>Feeding standard input\<close>

text \<open>
  \<^verbatim>\<open>write_all\<close> of the feeding thread, for a program that does not read meanwhile: what cannot be written at
  once is an error, which the thread drops. Then the descriptor is closed. The fork server's requests
  are fed the same way as those of the launcher.
\<close>

function feed_pipe :: "byte list \<Rightarrow> pipe \<Rightarrow> pipe" where
  "feed_pipe [] p = p"
| "feed_pipe (b # bs) p =
     (case pipe_write p (b # bs) of
        (Some (Wrote n), p1) \<Rightarrow> if n = 0 then p1 else feed_pipe (drop n (b # bs)) p1
      | (_, p1) \<Rightarrow> p1)"
  by pat_completeness auto
termination by (relation "measure (\<lambda>(bs, p). length bs)") auto

declare feed_pipe.simps(2) [simp del]

definition zygote_feed :: "stdin_payload option \<Rightarrow> pipe \<Rightarrow> pipe" where
  "zygote_feed payload p =
     (case payload of Some x \<Rightarrow> feed_pipe (stdin_bytes x) p | None \<Rightarrow> p)\<lparr>pi_writer := False\<rparr>"

lemma feed_full: "length (pi_content p) = PIPE_CAP \<Longrightarrow> pi_nonblock p \<Longrightarrow> feed_pipe bs p = p"
  by (cases bs) (simp_all add: feed_pipe.simps(2) pipe_write_def Let_def)

text \<open>
  Input beyond the capacity of the pipe is lost: a program that starts reading only after the thread has
  run sees the first 65536 bytes and then the end of its input, however long the payload is.
\<close>

theorem large_input_is_cut:
  assumes "zygote_pipe err = Inr p"
  shows "pi_content (zygote_feed (Some payload) p) = take PIPE_CAP (stdin_bytes payload) \<and> \<not> pi_writer (zygote_feed (Some payload) p)"
proof -
  have p: "pi_content p = []" "pi_nonblock p" using assms by (auto simp: zygote_pipe_def split: option.splits)
  have "pi_content (feed_pipe bs p) = take PIPE_CAP bs" for bs
  proof (cases "length bs \<le> PIPE_CAP")
    case True
    with p show ?thesis by (cases bs) (simp_all add: feed_pipe.simps(2) pipe_write_def)
  next
    case False
    then have "\<not> length bs \<le> PIPE_BUF" "PIPE_CAP \<noteq> 0" by (simp_all add: PIPE_CAP_def PIPE_BUF_def)
    with p False have w: "pipe_write p bs = (Some (Wrote PIPE_CAP), p\<lparr>pi_content := take PIPE_CAP bs\<rparr>)"
      by (simp add: pipe_write_def)
    have "feed_pipe (drop PIPE_CAP bs) (p\<lparr>pi_content := take PIPE_CAP bs\<rparr>) = p\<lparr>pi_content := take PIPE_CAP bs\<rparr>"
      using False p by (intro feed_full) simp_all
    with w False \<open>PIPE_CAP \<noteq> 0\<close> show ?thesis by (cases bs) (simp_all add: feed_pipe.simps(2))
  qed
  then show ?thesis by (simp add: zygote_feed_def)
qed

theorem large_input_is_cut_witness:
  "\<exists>p. zygote_pipe None = Inr p \<and> length (pi_content (zygote_feed (Some (Bytes (replicate 70000 1))) p)) = 65536"
proof -
  obtain p where p: "zygote_pipe None = Inr p" by (simp add: zygote_pipe_def)
  from large_input_is_cut [OF p, of "Bytes (replicate 70000 1)"] p show ?thesis by (auto simp: PIPE_CAP_def)
qed

end
