(* ===== verification/RB_Typescript.thy ===== *)
theory RB_Typescript
  imports RB_Session
begin

text \<open>
  The TypeScript shim of a session (\<^verbatim>\<open>typescript_shim\<close> in \<^verbatim>\<open>engine/src/modes/session.rs\<close>). Its state is one
  JSON text: what \<^verbatim>\<open>JSON.stringify\<close> makes of the names a cell leaves. The values of JavaScript are a
  datatype, \<^verbatim>\<open>JSON.stringify\<close> is a recursion on it with the rules of the language (undefined and functions
  vanish from objects, become null in arrays, \<^verbatim>\<open>toJSON\<close> methods are called); running a cell and the
  concrete syntax of JSON are arguments. The theorems: cells in separate processes behave like one
  session of JSON values, and one declaration of a cell that ends a session for good.
\<close>

section \<open>Values and JSON.stringify\<close>

text \<open>
  A function is known by what a call without arguments answers (an exception or a value), which is what
  a \<^verbatim>\<open>toJSON\<close> method is; it does not look at the name it is called for. \<open>JBroken\<close> is what cannot be written:
  a BigInt, a cycle, a getter that throws. Symbols behave like undefined. Own names of an object are
  listed in its own order.
\<close>

datatype js_value =
    JUndefined
  | JFunction "string + js_value"
  | JNull
  | JBool bool
  | JNumber u64
  | JString string
  | JDate "string option"
  | JBroken string
  | JArray "js_value list"
  | JObject "(string \<times> js_value) list"

type_synonym js_out = "string + js_value option"

definition js_finite :: "u64 \<Rightarrow> bool" where
  "js_finite n \<longleftrightarrow> n AND 0x7FF0000000000000 \<noteq> 0x7FF0000000000000"

definition NEG_ZERO :: u64 where "NEG_ZERO = 0x8000000000000000"

fun js_elems :: "js_out list \<Rightarrow> string + js_value list" where
  "js_elems [] = Inr []"
| "js_elems (r # rs) =
     and_then r (\<lambda>v. and_then (js_elems rs) (\<lambda>vs. Inr ((case v of None \<Rightarrow> JNull | Some x \<Rightarrow> x) # vs)))"

fun js_members :: "(string \<times> js_out) list \<Rightarrow> string + (string \<times> js_value) list" where
  "js_members [] = Inr []"
| "js_members ((k, r) # ms) =
     and_then r (\<lambda>v. and_then (js_members ms) (\<lambda>out. Inr (case v of None \<Rightarrow> out | Some x \<Rightarrow> (k, x) # out)))"

text \<open>
  Three forms of a value: as it is written, as it is written when its own \<^verbatim>\<open>toJSON\<close> was already called,
  and what it gives when it is itself called as a \<^verbatim>\<open>toJSON\<close> method.
\<close>

primrec js_forms :: "js_value \<Rightarrow> js_out \<times> js_out \<times> js_out option" where
  "js_forms JUndefined = (Inr None, Inr None, None)"
| "js_forms (JFunction r) =
     (Inr None, Inr None, Some (case map_sum id js_forms r of Inl e \<Rightarrow> Inl e | Inr f \<Rightarrow> fst (snd f)))"
| "js_forms JNull = (Inr (Some JNull), Inr (Some JNull), None)"
| "js_forms (JBool b) = (Inr (Some (JBool b)), Inr (Some (JBool b)), None)"
| "js_forms (JNumber n) =
     (let w = Inr (Some (if \<not> js_finite n then JNull else if n = NEG_ZERO then JNumber 0 else JNumber n)) in (w, w, None))"
| "js_forms (JString s) = (Inr (Some (JString s)), Inr (Some (JString s)), None)"
| "js_forms (JDate d) =
     (Inr (Some (case d of Some stamp \<Rightarrow> JString stamp | None \<Rightarrow> JNull)), Inr (Some (JObject [])), None)"
| "js_forms (JBroken e) = (Inl e, Inl e, None)"
| "js_forms (JArray xs) =
     (let w = map_sum id (\<lambda>vs. Some (JArray vs)) (js_elems (map fst (map js_forms xs))) in (w, w, None))"
| "js_forms (JObject kvs) =
     (let fs = map (map_prod id js_forms) kvs;
          w = map_sum id (\<lambda>out. Some (JObject out)) (js_members (map (\<lambda>(k, f). (k, fst f)) fs))
      in ((case map_of fs ''toJSON'' of Some (_, _, Some c) \<Rightarrow> c | _ \<Rightarrow> w), w, None))"

definition js_json :: "js_value \<Rightarrow> js_out" where "js_json v = fst (js_forms v)"
definition js_raw :: "js_value \<Rightarrow> js_out" where "js_raw v = fst (snd (js_forms v))"
definition js_called :: "js_value \<Rightarrow> js_out option" where "js_called v = snd (snd (js_forms v))"

section \<open>The shim\<close>

text \<open>
  How a cell ends: normally, with an exception (\<^verbatim>\<open>String(e.stack)\<close> when it has one, \<^verbatim>\<open>String(e)\<close> when that does
  not throw itself), or by the death of the process.
\<close>

datatype js_end = JsDone | JsThrew "string option" "string option" | JsKilled

record ts_shim =
  tj_parse :: "byte list \<Rightarrow> js_value option"
  tj_print :: "js_value \<Rightarrow> byte list"
  tj_exec :: "string \<Rightarrow> js_value \<Rightarrow> js_end \<times> (string \<times> js_value) list"
    \<comment> \<open>the end of the cell and \<^verbatim>\<open>Object.entries\<close> of its context\<close>
  tj_json :: "shim_result \<Rightarrow> byte list"
  tj_state_opens :: bool

definition STATE_JSON :: string where "STATE_JSON = ''state.json''"

definition ts_restored :: "ts_shim \<Rightarrow> (string \<rightharpoonup> byte list) \<Rightarrow> js_value" where
  "ts_restored tj files =
     (case files STATE_JSON of
        Some data \<Rightarrow> (case tj_parse tj data of Some v \<Rightarrow> v | None \<Rightarrow> JObject [])
      | None \<Rightarrow> JObject [])"

text \<open>\<^verbatim>\<open>vm.createContext\<close> takes objects only; it throws outside every \<^verbatim>\<open>try\<close>.\<close>

fun js_is_object :: "js_value \<Rightarrow> bool" where
  "js_is_object (JObject _) = True"
| "js_is_object (JArray _) = True"
| "js_is_object (JDate _) = True"
| "js_is_object (JFunction _) = True"
| "js_is_object _ = False"

text \<open>An assignment to \<^verbatim>\<open>toSave.__proto__\<close> makes no name of its own.\<close>

definition ts_save :: "(string \<times> js_value) list \<Rightarrow> (string \<times> js_value) list" where
  "ts_save ctx = filter (\<lambda>(k, v). k \<noteq> ''__proto__'' \<and> \<not> isl (js_json v)) ctx"

fun ts_result :: "js_end \<Rightarrow> shim_result option" where
  "ts_result JsDone = Some \<lparr>sr_status = ''ok'', sr_value_repr = None, sr_traceback = None\<rparr>"
| "ts_result (JsThrew (Some stack) _) = Some \<lparr>sr_status = ''error'', sr_value_repr = None, sr_traceback = Some stack\<rparr>"
| "ts_result (JsThrew None (Some text)) = Some \<lparr>sr_status = ''error'', sr_value_repr = None, sr_traceback = Some text\<rparr>"
| "ts_result (JsThrew None None) = None"
| "ts_result JsKilled = None"

text \<open>The state file after a good cell: \<^verbatim>\<open>writeFileSync\<close> of undefined throws, like \<^verbatim>\<open>JSON.stringify\<close>, into the \<^verbatim>\<open>catch\<close>.\<close>

definition ts_persist :: "ts_shim \<Rightarrow> (string \<times> js_value) list \<Rightarrow> (string \<rightharpoonup> byte list) \<Rightarrow> (string \<rightharpoonup> byte list)" where
  "ts_persist tj ctx files =
     (case js_json (JObject (ts_save ctx)) of
        Inr (Some w) \<Rightarrow> if tj_state_opens tj then files(STATE_JSON \<mapsto> tj_print tj w) else files
      | _ \<Rightarrow> files)"

definition ts_effect :: "ts_shim \<Rightarrow> string \<Rightarrow> (string \<rightharpoonup> byte list) \<Rightarrow> (string \<rightharpoonup> byte list)" where
  "ts_effect tj cell files =
     (let st = ts_restored tj files in
      if \<not> js_is_object st then files
      else case tj_exec tj cell st of
             (out, ctx) \<Rightarrow>
               (case ts_result out of
                  None \<Rightarrow> files
                | Some r \<Rightarrow>
                    (if sr_status r = ''ok'' then ts_persist tj ctx files else files)(CELL_RESULT_FILE \<mapsto> tj_json tj r)))"

section \<open>JSON values\<close>

primrec js_plain :: "js_value \<Rightarrow> bool" where
  "js_plain JUndefined = False"
| "js_plain (JFunction r) = False"
| "js_plain JNull = True"
| "js_plain (JBool b) = True"
| "js_plain (JNumber n) = (js_finite n \<and> n \<noteq> NEG_ZERO)"
| "js_plain (JString s) = True"
| "js_plain (JDate d) = False"
| "js_plain (JBroken e) = False"
| "js_plain (JArray xs) = list_all id (map js_plain xs)"
| "js_plain (JObject kvs) = (distinct (map fst kvs) \<and> list_all snd (map (map_prod id js_plain) kvs))"

text \<open>Own names of an object are distinct.\<close>

primrec js_wf :: "js_value \<Rightarrow> bool" where
  "js_wf JUndefined = True"
| "js_wf (JFunction r) = (case map_sum id js_wf r of Inl e \<Rightarrow> True | Inr b \<Rightarrow> b)"
| "js_wf JNull = True"
| "js_wf (JBool b) = True"
| "js_wf (JNumber n) = True"
| "js_wf (JString s) = True"
| "js_wf (JDate d) = True"
| "js_wf (JBroken e) = True"
| "js_wf (JArray xs) = list_all id (map js_wf xs)"
| "js_wf (JObject kvs) = (distinct (map fst kvs) \<and> list_all snd (map (map_prod id js_wf) kvs))"

fun js_kept :: "(string \<times> js_out) list \<Rightarrow> (string \<times> js_value) list" where
  "js_kept [] = []"
| "js_kept ((k, r) # ms) = (case r of Inr (Some x) \<Rightarrow> (k, x) # js_kept ms | _ \<Rightarrow> js_kept ms)"

lemma js_members_kept: "js_members ms = Inr out \<Longrightarrow> out = js_kept ms"
  by (induction ms arbitrary: out rule: js_members.induct) (auto simp: and_then_Inr_iff split: option.splits)

lemma js_members_total: "list_all (\<lambda>m. \<not> isl (snd m)) ms \<Longrightarrow> js_members ms = Inr (js_kept ms)"
proof (induction ms rule: js_members.induct)
  case (2 k r ms)
  then show ?case by (cases r) (auto split: option.split)
qed simp

lemma js_kept_names: "set (map fst (js_kept ms)) \<subseteq> set (map fst ms)"
  by (induction ms rule: js_kept.induct) (force split: sum.splits option.splits)+

lemma js_kept_distinct: "distinct (map fst ms) \<Longrightarrow> distinct (map fst (js_kept ms))"
proof (induction ms rule: js_kept.induct)
  case (2 k r ms)
  then show ?case using js_kept_names [of ms] by (auto split: sum.split option.split)
qed simp

lemma js_kept_values: "(k, w) \<in> set (js_kept ms) \<longleftrightarrow> (k, Inr (Some w)) \<in> set ms"
  by (induction ms rule: js_kept.induct) (auto split: sum.splits option.splits)

lemma js_elems_values: "js_elems rs = Inr vs \<Longrightarrow> v \<in> set vs \<Longrightarrow> v = JNull \<or> Inr (Some v) \<in> set rs"
  by (induction rs arbitrary: vs) (fastforce simp: and_then_Inr_iff split: option.splits)+

lemma js_elems_plain: "list_all (\<lambda>v. r v = Inr (Some v)) xs \<Longrightarrow> js_elems (map r xs) = Inr xs"
  by (induction xs) simp_all

lemma js_kept_plain: "list_all (\<lambda>m. r (snd m) = Inr (Some (snd m))) kvs \<Longrightarrow> js_kept (map (\<lambda>(k, v). (k, r v)) kvs) = kvs"
  by (induction kvs) auto

section \<open>Rules of JSON.stringify\<close>

lemma js_call: "js_called v = (case v of JFunction r \<Rightarrow> Some (case r of Inl e \<Rightarrow> Inl e | Inr x \<Rightarrow> js_raw x) | _ \<Rightarrow> None)"
  by (cases v) (simp_all add: Let_def js_raw_def js_called_def split: sum.split)

lemma js_json_fun: "js_json = fst \<circ> js_forms"
  by (rule ext) (simp add: js_json_def)

lemma js_json_object:
  "js_json (JObject kvs) =
     (case map_of kvs ''toJSON'' of
        Some (JFunction r) \<Rightarrow> (case r of Inl e \<Rightarrow> Inl e | Inr x \<Rightarrow> js_raw x)
      | _ \<Rightarrow> js_raw (JObject kvs))"
proof -
  have m: "map_of (map (map_prod id js_forms) kvs) ''toJSON'' = map_option js_forms (map_of kvs ''toJSON'')"
    by (induction kvs) auto
  show ?thesis
  proof (cases "map_of kvs ''toJSON''")
    case None
    then show ?thesis by (simp add: js_json_def js_raw_def Let_def m)
  next
    case (Some v)
    have "(case js_forms v of (_, _, Some c) \<Rightarrow> c | _ \<Rightarrow> w) =
        (case v of JFunction r \<Rightarrow> (case r of Inl e \<Rightarrow> Inl e | Inr x \<Rightarrow> js_raw x) | _ \<Rightarrow> w)" for w
      using js_call [of v] by (cases "js_forms v") (auto simp: js_called_def split: js_value.split option.split)
    moreover have "js_raw (JObject kvs) =
        map_sum id (\<lambda>out. Some (JObject out)) (js_members (map (\<lambda>(k, f). (k, fst f)) (map (map_prod id js_forms) kvs)))"
      by (simp add: js_raw_def Let_def)
    ultimately show ?thesis using Some by (cases v) (simp_all add: js_json_def Let_def m)
  qed
qed

lemma js_raw_object: "js_raw (JObject kvs) = map_sum id (\<lambda>out. Some (JObject out)) (js_members (map (\<lambda>(k, v). (k, js_json v)) kvs))"
  by (simp add: js_raw_def js_json_def Let_def comp_def case_prod_unfold)

lemma js_json_array: "js_json (JArray xs) = map_sum id (\<lambda>vs. Some (JArray vs)) (js_elems (map js_json xs))"
  "js_raw (JArray xs) = map_sum id (\<lambda>vs. Some (JArray vs)) (js_elems (map js_json xs))"
  by (simp_all add: js_raw_def js_json_fun Let_def comp_def)

lemma js_json_atoms:
  "js_json JUndefined = Inr None" "js_json (JFunction r) = Inr None" "js_json JNull = Inr (Some JNull)"
  "js_json (JBool b) = Inr (Some (JBool b))" "js_json (JString s) = Inr (Some (JString s))" "js_json (JBroken e) = Inl e"
  "js_json (JNumber n) = Inr (Some (if \<not> js_finite n then JNull else if n = NEG_ZERO then JNumber 0 else JNumber n))"
  "js_json (JDate d) = Inr (Some (case d of Some stamp \<Rightarrow> JString stamp | None \<Rightarrow> JNull))"
  by (simp_all add: js_json_def Let_def)

lemma js_raw_atoms:
  "js_raw JUndefined = Inr None" "js_raw (JFunction r) = Inr None" "js_raw JNull = Inr (Some JNull)"
  "js_raw (JBool b) = Inr (Some (JBool b))" "js_raw (JString s) = Inr (Some (JString s))" "js_raw (JBroken e) = Inl e"
  "js_raw (JNumber n) = Inr (Some (if \<not> js_finite n then JNull else if n = NEG_ZERO then JNumber 0 else JNumber n))"
  "js_raw (JDate d) = Inr (Some (JObject []))"
  by (simp_all add: js_raw_def Let_def)

section \<open>What is written is plain and stays what it is\<close>

lemma plain_number [simp]: "js_finite 0" "0 \<noteq> NEG_ZERO"
  by (simp_all add: js_finite_def NEG_ZERO_def)

lemma map_sum_Some_iff: "map_sum id (\<lambda>x. Some (c x)) r = Inr (Some w) \<longleftrightarrow> (\<exists>x. r = Inr x \<and> w = c x)"
  by (cases r) auto

lemma js_called_forms:
  "js_called (JFunction (Inr x)) = Some (js_raw x)" "js_called (JObject kvs) = None" "js_called (JArray xs) = None"
  by (simp_all add: js_call)

lemma js_raw_object_plain:
  assumes "js_wf (JObject kvs)" "js_raw (JObject kvs) = Inr (Some w)"
    and entries: "\<And>k v x. (k, v) \<in> set kvs \<Longrightarrow> js_json v = Inr (Some x) \<Longrightarrow> js_plain x"
  shows "js_plain w"
proof -
  let ?ms = "map (\<lambda>(k, v). (k, js_json v)) kvs"
  obtain out where out: "js_members ?ms = Inr out" "w = JObject out"
    using assms(2) by (auto simp: js_raw_object map_sum_Some_iff)
  have kept: "out = js_kept ?ms" by (rule js_members_kept [OF out(1)])
  have "js_plain x" if member: "(k, x) \<in> set out" for k x
  proof -
    from member obtain v where "(k, v) \<in> set kvs" "js_json v = Inr (Some x)" by (auto simp: kept js_kept_values)
    then show ?thesis by (rule entries)
  qed
  moreover have "map fst ?ms = map fst kvs" by (simp add: comp_def case_prod_unfold)
  then have "distinct (map fst ?ms)" using assms(1) by (simp only: js_wf.simps)
  then have "distinct (map fst out)" unfolding kept by (rule js_kept_distinct)
  ultimately show ?thesis using out(2) by (auto simp: list_all_iff)
qed

lemma js_output_plain:
  "js_wf v \<Longrightarrow> js_json v = Inr (Some w) \<or> js_raw v = Inr (Some w) \<or> js_called v = Some (Inr (Some w)) \<Longrightarrow> js_plain w"
proof (induction v arbitrary: w)
  case (JFunction r)
  show ?case
  proof (cases r)
    case (Inl e)
    with JFunction.prems show ?thesis by (simp add: js_json_atoms js_raw_atoms js_call)
  next
    case (Inr x)
    with JFunction.prems have "js_wf x" "js_raw x = Inr (Some w)"
      by (simp_all add: js_json_atoms js_raw_atoms js_call)
    with JFunction.IH [of x w] Inr show ?thesis by simp
  qed
next
  case (JArray xs)
  obtain vs where vs: "js_elems (map js_json xs) = Inr vs" "w = JArray vs"
    using JArray.prems(2) by (auto simp: js_json_array map_sum_Some_iff js_call)
  have "js_plain v" if member: "v \<in> set vs" for v
    using js_elems_values [OF vs(1) member] JArray.IH JArray.prems(1) by (auto simp: list_all_iff)
  then show ?case using vs(2) by (simp add: list_all_iff)
next
  case (JObject kvs)
  have wf: "js_wf v" if "(k, v) \<in> set kvs" for k v
    using that JObject.prems(1) by (fastforce simp: list_all_iff)
  have IH: "js_plain x" if "(k, v) \<in> set kvs"
      "js_json v = Inr (Some x) \<or> js_raw v = Inr (Some x) \<or> js_called v = Some (Inr (Some x))" for k v x
    using JObject.IH [of "(k, v)" v x] that wf [of k v] by simp
  have raw: "js_plain x" if "js_raw (JObject kvs) = Inr (Some x)" for x
    by (rule js_raw_object_plain [OF JObject.prems(1) that]) (use IH in blast)
  have "js_plain w" if w: "js_json (JObject kvs) = Inr (Some w)"
  proof (cases "\<exists>x. map_of kvs ''toJSON'' = Some (JFunction (Inr x))")
    case True
    then obtain x where x: "map_of kvs ''toJSON'' = Some (JFunction (Inr x))" by blast
    then have "js_called (JFunction (Inr x)) = Some (Inr (Some w))"
      using w by (simp add: js_json_object js_called_forms)
    with IH [OF map_of_SomeD [OF x]] show ?thesis by blast
  next
    case False
    with w raw show ?thesis by (auto simp: js_json_object split: option.splits js_value.splits sum.splits)
  qed
  with raw JObject.prems(2) show ?case by (auto simp: js_call)
qed (auto simp: js_json_atoms js_raw_atoms js_call split: option.splits if_splits)

text \<open>
  A value that was restored from the state is written as it is: saving and restoring changes a value once
  and never again.
\<close>

theorem written_values_are_stable:
  assumes "js_wf v" "js_json v = Inr (Some w)"
  shows "js_json w = Inr (Some w)"
proof -
  have "js_plain u \<Longrightarrow> js_json u = Inr (Some u)" for u
  proof (induction u)
    case (JArray xs)
    then have "js_elems (map js_json xs) = Inr xs" by (intro js_elems_plain) (auto simp: list_all_iff)
    then show ?case by (simp add: js_json_array)
  next
    case (JObject kvs)
    have v: "js_plain v \<and> js_json v = Inr (Some v)" if "(k, v) \<in> set kvs" for k v
    proof
      show "js_plain v" using that JObject.prems by (fastforce simp: list_all_iff)
      then show "js_json v = Inr (Some v)" using JObject.IH [of "(k, v)" v] that by simp
    qed
    have "js_members (map (\<lambda>(k, v). (k, js_json v)) kvs) = Inr kvs"
      by (subst js_members_total, use v in \<open>force simp: list_all_iff\<close>, subst js_kept_plain) (use v in \<open>auto simp: list_all_iff\<close>)
    moreover have "map_of kvs ''toJSON'' \<noteq> Some (JFunction r)" for r
      using v map_of_SomeD [of kvs "''toJSON''" "JFunction r"] by fastforce
    ultimately show ?case by (auto simp: js_json_object js_raw_object split: option.split js_value.split)
  qed (simp_all add: js_json_atoms)
  moreover have "js_plain w" using js_output_plain [OF assms(1)] assms(2) by blast
  ultimately show ?thesis by blast
qed

section \<open>A session as one context\<close>

text \<open>
  The abstract session is a JSON value. A cell that ends well replaces it by what is written of its
  names, every other cell leaves it.
\<close>

definition abs_ts_cell :: "ts_shim \<Rightarrow> string \<Rightarrow> js_value \<Rightarrow> js_value" where
  "abs_ts_cell tj cell st =
     (if \<not> js_is_object st then st
      else case tj_exec tj cell st of
             (out, ctx) \<Rightarrow>
               if out = JsDone then (case js_json (JObject (ts_save ctx)) of Inr (Some w) \<Rightarrow> w | _ \<Rightarrow> st) else st)"

text \<open>
  What the theorems need of the language: own names are distinct, and \<^verbatim>\<open>JSON.parse\<close> reads what
  \<^verbatim>\<open>JSON.stringify\<close> wrote for the values that cells leave.
\<close>

definition ts_reads_back :: "ts_shim \<Rightarrow> bool" where
  "ts_reads_back tj \<longleftrightarrow>
     (\<forall>cell st w. js_json (JObject (ts_save (snd (tj_exec tj cell st)))) = Inr (Some w) \<and> js_plain w \<longrightarrow>
        tj_parse tj (tj_print tj w) = Some w)"

definition ts_distinct_names :: "ts_shim \<Rightarrow> bool" where
  "ts_distinct_names tj \<longleftrightarrow> (\<forall>cell st. js_wf (JObject (snd (tj_exec tj cell st))))"

lemma json_names_distinct: "STATE_JSON \<noteq> CELL_RESULT_FILE"
  by (simp add: STATE_JSON_def CELL_RESULT_FILE_def)

lemma ts_restored_ignores_result [simp]: "ts_restored tj (files(CELL_RESULT_FILE := x)) = ts_restored tj files"
  using json_names_distinct by (simp add: ts_restored_def)

lemma ts_save_wf: "js_wf (JObject ctx) \<Longrightarrow> js_wf (JObject (ts_save ctx))"
  by (auto simp: ts_save_def list_all_iff distinct_map_filter)

lemma ts_result_ok: "ts_result out = Some r \<Longrightarrow> sr_status r = ''ok'' \<longleftrightarrow> out = JsDone"
  by (cases out rule: ts_result.cases) auto

lemma ts_result_dies: "ts_result out = None \<Longrightarrow> out \<noteq> JsDone"
  by auto

lemma ts_persist_restored:
  assumes "tj_state_opens tj" "ts_reads_back tj" "ts_distinct_names tj" "tj_exec tj cell st = (out, ctx)"
  shows "ts_restored tj (ts_persist tj ctx files) =
    (case js_json (JObject (ts_save ctx)) of Inr (Some w) \<Rightarrow> w | _ \<Rightarrow> ts_restored tj files)"
proof (cases "\<exists>w. js_json (JObject (ts_save ctx)) = Inr (Some w)")
  case True
  then obtain w where w: "js_json (JObject (ts_save ctx)) = Inr (Some w)" by blast
  have "js_wf (JObject (ts_save ctx))" using assms(3,4) unfolding ts_distinct_names_def by (metis snd_conv ts_save_wf)
  then have "js_plain w" using w js_output_plain by blast
  moreover have "js_json (JObject (ts_save (snd (tj_exec tj cell st)))) = Inr (Some w)" using w assms(4) by simp
  ultimately have "tj_parse tj (tj_print tj w) = Some w" using assms(2) unfolding ts_reads_back_def by blast
  then show ?thesis using w assms(1) by (simp add: ts_persist_def ts_restored_def)
next
  case False
  then show ?thesis by (auto simp: ts_persist_def split: sum.split option.split)
qed

lemma ts_effect_refines:
  assumes "tj_state_opens tj" "ts_reads_back tj" "ts_distinct_names tj"
  shows "ts_restored tj (ts_effect tj cell files) = abs_ts_cell tj cell (ts_restored tj files)"
proof (cases "js_is_object (ts_restored tj files)")
  case True
  obtain out ctx where x: "tj_exec tj cell (ts_restored tj files) = (out, ctx)" by fastforce
  show ?thesis
  proof (cases "ts_result out")
    case None
    then have "out \<noteq> JsDone" by (rule ts_result_dies)
    with None True x show ?thesis by (simp add: ts_effect_def abs_ts_cell_def)
  next
    case (Some r)
    with True x ts_result_ok [OF Some] ts_persist_restored [OF assms x, of files] show ?thesis
      by (simp add: ts_effect_def abs_ts_cell_def)
  qed
qed (simp add: ts_effect_def abs_ts_cell_def Let_def)


definition inf_bits :: u64 where "inf_bits = 0x7FF0000000000000"

definition demo_ts :: ts_shim where
  "demo_ts =
     \<lparr>tj_parse = (\<lambda>b. if b = [5] then Some (JNumber 5) else if b = [7] then Some (JObject [(''x'', JNumber 7)])
        else if b = [0] then Some (JObject [(''x'', JNull)]) else if b = [1] then Some (JObject []) else None),
      tj_print = (\<lambda>v. if v = JNumber 5 then [5] else if v = JObject [(''x'', JNumber 7)] then [7]
        else if v = JObject [] then [1] else [0]),
      tj_exec = (\<lambda>cell st.
        if cell = ''seven'' then (JsDone, [(''x'', JNumber 7), (''f'', JFunction (Inl ''e'')), (''big'', JBroken ''BigInt'')])
        else if cell = ''inf'' then (JsDone, [(''x'', JNumber inf_bits)])
        else if cell = ''five'' then (JsDone, [(''toJSON'', JFunction (Inr (JNumber 5)))])
        else (JsThrew (Some ''Error'') None, [])),
      tj_json = demo_result_json, tj_state_opens = True\<rparr>"

lemma demo_ts_facts: "js_finite 7" "js_finite 5" "7 \<noteq> NEG_ZERO" "5 \<noteq> NEG_ZERO" "\<not> js_finite inf_bits"
  by (simp_all add: js_finite_def NEG_ZERO_def inf_bits_def)

lemma demo_ts_written:
  "js_json (JObject (ts_save [(''x'', JNumber 7), (''f'', JFunction (Inl ''e'')), (''big'', JBroken ''BigInt'')])) =
     Inr (Some (JObject [(''x'', JNumber 7)]))"
  "js_json (JObject (ts_save [(''x'', JNumber inf_bits)])) = Inr (Some (JObject [(''x'', JNull)]))"
  "js_json (JObject (ts_save [(''toJSON'', JFunction (Inr (JNumber 5)))])) = Inr (Some (JNumber 5))"
  "js_json (JObject (ts_save [])) = Inr (Some (JObject []))"
  by (simp_all add: ts_save_def js_json_atoms js_json_object js_raw_object js_raw_atoms demo_ts_facts)

lemma demo_ts_ok: "ts_distinct_names demo_ts" "tj_state_opens demo_ts"
  by (simp_all add: ts_distinct_names_def demo_ts_def)



text \<open>
  One value that cannot be written never costs the others: unless a cell leaves a function called
  \<^verbatim>\<open>toJSON\<close>, the session afterwards holds exactly the names whose values have a JSON form, each with it.
\<close>

theorem good_cell_saves_every_json_name:
  assumes "js_is_object st" "tj_exec tj cell st = (JsDone, ctx)" "\<forall>r. map_of (ts_save ctx) ''toJSON'' \<noteq> Some (JFunction r)"
  shows "\<exists>kvs. abs_ts_cell tj cell st = JObject kvs \<and>
    (\<forall>k x. (k, x) \<in> set kvs \<longleftrightarrow> k \<noteq> ''__proto__'' \<and> (\<exists>v. (k, v) \<in> set ctx \<and> js_json v = Inr (Some x)))"
proof -
  let ?ms = "map (\<lambda>(k, v). (k, js_json v)) (ts_save ctx)"
  have "list_all (\<lambda>m. \<not> isl (snd m)) ?ms" by (auto simp: ts_save_def list_all_iff)
  then have "js_raw (JObject (ts_save ctx)) = Inr (Some (JObject (js_kept ?ms)))"
    by (simp add: js_raw_object js_members_total)
  then have "js_json (JObject (ts_save ctx)) = Inr (Some (JObject (js_kept ?ms)))"
    using assms(3) by (auto simp: js_json_object split: option.split js_value.split)
  then have "abs_ts_cell tj cell st = JObject (js_kept ?ms)" using assms(1,2) by (simp add: abs_ts_cell_def)
  moreover have "(k, x) \<in> set (js_kept ?ms) \<longleftrightarrow> k \<noteq> ''__proto__'' \<and> (\<exists>v. (k, v) \<in> set ctx \<and> js_json v = Inr (Some x))" for k x
    by (force simp: js_kept_values ts_save_def)
  ultimately show ?thesis by blast
qed

theorem good_cell_saves_every_json_name_witness:
  "abs_ts_cell demo_ts ''seven'' (JObject []) = JObject [(''x'', JNumber 7)] \<and>
   (\<exists>kvs. abs_ts_cell demo_ts ''seven'' (JObject []) = JObject kvs \<and> (''f'', JNull) \<notin> set kvs)"
proof -
  let ?ctx = "[(''x'', JNumber 7), (''f'', JFunction (Inl ''e'')), (''big'', JBroken ''BigInt'')]"
  have x: "tj_exec demo_ts ''seven'' (JObject []) = (JsDone, ?ctx)" by (simp add: demo_ts_def)
  have "\<forall>r. map_of (ts_save ?ctx) ''toJSON'' \<noteq> Some (JFunction r)" by (simp add: ts_save_def)
  from good_cell_saves_every_json_name [OF _ x this] have
    "\<exists>kvs. abs_ts_cell demo_ts ''seven'' (JObject []) = JObject kvs \<and> (''f'', JNull) \<notin> set kvs"
    by (auto simp: js_json_atoms)
  then show ?thesis by (simp add: abs_ts_cell_def x demo_ts_written)
qed

section \<open>The engine and the shim\<close>

text \<open>
  The engine and the TypeScript shim together implement the session: an answer "success" means that the
  cell ended well and the volume holds the session after it, an answer "non-zero exit" that the cell threw
  and the session is as it was.
\<close>

theorem answered_typescript_cell_is_session_step:
  assumes "ci_effect io = ts_effect tj code" "tj_state_opens tj" "ts_reads_back tj" "ts_distinct_names tj"
    and "\<forall>out r. ts_result out = Some r \<longrightarrow> ci_json io (tj_json tj r) = Inr r"
    and "run_cell io rid sid code fs w e = Returns (Some (CellResult r), e')" "cr_status r \<noteq> EngineError"
  shows "let before = ts_restored tj (vol_files (sn_vols e) (path_join SESSIONS_DIR sid));
             after = ts_restored tj (vol_files (sn_vols e') (path_join SESSIONS_DIR sid));
             ended = fst (tj_exec tj code before)
         in if cr_status r = Success then ended = JsDone \<and> after = abs_ts_cell tj code before
            else cr_status r = NonZeroExit \<and> (\<exists>stack text. ended = JsThrew stack text) \<and> after = before"
proof -
  define dir where "dir = path_join SESSIONS_DIR sid"
  define files where "files = vol_files (sn_vols e) dir"
  define files0 where "files0 = files(CELL_RESULT_FILE := None)"
  obtain cs e1 where "run_fresh_cell io rid sid cs dir files0 e1 = Returns (Some (CellResult r), e')"
    using assms(6,7) by (auto simp: run_cell_def cell_error_def cell_answer_def Let_def dir_def files_def files0_def
        split: option.splits if_splits)
  from run_fresh_cell_verdict [OF this assms(7)] obtain was_run where
    v: "fst (cell_verdict io (if was_run then ts_effect tj code files0 else files0)) = cr_status r"
      "sn_vols e' dir = Some ((if was_run then ts_effect tj code files0 else files0)(CELL_RESULT_FILE := None))"
    unfolding Let_def assms(1) by blast
  have was: "was_run"
    using v(1) assms(7) by (cases was_run) (auto simp: cell_verdict_def files0_def)
  have same: "ts_restored tj files0 = ts_restored tj files" by (simp add: files0_def)
  obtain out ctx where x: "tj_exec tj code (ts_restored tj files) = (out, ctx)" by fastforce
  have nores: "files0 CELL_RESULT_FILE = None" by (simp add: files0_def)
  have obj: "js_is_object (ts_restored tj files)"
  proof (rule ccontr)
    assume "\<not> js_is_object (ts_restored tj files)"
    then have "ts_effect tj code files0 = files0" by (simp add: ts_effect_def same)
    with v(1) was assms(7) nores show False by (simp add: cell_verdict_def)
  qed
  obtain q where q: "ts_result out = Some q"
  proof (cases "ts_result out")
    case None
    with obj x have "ts_effect tj code files0 = files0" by (simp add: ts_effect_def same)
    with v(1) was assms(7) nores show ?thesis by (simp add: cell_verdict_def)
  qed
  have "ts_effect tj code files0 CELL_RESULT_FILE = Some (tj_json tj q)"
    using obj x q by (simp add: ts_effect_def same)
  then have st: "cr_status r = fst (parse_shim_result (ci_json io) (tj_json tj q))"
    using v(1) was by (simp add: cell_verdict_def)
  have json: "ci_json io (tj_json tj q) = Inr q" using assms(5) q by blast
  have verdict: "cr_status r = (if out = JsDone then Success else NonZeroExit)" "out = JsDone \<or> (\<exists>a b. out = JsThrew a b)"
    using st json q by (cases out rule: ts_result.cases; auto simp: parse_shim_result_def)+
  have "ts_restored tj (vol_files (sn_vols e') dir) = ts_restored tj (ts_effect tj code files0)"
    using v(2) was by (simp add: vol_files_def)
  also have "\<dots> = abs_ts_cell tj code (ts_restored tj files)"
    using ts_effect_refines [OF assms(2-4), of code files0] same by simp
  finally have "ts_restored tj (vol_files (sn_vols e') dir) = abs_ts_cell tj code (ts_restored tj files)" .
  with verdict x obj show ?thesis
    by (auto simp: Let_def dir_def [symmetric] files_def [symmetric] abs_ts_cell_def)
qed

section \<open>What a cell can lose\<close>

text \<open>
  The state survives as JSON, not as a structured clone: what is not a finite number, a date or undefined
  comes back as something else, and nothing tells the caller.
\<close>

theorem state_is_json_not_clone:
  assumes "\<not> js_finite n"
  shows "js_json (JObject [(''n'', JNumber n), (''d'', JDate (Some ''2024-01-01T00:00:00.000Z'')), (''u'', JUndefined), (''xs'', JArray [JUndefined])]) =
    Inr (Some (JObject [(''n'', JNull), (''d'', JString ''2024-01-01T00:00:00.000Z''), (''xs'', JArray [JNull])]))"
  using assms by (simp add: js_json_object js_raw_object js_json_atoms js_json_array)

lemma map_of_filter_kept: "map_of kvs k = Some v \<Longrightarrow> P (k, v) \<Longrightarrow> map_of (filter P kvs) k = Some v"
  by (induction kvs) (auto split: if_splits)

text \<open>
  A cell that leaves a function called \<^verbatim>\<open>toJSON\<close> ends its session. \<^verbatim>\<open>JSON.stringify\<close> calls it in place of writing
  the names, so all of them are lost; and when it answers anything but an object, no later cell even
  starts: creating its context throws, there is no result, and nothing ever replaces the state.
\<close>

theorem to_json_function_ends_session:
  assumes "js_is_object (ts_restored tj files)" "tj_exec tj cell (ts_restored tj files) = (JsDone, ctx)"
    and "map_of ctx ''toJSON'' = Some (JFunction (Inr v))" "js_raw v = Inr (Some w)" "\<not> js_is_object w"
    and "tj_state_opens tj" "tj_parse tj (tj_print tj w) = Some w"
  defines "files1 \<equiv> (ts_effect tj cell files)(CELL_RESULT_FILE := None)"
  shows "fold (ts_effect tj) cells files1 = files1 \<and>
    cell_verdict io (fold (ts_effect tj) cells files1) = (EngineError, None, Some ''no cell result file'')"
proof -
  have "map_of (ts_save ctx) ''toJSON'' = Some (JFunction (Inr v))"
    unfolding ts_save_def by (rule map_of_filter_kept [OF assms(3)]) (simp add: js_json_atoms)
  then have "js_json (JObject (ts_save ctx)) = Inr (Some w)" using assms(4) by (simp add: js_json_object)
  then have "ts_effect tj cell files = files(STATE_JSON \<mapsto> tj_print tj w, CELL_RESULT_FILE \<mapsto>
      tj_json tj \<lparr>sr_status = ''ok'', sr_value_repr = None, sr_traceback = None\<rparr>)"
    using assms(1,2,6) by (simp add: ts_effect_def ts_persist_def)
  then have "ts_restored tj files1 = w"
    unfolding files1_def by (simp add: ts_restored_def json_names_distinct assms(7))
  then have "ts_effect tj c files1 = files1" for c using assms(5) by (simp add: ts_effect_def)
  then have "fold (ts_effect tj) cells files1 = files1" by (induction cells) simp_all
  then show ?thesis by (simp add: cell_verdict_def files1_def)
qed

theorem to_json_function_ends_session_witness:
  "cell_verdict io (fold (ts_effect demo_ts) [''seven'', ''inf''] ((ts_effect demo_ts ''five'' Map.empty)(CELL_RESULT_FILE := None))) =
    (EngineError, None, Some ''no cell result file'')"
proof -
  have st: "js_is_object (ts_restored demo_ts Map.empty)" by (simp add: ts_restored_def)
  have x: "tj_exec demo_ts ''five'' (ts_restored demo_ts Map.empty) = (JsDone, [(''toJSON'', JFunction (Inr (JNumber 5)))])"
    by (simp add: demo_ts_def)
  have raw: "js_raw (JNumber 5) = Inr (Some (JNumber 5))" by (simp add: js_raw_atoms demo_ts_facts)
  have rb: "tj_parse demo_ts (tj_print demo_ts (JNumber 5)) = Some (JNumber 5)" by (simp add: demo_ts_def)
  have m: "map_of [(''toJSON'', JFunction (Inr (JNumber 5)))] ''toJSON'' = Some (JFunction (Inr (JNumber 5)))" by simp
  have no: "\<not> js_is_object (JNumber 5)" by simp
  show ?thesis by (rule to_json_function_ends_session [OF st x m raw no demo_ts_ok(2) rb, THEN conjunct2])
qed

end
