(* ===== verification/Spec2Isabelle.thy ===== *)
theory Spec2Isabelle
  imports RB_Framing RB_EnvCache RB_Warm RB_DataChannel RB_Session RB_Zygote RB_Compiler RB_Lsp RB_Microvm RB_App
    RB_Netns RB_Diag RB_Serve RB_Procfs RB_Once RB_Reap RB_Streams RB_Typescript
begin

text \<open>
  Verification of the Rust core of rockbox, a code-execution sandbox.

  \<^bold>\<open>The program.\<close> An orchestrator (Elixir, not part of this development) starts one \<^verbatim>\<open>engine\<close> process per
  sandbox host slot and talks to it over two channels: length-prefixed MessagePack frames on the engine's
  standard streams (control) and a datagram socket for program output (data). The engine reads a
  command, dispatches it to a mode, and answers with one response. A request is first resolved to a child
  specification (policies, mounts, runtime, command line), then the launcher clones a child into a
  cgroup and new namespaces, the child confines itself layer by layer and executes the program, and a
  drain loop carries its output and its end back. The modes are: one-shot execution (directly, through a
  forking Python zygote, or in a microVM), sessions of cells, reinforcement-learning episodes with a
  long-lived worker, and a relay to language servers. A separate privileged helper compiles programs.
  All paths below are relative to \<^verbatim>\<open>src/core/crates\<close>.

  \<^bold>\<open>Theories and sources\<close>, bottom up:
  \<^item> \<^verbatim>\<open>RB_Prelude\<close>, \<^verbatim>\<open>RB_Maps\<close>, \<^verbatim>\<open>RB_Codes\<close>: words, bytes, UTF-8, decimal numbers, paths; \<^verbatim>\<open>BTreeMap\<close>;
    prefix codes (a locale whose client lemma makes cache keys injective);
  \<^item> \<^verbatim>\<open>RB_Settings\<close>: \<^verbatim>\<open>protocol/src\<close> (settings, commands, responses, \<^verbatim>\<open>validate\<close>);
  \<^item> \<^verbatim>\<open>RB_Framing\<close>: \<^verbatim>\<open>msgpack/src/lib.rs\<close> (\<^verbatim>\<open>FrameReader\<close>, \<^verbatim>\<open>FrameWriter\<close>);
  \<^item> \<^verbatim>\<open>RB_EnvCache\<close>, \<^verbatim>\<open>RB_Files\<close>, \<^verbatim>\<open>RB_Hex\<close>, \<^verbatim>\<open>RB_BinaryCache\<close>: \<^verbatim>\<open>cache/src\<close>, with the parts of \<^verbatim>\<open>std::fs\<close> the
    caches use (names, symbolic links, inodes);
  \<^item> \<^verbatim>\<open>RB_Spec\<close>, \<^verbatim>\<open>RB_Policy\<close>, \<^verbatim>\<open>RB_MountPlan\<close>, \<^verbatim>\<open>RB_Catalog\<close>, \<^verbatim>\<open>RB_CacheKey\<close>, \<^verbatim>\<open>RB_Resolver\<close>: \<^verbatim>\<open>kernel/src/spec.rs\<close>,
    \<^verbatim>\<open>engine/src/resolver\<close>, \<^verbatim>\<open>engine/src/runtime_catalog.rs\<close>;
  \<^item> \<^verbatim>\<open>RB_Syscalls\<close>, \<^verbatim>\<open>RB_Mounts\<close>, \<^verbatim>\<open>RB_Seccomp\<close>, \<^verbatim>\<open>RB_Cgroup\<close>, \<^verbatim>\<open>RB_Launch\<close>, \<^verbatim>\<open>RB_Drain\<close>: \<^verbatim>\<open>kernel/src/linux\<close>. A routine of the
    child is a list of system calls with the errors it tolerates; the kernel is a function from the calls made
    so far to an error number, and every theorem holds for all kernels;
  \<^item> \<^verbatim>\<open>RB_Netns\<close>, \<^verbatim>\<open>RB_Diag\<close>, \<^verbatim>\<open>RB_Streams\<close>, \<^verbatim>\<open>RB_Reap\<close>, \<^verbatim>\<open>RB_Procfs\<close>: what surrounds a launch in \<^verbatim>\<open>kernel/src/linux\<close>: the template
    of the network namespace and the namespace of each thread (\<^verbatim>\<open>netns.rs\<close>), what the fork child writes into fixed
    buffers (\<^verbatim>\<open>launcher.rs\<close>), its pipes, process descriptors and the waiting for children (\<^verbatim>\<open>clone3.rs\<close>,
    \<^verbatim>\<open>pidfd.rs\<close>, \<^verbatim>\<open>drain.rs\<close>, \<^verbatim>\<open>stub.rs\<close>), the state dump of a timeout and the parsing of cgroup files;
  \<^item> \<^verbatim>\<open>RB_Once\<close>: the once-cells of the engine as a locale, with the parent cgroup as its interpretation, and the sweep
    of warm volumes (\<^verbatim>\<open>cgroup.rs\<close>, \<^verbatim>\<open>rl.rs\<close>);
  \<^item> \<^verbatim>\<open>RB_Exec\<close>: \<^verbatim>\<open>engine/src/modes/exec.rs\<close>;
  \<^item> \<^verbatim>\<open>RB_Tick\<close>, \<^verbatim>\<open>RB_Pipe\<close>, \<^verbatim>\<open>RB_Shim\<close>, \<^verbatim>\<open>RB_Episodes\<close>, \<^verbatim>\<open>RB_Warm\<close>: \<^verbatim>\<open>engine/src/modes/rl.rs\<close>, both the engine's side and the
    Python worker it embeds;
  \<^item> \<^verbatim>\<open>RB_DataChannel\<close>, \<^verbatim>\<open>RB_Session\<close>, \<^verbatim>\<open>RB_Lsp\<close>, \<^verbatim>\<open>RB_Microvm\<close>: the source files of these names under
    \<^verbatim>\<open>engine/src\<close> and \<^verbatim>\<open>engine/src/modes\<close>; \<^verbatim>\<open>RB_Typescript\<close>: the TypeScript shim of sessions, with \<^verbatim>\<open>JSON.stringify\<close>;
  \<^item> \<^verbatim>\<open>RB_Fork\<close>, \<^verbatim>\<open>RB_Zygote\<close>, \<^verbatim>\<open>RB_Serve\<close>: the Python fork server embedded in \<^verbatim>\<open>engine/src/modes/zygote.rs\<close>, the engine's
    side of it, and the exchange between the two: frames, the search for the middle process, the loop of the
    server with its descriptor table;
  \<^item> \<^verbatim>\<open>RB_Compiler\<close>: \<^verbatim>\<open>compiler/src/main.rs\<close>;
  \<^item> \<^verbatim>\<open>RB_App\<close>: \<^verbatim>\<open>engine/src/app.rs\<close>, \<^verbatim>\<open>state.rs\<close>, \<^verbatim>\<open>modes/mod.rs\<close>: the state of the process as one record, of which every mode
    works on a part (a lens), the dispatch, and the loop over an arbitrary sequence of commands and background boots.

  \<^bold>\<open>How code becomes definitions.\<close> A struct is a record, an enum a datatype, an integer a word of its width. A
  handler is a function from the outside world of its call (an \<^verbatim>\<open>io\<close> record: clock values, results of system
  calls, bytes that arrive, in the order they are asked for) and the state to an outcome and the new
  state. Errors are the left of a sum, panics a constructor of their own, and a loop that may wait for ever
  yields no result when its events run out. Third-party code is an argument: hashes, hex and base 64,
  MessagePack and JSON, the BPF compiler, the Nix tools, Firecracker and its guest agent, the environment class of
  an episode. What the proofs need of it is a hypothesis or a locale with an interpretation.

  \<^bold>\<open>What the lemmas show\<close>, by group:
  \<^item> confinement: the program starts only after every layer succeeded, in order, on the launcher's path and in the
    zygote's fork; the mount calls realise the planned table; the filter refuses the dangerous calls; a fork writes files
    in its sandbox only; a microVM verdict comes from a VM of the request's own; no child is born in the engine's
    network namespace, over every sequence of launches and failures on every thread;
  \<^item> resources: cgroups are never shared, over all interleavings of takes and releases, come back after a request on
    every answered path and carry the limits of their request; every VM is torn down; caps and quotas are exact; the
    server of forks leaks no descriptor; the sweep of warm volumes spares those of living engines; the fork child
    never leaves its buffers;
  \<^item> answers: the engine answers every command in order, once and under its id; a one-shot request gets the verdict and
    the output prefix of its program; batches, single steps and the abstract episode agree; cells in separate
    sandboxes behave as one interpreter, in Python and in TypeScript; an LSP answer that arrives is returned;
  \<^item> codecs and caches: round trips of frames, ticks, LSP messages and published binaries; the environment cache refines a
    recency list; keys determine what they stand for;
  \<^item> types: the shared state of the engine stays well formed over every command sequence;
  \<^item> what does not hold: cache hits, warm workers and the zygote carry secrets from one request to the next, keys collide,
    some failures leak a cgroup or a VM, input and interrupts reach nobody, requests that are killed leave a zombie
    each, a first failure to prepare the parent cgroup is final, programs are refused output on a full
    non-blocking pipe, one TypeScript cell can end its session. These are theorems about the code as it is.

  \<^bold>\<open>Bounds.\<close> Event lists (poll turns, wake-ups, connection attempts) stand for what the kernel reports before a
  deadline; a theorem that a loop returns says how many events are enough: a frame is read after as many
  productive turns as it has bytes plus four, a write after as many as its bytes, and the drain loop returns at
  the first exit, timer or cap event. Recursion over byte strings is bounded by their length (\<^verbatim>\<open>function\<close> with a
  measure); symbolic links are followed forty times, as the kernel does. Lengths are natural numbers; casts to
  narrower integers are written out.

  \<^bold>\<open>Not modelled\<close>, and why: logging, tracing and timing; memory files (\<^verbatim>\<open>memfd.rs\<close>), single system calls whose content
  the models carry as bytes; the release of resources when the engine process ends; the compile helper's
  fall-back on other systems; a response that cannot be written because the orchestrator is gone. The unit
  tests of the sources are not code to verify.
\<close>

end
